(* ===== verification/Prelude.thy ===== *)
theory Prelude
  imports Complex_Main "HOL-Library.Sublist" "HOL-Library.Product_Lexorder" "HOL-Library.Multiset"
begin

text \<open>
  Shared vocabulary of the development: the types that name Python's values
  (\<open>ident\<close>, \<open>clock\<close>), the string operations of Python the routing code
  uses (\<open>lower\<close>, \<open>strip\<close>, \<open>split\<close>, \<open>partition\<close>,
  \<open>rpartition\<close>, \<open>startswith\<close>, \<open>in\<close>), Python truthiness of an
  optional string, a result monad over sums for code that raises, and the generic list lemmas
  the components share.

  Floats are modelled by exact rationals, Python integers by \<open>int\<close>. A string is a list of
  code points below 256 (Latin-1, the character set of HTTP header values); on these
  \<open>lower\<close> and the white-space test agree with Python's.
\<close>

section \<open>Types\<close>

type_synonym ident = string
type_synonym clock = rat

text \<open>Collections of rewrite rules: \<open>result_iff\<close> inverts a successful computation of the
  result monad, \<open>py_simps\<close> unfolds the string operations on literals.\<close>

named_theorems result_iff
named_theorems py_simps

section \<open>Strings\<close>

definition is_upper :: "char \<Rightarrow> bool" where
  "is_upper c \<longleftrightarrow>
     (let n = of_char c :: nat in (65 \<le> n \<and> n \<le> 90) \<or> (192 \<le> n \<and> n \<le> 222 \<and> n \<noteq> 215))"

definition char_lower :: "char \<Rightarrow> char" where
  "char_lower c =
     (if is_upper c
      then (case c of Char b0 b1 b2 b3 b4 b5 b6 b7 \<Rightarrow> Char b0 b1 b2 b3 b4 True b6 b7)
      else c)"

definition lower :: "string \<Rightarrow> string" where
  "lower s = map char_lower s"

definition is_space :: "char \<Rightarrow> bool" where
  "is_space c \<longleftrightarrow>
     (let n = of_char c :: nat in n = 32 \<or> (9 \<le> n \<and> n \<le> 13) \<or> (28 \<le> n \<and> n \<le> 31) \<or> n = 133 \<or> n = 160)"

definition lstrip :: "string \<Rightarrow> string" where
  "lstrip s = dropWhile is_space s"

definition strip :: "string \<Rightarrow> string" where
  "strip s = rev (dropWhile is_space (rev (dropWhile is_space s)))"

text \<open>\<open>p in s\<close> and \<open>s.startswith(p)\<close> of Python are \<open>sublist p s\<close> and
  \<open>prefix p s\<close> of the library.\<close>

definition any_in :: "string list \<Rightarrow> string \<Rightarrow> bool" where
  "any_in ps s \<longleftrightarrow> list_ex (\<lambda>p. sublist p s) ps"

definition any_prefix :: "string list \<Rightarrow> string \<Rightarrow> bool" where
  "any_prefix ps s \<longleftrightarrow> list_ex (\<lambda>p. prefix p s) ps"

fun split_on :: "char \<Rightarrow> string \<Rightarrow> string list" where
  "split_on c [] = [[]]"
| "split_on c (x # xs) =
     (if x = c then [] # split_on c xs
      else (case split_on c xs of [] \<Rightarrow> [[x]] | y # ys \<Rightarrow> (x # y) # ys))"

fun join_with :: "string \<Rightarrow> string list \<Rightarrow> string" where
  "join_with sep [] = []"
| "join_with sep [x] = x"
| "join_with sep (x # y # zs) = x @ sep @ join_with sep (y # zs)"

text \<open>\<open>s.partition(c)\<close> without the separator: what stands before and after the first
  \<open>c\<close>.\<close>

definition partition_at :: "char \<Rightarrow> string \<Rightarrow> string \<times> string" where
  "partition_at c s = (takeWhile (\<lambda>x. x \<noteq> c) s, drop 1 (dropWhile (\<lambda>x. x \<noteq> c) s))"

text \<open>\<open>s.rpartition(c)\<close> without the separator, for a string that contains \<open>c\<close>.\<close>

definition rpartition_at :: "char \<Rightarrow> string \<Rightarrow> string \<times> string" where
  "rpartition_at c s =
     (rev (drop 1 (dropWhile (\<lambda>x. x \<noteq> c) (rev s))), rev (takeWhile (\<lambda>x. x \<noteq> c) (rev s)))"

lemmas py_string_defs [py_simps] =
  is_upper_def char_lower_def lower_def is_space_def strip_def lstrip_def any_in_def any_prefix_def
  partition_at_def rpartition_at_def Let_def sublist_code

lemma char_lower_idem [simp]: "char_lower (char_lower c) = char_lower c"
proof -
  have "\<not> is_upper (char_lower c)"
    by (cases c) (auto simp: char_lower_def is_upper_def Let_def of_char_Char split: if_splits)
  then show ?thesis by (auto simp: char_lower_def [of "char_lower c"])
qed

lemma lower_idem [simp]: "lower (lower s) = lower s"
  by (simp add: lower_def comp_def)

lemma lower_Nil [simp]: "lower [] = []" "lower s = [] \<longleftrightarrow> s = []"
  by (simp_all add: lower_def)

lemma length_lower [simp]: "length (lower s) = length s"
  by (simp add: lower_def)

lemma lower_append [simp]: "lower (s @ t) = lower s @ lower t"
  by (simp add: lower_def)

lemma any_in_append [simp]: "any_in (ps @ qs) s \<longleftrightarrow> any_in ps s \<or> any_in qs s"
  by (simp add: any_in_def)

lemma any_inI: "p \<in> set ps \<Longrightarrow> sublist p s \<Longrightarrow> any_in ps s"
  by (auto simp: any_in_def list_ex_iff)

lemma any_in_mono: "any_in ps s \<Longrightarrow> sublist s t \<Longrightarrow> any_in ps t"
  by (auto simp: any_in_def list_ex_iff intro: sublist_order.order.trans)

lemma split_on_nonempty [simp]: "split_on c s \<noteq> []"
  by (induction s) (auto split: list.splits)

text \<open>Splitting at a character and joining with it is the identity.\<close>

lemma join_split: "join_with [c] (split_on c s) = s"
proof (induction s)
  case Nil
  then show ?case by simp
next
  case (Cons x xs)
  obtain y ys where sp: "split_on c xs = y # ys"
    by (cases "split_on c xs") auto
  with Cons show ?case by (cases ys) auto
qed

lemma split_on_no_sep: "c \<notin> set s \<Longrightarrow> split_on c s = [s]"
  by (induction s) auto

lemma split_on_append_sep:
  "c \<notin> set x \<Longrightarrow> split_on c (x @ c # s) = x # split_on c s"
  by (induction x) auto

lemma split_join:
  "ws \<noteq> [] \<Longrightarrow> \<forall>w \<in> set ws. c \<notin> set w \<Longrightarrow> split_on c (join_with [c] ws) = ws"
proof (induction ws rule: induct_list012)
  case 1
  then show ?case by simp
next
  case (2 x)
  then show ?case by (simp add: split_on_no_sep)
next
  case (3 x y zs)
  then show ?case by (simp add: split_on_append_sep)
qed

lemma split_on_sep_free: "w \<in> set (split_on c s) \<Longrightarrow> c \<notin> set w"
proof (induction s arbitrary: w)
  case Nil
  then show ?case by simp
next
  case (Cons x xs)
  then show ?case
    by (cases "split_on c xs") (auto split: if_splits)
qed

lemma takeWhile_until: "c \<notin> set h \<Longrightarrow> takeWhile (\<lambda>x. x \<noteq> c) (h @ c # t) = h"
  by (induction h) auto

lemma dropWhile_until: "c \<notin> set h \<Longrightarrow> dropWhile (\<lambda>x. x \<noteq> c) (h @ c # t) = c # t"
  by (induction h) auto

lemma partition_at_eq:
  "c \<notin> set h \<Longrightarrow> partition_at c (h @ c # t) = (h, t)"
  by (simp add: partition_at_def takeWhile_until dropWhile_until)

lemma rpartition_at_eq:
  "c \<notin> set t \<Longrightarrow> rpartition_at c (h @ c # t) = (h, t)"
  by (simp add: rpartition_at_def takeWhile_until dropWhile_until)

lemma strip_id: "s = [] \<or> (\<not> is_space (hd s) \<and> \<not> is_space (last s)) \<Longrightarrow> strip s = s"
proof -
  assume a: "s = [] \<or> (\<not> is_space (hd s) \<and> \<not> is_space (last s))"
  show ?thesis
  proof (cases "s = []")
    case True
    then show ?thesis by (simp add: strip_def)
  next
    case False
    with a have "dropWhile is_space s = s"
      by (cases s) auto
    moreover from a False have "dropWhile is_space (rev s) = rev s"
      by (cases "rev s") (auto simp: last_conv_nth hd_rev [symmetric])
    ultimately show ?thesis by (simp add: strip_def)
  qed
qed

section \<open>Optional strings and their truthiness\<close>

definition truthy :: "'a list option \<Rightarrow> bool" where
  "truthy x \<longleftrightarrow> (case x of None \<Rightarrow> False | Some s \<Rightarrow> s \<noteq> [])"

text \<open>Python's \<open>x or d\<close> for an optional string or list.\<close>

definition or_else :: "'a list option \<Rightarrow> 'a list \<Rightarrow> 'a list" where
  "or_else x d = (case x of None \<Rightarrow> d | Some s \<Rightarrow> if s = [] then d else s)"

text \<open>Python's \<open>x or y\<close> where both are optional.\<close>

definition or_opt :: "'a list option \<Rightarrow> 'a list option \<Rightarrow> 'a list option" where
  "or_opt x y = (if truthy x then x else y)"

lemma truthy_simps [simp]: "\<not> truthy None" "truthy (Some s) \<longleftrightarrow> s \<noteq> []"
  by (simp_all add: truthy_def)

lemma truthy_iff: "truthy x \<longleftrightarrow> (\<exists>s. x = Some s \<and> s \<noteq> [])"
  by (cases x) auto

lemma or_else_simps [simp]: "or_else None d = d" "or_else (Some []) d = d"
  "s \<noteq> [] \<Longrightarrow> or_else (Some s) d = s"
  by (simp_all add: or_else_def)

section \<open>Results of code that raises\<close>

text \<open>A computation that may raise is a sum: \<open>Inl\<close> the exception, \<open>Inr\<close> the value.\<close>

definition bind_result :: "'e + 'a \<Rightarrow> ('a \<Rightarrow> 'e + 'b) \<Rightarrow> 'e + 'b" where
  "bind_result m f = (case m of Inl e \<Rightarrow> Inl e | Inr x \<Rightarrow> f x)"

definition raise_if :: "bool \<Rightarrow> 'e \<Rightarrow> 'e + unit" where
  "raise_if b e = (if b then Inl e else Inr ())"

definition is_ok :: "'e + 'a \<Rightarrow> bool" where
  "is_ok r = (case r of Inl _ \<Rightarrow> False | Inr _ \<Rightarrow> True)"

lemma bind_result_simps [simp]:
  "bind_result (Inl e) f = Inl e" "bind_result (Inr x) f = f x"
  by (simp_all add: bind_result_def)

lemma is_ok_simps [simp]: "\<not> is_ok (Inl e)" "is_ok (Inr x)"
  by (simp_all add: is_ok_def)

lemma is_ok_iff: "is_ok r \<longleftrightarrow> (\<exists>x. r = Inr x)"
  by (cases r) simp_all

lemma bind_result_Inr [result_iff]:
  "bind_result m f = Inr y \<longleftrightarrow> (\<exists>x. m = Inr x \<and> f x = Inr y)"
  by (cases m) auto

lemma bind_result_Inl [result_iff]:
  "bind_result m f = Inl e \<longleftrightarrow> m = Inl e \<or> (\<exists>x. m = Inr x \<and> f x = Inl e)"
  by (cases m) auto

lemma raise_if_Inr [result_iff]: "raise_if b e = Inr u \<longleftrightarrow> \<not> b"
  by (simp add: raise_if_def)

lemma raise_if_Inl [result_iff]: "raise_if b e = Inl e' \<longleftrightarrow> b \<and> e' = e"
  by (auto simp: raise_if_def)

section \<open>Lists\<close>

text \<open>The stage "keep \<open>ys\<close> unless it is empty" of the routing code.\<close>

definition unless_empty :: "'a list \<Rightarrow> 'a list \<Rightarrow> 'a list" where
  "unless_empty ys xs = (if ys = [] then xs else ys)"

lemma unless_empty_subset: "set ys \<subseteq> set xs \<Longrightarrow> set (unless_empty ys xs) \<subseteq> set xs"
  by (simp add: unless_empty_def)

lemma unless_empty_nonempty: "xs \<noteq> [] \<Longrightarrow> unless_empty ys xs \<noteq> []"
  by (simp add: unless_empty_def)

lemma arg_min_list_mem: "xs \<noteq> [] \<Longrightarrow> arg_min_list f xs \<in> set xs"
  by (rule arg_min_list_in)

lemma arg_min_list_least: "x \<in> set xs \<Longrightarrow> f (arg_min_list f xs) \<le> f x"
  using f_arg_min_list_f [of xs f] by (cases xs) (auto intro: Min_le)

text \<open>A stable sort by a key puts a least element first.\<close>

lemma hd_sort_key_least:
  assumes "x \<in> set xs"
  shows "f (hd (sort_key f xs)) \<le> f x"
proof -
  have s: "sorted (map f (sort_key f xs))" by (rule sorted_sort_key)
  from assms have "x \<in> set (sort_key f xs)" by simp
  with s show ?thesis by (cases "sort_key f xs") auto
qed

lemma strip_no_space: "\<forall>c \<in> set s. \<not> is_space c \<Longrightarrow> strip s = s"
proof (rule strip_id)
  assume "\<forall>c \<in> set s. \<not> is_space c"
  then show "s = [] \<or> \<not> is_space (hd s) \<and> \<not> is_space (last s)"
    using hd_in_set [of s] last_in_set [of s] by blast
qed

lemma join_with_last:
  "cs \<noteq> [] \<Longrightarrow> join_with sep (butlast cs @ [last cs @ m]) = join_with sep cs @ m"
  by (induction cs rule: induct_list012) (auto simp: neq_Nil_conv)

lemma join_with_append:
  "xs \<noteq> [] \<Longrightarrow> ys \<noteq> [] \<Longrightarrow> join_with sep (xs @ ys) = join_with sep xs @ sep @ join_with sep ys"
proof (induction xs rule: induct_list012)
  case (2 x)
  then show ?case by (cases ys) auto
qed auto

lemma join_with_concat:
  "\<forall>x \<in> set xss. x \<noteq> [] \<Longrightarrow> join_with sep (map (join_with sep) xss) = join_with sep (concat xss)"
proof (induction xss rule: induct_list012)
  case (3 x y zs)
  then have "concat (y # zs) \<noteq> []" by auto
  with 3 show ?case by (simp add: join_with_append)
qed auto

lemma join_with_first: "join_with sep ((a @ x) # xs) = a @ join_with sep (x # xs)"
  by (cases xs) auto

definition map_result :: "('a \<Rightarrow> 'b) \<Rightarrow> 'e + 'a \<Rightarrow> 'e + 'b" where
  "map_result f r = bind_result r (\<lambda>x. Inr (f x))"

lemma map_result_simps [simp]: "map_result f (Inl e) = Inl e" "map_result f (Inr x) = Inr (f x)"
  by (simp_all add: map_result_def)

lemma map_result_Inr [result_iff]: "map_result f r = Inr y \<longleftrightarrow> (\<exists>x. r = Inr x \<and> f x = y)"
  by (cases r) auto

lemma map_result_Inl [result_iff]: "map_result f r = Inl e \<longleftrightarrow> r = Inl e"
  by (cases r) auto

text \<open>\<open>str(n)\<close> for an integer.\<close>

fun str_nat :: "nat \<Rightarrow> string" where
  "str_nat n = (if n < 10 then [char_of (48 + n)] else str_nat (n div 10) @ [char_of (48 + n mod 10)])"

declare str_nat.simps [simp del]

definition str_int :: "int \<Rightarrow> string" where
  "str_int n = (if n < 0 then CHR ''-'' # str_nat (nat (- n)) else str_nat (nat n))"

end
