(* ===== verification/Provider.thy ===== *)
theory Provider
  imports Prelude
begin

text \<open>
  The data every routing component shares: the runtime settings
  (\<^verbatim>\<open>app/config.py\<close>, the fields the modelled code reads, with their defaults), JSON
  values (the \<^verbatim>\<open>extra_config\<close> column) and the provider row
  (\<^verbatim>\<open>app/models/db_provider.py\<close>, the columns the modelled code reads or writes). The
  provider table is a list of rows; the operations on it stand for the queries of the code.
\<close>

section \<open>Settings\<close>

record settings =
  circuit_breaker_threshold :: int
  circuit_breaker_timeout_sec :: int
  circuit_breaker_success_needed :: int
  settings_hold_down_sec :: int
  cot_enabled :: bool
  native_thinking_budget_tokens :: int
  native_reasoning_effort :: string
  fallback_max_providers :: int
  hedge_max_per_sec :: rat
  external_rotation_capacity_pct :: rat
  external_rotation_hysteresis_pct :: rat
  external_rotation_util_bucket_pct :: rat
  cluster_node_id :: "string option"

definition default_settings :: settings where
  "default_settings =
     \<lparr>circuit_breaker_threshold = 3, circuit_breaker_timeout_sec = 60,
      circuit_breaker_success_needed = 2, settings_hold_down_sec = 120,
      cot_enabled = True, native_thinking_budget_tokens = 8192,
      native_reasoning_effort = ''medium'', fallback_max_providers = 3,
      hedge_max_per_sec = 5, external_rotation_capacity_pct = 95,
      external_rotation_hysteresis_pct = 5, external_rotation_util_bucket_pct = 25,
      cluster_node_id = None\<rparr>"

section \<open>JSON values\<close>

datatype json =
    JNull
  | JBool bool
  | JNum rat
  | JStr string
  | JList "json list"
  | JObj "(string \<times> json) list"

text \<open>Python truthiness of a decoded JSON value.\<close>

fun json_truthy :: "json \<Rightarrow> bool" where
  "json_truthy JNull = False"
| "json_truthy (JBool b) = b"
| "json_truthy (JNum n) = (n \<noteq> 0)"
| "json_truthy (JStr s) = (s \<noteq> [])"
| "json_truthy (JList xs) = (xs \<noteq> [])"
| "json_truthy (JObj kvs) = (kvs \<noteq> [])"

text \<open>\<open>d.get(k)\<close> on a decoded object; a missing key is \<open>None\<close>, like \<open>null\<close>.\<close>

definition json_get :: "(string \<times> json) list \<Rightarrow> string \<Rightarrow> json" where
  "json_get d k = (case map_of d k of None \<Rightarrow> JNull | Some v \<Rightarrow> v)"

section \<open>The provider row\<close>

record provider =
  pid :: ident
  pname :: string
  provider_type :: string
  api_key :: "string option"
  base_url :: "string option"
  default_model :: "string option"
  priority :: int
  enabled :: bool
  timeout_sec :: int
  exclude_from_tool_requests :: bool
  daily_budget_usd :: "rat option"
  extra_config :: "(string \<times> json) list"
  oauth_expires_at :: "clock option"
  deleted_at :: "clock option"
  owned_by_key_id :: "ident option"
  auto_skip_until :: "clock option"
  auto_skip_reason :: "string option"
  owner_company :: "string option"

definition new_provider :: "ident \<Rightarrow> string \<Rightarrow> string \<Rightarrow> string option \<Rightarrow> int \<Rightarrow> provider" where
  "new_provider i n ty model prio =
     \<lparr>pid = i, pname = n, provider_type = ty, api_key = None, base_url = None,
      default_model = model, priority = prio, enabled = True, timeout_sec = 30,
      exclude_from_tool_requests = False, daily_budget_usd = None, extra_config = [],
      oauth_expires_at = None, deleted_at = None, owned_by_key_id = None,
      auto_skip_until = None, auto_skip_reason = None, owner_company = None\<rparr>"

type_synonym provider_table = "provider list"

definition node_local_session :: "provider \<Rightarrow> bool" where
  "node_local_session p \<longleftrightarrow> json_truthy (json_get (extra_config p) ''node_local_session'')"

text \<open>The primary-key lookup and the in-place update of one row.\<close>

definition find_row :: "ident \<Rightarrow> provider_table \<Rightarrow> provider option" where
  "find_row i rows = find (\<lambda>r. pid r = i) rows"

definition update_row :: "ident \<Rightarrow> (provider \<Rightarrow> provider) \<Rightarrow> provider_table \<Rightarrow> provider_table" where
  "update_row i f rows = map (\<lambda>r. if pid r = i then f r else r) rows"

text \<open>Python's \<open>x or d\<close> for an optional integer: \<open>None\<close> and zero fall through.\<close>

definition or_int :: "int option \<Rightarrow> int \<Rightarrow> int" where
  "or_int x d = (case x of None \<Rightarrow> d | Some n \<Rightarrow> if n = 0 then d else n)"

lemma or_int_simps [simp]: "or_int None d = d" "or_int (Some 0) d = d"
  "n \<noteq> 0 \<Longrightarrow> or_int (Some n) d = n"
  by (simp_all add: or_int_def)

lemma find_row_pid: "find_row i rows = Some r \<Longrightarrow> pid r = i"
  by (auto simp: find_row_def find_Some_iff)

lemma find_row_mem: "find_row i rows = Some r \<Longrightarrow> r \<in> set rows"
  by (auto simp: find_row_def find_Some_iff)

lemma find_row_update_same:
  assumes "\<And>r. pid (f r) = pid r"
  shows "find_row i (update_row i f rows) = map_option f (find_row i rows)"
  using assms by (induction rows) (auto simp: find_row_def update_row_def)

lemma find_row_update_other:
  assumes "\<And>r. pid (f r) = pid r" and "i \<noteq> j"
  shows "find_row j (update_row i f rows) = find_row j rows"
  using assms by (induction rows) (auto simp: find_row_def update_row_def)

lemma map_pid_update_row:
  assumes "\<And>r. pid (f r) = pid r"
  shows "map pid (update_row i f rows) = map pid rows"
  using assms by (induction rows) (auto simp: update_row_def)

end
