(* ===== verification/Circuit_Breaker.thy ===== *)
theory Circuit_Breaker
  imports Provider
begin

text \<open>
  The circuit breaker with its hold-down timer (\<^verbatim>\<open>app/routing/circuit_breaker.py\<close>): the
  in-process state per provider, every operation on it, the tracking of persistent
  authentication failures and the escalation to the provider row.

  The module-level dictionaries are the fields of \<open>breaker\<close>; the clock reading of an
  operation is its argument \<open>now\<close>. Two effects that leave the module are recorded in the
  state: the value last exported to the Prometheus gauge per provider (\<open>gauge\<close>), and the
  probes handed to the event loop (\<open>probes\<close>). Each operation runs under one lock or without
  an await point, so a run is a sequence of operations.
\<close>

section \<open>State\<close>

datatype CBState = CLOSED | OPEN | HALF_OPEN

record local_state =
  cb_state :: CBState
  failures :: int
  successes :: int
  opened_at :: clock
  hold_down_until :: clock
  consecutive_opens :: int

definition fresh_local :: local_state where
  "fresh_local = \<lparr>cb_state = CLOSED, failures = 0, successes = 0, opened_at = 0,
     hold_down_until = 0, consecutive_opens = 0\<rparr>"

record cb_override =
  ov_hold_down_sec :: "int option"
  ov_failure_threshold :: "int option"

record auth_failure =
  since :: clock
  last_error :: string

record breaker =
  local_states :: "ident \<rightharpoonup> local_state"
  provider_overrides :: "ident \<rightharpoonup> cb_override"
  auth_failed :: "ident \<rightharpoonup> auth_failure"
  auth_failure_history :: "ident \<rightharpoonup> clock list"
  auth_failure_streak :: "ident \<rightharpoonup> int"
  gauge :: "ident \<rightharpoonup> CBState"
  probes :: "ident list"

definition init_breaker :: breaker where
  "init_breaker = \<lparr>local_states = Map.empty, provider_overrides = Map.empty,
     auth_failed = Map.empty, auth_failure_history = Map.empty,
     auth_failure_streak = Map.empty, gauge = Map.empty, probes = []\<rparr>"

section \<open>Operations\<close>

definition set_provider_config ::
  "ident \<Rightarrow> int option \<Rightarrow> int option \<Rightarrow> breaker \<Rightarrow> breaker" where
  "set_provider_config i hold thr b =
     b\<lparr>provider_overrides := (provider_overrides b)
        (i \<mapsto> \<lparr>ov_hold_down_sec = hold, ov_failure_threshold = thr\<rparr>)\<rparr>"

definition hold_down_sec :: "settings \<Rightarrow> breaker \<Rightarrow> ident \<Rightarrow> int" where
  "hold_down_sec cfg b i =
     or_int (Option.bind (provider_overrides b i) ov_hold_down_sec) (settings_hold_down_sec cfg)"

definition failure_threshold :: "settings \<Rightarrow> breaker \<Rightarrow> ident \<Rightarrow> int" where
  "failure_threshold cfg b i =
     or_int (Option.bind (provider_overrides b i) ov_failure_threshold)
       (circuit_breaker_threshold cfg)"

text \<open>\<open>_get_local\<close>: the entry of a provider, created on first use.\<close>

definition get_local :: "breaker \<Rightarrow> ident \<Rightarrow> local_state" where
  "get_local b i = (case local_states b i of None \<Rightarrow> fresh_local | Some s \<Rightarrow> s)"

definition set_local :: "ident \<Rightarrow> local_state \<Rightarrow> breaker \<Rightarrow> breaker" where
  "set_local i s b = b\<lparr>local_states := (local_states b)(i \<mapsto> s)\<rparr>"

definition export_gauge :: "ident \<Rightarrow> CBState \<Rightarrow> breaker \<Rightarrow> breaker" where
  "export_gauge i st b = b\<lparr>gauge := (gauge b)(i \<mapsto> st)\<rparr>"

definition schedule_auto_probe :: "ident \<Rightarrow> breaker \<Rightarrow> breaker" where
  "schedule_auto_probe i b = b\<lparr>probes := probes b @ [i]\<rparr>"

definition ready_at :: "settings \<Rightarrow> local_state \<Rightarrow> clock" where
  "ready_at cfg s =
     max (opened_at s + of_int (circuit_breaker_timeout_sec cfg)) (hold_down_until s)"

definition get_state :: "settings \<Rightarrow> clock \<Rightarrow> ident \<Rightarrow> breaker \<Rightarrow> CBState \<times> breaker" where
  "get_state cfg now i b =
     (let s = get_local b i; b = set_local i s b
      in if cb_state s = OPEN \<and> ready_at cfg s \<le> now
         then (HALF_OPEN,
               schedule_auto_probe i
                 (export_gauge i HALF_OPEN
                   (set_local i (s\<lparr>cb_state := HALF_OPEN, successes := 0\<rparr>) b)))
         else (cb_state s, b))"

definition is_available :: "settings \<Rightarrow> clock \<Rightarrow> ident \<Rightarrow> breaker \<Rightarrow> bool \<times> breaker" where
  "is_available cfg now i b =
     (let s = get_local b i; b = set_local i s b
      in if now < hold_down_until s then (False, b)
         else (let (st, b') = get_state cfg now i b in (st \<noteq> OPEN, b')))"

definition record_success :: "settings \<Rightarrow> ident \<Rightarrow> breaker \<Rightarrow> breaker" where
  "record_success cfg i b =
     (let s = get_local b i
      in case cb_state s of
           HALF_OPEN \<Rightarrow>
             (let s1 = s\<lparr>successes := successes s + 1\<rparr>
              in if circuit_breaker_success_needed cfg \<le> successes s1
                 then export_gauge i CLOSED
                        (set_local i (s1\<lparr>cb_state := CLOSED, failures := 0, successes := 0,
                           consecutive_opens := 0\<rparr>) b)
                 else set_local i s1 b)
         | CLOSED \<Rightarrow> set_local i (s\<lparr>failures := max 0 (failures s - 1)\<rparr>) b
         | OPEN \<Rightarrow> set_local i s b)"

text \<open>\<open>1 << min(consecutive_opens - 1, 5)\<close>, the backoff multiplier.\<close>

definition backoff_multiplier :: "int \<Rightarrow> int" where
  "backoff_multiplier n = 2 ^ nat (min (n - 1) 5)"

definition record_failure :: "settings \<Rightarrow> clock \<Rightarrow> ident \<Rightarrow> bool \<Rightarrow> breaker \<Rightarrow> breaker" where
  "record_failure cfg now i billing_error b =
     (let s = get_local b i; s = s\<lparr>failures := failures s + 1\<rparr>
      in if billing_error
         then export_gauge i OPEN
                (set_local i (s\<lparr>cb_state := OPEN, opened_at := now,
                   hold_down_until := now + 21600\<rparr>) b)
         else if failure_threshold cfg b i \<le> failures s
         then (if cb_state s = OPEN then set_local i s b
               else (let n = consecutive_opens s + 1
                     in export_gauge i OPEN
                          (set_local i (s\<lparr>consecutive_opens := n, cb_state := OPEN,
                             opened_at := now,
                             hold_down_until :=
                               now + of_int (hold_down_sec cfg b i * backoff_multiplier n)\<rparr>) b)))
         else set_local i s b)"

definition force_open :: "clock \<Rightarrow> ident \<Rightarrow> breaker \<Rightarrow> breaker" where
  "force_open now i b =
     export_gauge i OPEN (set_local i ((get_local b i)\<lparr>cb_state := OPEN, opened_at := now\<rparr>) b)"

definition force_close :: "ident \<Rightarrow> breaker \<Rightarrow> breaker" where
  "force_close i b =
     export_gauge i CLOSED
       (set_local i ((get_local b i)\<lparr>cb_state := CLOSED, failures := 0, successes := 0,
          hold_down_until := 0, consecutive_opens := 0\<rparr>) b)"

record cb_summary =
  sum_state :: CBState
  sum_failures :: int
  hold_down_remaining :: clock
  sum_consecutive_opens :: int

definition get_all_states :: "clock \<Rightarrow> breaker \<Rightarrow> ident \<rightharpoonup> cb_summary" where
  "get_all_states now b =
     (\<lambda>i. map_option (\<lambda>s. \<lparr>sum_state = cb_state s, sum_failures = failures s,
        hold_down_remaining = max 0 (hold_down_until s - now),
        sum_consecutive_opens = consecutive_opens s\<rparr>) (local_states b i))"

definition get_consecutive_opens :: "breaker \<Rightarrow> ident \<Rightarrow> int" where
  "get_consecutive_opens b i =
     (case local_states b i of None \<Rightarrow> 0 | Some s \<Rightarrow> consecutive_opens s)"

section \<open>Persistent authentication failures\<close>

definition PERSISTENT_AUTH_THRESHOLD :: nat where
  "PERSISTENT_AUTH_THRESHOLD = 3"

definition PERSISTENT_AUTH_WINDOW_SEC :: clock where
  "PERSISTENT_AUTH_WINDOW_SEC = 1800"

definition get_auth_failure :: "breaker \<Rightarrow> ident \<Rightarrow> auth_failure option" where
  "get_auth_failure b i = auth_failed b i"

definition clear_auth_failure :: "ident \<Rightarrow> breaker \<Rightarrow> breaker" where
  "clear_auth_failure i b =
     b\<lparr>auth_failed := (auth_failed b)(i := None),
       auth_failure_history := (auth_failure_history b)(i := None),
       auth_failure_streak := (auth_failure_streak b)(i := None)\<rparr>"

definition get_all_auth_failures :: "breaker \<Rightarrow> ident \<rightharpoonup> auth_failure" where
  "get_all_auth_failures b = auth_failed b"

text \<open>The write of \<open>_persist_auto_skip\<close> to the provider row.\<close>

definition persist_auto_skip :: "clock \<Rightarrow> ident \<Rightarrow> provider_table \<Rightarrow> provider_table" where
  "persist_auto_skip now i rows =
     (let new_until = now + 24 * 3600
      in case find_row i rows of
           None \<Rightarrow> rows
         | Some p \<Rightarrow>
             if node_local_session p then rows
             else if (case auto_skip_until p of None \<Rightarrow> False | Some u \<Rightarrow> new_until < u) then rows
             else update_row i (\<lambda>r. r\<lparr>auto_skip_until := Some new_until,
                    auto_skip_reason := Some ''persistent_auth_failure''\<rparr>) rows)"

definition recent_history :: "clock \<Rightarrow> clock list \<Rightarrow> clock list" where
  "recent_history now ts = filter (\<lambda>t. now - PERSISTENT_AUTH_WINDOW_SEC < t) (ts @ [now])"

definition record_auth_failure ::
  "clock \<Rightarrow> ident \<Rightarrow> string \<Rightarrow> breaker \<times> provider_table \<Rightarrow> breaker \<times> provider_table" where
  "record_auth_failure now i error_text st =
     (let (b, rows) = st;
          s = get_local b i;
          history = recent_history now
            (case auth_failure_history b i of None \<Rightarrow> [] | Some ts \<Rightarrow> ts);
          streak = (case auth_failure_streak b i of None \<Rightarrow> 0 | Some n \<Rightarrow> n) + 1;
          should_auto_skip = PERSISTENT_AUTH_THRESHOLD \<le> length history
            \<or> int PERSISTENT_AUTH_THRESHOLD \<le> streak;
          b' = set_local i (s\<lparr>cb_state := OPEN, opened_at := now,
                 hold_down_until := now + 86400\<rparr>) b;
          b' = b'\<lparr>auth_failed := (auth_failed b')
                    (i \<mapsto> \<lparr>since = now, last_error = take 300 error_text\<rparr>),
                  auth_failure_history := (auth_failure_history b')(i \<mapsto> history),
                  auth_failure_streak := (auth_failure_streak b')(i \<mapsto> streak)\<rparr>;
          b' = export_gauge i OPEN b'
      in (b', if should_auto_skip then persist_auto_skip now i rows else rows))"

section \<open>Frame facts\<close>

lemma get_local_set_local [simp]:
  "get_local (set_local i s b) j = (if i = j then s else get_local b j)"
  by (simp add: get_local_def set_local_def)

lemma get_local_export [simp]: "get_local (export_gauge i st b) j = get_local b j"
  by (simp add: get_local_def export_gauge_def)

lemma get_local_probe [simp]: "get_local (schedule_auto_probe i b) j = get_local b j"
  by (simp add: get_local_def schedule_auto_probe_def)

lemma get_local_clear_auth [simp]: "get_local (clear_auth_failure i b) j = get_local b j"
  by (simp add: get_local_def clear_auth_failure_def)

lemma get_local_config [simp]: "get_local (set_provider_config i h t b) j = get_local b j"
  by (simp add: get_local_def set_provider_config_def)

lemma local_states_set_local [simp]:
  "local_states (set_local i s b) = (local_states b)(i \<mapsto> s)"
  by (simp add: set_local_def)

lemma set_local_set_local [simp]: "set_local i s (set_local i s' b) = set_local i s b"
  by (simp add: set_local_def)

lemma config_frame [simp]:
  "provider_overrides (set_local i s b) = provider_overrides b"
  "provider_overrides (export_gauge i st b) = provider_overrides b"
  "provider_overrides (schedule_auto_probe i b) = provider_overrides b"
  by (simp_all add: set_local_def export_gauge_def schedule_auto_probe_def)

lemma gauge_frame [simp]:
  "gauge (set_local i s b) = gauge b"
  "gauge (export_gauge i st b) = (gauge b)(i \<mapsto> st)"
  "gauge (schedule_auto_probe i b) = gauge b"
  "gauge (clear_auth_failure i b) = gauge b"
  "gauge (set_provider_config i h t b) = gauge b"
  by (simp_all add: set_local_def export_gauge_def schedule_auto_probe_def
      clear_auth_failure_def set_provider_config_def)

lemma thresholds_frame [simp]:
  "hold_down_sec cfg (set_local i s b) j = hold_down_sec cfg b j"
  "hold_down_sec cfg (export_gauge i st b) j = hold_down_sec cfg b j"
  "hold_down_sec cfg (schedule_auto_probe i b) j = hold_down_sec cfg b j"
  "failure_threshold cfg (set_local i s b) j = failure_threshold cfg b j"
  "failure_threshold cfg (export_gauge i st b) j = failure_threshold cfg b j"
  "failure_threshold cfg (schedule_auto_probe i b) j = failure_threshold cfg b j"
  by (simp_all add: hold_down_sec_def failure_threshold_def)

lemmas breaker_ops =
  get_state_def is_available_def record_success_def record_failure_def force_open_def
  force_close_def clear_auth_failure_def set_provider_config_def record_auth_failure_def Let_def

lemmas state_writes = set_local_def export_gauge_def schedule_auto_probe_def

text \<open>What \<open>get_state\<close> leaves of the entry it reads.\<close>

lemma get_local_get_state:
  "get_local (snd (get_state cfg now i b)) j =
     (if i = j \<and> cb_state (get_local b i) = OPEN \<and> ready_at cfg (get_local b i) \<le> now
      then (get_local b i)\<lparr>cb_state := HALF_OPEN, successes := 0\<rparr> else get_local b j)"
  by (simp add: get_state_def Let_def)

lemma fst_get_state:
  "fst (get_state cfg now i b) =
     (if cb_state (get_local b i) = OPEN \<and> ready_at cfg (get_local b i) \<le> now
      then HALF_OPEN else cb_state (get_local b i))"
  by (simp add: get_state_def Let_def)

lemma get_state_touch: "get_state cfg now i (set_local i (get_local b i) b) = get_state cfg now i b"
  by (simp add: get_state_def Let_def)

lemma is_available_via_get_state:
  "is_available cfg now i b =
     (if now < hold_down_until (get_local b i) then (False, set_local i (get_local b i) b)
      else (fst (get_state cfg now i b) \<noteq> OPEN, snd (get_state cfg now i b)))"
  by (simp add: is_available_def Let_def get_state_touch split: prod.splits)

section \<open>Runs of the breaker\<close>

text \<open>One step is one call of an operation, at a clock reading not before the previous one.\<close>

type_synonym cb_world = "clock \<times> breaker \<times> provider_table"

inductive cb_step :: "settings \<Rightarrow> cb_world \<Rightarrow> cb_world \<Rightarrow> bool" for cfg where
  Get_State: "t \<le> t' \<Longrightarrow> cb_step cfg (t, b, rows) (t', snd (get_state cfg t' i b), rows)"
| Is_Available: "t \<le> t' \<Longrightarrow> cb_step cfg (t, b, rows) (t', snd (is_available cfg t' i b), rows)"
| Success: "t \<le> t' \<Longrightarrow> cb_step cfg (t, b, rows) (t', record_success cfg i b, rows)"
| Failure: "t \<le> t' \<Longrightarrow> cb_step cfg (t, b, rows) (t', record_failure cfg t' i billing b, rows)"
| Force_Open: "t \<le> t' \<Longrightarrow> cb_step cfg (t, b, rows) (t', force_open t' i b, rows)"
| Force_Close: "t \<le> t' \<Longrightarrow> cb_step cfg (t, b, rows) (t', force_close i b, rows)"
| Auth_Failure: "t \<le> t' \<Longrightarrow> cb_step cfg (t, b, rows) (t', record_auth_failure t' i err (b, rows))"
| Clear_Auth: "t \<le> t' \<Longrightarrow> cb_step cfg (t, b, rows) (t', clear_auth_failure i b, rows)"
| Set_Config: "t \<le> t' \<Longrightarrow> cb_step cfg (t, b, rows) (t', set_provider_config i h thr b, rows)"

inductive cb_reachable :: "settings \<Rightarrow> cb_world \<Rightarrow> bool" for cfg where
  Start: "0 \<le> t \<Longrightarrow> cb_reachable cfg (t, init_breaker, rows)"
| Step: "cb_reachable cfg w \<Longrightarrow> cb_step cfg w w' \<Longrightarrow> cb_reachable cfg w'"

inductive_cases cb_stepE: "cb_step cfg (t, b, rows) w'"

text \<open>The invariant of one entry at clock reading \<open>t\<close>.\<close>

definition local_ok :: "settings \<Rightarrow> clock \<Rightarrow> local_state \<Rightarrow> bool" where
  "local_ok cfg t s \<longleftrightarrow>
     0 \<le> failures s \<and> 0 \<le> successes s \<and> 0 \<le> consecutive_opens s \<and> opened_at s \<le> t \<and>
     (cb_state s \<noteq> OPEN \<longrightarrow> hold_down_until s \<le> t) \<and>
     (cb_state s = CLOSED \<longrightarrow> successes s = 0) \<and>
     (cb_state s = HALF_OPEN \<longrightarrow> successes s < max 1 (circuit_breaker_success_needed cfg))"

definition gauge_ok :: "breaker \<Rightarrow> bool" where
  "gauge_ok b \<longleftrightarrow> (\<forall>i. gauge b i = Some (cb_state (get_local b i)) \<or>
     (gauge b i = None \<and> cb_state (get_local b i) = CLOSED))"

definition auth_ok :: "breaker \<Rightarrow> bool" where
  "auth_ok b \<longleftrightarrow> (\<forall>i.
     (case auth_failure_history b i of None \<Rightarrow> 0 | Some ts \<Rightarrow> int (length ts)) \<le>
     (case auth_failure_streak b i of None \<Rightarrow> 0 | Some n \<Rightarrow> n))"

lemma local_ok_fresh [simp]: "0 \<le> t \<Longrightarrow> local_ok cfg t fresh_local"
  by (simp add: local_ok_def fresh_local_def)

lemma local_ok_mono: "local_ok cfg t s \<Longrightarrow> t \<le> t' \<Longrightarrow> local_ok cfg t' s"
  by (auto simp: local_ok_def)

lemma local_ok_half_open:
  "local_ok cfg t s \<Longrightarrow> ready_at cfg s \<le> t \<Longrightarrow>
   local_ok cfg t (s\<lparr>cb_state := HALF_OPEN, successes := 0\<rparr>)"
  by (auto simp: local_ok_def ready_at_def)

lemma gauge_ok_export [intro]:
  "gauge_ok b \<Longrightarrow> cb_state s = st \<Longrightarrow> gauge_ok (export_gauge i st (set_local i s b))"
  by (auto simp: gauge_ok_def)

lemma gauge_ok_same [intro]:
  "gauge_ok b \<Longrightarrow> cb_state s = cb_state (get_local b i) \<Longrightarrow> gauge_ok (set_local i s b)"
  by (auto simp: gauge_ok_def)

lemma gauge_ok_frame [simp]:
  "gauge_ok (schedule_auto_probe i b) \<longleftrightarrow> gauge_ok b"
  "gauge_ok (clear_auth_failure i b) \<longleftrightarrow> gauge_ok b"
  "gauge_ok (set_provider_config i h thr b) \<longleftrightarrow> gauge_ok b"
  by (simp_all add: gauge_ok_def)

lemma auth_ok_frame [simp]:
  "auth_ok (set_local i s b) \<longleftrightarrow> auth_ok b"
  "auth_ok (export_gauge i st b) \<longleftrightarrow> auth_ok b"
  "auth_ok (schedule_auto_probe i b) \<longleftrightarrow> auth_ok b"
  "auth_ok (set_provider_config i h thr b) \<longleftrightarrow> auth_ok b"
  by (simp_all add: auth_ok_def state_writes set_provider_config_def)

subsection \<open>Every operation keeps the invariant\<close>

definition world_ok :: "settings \<Rightarrow> cb_world \<Rightarrow> bool" where
  "world_ok cfg w \<longleftrightarrow>
     (case w of (t, b, rows) \<Rightarrow>
        0 \<le> t \<and> (\<forall>i. local_ok cfg t (get_local b i)) \<and> gauge_ok b \<and> auth_ok b)"

lemma world_okI:
  "0 \<le> t \<Longrightarrow> (\<And>j. local_ok cfg t (get_local b j)) \<Longrightarrow> gauge_ok b \<Longrightarrow> auth_ok b \<Longrightarrow>
   world_ok cfg (t, b, rows)"
  by (simp add: world_ok_def)

lemma world_ok_later: "world_ok cfg (t, b, rows) \<Longrightarrow> t \<le> t' \<Longrightarrow> world_ok cfg (t', b, rows)"
  by (auto simp: world_ok_def intro: local_ok_mono)

lemma world_okD:
  assumes "world_ok cfg (t, b, rows)"
  shows "0 \<le> t" "local_ok cfg t (get_local b i)" "gauge_ok b" "auth_ok b"
  using assms by (auto simp: world_ok_def)

lemma get_state_ok:
  assumes "world_ok cfg (t, b, rows)"
  shows "world_ok cfg (t, snd (get_state cfg t i b), rows)"
  using assms
  by (auto simp: world_ok_def get_local_get_state local_ok_half_open)
    (auto simp: get_state_def Let_def)

lemma is_available_ok:
  assumes "world_ok cfg (t, b, rows)"
  shows "world_ok cfg (t, snd (is_available cfg t i b), rows)"
  using assms get_state_ok [OF assms, of i]
  by (auto simp: is_available_via_get_state world_ok_def)

lemma record_success_ok:
  assumes "world_ok cfg (t, b, rows)"
  shows "world_ok cfg (t, record_success cfg i b, rows)"
proof (rule world_okI)
  fix j
  show "local_ok cfg t (get_local (record_success cfg i b) j)"
    using world_okD(2) [OF assms, of i] world_okD(2) [OF assms, of j]
    by (auto simp: record_success_def local_ok_def Let_def split: CBState.splits)
qed (use world_okD [OF assms] in \<open>auto simp: record_success_def Let_def split: CBState.splits\<close>)

lemma record_failure_ok:
  assumes "world_ok cfg (t, b, rows)"
  shows "world_ok cfg (t, record_failure cfg t i billing b, rows)"
proof (rule world_okI)
  fix j
  show "local_ok cfg t (get_local (record_failure cfg t i billing b) j)"
    using world_okD(2) [OF assms, of i] world_okD(2) [OF assms, of j]
    by (auto simp: record_failure_def local_ok_def Let_def)
qed (use world_okD [OF assms] in \<open>auto simp: record_failure_def Let_def\<close>)

lemma force_open_ok:
  assumes "world_ok cfg (t, b, rows)"
  shows "world_ok cfg (t, force_open t i b, rows)"
proof (rule world_okI)
  fix j
  show "local_ok cfg t (get_local (force_open t i b) j)"
    using world_okD(2) [OF assms, of i] world_okD(2) [OF assms, of j]
    by (auto simp: force_open_def local_ok_def)
qed (use world_okD [OF assms] in \<open>auto simp: force_open_def\<close>)

lemma force_close_ok:
  assumes "world_ok cfg (t, b, rows)"
  shows "world_ok cfg (t, force_close i b, rows)"
proof (rule world_okI)
  fix j
  show "local_ok cfg t (get_local (force_close i b) j)"
    using world_okD(1) [OF assms] world_okD(2) [OF assms, of i] world_okD(2) [OF assms, of j]
    by (auto simp: force_close_def local_ok_def)
qed (use world_okD [OF assms] in \<open>auto simp: force_close_def\<close>)

lemma clear_auth_failure_ok:
  assumes "world_ok cfg (t, b, rows)"
  shows "world_ok cfg (t, clear_auth_failure i b, rows)"
  using assms by (auto simp: world_ok_def) (auto simp: auth_ok_def clear_auth_failure_def)

lemma set_provider_config_ok:
  assumes "world_ok cfg (t, b, rows)"
  shows "world_ok cfg (t, set_provider_config i h thr b, rows)"
  using assms by (auto simp: world_ok_def)

lemma get_local_update_maps [simp]:
  "get_local (b\<lparr>auth_failed := x, auth_failure_history := y, auth_failure_streak := z\<rparr>) j =
     get_local b j"
  by (simp add: get_local_def)

lemma get_local_record_auth_failure:
  "get_local (fst (record_auth_failure now i err (b, rows))) j =
     (if i = j then (get_local b i)\<lparr>cb_state := OPEN, opened_at := now,
        hold_down_until := now + 86400\<rparr> else get_local b j)"
  by (simp add: record_auth_failure_def Let_def)

lemma length_recent_history: "length (recent_history now ts) \<le> Suc (length ts)"
  unfolding recent_history_def by (rule order_trans [OF length_filter_le]) simp

lemma record_auth_failure_auth_ok:
  assumes "auth_ok b"
  shows "auth_ok (fst (record_auth_failure now i err (b, rows)))"
  unfolding auth_ok_def
proof
  fix j
  show "(case auth_failure_history (fst (record_auth_failure now i err (b, rows))) j of
          None \<Rightarrow> 0 | Some ts \<Rightarrow> int (length ts))
        \<le> (case auth_failure_streak (fst (record_auth_failure now i err (b, rows))) j of
          None \<Rightarrow> 0 | Some n \<Rightarrow> n)"
    using assms [unfolded auth_ok_def, rule_format, of j]
      length_recent_history [of now "case auth_failure_history b i of None \<Rightarrow> [] | Some ts \<Rightarrow> ts"]
    by (auto simp: record_auth_failure_def Let_def state_writes split: option.splits)
qed

lemma record_auth_failure_gauge_ok:
  assumes "gauge_ok b"
  shows "gauge_ok (fst (record_auth_failure now i err (b, rows)))"
proof -
  have "gauge (fst (record_auth_failure now i err (b, rows))) = (gauge b)(i \<mapsto> OPEN)"
    by (simp add: record_auth_failure_def Let_def state_writes)
  with assms show ?thesis
    by (auto simp: gauge_ok_def get_local_record_auth_failure)
qed

lemma record_auth_failure_ok:
  assumes "world_ok cfg (t, b, rows)"
  shows "world_ok cfg (t, record_auth_failure t i err (b, rows))"
proof -
  obtain b' rows' where eq: "record_auth_failure t i err (b, rows) = (b', rows')"
    by (cases "record_auth_failure t i err (b, rows)")
  then have b': "b' = fst (record_auth_failure t i err (b, rows))" by simp
  have "world_ok cfg (t, b', rows')"
  proof (rule world_okI)
    fix j
    show "local_ok cfg t (get_local b' j)"
      using world_okD(2) [OF assms, of i] world_okD(2) [OF assms, of j]
      by (auto simp: b' get_local_record_auth_failure local_ok_def)
  qed (use world_okD [OF assms] in
      \<open>auto simp: b' record_auth_failure_auth_ok record_auth_failure_gauge_ok\<close>)
  with eq show ?thesis by simp
qed

lemmas cb_operations_ok =
  get_state_ok is_available_ok record_success_ok record_failure_ok force_open_ok force_close_ok
  record_auth_failure_ok clear_auth_failure_ok set_provider_config_ok

lemma cb_step_ok: "cb_step cfg w w' \<Longrightarrow> world_ok cfg w \<Longrightarrow> world_ok cfg w'"
  by (induction rule: cb_step.induct) (blast intro: cb_operations_ok world_ok_later)+

lemma init_world_ok: "0 \<le> t \<Longrightarrow> world_ok cfg (t, init_breaker, rows)"
  by (auto simp: world_ok_def init_breaker_def get_local_def gauge_ok_def auth_ok_def
      fresh_local_def local_ok_def)

lemma cb_reachable_ok: "cb_reachable cfg w \<Longrightarrow> world_ok cfg w"
  by (induction rule: cb_reachable.induct) (auto intro: init_world_ok cb_step_ok)

section \<open>Properties\<close>

text \<open>The three dictionaries of authentication failures hold the same providers; the history of each
  ends with the failure that set the flag, holds only past failures and is no longer than the streak.\<close>

definition auth_agree :: "clock \<Rightarrow> breaker \<Rightarrow> ident \<Rightarrow> bool" where
  "auth_agree t b i \<longleftrightarrow>
     (case (auth_failed b i, auth_failure_history b i, auth_failure_streak b i) of
        (None, None, None) \<Rightarrow> True
      | (Some f, Some ts, Some n) \<Rightarrow>
          ts \<noteq> [] \<and> last ts = since f \<and> (\<forall>u \<in> set ts. u \<le> t) \<and> int (length ts) \<le> n \<and> length (last_error f) \<le> 300
      | _ \<Rightarrow> False)"

lemma auth_agree_frame [simp]:
  "auth_agree t (set_local i s b) j = auth_agree t b j"
  "auth_agree t (export_gauge i st b) j = auth_agree t b j"
  "auth_agree t (schedule_auto_probe i b) j = auth_agree t b j"
  "auth_agree t (set_provider_config i h thr b) j = auth_agree t b j"
  by (simp_all add: auth_agree_def state_writes set_provider_config_def)

lemma auth_agree_later: "auth_agree t b i \<Longrightarrow> t \<le> t' \<Longrightarrow> auth_agree t' b i"
  by (force simp: auth_agree_def split: option.splits)

lemma last_recent_history: "recent_history now ts \<noteq> [] \<and> last (recent_history now ts) = now"
  by (simp add: recent_history_def PERSISTENT_AUTH_WINDOW_SEC_def)

lemma record_auth_failure_agree:
  assumes "auth_agree t b j"
  shows "auth_agree t (fst (record_auth_failure t i err (b, rows))) j"
proof (cases "i = j")
  case True
  let ?ts = "case auth_failure_history b i of None \<Rightarrow> [] | Some ts \<Rightarrow> ts"
  have "\<forall>u \<in> set (recent_history t ?ts). u \<le> t"
    using assms True by (auto simp: auth_agree_def recent_history_def split: option.splits)
  then show ?thesis
    using assms True last_recent_history [of t ?ts] length_recent_history [of t ?ts]
    by (auto simp: auth_agree_def record_auth_failure_def Let_def state_writes split: option.splits)
qed (use assms in \<open>simp add: auth_agree_def record_auth_failure_def Let_def state_writes\<close>)

lemma auth_agree_ops:
  "auth_agree t (snd (get_state cfg now i b)) j = auth_agree t b j"
  "auth_agree t (snd (is_available cfg now i b)) j = auth_agree t b j"
  "auth_agree t (record_success cfg i b) j = auth_agree t b j"
  "auth_agree t (record_failure cfg now i billing b) j = auth_agree t b j"
  "auth_agree t (force_open now i b) j = auth_agree t b j"
  "auth_agree t (force_close i b) j = auth_agree t b j"
  by (simp_all add: breaker_ops split: CBState.split)

lemma auth_agree_clear: "auth_agree t b j \<Longrightarrow> auth_agree t (clear_auth_failure i b) j"
  by (auto simp: auth_agree_def clear_auth_failure_def)

lemma cb_step_agree:
  "cb_step cfg w w' \<Longrightarrow> auth_agree (fst w) (fst (snd w)) j \<Longrightarrow> auth_agree (fst w') (fst (snd w')) j"
  by (induction rule: cb_step.induct)
    (auto simp: auth_agree_ops intro: auth_agree_later auth_agree_clear record_auth_failure_agree)

lemma cb_reachable_agree: "cb_reachable cfg w \<Longrightarrow> auth_agree (fst w) (fst (snd w)) j"
proof (induction rule: cb_reachable.induct)
  case (Step w w')
  then show ?case by (blast intro: cb_step_agree)
qed (simp add: init_breaker_def auth_agree_def)

lemma availability:
  assumes "local_ok cfg t (get_local b i)" and "t \<le> now"
  shows "fst (is_available cfg now i b) \<longleftrightarrow>
    (cb_state (get_local b i) = OPEN \<longrightarrow> ready_at cfg (get_local b i) \<le> now)"
  using assms by (auto simp: is_available_via_get_state fst_get_state local_ok_def ready_at_def)


text \<open>A run that opens the breaker of one provider by a billing error.\<close>

lemma billing_run:
  "cb_reachable default_settings
     (10, record_failure default_settings 10 ''p'' True init_breaker, [])"
proof -
  have "cb_reachable default_settings (0, init_breaker, [])"
    by (rule cb_reachable.Start) simp
  moreover have "cb_step default_settings (0, init_breaker, [])
      (10, record_failure default_settings 10 ''p'' True init_breaker, [])"
    by (rule cb_step.Failure) simp
  ultimately show ?thesis by (rule cb_reachable.Step)
qed


text \<open>In every reachable state the breaker turns a provider away exactly while it is OPEN
  and the later of the open timeout and the hold-down has not passed: the hold-down check of
  \<open>is_available\<close> never turns away a CLOSED or HALF_OPEN provider.\<close>

theorem reachable_availability:
  assumes "cb_reachable cfg (t, b, rows)" and "t \<le> now"
  shows "fst (is_available cfg now i b) \<longleftrightarrow>
    (cb_state (get_local b i) = OPEN \<longrightarrow> ready_at cfg (get_local b i) \<le> now)"
  using cb_reachable_ok [OF assms(1)] assms(2) by (intro availability [of _ t]) (simp_all add: world_ok_def)

theorem reachable_availability_witness:
  "\<not> fst (is_available default_settings 21000 ''p''
      (record_failure default_settings 10 ''p'' True init_breaker)) \<and>
   fst (is_available default_settings 21610 ''p''
      (record_failure default_settings 10 ''p'' True init_breaker))"
  using reachable_availability [OF billing_run, of 21000 "''p''"]
    reachable_availability [OF billing_run, of 21610 "''p''"]
  by (simp add: record_failure_def Let_def ready_at_def default_settings_def
      init_breaker_def get_local_def fresh_local_def state_writes)

text \<open>The exact condition of the availability gate in any state, reachable or not.\<close>

theorem is_available_iff:
  "fst (is_available cfg now i b) \<longleftrightarrow>
     hold_down_until (get_local b i) \<le> now \<and>
     (cb_state (get_local b i) = OPEN \<longrightarrow>
        opened_at (get_local b i) + of_int (circuit_breaker_timeout_sec cfg) \<le> now)"
  by (auto simp: is_available_via_get_state fst_get_state ready_at_def)

subsection \<open>Backoff\<close>

text \<open>A dead provider: whenever the wait is over it is let through once and fails again.\<close>

fun reopen_cycles :: "settings \<Rightarrow> ident \<Rightarrow> nat \<Rightarrow> breaker \<Rightarrow> breaker" where
  "reopen_cycles cfg i 0 b = b"
| "reopen_cycles cfg i (Suc n) b =
     (let b' = reopen_cycles cfg i n b; t = ready_at cfg (get_local b' i)
      in record_failure cfg t i False (snd (get_state cfg t i b')))"

lemma reopen_once:
  assumes "cb_state (get_local b i) = OPEN"
    and "failure_threshold cfg b i \<le> failures (get_local b i) + 1"
    and "t = ready_at cfg (get_local b i)"
  shows "get_local (record_failure cfg t i False (snd (get_state cfg t i b))) i =
    (get_local b i)\<lparr>cb_state := OPEN, successes := 0, failures := failures (get_local b i) + 1,
       consecutive_opens := consecutive_opens (get_local b i) + 1, opened_at := t,
       hold_down_until := t + of_int (hold_down_sec cfg b i *
         backoff_multiplier (consecutive_opens (get_local b i) + 1))\<rparr>"
  using assms by (simp add: get_state_def record_failure_def Let_def)

lemma reopen_frame [simp]:
  "hold_down_sec cfg (reopen_cycles cfg i n b) j = hold_down_sec cfg b j"
  "failure_threshold cfg (reopen_cycles cfg i n b) j = failure_threshold cfg b j"
  by (induction n) (auto simp: Let_def record_failure_def get_state_def)

lemma backoff_multiplier_le: "backoff_multiplier n \<le> 32"
  using power_increasing [of "nat (min (n - 1) 5)" 5 "2 :: int"]
  by (simp add: backoff_multiplier_def)

lemma reopen_cycles_entry:
  assumes "cb_state (get_local b i) = OPEN"
    and "failure_threshold cfg b i \<le> failures (get_local b i) + 1"
  shows "cb_state (get_local (reopen_cycles cfg i n b) i) = OPEN \<and>
    failures (get_local (reopen_cycles cfg i n b) i) = failures (get_local b i) + int n \<and>
    consecutive_opens (get_local (reopen_cycles cfg i n b) i) =
      consecutive_opens (get_local b i) + int n"
proof (induction n)
  case 0
  with assms show ?case by simp
next
  case (Suc n)
  let ?b = "reopen_cycles cfg i n b"
  from Suc assms have "cb_state (get_local ?b i) = OPEN"
    and "failure_threshold cfg ?b i \<le> failures (get_local ?b i) + 1" by auto
  from reopen_once [OF this refl] Suc show ?case by (simp add: Let_def)
qed

text \<open>Exponential backoff of a dead provider: after \<open>n\<close> more failed probe cycles of an open
  breaker the hold-down is the base times \<open>2 ^ min (c + n - 1) 5\<close>, where \<open>c\<close> counts the earlier
  cycles, so it doubles with each cycle and stays within 32 times the base.\<close>

theorem backoff_schedule:
  assumes "cb_state (get_local b i) = OPEN"
    and "failure_threshold cfg b i \<le> failures (get_local b i) + 1"
    and "0 < n" and "0 \<le> consecutive_opens (get_local b i)" and "0 \<le> hold_down_sec cfg b i"
  defines "s \<equiv> get_local (reopen_cycles cfg i n b) i"
  shows "hold_down_until s - opened_at s =
      of_int (hold_down_sec cfg b i * 2 ^ nat (min (consecutive_opens (get_local b i) + int n - 1) 5)) \<and>
    hold_down_until s - opened_at s \<le> of_int (32 * hold_down_sec cfg b i)"
proof -
  obtain m where n: "n = Suc m" using assms(3) by (cases n) auto
  let ?b = "reopen_cycles cfg i m b" and ?c = "consecutive_opens (get_local b i)"
  have e: "cb_state (get_local ?b i) = OPEN"
    "failure_threshold cfg ?b i \<le> failures (get_local ?b i) + 1"
    "consecutive_opens (get_local ?b i) = ?c + int m"
    using reopen_cycles_entry [OF assms(1,2), of m] assms(2) by auto
  have h: "hold_down_until s - opened_at s =
      of_int (hold_down_sec cfg b i * backoff_multiplier (?c + int n))"
    unfolding s_def n using reopen_once [OF e(1,2) refl] e(3) by (simp add: Let_def ac_simps)
  have "hold_down_sec cfg b i * backoff_multiplier (?c + int n) \<le> hold_down_sec cfg b i * 32"
    using backoff_multiplier_le assms(5) by (rule mult_left_mono)
  then have "hold_down_until s - opened_at s \<le> of_int (32 * hold_down_sec cfg b i)"
    unfolding h of_int_le_iff by simp
  with h show ?thesis by (simp add: backoff_multiplier_def)
qed

text \<open>A breaker opened by three failures, for the witnesses below.\<close>

definition tripped :: breaker where
  "tripped = (record_failure default_settings 0 ''p'' False ^^ 3) init_breaker"

lemma tripped_entry:
  "get_local tripped ''p'' = \<lparr>cb_state = OPEN, failures = 3, successes = 0, opened_at = 0,
     hold_down_until = 120, consecutive_opens = 1\<rparr>"
  "failure_threshold default_settings tripped ''p'' = 3"
  "hold_down_sec default_settings tripped ''p'' = 120"
  by (simp_all add: tripped_def numeral_3_eq_3 record_failure_def Let_def default_settings_def
      init_breaker_def get_local_def fresh_local_def state_writes failure_threshold_def
      hold_down_sec_def backoff_multiplier_def)

theorem backoff_schedule_witness:
  "hold_down_until (get_local (reopen_cycles default_settings ''p'' 2 tripped) ''p'') -
   opened_at (get_local (reopen_cycles default_settings ''p'' 2 tripped) ''p'') = 480"
  using backoff_schedule [of tripped "''p''" default_settings 2] by (simp add: tripped_entry)

subsection \<open>Recovery\<close>

lemma record_success_half_open:
  "cb_state (get_local b i) = HALF_OPEN \<Longrightarrow>
   get_local (record_success cfg i b) i =
     (if circuit_breaker_success_needed cfg \<le> successes (get_local b i) + 1
      then (get_local b i)\<lparr>cb_state := CLOSED, failures := 0, successes := 0, consecutive_opens := 0\<rparr>
      else (get_local b i)\<lparr>successes := successes (get_local b i) + 1\<rparr>)"
  by (simp add: record_success_def Let_def)

lemma successes_while_half_open:
  assumes "cb_state (get_local b i) = HALF_OPEN" and "successes (get_local b i) = 0"
    and "int m < circuit_breaker_success_needed cfg"
  shows "get_local ((record_success cfg i ^^ m) b) i = (get_local b i)\<lparr>successes := int m\<rparr>"
  using assms(3)
proof (induction m)
  case 0
  show ?case using assms(1,2) by simp
next
  case (Suc m)
  then have "get_local ((record_success cfg i ^^ m) b) i = (get_local b i)\<lparr>successes := int m\<rparr>"
    by simp
  with assms Suc.prems show ?case by (simp add: record_success_half_open)
qed

text \<open>Recovery: once the wait of an open breaker is over, asking for its state makes it
  HALF_OPEN and schedules one probe; the needed number of successes then closes it with all
  counters and the backoff reset, and no smaller number does.\<close>

theorem recovery_closes:
  assumes "cb_state (get_local b i) = OPEN" and "ready_at cfg (get_local b i) \<le> now"
    and "circuit_breaker_success_needed cfg = int (Suc k)"
  defines "h \<equiv> snd (get_state cfg now i b)"
  shows "probes h = probes b @ [i] \<and>
    (\<forall>m\<le>k. cb_state (get_local ((record_success cfg i ^^ m) h) i) = HALF_OPEN) \<and>
    get_local ((record_success cfg i ^^ Suc k) h) i =
      (get_local b i)\<lparr>cb_state := CLOSED, failures := 0, successes := 0, consecutive_opens := 0\<rparr>"
proof (intro conjI)
  have h: "get_local h i = (get_local b i)\<lparr>cb_state := HALF_OPEN, successes := 0\<rparr>"
    using assms(1,2) by (simp add: h_def get_local_get_state)
  note half = successes_while_half_open [of h i, unfolded h, simplified]
  show "probes h = probes b @ [i]"
    using assms(1,2) by (simp add: h_def get_state_def Let_def state_writes)
  show "\<forall>m\<le>k. cb_state (get_local ((record_success cfg i ^^ m) h) i) = HALF_OPEN"
    using half assms(3) by simp
  have "get_local ((record_success cfg i ^^ k) h) i =
      (get_local b i)\<lparr>cb_state := HALF_OPEN, successes := int k\<rparr>"
    using half [of k] assms(3) by simp
  then show "get_local ((record_success cfg i ^^ Suc k) h) i =
      (get_local b i)\<lparr>cb_state := CLOSED, failures := 0, successes := 0, consecutive_opens := 0\<rparr>"
    using assms(3) by (simp add: record_success_half_open)
qed

theorem recovery_closes_witness:
  "cb_state (get_local ((record_success default_settings ''p'' ^^ Suc 1)
     (snd (get_state default_settings 120 ''p'' tripped))) ''p'') = CLOSED"
  using recovery_closes [of tripped "''p''" default_settings 120 1]
  by (simp add: tripped_entry ready_at_def default_settings_def)

text \<open>What a failure does to a half-open breaker: it opens again exactly when the failure is
  a billing error or the failure count, which the half-open transition does not reset, reaches the
  threshold. A breaker that was opened by an administrator, by a billing error or by an
  authentication failure with fewer counted failures stays HALF_OPEN, hence available.\<close>

theorem half_open_failure:
  assumes "cb_state (get_local b i) = HALF_OPEN"
  shows "cb_state (get_local (record_failure cfg now i billing b) i) =
    (if billing \<or> failure_threshold cfg b i \<le> failures (get_local b i) + 1
     then OPEN else HALF_OPEN)"
  using assms by (simp add: record_failure_def Let_def)

theorem half_open_failure_witness:
  "cb_state (get_local (record_failure default_settings 70 ''p'' False
     (snd (get_state default_settings 60 ''p'' (force_open 0 ''p'' init_breaker)))) ''p'') = HALF_OPEN"
  using half_open_failure
    [of "snd (get_state default_settings 60 ''p'' (force_open 0 ''p'' init_breaker))" "''p''"
      default_settings 70 False]
  by (simp add: get_local_get_state force_open_def ready_at_def get_state_def Let_def
      failure_threshold_def init_breaker_def get_local_def fresh_local_def state_writes
      default_settings_def)

subsection \<open>Isolation and operator overrides\<close>

text \<open>Operations on one provider leave the entry of every other provider alone.\<close>

theorem breaker_isolation:
  assumes "i \<noteq> j"
  shows "get_local (snd (is_available cfg now i b)) j = get_local b j \<and>
    get_local (record_success cfg i b) j = get_local b j \<and>
    get_local (record_failure cfg now i billing b) j = get_local b j \<and>
    get_local (force_open now i b) j = get_local b j \<and>
    get_local (force_close i b) j = get_local b j \<and>
    get_local (fst (record_auth_failure now i err (b, rows))) j = get_local b j"
  using assms
  by (simp add: is_available_via_get_state get_local_get_state record_success_def
      record_failure_def force_open_def force_close_def get_local_record_auth_failure Let_def
      split: CBState.split)

theorem breaker_isolation_witness:
  "get_local (record_failure default_settings 5 ''q'' True tripped) ''p'' =
   get_local tripped ''p''"
  using breaker_isolation [of "''q''" "''p''" default_settings 5 tripped True "[]" "[]"] by simp

text \<open>An operator's reset makes the provider available at once, whatever its history, but
  keeps the authentication-failure flag, which only clearing it removes.\<close>

theorem force_close_resets:
  assumes "0 \<le> now"
  shows "fst (is_available cfg now i (force_close i b)) \<and>
    get_auth_failure (force_close i b) i = get_auth_failure b i \<and>
    get_auth_failure (clear_auth_failure i b) i = None"
  using assms
  by (simp add: is_available_via_get_state fst_get_state force_close_def get_auth_failure_def
      clear_auth_failure_def state_writes get_local_def)

theorem force_close_resets_witness:
  "fst (is_available default_settings 1 ''p'' (force_close ''p'' tripped))"
  using force_close_resets [of 1 default_settings "''p''" tripped] by simp

subsection \<open>Escalation of authentication failures\<close>

definition streak_of :: "breaker \<Rightarrow> ident \<Rightarrow> int" where
  "streak_of b i = (case auth_failure_streak b i of None \<Rightarrow> 0 | Some n \<Rightarrow> n)"

definition auth_failures ::
  "ident \<Rightarrow> string \<Rightarrow> clock list \<Rightarrow> breaker \<times> provider_table \<Rightarrow> breaker \<times> provider_table" where
  "auth_failures i err ts st = fold (\<lambda>t. record_auth_failure t i err) ts st"

lemma streak_record_auth_failure [simp]:
  "streak_of (fst (record_auth_failure t i err st)) i = streak_of (fst st) i + 1"
  by (cases st) (simp add: streak_of_def record_auth_failure_def Let_def state_writes)

lemma auth_ok_record [intro]:
  "auth_ok (fst st) \<Longrightarrow> auth_ok (fst (record_auth_failure t i err st))"
  by (cases st) (simp add: record_auth_failure_auth_ok)

lemma auth_failures_snoc:
  "auth_failures i err (ts @ [t]) st = record_auth_failure t i err (auth_failures i err ts st)"
  by (simp add: auth_failures_def)

lemma streak_auth_failures [simp]:
  "streak_of (fst (auth_failures i err ts st)) i = streak_of (fst st) i + int (length ts)"
  by (induction ts rule: rev_induct) (auto simp: auth_failures_snoc, simp add: auth_failures_def)

lemma auth_ok_auth_failures: "auth_ok (fst st) \<Longrightarrow> auth_ok (fst (auth_failures i err ts st))"
  by (induction ts rule: rev_induct) (auto simp: auth_failures_snoc, simp add: auth_failures_def)

lemma history_within_streak:
  assumes "auth_ok b"
  shows "int (length (recent_history now
    (case auth_failure_history b i of None \<Rightarrow> [] | Some ts \<Rightarrow> ts))) \<le> streak_of b i + 1"
  using assms [unfolded auth_ok_def, rule_format, of i]
    length_recent_history [of now "case auth_failure_history b i of None \<Rightarrow> [] | Some ts \<Rightarrow> ts"]
  by (auto simp: streak_of_def split: option.splits)

text \<open>Where the history is no longer than the streak, the streak alone decides.\<close>

lemma record_auth_failure_rows:
  assumes "auth_ok b"
  shows "snd (record_auth_failure now i err (b, rows)) =
    (if 3 \<le> streak_of b i + 1 then persist_auto_skip now i rows else rows)"
  using history_within_streak [OF assms, of now i]
  by (auto simp: record_auth_failure_def Let_def PERSISTENT_AUTH_THRESHOLD_def streak_of_def)

text \<open>In every reachable state an authentication failure is escalated to the provider row
  exactly when it is at least the third in a row without a success: the sliding 30-minute window
  of failures never escalates on its own.\<close>

theorem escalation_by_streak:
  assumes "cb_reachable cfg (t, b, rows)"
  shows "snd (record_auth_failure now i err (b, rows)) =
    (if 3 \<le> streak_of b i + 1 then persist_auto_skip now i rows else rows)"
  using cb_reachable_ok [OF assms] by (intro record_auth_failure_rows) (simp add: world_ok_def)

theorem escalation_by_streak_witness:
  "snd (record_auth_failure 5 ''p'' ''401'' (init_breaker, [new_provider ''p'' ''P'' ''openai'' None 1])) =
   [new_provider ''p'' ''P'' ''openai'' None 1]"
proof -
  have "cb_reachable default_settings (0, init_breaker, [new_provider ''p'' ''P'' ''openai'' None 1])"
    by (rule cb_reachable.Start) simp
  from escalation_by_streak [OF this, of 5 "''p''" "''401''"] show ?thesis
    by (simp add: streak_of_def init_breaker_def)
qed

lemma persist_auto_skip_row:
  assumes "find_row i rows = Some p"
  shows "find_row i (persist_auto_skip now i rows) =
    Some (if node_local_session p \<or>
             (case auto_skip_until p of None \<Rightarrow> False | Some u \<Rightarrow> now + 24 * 3600 < u) then p
          else p\<lparr>auto_skip_until := Some (now + 24 * 3600),
                 auto_skip_reason := Some ''persistent_auth_failure''\<rparr>)"
  using assms
  by (cases "auto_skip_until p") (simp_all add: persist_auto_skip_def Let_def find_row_update_same)

lemma persist_auto_skip_other:
  "i \<noteq> j \<Longrightarrow> find_row j (persist_auto_skip now i rows) = find_row j rows"
  by (auto simp: persist_auto_skip_def Let_def find_row_update_other split: option.splits)

lemma node_local_unchanged [simp]:
  "node_local_session (p\<lparr>auto_skip_until := u, auto_skip_reason := r\<rparr>) = node_local_session p"
  by (simp add: node_local_session_def)

lemma row_after_auth_failure:
  assumes "find_row i (snd st) = Some p" "\<not> node_local_session p"
  shows "\<exists>q. find_row i (snd (record_auth_failure t i err st)) = Some q \<and> \<not> node_local_session q"
  using assms
  by (cases st) (auto simp: record_auth_failure_def Let_def persist_auto_skip_row)

lemma row_after_auth_failures:
  assumes "find_row i (snd st) = Some p" "\<not> node_local_session p"
  shows "\<exists>q. find_row i (snd (auth_failures i err ts st)) = Some q \<and> \<not> node_local_session q"
proof (induction ts rule: rev_induct)
  case Nil
  with assms show ?case by (simp add: auth_failures_def)
next
  case (snoc t ts)
  then show ?case unfolding auth_failures_snoc by (blast dest: row_after_auth_failure)
qed

text \<open>Three authentication failures without a success in between take the provider out of
  routing for a day, however far apart they are: the row's skip reaches at least 24 hours beyond
  the last of them.\<close>

theorem auth_failures_escalate:
  assumes "auth_ok b" and "0 \<le> streak_of b i" and "3 \<le> length ts"
    and "find_row i rows = Some p" and "\<not> node_local_session p"
  shows "\<exists>q u. find_row i (snd (auth_failures i err ts (b, rows))) = Some q \<and>
    auto_skip_until q = Some u \<and> last ts + 86400 \<le> u"
proof -
  from assms(3) obtain ts' t where ts: "ts = ts' @ [t]" by (cases ts rule: rev_cases) auto
  let ?st = "auth_failures i err ts' (b, rows)"
  obtain q where q: "find_row i (snd ?st) = Some q" "\<not> node_local_session q"
    using row_after_auth_failures [of i "(b, rows)" p] assms(4,5) by auto
  have ok: "auth_ok (fst ?st)" using assms(1) by (simp add: auth_ok_auth_failures)
  have "3 \<le> streak_of (fst ?st) i + 1" using assms(2,3) ts by simp
  with record_auth_failure_rows [OF ok, of t i err "snd ?st"]
  have "snd (auth_failures i err ts (b, rows)) = persist_auto_skip t i (snd ?st)"
    by (simp add: ts auth_failures_snoc)
  with persist_auto_skip_row [OF q(1), of t] q(2) show ?thesis
    by (auto simp: ts split: option.splits)
qed

theorem auth_failures_escalate_witness:
  "\<exists>q u. find_row ''p'' (snd (auth_failures ''p'' ''401'' [0, 100000, 200000]
      (init_breaker, [new_provider ''p'' ''P'' ''openai'' None 1]))) = Some q \<and>
    auto_skip_until q = Some u \<and> 286400 \<le> u"
  using auth_failures_escalate [of init_breaker "''p''" "[0, 100000, 200000]"
      "[new_provider ''p'' ''P'' ''openai'' None 1]" "new_provider ''p'' ''P'' ''openai'' None 1"
      "''401''"]
  by (simp add: auth_ok_def init_breaker_def streak_of_def find_row_def new_provider_def
      node_local_session_def json_get_def)

lemma short_streak_rows:
  assumes "auth_ok b" and "streak_of b i = 0" and "length ts < 3"
  shows "snd (auth_failures i err ts (b, rows)) = rows"
  using assms(3)
proof (induction ts rule: rev_induct)
  case Nil
  show ?case by (simp add: auth_failures_def)
next
  case (snoc t ts)
  let ?st = "auth_failures i err ts (b, rows)"
  have "auth_ok (fst ?st)" using assms(1) by (simp add: auth_ok_auth_failures)
  from record_auth_failure_rows [OF this, of t i err "snd ?st"] snoc assms(2) show ?case
    by (simp add: auth_failures_snoc)
qed

lemma auth_ok_clear: "auth_ok b \<Longrightarrow> auth_ok (clear_auth_failure i b)"
  by (auto simp: auth_ok_def clear_auth_failure_def)

lemma streak_clear: "streak_of (clear_auth_failure i b) i = 0"
  by (simp add: streak_of_def clear_auth_failure_def)

text \<open>After a success or a re-key clears the record of a provider in a reachable state,
  fewer than three authentication failures never touch the provider table.\<close>

theorem auth_failures_forgiven:
  assumes "cb_reachable cfg (t, b, rows)" and "length ts < 3"
  shows "snd (auth_failures i err ts (clear_auth_failure i b, rows)) = rows"
  using cb_reachable_ok [OF assms(1)] assms(2)
  by (intro short_streak_rows) (auto simp: world_ok_def auth_ok_clear streak_clear)

theorem auth_failures_forgiven_witness:
  "snd (auth_failures ''p'' ''401'' [11, 12]
     (clear_auth_failure ''p'' (record_failure default_settings 10 ''p'' True init_breaker), [])) = []"
  by (rule auth_failures_forgiven [OF billing_run]) simp

lemma node_local_rows:
  "find_row i rows = Some p \<Longrightarrow> node_local_session p \<Longrightarrow> persist_auto_skip now i rows = rows"
  by (simp add: persist_auto_skip_def Let_def)

end
