(* ===== verification/Error_Classes.thy ===== *)
theory Error_Classes
  imports Circuit_Breaker
begin

text \<open>
  The error taxonomy of \<^verbatim>\<open>app/routing/circuit_breaker.py\<close>: the substring tables, the
  three predicates on error texts and the ordered classifier, and what
  \<^verbatim>\<open>app/monitoring/helpers.py\<close> makes of them: the severity of a class and the breaker
  calls of \<open>record_outcome\<close>. A substring test on the lower-cased text is \<open>any_in\<close>.
\<close>

section \<open>Pattern tables\<close>

definition BILLING_ERROR_PATTERNS :: "string list" where
  "BILLING_ERROR_PATTERNS =
     [''insufficient_quota'', ''insufficient credit'', ''quota exceeded'',
      ''exceeded your current quota'', ''exceeded your quota'', ''billing'',
      ''payment required'', ''subscription'']"

definition CALLER_SIDE_ERROR_PATTERNS :: "string list" where
  "CALLER_SIDE_ERROR_PATTERNS =
     [''missing corresponding tool call'', ''request.messages.content: string expected'',
      ''invalid user message at index'', ''invalid '' @ [CHR 39] @ ''messages['',
      ''missing corresponding tool call for tool response'']"

definition AUTH_ERROR_PATTERNS :: "string list" where
  "AUTH_ERROR_PATTERNS =
     [''authentication_error'', ''invalid x-api-key'', ''invalid api key'',
      ''invalid authentication'', ''unauthorized'', ''401'', ''403'', ''permission_denied'',
      ''expired_token'', ''invalid_token'', ''invalid_grant'', ''missing gemini api key'',
      ''missing openai api key'', ''missing anthropic api key'',
      ''the api_key client option must be set'', ''incorrect api key'', ''invalid_api_key'',
      ''api key not valid'']"

definition RATE_LIMIT_PATTERNS :: "string list" where
  "RATE_LIMIT_PATTERNS =
     [''rate_limit'', ''rate limit'', ''too many requests'', ''ratelimit'', ''429'',
      ''quota exceeded'', ''throttled'']"

definition TIMEOUT_PATTERNS :: "string list" where
  "TIMEOUT_PATTERNS =
     [''timed out'', ''timeout'', ''deadline exceeded'', ''read timeout'', ''connect timeout'']"

definition NETWORK_PATTERNS :: "string list" where
  "NETWORK_PATTERNS =
     [''connection refused'', ''connection reset'', ''name or service not known'',
      ''temporary failure in name resolution'', ''dns'', ''no route to host'',
      ''network is unreachable'', ''ssl'', ''tls'', ''readerror'', ''writeerror'',
      ''remoteprotocolerror'', ''localprotocolerror'', ''proxyerror'',
      ''server disconnected'', ''without sending a response'', ''bridge unreachable'']"

definition UPSTREAM_5XX_PATTERNS :: "string list" where
  "UPSTREAM_5XX_PATTERNS =
     [''500'', ''502'', ''503'', ''504'', ''529'', ''overloaded_error'', ''overloaded'',
      ''internal server error'', ''bad gateway'', ''service unavailable'', ''gateway timeout'']"

definition CLIENT_ERROR_OVERRIDE_PATTERNS :: "string list" where
  "CLIENT_ERROR_OVERRIDE_PATTERNS =
     [''badrequesterror'', ''contextwindowexceeded'', ''contentpolicyviolation'',
      ''unsupportedparams'', ''invalid_request_error'', ''too_many_tokens'',
      ''invalid user message'']"

definition BAD_REQUEST_PATTERNS :: "string list" where
  "BAD_REQUEST_PATTERNS =
     [''400'', ''404'', ''405'', ''409'', ''410'', ''413'', ''415'', ''422'', ''not found'',
      ''invalid_request'', ''invalid request'', ''validation error'', ''malformed'',
      ''bad request'', ''badrequesterror'', ''contextwindowexceeded'',
      ''contentpolicyviolation'', ''unsupportedparams'', ''invalid user message'',
      ''xaiexception - invalid user message'', ''openrouterexception - invalid user message'',
      ''upstream returned no choices'', ''upstream returned empty choices'']"

lemmas pattern_tables =
  BILLING_ERROR_PATTERNS_def CALLER_SIDE_ERROR_PATTERNS_def AUTH_ERROR_PATTERNS_def
  RATE_LIMIT_PATTERNS_def TIMEOUT_PATTERNS_def NETWORK_PATTERNS_def UPSTREAM_5XX_PATTERNS_def
  CLIENT_ERROR_OVERRIDE_PATTERNS_def BAD_REQUEST_PATTERNS_def

section \<open>Predicates and classifier\<close>

definition is_billing_error :: "string \<Rightarrow> bool" where
  "is_billing_error error_text = any_in BILLING_ERROR_PATTERNS (lower error_text)"

definition is_caller_side_error :: "string \<Rightarrow> bool" where
  "is_caller_side_error error_text = any_in CALLER_SIDE_ERROR_PATTERNS (lower error_text)"

definition is_auth_error :: "string \<Rightarrow> bool" where
  "is_auth_error error_text =
     (if error_text = [] then False else any_in AUTH_ERROR_PATTERNS (lower error_text))"

datatype error_class =
  Auth | Billing | Rate_Limit | Timeout | Network | Upstream_5xx | Bad_Request | Unknown

definition classify_error :: "string \<Rightarrow> error_class" where
  "classify_error error_text =
     (if error_text = [] then Unknown
      else let low = lower error_text in
      if is_auth_error error_text then Auth
      else if is_billing_error error_text then Billing
      else if any_in RATE_LIMIT_PATTERNS low then Rate_Limit
      else if any_in TIMEOUT_PATTERNS low then Timeout
      else if any_in NETWORK_PATTERNS low then Network
      else if any_in CLIENT_ERROR_OVERRIDE_PATTERNS low then Bad_Request
      else if any_in UPSTREAM_5XX_PATTERNS low then Upstream_5xx
      else if any_in BAD_REQUEST_PATTERNS low then Bad_Request
      else Unknown)"

datatype severity = Info | Warning | Error

definition severity_for_error_class :: "error_class \<Rightarrow> severity" where
  "severity_for_error_class c = (if c \<in> {Rate_Limit, Timeout, Network} then Warning else Error)"

section \<open>The breaker calls of an outcome\<close>

text \<open>\<open>record_outcome\<close>, success branch: \<open>record_success\<close>, then
  \<open>clear_auth_failure\<close>.\<close>

definition outcome_success :: "settings \<Rightarrow> ident \<Rightarrow> breaker \<Rightarrow> breaker" where
  "outcome_success cfg i b = clear_auth_failure i (record_success cfg i b)"

text \<open>\<open>record_outcome\<close>, failure branch.\<close>

definition outcome_failure ::
  "settings \<Rightarrow> clock \<Rightarrow> ident \<Rightarrow> bool \<Rightarrow> string \<Rightarrow> breaker \<times> provider_table \<Rightarrow>
   breaker \<times> provider_table" where
  "outcome_failure cfg now i is_probe error_str st =
     (if is_auth_error error_str
      then (if is_probe then (record_failure cfg now i False (fst st), snd st)
            else record_auth_failure now i error_str st)
      else if is_caller_side_error error_str then st
      else (record_failure cfg now i (is_billing_error error_str) (fst st), snd st))"

section \<open>The classifier as a decision list\<close>

text \<open>The reference: the first entry of an ordered table one of whose patterns occurs.\<close>

definition taxonomy :: "(error_class \<times> string list) list" where
  "taxonomy =
     [(Auth, AUTH_ERROR_PATTERNS), (Billing, BILLING_ERROR_PATTERNS),
      (Rate_Limit, RATE_LIMIT_PATTERNS), (Timeout, TIMEOUT_PATTERNS),
      (Network, NETWORK_PATTERNS), (Bad_Request, CLIENT_ERROR_OVERRIDE_PATTERNS),
      (Upstream_5xx, UPSTREAM_5XX_PATTERNS), (Bad_Request, BAD_REQUEST_PATTERNS)]"

definition first_match :: "(error_class \<times> string list) list \<Rightarrow> string \<Rightarrow> error_class" where
  "first_match table low =
     (case find (\<lambda>(c, ps). any_in ps low) table of None \<Rightarrow> Unknown | Some (c, ps) \<Rightarrow> c)"

lemma tables_no_empty_pattern: "(c, ps) \<in> set taxonomy \<Longrightarrow> [] \<notin> set ps"
  by (auto simp: taxonomy_def pattern_tables)

lemma any_in_Nil: "[] \<notin> set ps \<Longrightarrow> \<not> any_in ps []"
  by (auto simp: any_in_def list_ex_iff)

lemma first_match_empty: "first_match taxonomy [] = Unknown"
proof -
  have "find (\<lambda>(c, ps). any_in ps []) taxonomy = None"
    unfolding find_None_iff using tables_no_empty_pattern any_in_Nil by auto
  then show ?thesis by (simp add: first_match_def)
qed

text \<open>The classifier is the decision list of its tables: it gives the class of the first
  table, in the order auth, billing, rate limit, timeout, network, client signature, 5xx, bad
  request, one of whose patterns occurs in the lower-cased text, and unknown when none does.\<close>

theorem classify_error_decision_list: "classify_error t = first_match taxonomy (lower t)"
proof (cases "t = []")
  case True
  then show ?thesis by (simp add: classify_error_def first_match_empty)
next
  case False
  then show ?thesis
    by (simp add: classify_error_def first_match_def taxonomy_def Let_def is_auth_error_def
        is_billing_error_def)
qed

text \<open>A text that carries a client-error signature is never filed under 5xx, whatever HTTP
  status a wrapper put in front of it: it is a bad request unless an auth, billing, rate-limit,
  timeout or network pattern occurs too.\<close>

theorem client_signature_wins:
  assumes "any_in CLIENT_ERROR_OVERRIDE_PATTERNS (lower t)"
  shows "classify_error t \<in> {Auth, Billing, Rate_Limit, Timeout, Network, Bad_Request}"
proof -
  have "t \<noteq> []" using assms by (auto simp: any_in_Nil CLIENT_ERROR_OVERRIDE_PATTERNS_def)
  with assms show ?thesis by (simp add: classify_error_def Let_def)
qed

theorem client_signature_wins_witness:
  "classify_error ''502: litellm.BadRequestError: CohereException'' = Bad_Request \<and>
   classify_error ''502: litellm.BadRequestError: CohereException'' \<noteq> Upstream_5xx"
proof -
  have "any_in CLIENT_ERROR_OVERRIDE_PATTERNS (lower ''502: litellm.BadRequestError: CohereException'')"
    by code_simp
  from client_signature_wins [OF this]
  have "classify_error ''502: litellm.BadRequestError: CohereException'' \<noteq> Upstream_5xx" by auto
  moreover have "classify_error ''502: litellm.BadRequestError: CohereException'' = Bad_Request"
    by code_simp
  ultimately show ?thesis by simp
qed

lemma lower_digits: "lower ''401'' = ''401''"
  by code_simp

lemma auth_error_401: "is_auth_error (xs @ ''401'' @ ys)"
proof -
  have "sublist ''401'' (lower (xs @ ''401'' @ ys))"
    unfolding lower_append lower_digits by (rule sublist_appendI)
  moreover have "''401'' \<in> set AUTH_ERROR_PATTERNS" by (simp add: AUTH_ERROR_PATTERNS_def)
  ultimately show ?thesis by (simp add: is_auth_error_def any_inI del: lower_append)
qed

lemma outcome_failure_auth:
  assumes "is_auth_error t"
  shows "hold_down_until (get_local (fst (outcome_failure cfg now i False t (b, rows))) i) =
      now + 86400 \<and>
    get_auth_failure (fst (outcome_failure cfg now i False t (b, rows))) i =
      Some \<lparr>since = now, last_error = take 300 t\<rparr>"
  using assms
  by (simp add: outcome_failure_def get_local_record_auth_failure)
    (simp add: get_auth_failure_def record_auth_failure_def Let_def export_gauge_def)

text \<open>The authentication test is a plain substring test on the two status codes: any text in
  which the digits 401 occur, even inside a longer number, is an authentication error, and a
  non-probe failure with such a text opens the breaker for 24 hours and sets the re-auth flag.\<close>

theorem auth_by_digits:
  "hold_down_until (get_local
     (fst (outcome_failure cfg now i False (xs @ ''401'' @ ys) (b, rows))) i) = now + 86400 \<and>
   get_auth_failure (fst (outcome_failure cfg now i False (xs @ ''401'' @ ys) (b, rows))) i =
     Some \<lparr>since = now, last_error = take 300 (xs @ ''401'' @ ys)\<rparr>"
  by (rule outcome_failure_auth [OF auth_error_401])

lemma bad_request_not_auth: "classify_error t = Bad_Request \<Longrightarrow> \<not> is_auth_error t \<and> \<not> is_billing_error t"
  by (auto simp: classify_error_def Let_def split: if_splits)

lemma record_failure_counts:
  "failures (get_local (record_failure cfg now i billing b) i) = failures (get_local b i) + 1"
  by (simp add: record_failure_def Let_def)

text \<open>The class of an error does not decide whether it counts against the provider: an error
  the classifier files under bad request, whose text matches none of the five caller-side
  patterns, is counted as a provider failure and opens a closed breaker at the threshold.\<close>

theorem bad_request_counts:
  assumes "classify_error t = Bad_Request" and "\<not> is_caller_side_error t"
  shows "failures (get_local (fst (outcome_failure cfg now i is_probe t (b, rows))) i) =
      failures (get_local b i) + 1 \<and>
    (failure_threshold cfg b i \<le> failures (get_local b i) + 1 \<longrightarrow>
     cb_state (get_local (fst (outcome_failure cfg now i is_probe t (b, rows))) i) = OPEN)"
proof -
  have "outcome_failure cfg now i is_probe t (b, rows) = (record_failure cfg now i False b, rows)"
    using assms bad_request_not_auth [OF assms(1)] by (simp add: outcome_failure_def)
  then show ?thesis by (simp add: record_failure_counts) (simp add: record_failure_def Let_def)
qed

theorem bad_request_counts_witness:
  "failures (get_local (fst (outcome_failure default_settings 0 ''p'' False
     ''ContextWindowExceededError: BadRequestError TOO_MANY_TOKENS'' (init_breaker, []))) ''p'') = 1"
proof -
  have c: "classify_error ''ContextWindowExceededError: BadRequestError TOO_MANY_TOKENS'' = Bad_Request"
    by code_simp
  have "\<not> is_caller_side_error ''ContextWindowExceededError: BadRequestError TOO_MANY_TOKENS''"
    by code_simp
  from bad_request_counts [OF c this, of default_settings 0 "''p''" False init_breaker "[]"]
  show ?thesis by (simp add: init_breaker_def get_local_def fresh_local_def)
qed

text \<open>A malformed request of the caller leaves the breaker and the provider table exactly as
  they were, unless its text also matches an authentication pattern.\<close>

theorem caller_side_ignored:
  assumes "is_caller_side_error t" and "\<not> is_auth_error t"
  shows "outcome_failure cfg now i is_probe t st = st"
  using assms by (simp add: outcome_failure_def)

theorem caller_side_ignored_witness:
  "outcome_failure default_settings 0 ''p'' False ''Invalid user message at index 3'' (tripped, []) =
   (tripped, [])"
proof -
  have c: "is_caller_side_error ''Invalid user message at index 3''" by code_simp
  have "\<not> is_auth_error ''Invalid user message at index 3''" by code_simp
  from caller_side_ignored [OF c this] show ?thesis .
qed

end
