(* ===== verification/Lmrh_Types.thy ===== *)
theory Lmrh_Types
  imports Provider
begin

text \<open>
  The types and tables of the LMRH routing hint (\<^verbatim>\<open>app/routing/lmrh/types.py\<close>), and
  Python's \<open>int()\<close> and \<open>float()\<close> on strings, which the scorer applies to
  header values. A float read from a header may be infinite or not a number; both are values of
  \<open>pyfloat\<close>.
\<close>

section \<open>Hints and profiles\<close>

record hint_dimension =
  dim_key :: string
  dim_value :: string
  required :: bool
  sovereign :: bool

record lmrh_hint =
  raw :: string
  dimensions :: "hint_dimension list"

definition hint_get :: "lmrh_hint \<Rightarrow> string \<Rightarrow> hint_dimension option" where
  "hint_get h k = find (\<lambda>d. dim_key d = k) (dimensions h)"

record capability_profile =
  prof_provider_id :: ident
  prof_provider_type :: string
  prof_model_id :: string
  prof_provider_name :: string
  tasks :: "string list"
  latency :: string
  cost_tier :: string
  safety :: int
  context_length :: int
  max_output_tokens :: "int option"
  regions :: "string list"
  modalities :: "string list"
  native_reasoning :: bool
  native_tools :: bool
  native_vision :: bool
  prof_priority :: int
  avg_ttft_ms :: rat
  over_daily_budget :: bool
  tool_call_success_rate :: "rat option"

definition new_profile :: "ident \<Rightarrow> string \<Rightarrow> string \<Rightarrow> int \<Rightarrow> capability_profile" where
  "new_profile i ty model prio =
     \<lparr>prof_provider_id = i, prof_provider_type = ty, prof_model_id = model,
      prof_provider_name = [], tasks = [''chat''], latency = ''medium'',
      cost_tier = ''standard'', safety = 3, context_length = 128000,
      max_output_tokens = None, regions = [], modalities = [''text''],
      native_reasoning = False, native_tools = True, native_vision = False,
      prof_priority = prio, avg_ttft_ms = 0, over_daily_budget = False,
      tool_call_success_rate = None\<rparr>"

section \<open>Tables\<close>

definition WEIGHTS :: "(string \<times> rat) list" where
  "WEIGHTS =
     [(''task'', 10), (''safety-min'', 8), (''safety-max'', 8), (''modality'', 5),
      (''region'', 6), (''latency'', 4), (''cost'', 3), (''context-length'', 2),
      (''provider-hint'', 5), (''exclude'', 5), (''refuse-tolerance'', 8)]"

definition weight :: "string \<Rightarrow> rat" where
  "weight k = (case map_of WEIGHTS k of None \<Rightarrow> 0 | Some w \<Rightarrow> w)"

definition TASK_ALIASES :: "(string \<times> string list) list" where
  "TASK_ALIASES =
     [(''chat'', [''chat'']), (''reasoning'', [''reasoning'', ''analysis'', ''code'']),
      (''analysis'', [''analysis'', ''reasoning'']), (''code'', [''code'', ''reasoning'']),
      (''creative'', [''creative'', ''chat'']), (''audio'', [''audio'']),
      (''vision'', [''vision''])]"

definition LATENCY_RANK :: "(string \<times> int) list" where
  "LATENCY_RANK = [(''low'', 0), (''medium'', 1), (''high'', 2)]"

definition COST_RANK :: "(string \<times> int) list" where
  "COST_RANK = [(''economy'', 0), (''standard'', 1), (''premium'', 2)]"

definition REFUSAL_RATE_TO_SAFETY_CEIL :: "(string \<times> int) list" where
  "REFUSAL_RATE_TO_SAFETY_CEIL =
     [(''permissive'', 2), (''standard'', 3), (''strict'', 4), (''maximum'', 5)]"

definition REFUSE_TOLERANCE_TO_SAFETY_FLOOR :: "(string \<times> int) list" where
  "REFUSE_TOLERANCE_TO_SAFETY_FLOOR = [(''strict'', 4), (''default'', 2), (''lenient'', 1)]"

definition REFUSE_TOLERANCE_TO_SAFETY_CEIL :: "(string \<times> int) list" where
  "REFUSE_TOLERANCE_TO_SAFETY_CEIL = [(''strict'', 5), (''default'', 4), (''lenient'', 2)]"

text \<open>\<open>d.get(k, v)\<close> on a table.\<close>

definition get_or :: "(string \<times> 'a) list \<Rightarrow> string \<Rightarrow> 'a \<Rightarrow> 'a" where
  "get_or t k v = (case map_of t k of None \<Rightarrow> v | Some x \<Rightarrow> x)"

section \<open>Numbers in header values\<close>

datatype py_error = ValueError string

definition digit_val :: "char \<Rightarrow> nat option" where
  "digit_val c =
     (let n = of_char c :: nat in if 48 \<le> n \<and> n \<le> 57 then Some (n - 48) else None)"

text \<open>A run of digits with single underscores between digits; the flag says whether the
  previous character was a digit.\<close>

fun digits_val :: "nat \<Rightarrow> bool \<Rightarrow> string \<Rightarrow> nat option" where
  "digits_val acc prev [] = (if prev then Some acc else None)"
| "digits_val acc prev (c # cs) =
     (case digit_val c of
        Some d \<Rightarrow> digits_val (10 * acc + d) True cs
      | None \<Rightarrow> if c = CHR ''_'' \<and> prev then digits_val acc False cs else None)"

definition split_sign :: "string \<Rightarrow> int \<times> string" where
  "split_sign s =
     (case s of
        c # cs \<Rightarrow> if c = CHR ''-'' then (-1, cs) else if c = CHR ''+'' then (1, cs) else (1, s)
      | [] \<Rightarrow> (1, []))"

definition py_int :: "string \<Rightarrow> py_error + int" where
  "py_int s =
     (let (sg, ds) = split_sign (strip s)
      in case digits_val 0 False ds of
           Some n \<Rightarrow> Inr (sg * int n)
         | None \<Rightarrow> Inl (ValueError s))"

datatype pyfloat = Fin rat | PosInf | NegInf | NaN

definition decimal_val :: "string \<Rightarrow> rat option" where
  "decimal_val s =
     (if CHR ''.'' \<in> set s
      then (let (a, f) = partition_at (CHR ''.'') s;
                ip = (if a = [] then Some 0 else digits_val 0 False a);
                fp = (if f = [] then Some 0 else digits_val 0 False f);
                k = length (filter (\<lambda>c. digit_val c \<noteq> None) f)
            in if a = [] \<and> f = [] then None
               else (case (ip, fp) of
                       (Some m, Some n) \<Rightarrow> Some (of_nat m + of_nat n / 10 ^ k)
                     | _ \<Rightarrow> None))
      else map_option of_nat (digits_val 0 False s))"

definition exponent_val :: "string \<Rightarrow> rat option" where
  "exponent_val s =
     (let (sg, ds) = split_sign s
      in case digits_val 0 False ds of
           None \<Rightarrow> None
         | Some n \<Rightarrow> Some (if sg < 0 then 1 / 10 ^ n else 10 ^ n))"

definition py_float :: "string \<Rightarrow> py_error + pyfloat" where
  "py_float s =
     (let (sg, b) = split_sign (lower (strip s))
      in if b = ''inf'' \<or> b = ''infinity'' then Inr (if sg < 0 then NegInf else PosInf)
         else if b = ''nan'' then Inr NaN
         else let (m, e) = (if CHR ''e'' \<in> set b then partition_at (CHR ''e'') b else (b, ''0''))
              in case (decimal_val m, exponent_val e) of
                   (Some x, Some y) \<Rightarrow> Inr (Fin (of_int sg * x * y))
                 | _ \<Rightarrow> Inl (ValueError s))"

text \<open>\<open>x <= c\<close> for a rational \<open>x\<close>.\<close>

fun le_float :: "rat \<Rightarrow> pyfloat \<Rightarrow> bool" where
  "le_float x (Fin c) = (x \<le> c)"
| "le_float x PosInf = True"
| "le_float x NegInf = False"
| "le_float x NaN = False"

end
