(* ===== verification/Lmrh_Parse.thy ===== *)
theory Lmrh_Parse
  imports Lmrh_Types
begin

text \<open>
  The parser of the \<^verbatim>\<open>LLM-Hint\<close> header (\<^verbatim>\<open>app/routing/lmrh/parse.py\<close>).

  The RFC 8941 path rests on the library \<^verbatim>\<open>http_sfv\<close>, which is a parameter: a function
  from the header to what the code sees of the parsed dictionary, \<open>None\<close> when the library
  is absent or rejects the header. The legacy path is modelled to the character, with its two
  regular expressions \<^verbatim>\<open>\s*;\s*require\s*\<close> and \<^verbatim>\<open>\s*;\s*sovereign\s*\<close>
  (case-insensitive): \<open>match_modifier\<close> is a match at the front of a string,
  \<open>has_modifier\<close> is \<open>search\<close>, \<open>strip_modifier\<close> is
  \<open>sub("", \<dots>)\<close>.
\<close>

section \<open>The two modifiers\<close>

definition match_modifier :: "string \<Rightarrow> string \<Rightarrow> string option" where
  "match_modifier w s =
     (case lstrip s of
        [] \<Rightarrow> None
      | c # r \<Rightarrow>
          if c = CHR '';'' \<and> lower (take (length w) (lstrip r)) = w
          then Some (lstrip (drop (length w) (lstrip r))) else None)"

lemma lstrip_length: "length (lstrip s) \<le> length s"
  by (simp add: lstrip_def length_dropWhile_le)

lemma match_modifier_shorter: "match_modifier w s = Some r \<Longrightarrow> length r < length s"
proof -
  assume a: "match_modifier w s = Some r"
  then obtain c t where t: "lstrip s = c # t" and r: "r = lstrip (drop (length w) (lstrip t))"
    by (auto simp: match_modifier_def split: list.splits if_splits)
  have "length r \<le> length (drop (length w) (lstrip t))" unfolding r by (rule lstrip_length)
  also have "\<dots> \<le> length t" using lstrip_length [of t] by simp
  also have "\<dots> < length s" using lstrip_length [of s] t by simp
  finally show ?thesis .
qed

fun has_modifier :: "string \<Rightarrow> string \<Rightarrow> bool" where
  "has_modifier w [] = False"
| "has_modifier w (c # cs) = (match_modifier w (c # cs) \<noteq> None \<or> has_modifier w cs)"

function strip_modifier :: "string \<Rightarrow> string \<Rightarrow> string" where
  "strip_modifier w [] = []"
| "strip_modifier w (c # cs) =
     (case match_modifier w (c # cs) of
        Some r \<Rightarrow> strip_modifier w r
      | None \<Rightarrow> c # strip_modifier w cs)"
  by pat_completeness auto
termination
  by (relation "measure (\<lambda>(w, s). length s)") (auto dest: match_modifier_shorter)

section \<open>The legacy parser\<close>

definition chunks_of_header :: "string \<Rightarrow> string list" where
  "chunks_of_header h = filter (\<lambda>c. c \<noteq> []) (map strip (split_on (CHR '','') h))"

text \<open>The pre-scan of one chunk: the chunk without modifiers, required, sovereign.\<close>

definition prescan :: "string \<Rightarrow> string \<times> bool \<times> bool" where
  "prescan chunk =
     (let sov = has_modifier ''sovereign'' chunk;
          c1 = (if sov then strip (strip_modifier ''sovereign'' chunk) else chunk);
          req = has_modifier ''require'' c1 \<or> sov;
          c2 = (if req then strip (strip_modifier ''require'' c1) else c1)
      in (c2, req, sov))"

text \<open>One step of the merge loop; the list holds the dimensions so far, latest last.\<close>

definition merge_chunk ::
  "(string \<times> string \<times> bool \<times> bool) list \<Rightarrow> string \<times> bool \<times> bool \<Rightarrow>
   (string \<times> string \<times> bool \<times> bool) list" where
  "merge_chunk merged pc =
     (let (chunk, req, sov) = pc in
      if CHR ''='' \<in> set chunk
      then (let (k, v) = partition_at (CHR ''='') chunk
            in merged @ [(strip k, strip v, req, sov)])
      else if merged \<noteq> []
      then (let (pk, pv, preq, psov) = last merged
            in butlast merged @
               [(pk, if chunk \<noteq> [] then pv @ '','' @ chunk else pv, preq \<or> req, psov \<or> sov)])
      else merged)"

definition to_dimension :: "string \<times> string \<times> bool \<times> bool \<Rightarrow> hint_dimension" where
  "to_dimension = (\<lambda>(k, v, req, sov). \<lparr>dim_key = k, dim_value = v, required = req, sovereign = sov\<rparr>)"

definition parse_hint_legacy :: "string \<Rightarrow> lmrh_hint option" where
  "parse_hint_legacy header =
     (let processed = map prescan (chunks_of_header header);
          merged = foldl merge_chunk [] processed
      in if merged = [] then None
         else Some \<lparr>raw = header, dimensions = map to_dimension merged\<rparr>)"

section \<open>The RFC 8941 path\<close>

text \<open>What the code observes of a member of the library's dictionary.\<close>

datatype sfv_bare = SfvBool bool | SfvNumber string | SfvText string

datatype sfv_value = SfvItem sfv_bare | SfvInnerList "sfv_bare list"

record sfv_member =
  sfv_key :: string
  sfv_val :: sfv_value
  param_sovereign :: bool
  param_require :: bool

type_synonym sfv_library = "string \<Rightarrow> sfv_member list option"

fun coerce_sfv_value :: "sfv_bare \<Rightarrow> string" where
  "coerce_sfv_value (SfvBool b) = (if b then ''true'' else ''false'')"
| "coerce_sfv_value (SfvNumber s) = s"
| "coerce_sfv_value (SfvText s) = s"

fun is_bool_member :: "sfv_member \<Rightarrow> bool" where
  "is_bool_member m = (case sfv_val m of SfvItem (SfvBool _) \<Rightarrow> True | _ \<Rightarrow> False)"

definition sfv_dimension :: "sfv_member \<Rightarrow> hint_dimension" where
  "sfv_dimension m =
     \<lparr>dim_key = sfv_key m,
      dim_value = (case sfv_val m of
                     SfvItem v \<Rightarrow> coerce_sfv_value v
                   | SfvInnerList vs \<Rightarrow> join_with '','' (map coerce_sfv_value vs)),
      required = param_require m \<or> param_sovereign m,
      sovereign = param_sovereign m\<rparr>"

definition parse_hint_rfc8941 :: "sfv_library \<Rightarrow> string \<Rightarrow> lmrh_hint option" where
  "parse_hint_rfc8941 sfv header =
     (case sfv header of
        None \<Rightarrow> None
      | Some d \<Rightarrow>
          if list_ex is_bool_member d then None
          else if d = [] then None
          else Some \<lparr>raw = header, dimensions = map sfv_dimension d\<rparr>)"

definition parse_hint :: "sfv_library \<Rightarrow> string option \<Rightarrow> lmrh_hint option" where
  "parse_hint sfv header =
     (case header of
        None \<Rightarrow> None
      | Some h \<Rightarrow>
          if h = [] then None
          else (case parse_hint_rfc8941 sfv h of
                  Some p \<Rightarrow> Some p
                | None \<Rightarrow> parse_hint_legacy h))"

section \<open>Every parsed dimension\<close>

definition implies_required :: "string \<times> string \<times> bool \<times> bool \<Rightarrow> bool" where
  "implies_required x \<longleftrightarrow> (snd (snd (snd x)) \<longrightarrow> fst (snd (snd x)))"

lemma merge_chunk_sovereign:
  assumes "list_all implies_required merged" and "sov \<longrightarrow> req"
  shows "list_all implies_required (merge_chunk merged (chunk, req, sov))"
proof (cases "CHR ''='' \<in> set chunk \<or> merged = []")
  case True
  with assms show ?thesis
    by (cases "partition_at (CHR ''='') chunk")
      (auto simp: merge_chunk_def implies_required_def)
next
  case False
  then obtain ms x where ms: "merged = ms @ [x]" by (cases merged rule: rev_cases) auto
  obtain k v r t where "x = (k, v, r, t)" by (cases x) auto
  with False ms assms show ?thesis
    by (auto simp: merge_chunk_def implies_required_def)
qed

lemma foldl_merge_sovereign:
  assumes "list_all implies_required merged" and "\<forall>pc \<in> set pcs. snd (snd pc) \<longrightarrow> fst (snd pc)"
  shows "list_all implies_required (foldl merge_chunk merged pcs)"
  using assms
proof (induction pcs arbitrary: merged)
  case Nil
  then show ?case by simp
next
  case (Cons pc pcs)
  obtain c r t where pc: "pc = (c, r, t)" by (cases pc) auto
  with Cons.prems have "list_all implies_required (merge_chunk merged pc)"
    by (simp add: merge_chunk_sovereign)
  with Cons show ?case by simp
qed

lemma legacy_sovereign_required:
  assumes "parse_hint_legacy h = Some hint" and "d \<in> set (dimensions hint)" and "sovereign d"
  shows "required d"
proof -
  let ?m = "foldl merge_chunk [] (map prescan (chunks_of_header h))"
  have "list_all implies_required ?m"
    by (rule foldl_merge_sovereign) (auto simp: prescan_def Let_def)
  moreover from assms(1,2) obtain x where "x \<in> set ?m" "d = to_dimension x"
    by (auto simp: parse_hint_legacy_def Let_def split: if_splits)
  ultimately show ?thesis using assms(3)
    by (auto simp: to_dimension_def implies_required_def list_all_iff split: prod.splits)
qed

lemma legacy_nonempty: "parse_hint_legacy h = Some hint \<Longrightarrow> dimensions hint \<noteq> []"
  by (auto simp: parse_hint_legacy_def Let_def split: if_splits)

lemma rfc8941_parsed:
  "parse_hint_rfc8941 sfv h = Some hint \<Longrightarrow>
   dimensions hint \<noteq> [] \<and> (\<forall>d \<in> set (dimensions hint). sovereign d \<longrightarrow> required d)"
  by (auto simp: parse_hint_rfc8941_def sfv_dimension_def split: option.splits if_splits)

text \<open>Whichever parser reads the header, a dimension marked sovereign is also a hard
  requirement, and a header that parses has at least one dimension.\<close>

theorem parsed_sovereign_required:
  assumes "parse_hint sfv header = Some hint"
  shows "dimensions hint \<noteq> [] \<and> (\<forall>d \<in> set (dimensions hint). sovereign d \<longrightarrow> required d)"
proof -
  from assms consider h where "parse_hint_rfc8941 sfv h = Some hint"
    | h where "parse_hint_legacy h = Some hint"
    by (auto simp: parse_hint_def split: option.splits if_splits)
  then show ?thesis
    by cases (auto dest: rfc8941_parsed legacy_nonempty legacy_sovereign_required)
qed

section \<open>Printing a hint and parsing it back\<close>

type_synonym dim_spec = "string \<times> string list \<times> bool \<times> bool"

definition clean :: "string \<Rightarrow> bool" where
  "clean t \<longleftrightarrow> t \<noteq> [] \<and>
     (\<forall>c \<in> set t. \<not> is_space c \<and> c \<noteq> CHR '','' \<and> c \<noteq> CHR '';'' \<and> c \<noteq> CHR ''='')"

definition modifier_text :: "bool \<Rightarrow> bool \<Rightarrow> string" where
  "modifier_text req sov = (if sov then '';sovereign'' else if req then '';require'' else [])"

definition print_dim :: "dim_spec \<Rightarrow> string" where
  "print_dim = (\<lambda>(k, vs, req, sov). k @ ''='' @ join_with '','' vs @ modifier_text req sov)"

definition print_hint :: "dim_spec list \<Rightarrow> string" where
  "print_hint ds = join_with '','' (map print_dim ds)"

definition clean_dim :: "dim_spec \<Rightarrow> bool" where
  "clean_dim = (\<lambda>(k, vs, req, sov). clean k \<and> vs \<noteq> [] \<and> list_all clean vs \<and> (sov \<longrightarrow> req))"

definition spec_dimension :: "dim_spec \<Rightarrow> hint_dimension" where
  "spec_dimension = (\<lambda>(k, vs, req, sov).
     \<lparr>dim_key = k, dim_value = join_with '','' vs, required = req, sovereign = sov\<rparr>)"

text \<open>The chunks of a printed dimension: its modifier stands on the last value.\<close>

definition dim_chunks :: "dim_spec \<Rightarrow> (string \<times> bool \<times> bool) list" where
  "dim_chunks = (\<lambda>(k, vs, req, sov).
     let cs = (k @ ''='' @ hd vs) # tl vs
     in map (\<lambda>c. (c, False, False)) (butlast cs) @ [(last cs, req, sov)])"

definition chunk_text :: "string \<times> bool \<times> bool \<Rightarrow> string" where
  "chunk_text = (\<lambda>(c, req, sov). c @ modifier_text req sov)"

lemma print_dim_chunks:
  assumes "vs \<noteq> []"
  shows "join_with '','' (map chunk_text (dim_chunks (k, vs, req, sov))) = print_dim (k, vs, req, sov)"
proof -
  let ?cs = "(k @ ''='' @ hd vs) # tl vs"
  have "map chunk_text (dim_chunks (k, vs, req, sov)) =
      butlast ?cs @ [last ?cs @ modifier_text req sov]"
    by (simp add: dim_chunks_def chunk_text_def Let_def modifier_text_def comp_def)
  then have "join_with '','' (map chunk_text (dim_chunks (k, vs, req, sov))) =
      join_with '','' ?cs @ modifier_text req sov"
    by (simp only: join_with_last [OF list.distinct(2)])
  also have "join_with '','' ?cs = k @ ''='' @ join_with '','' vs"
    using join_with_first [of "'',''" "k @ ''=''" "hd vs" "tl vs"] assms by simp
  finally show ?thesis by (simp add: print_dim_def)
qed

lemma match_modifier_needs_semicolon: "CHR '';'' \<notin> set s \<Longrightarrow> match_modifier w s = None"
proof -
  assume a: "CHR '';'' \<notin> set s"
  show ?thesis
  proof (cases "dropWhile is_space s")
    case (Cons c r)
    then have "c \<in> set s" by (metis list.set_intros(1) set_dropWhileD)
    with a have "c \<noteq> CHR '';''" by blast
    with Cons show ?thesis by (simp add: match_modifier_def lstrip_def)
  next
    case Nil
    show ?thesis unfolding match_modifier_def lstrip_def Nil by simp
  qed
qed

lemma has_modifier_needs_semicolon: "CHR '';'' \<notin> set s \<Longrightarrow> \<not> has_modifier w s"
  by (induction s) (auto simp: match_modifier_needs_semicolon)

lemma match_modifier_nonspace:
  "\<not> is_space c \<Longrightarrow> c \<noteq> CHR '';'' \<Longrightarrow> match_modifier w (c # s) = None"
  by (simp add: match_modifier_def lstrip_def)

definition plain :: "string \<Rightarrow> bool" where
  "plain t \<longleftrightarrow> (\<forall>c \<in> set t. \<not> is_space c \<and> c \<noteq> CHR '','' \<and> c \<noteq> CHR '';'')"

lemma has_modifier_plain_append: "plain c \<Longrightarrow> has_modifier w (c @ s) = has_modifier w s"
  by (induction c) (simp_all add: plain_def match_modifier_nonspace)

lemma strip_modifier_plain_append: "plain c \<Longrightarrow> strip_modifier w (c @ s) = c @ strip_modifier w s"
  by (induction c) (simp_all add: plain_def match_modifier_nonspace)

lemma plain_strip: "plain c \<Longrightarrow> strip c = c"
  by (rule strip_no_space) (simp add: plain_def)

lemma modifier_facts:
  "has_modifier ''sovereign'' '';sovereign''" "\<not> has_modifier ''sovereign'' '';require''"
  "has_modifier ''require'' '';require''"
  "strip_modifier ''sovereign'' '';sovereign'' = []" "strip_modifier ''require'' '';require'' = []"
  by (code_simp, code_simp, code_simp, code_simp, code_simp)

lemma prescan_chunk:
  assumes "plain c" and "sov \<longrightarrow> req"
  shows "prescan (chunk_text (c, req, sov)) = (c, req, sov)"
proof -
  have n: "\<not> has_modifier w c" "strip_modifier w c = c" for w
    using has_modifier_plain_append [OF assms(1), of w "[]"]
      strip_modifier_plain_append [OF assms(1), of w "[]"] by simp_all
  show ?thesis
    using assms(2) n modifier_facts plain_strip [OF assms(1)]
      has_modifier_plain_append [OF assms(1)] strip_modifier_plain_append [OF assms(1)]
    by (auto simp: prescan_def chunk_text_def modifier_text_def Let_def)
qed

definition plain_chunk :: "string \<times> bool \<times> bool \<Rightarrow> bool" where
  "plain_chunk = (\<lambda>(c, req, sov). c \<noteq> [] \<and> plain c \<and> (sov \<longrightarrow> req))"

lemma strip_chunk_text:
  assumes "plain_chunk x"
  shows "strip (chunk_text x) = chunk_text x"
    and "chunk_text x \<noteq> []" and "CHR '','' \<notin> set (chunk_text x)"
proof -
  obtain c r t where x: "x = (c, r, t)" by (cases x) auto
  have sp: "\<not> is_space d" "d \<noteq> CHR '',''" if "d \<in> set (modifier_text r t)" for d
    using that by (auto simp: modifier_text_def is_space_def split: if_splits)
  have "\<not> is_space d" "d \<noteq> CHR '',''" if "d \<in> set (chunk_text x)" for d
    using that sp assms unfolding x by (auto simp: chunk_text_def plain_chunk_def plain_def)
  then show "strip (chunk_text x) = chunk_text x" "CHR '','' \<notin> set (chunk_text x)"
    by (blast intro: strip_no_space, blast)
  show "chunk_text x \<noteq> []" using assms unfolding x by (auto simp: chunk_text_def plain_chunk_def)
qed

lemma prescan_chunks:
  assumes "xs \<noteq> []" and "list_all plain_chunk xs"
  shows "map prescan (chunks_of_header (join_with '','' (map chunk_text xs))) = xs"
proof -
  have "split_on (CHR '','') (join_with '','' (map chunk_text xs)) = map chunk_text xs"
    by (rule split_join) (use assms strip_chunk_text in \<open>auto simp: list_all_iff\<close>)
  moreover have "map strip (map chunk_text xs) = map chunk_text xs"
    using assms strip_chunk_text(1) by (auto simp: list_all_iff)
  moreover have "filter (\<lambda>c. c \<noteq> []) (map chunk_text xs) = map chunk_text xs"
    using assms strip_chunk_text(2) by (auto simp: list_all_iff)
  ultimately have "chunks_of_header (join_with '','' (map chunk_text xs)) = map chunk_text xs"
    by (simp only: chunks_of_header_def)
  moreover have "map prescan (map chunk_text xs) = xs"
    unfolding map_map by (rule map_idI) (use assms(2) prescan_chunk in \<open>auto simp: list_all_iff plain_chunk_def\<close>)
  ultimately show ?thesis by simp
qed

lemma clean_ne: "clean t \<Longrightarrow> t \<noteq> []" and clean_char: "clean t \<Longrightarrow> CHR ''='' \<notin> set t"
  unfolding clean_def by blast+

lemma clean_strip: "clean t \<Longrightarrow> strip t = t"
  by (rule strip_no_space) (simp add: clean_def)

lemma clean_plain: "clean t \<Longrightarrow> plain t"
  by (simp add: clean_def plain_def)

lemma plain_append: "plain (s @ t) \<longleftrightarrow> plain s \<and> plain t"
  by (simp add: plain_def ball_Un)

lemma plain_equals: "plain ''=''"
  by (simp add: plain_def is_space_def)

lemma merge_values:
  assumes "\<forall>v \<in> set vs. clean v"
  shows "foldl merge_chunk (acc @ [(k, v, r, s)]) (map (\<lambda>c. (c, False, False)) vs) =
    acc @ [(k, join_with '','' (v # vs), r, s)]"
  using assms
proof (induction vs arbitrary: v)
  case (Cons w vs)
  then have "w \<noteq> []" "CHR ''='' \<notin> set w" using clean_char by (simp_all add: clean_ne)
  then have "merge_chunk (acc @ [(k, v, r, s)]) (w, False, False) = acc @ [(k, v @ '','' @ w, r, s)]"
    by (simp add: merge_chunk_def)
  with Cons show ?case by (cases vs) simp_all
qed simp

lemma merge_first:
  assumes "clean k" and "clean v"
  shows "merge_chunk acc (k @ ''='' @ v, r, s) = acc @ [(k, v, r, s)]"
proof -
  have "partition_at (CHR ''='') (k @ ''='' @ v) = (k, v)"
    using clean_char [OF assms(1)] partition_at_eq [of "CHR ''=''" k v] by simp
  moreover have "strip k = k" "strip v = v"
    using assms by (simp_all add: clean_strip)
  ultimately show ?thesis by (simp add: merge_chunk_def)
qed

lemma merge_last:
  assumes "clean w"
  shows "merge_chunk (acc @ [(k, v, False, False)]) (w, r, s) = acc @ [(k, v @ '','' @ w, r, s)]"
  using clean_ne [OF assms] clean_char [OF assms] by (simp add: merge_chunk_def)

lemma merge_dim:
  assumes "clean_dim (k, vs, r, s)"
  shows "foldl merge_chunk acc (dim_chunks (k, vs, r, s)) = acc @ [(k, join_with '','' vs, r, s)]"
proof -
  from assms obtain v ws where vs: "vs = v # ws" by (cases vs) (auto simp: clean_dim_def)
  from assms have c: "clean k" "clean v" "\<forall>w \<in> set ws. clean w"
    by (auto simp: clean_dim_def vs list_all_iff)
  show ?thesis
  proof (cases ws rule: rev_cases)
    case Nil
    then show ?thesis
      using merge_first [OF c(1,2)] by (simp add: dim_chunks_def vs Let_def)
  next
    case (snoc us w)
    have d: "dim_chunks (k, vs, r, s) =
        (k @ ''='' @ v, False, False) # map (\<lambda>c. (c, False, False)) us @ [(w, r, s)]"
      by (simp add: dim_chunks_def vs snoc Let_def butlast_append)
    have "join_with '','' ((v # us) @ [w]) = join_with '','' (v # us) @ '','' @ w"
      by (subst join_with_append) simp_all
    with c snoc show ?thesis
      unfolding d by (simp add: merge_first [simplified] merge_values merge_last [simplified] vs)
  qed
qed

lemma merge_dims:
  "list_all clean_dim ds \<Longrightarrow>
   foldl merge_chunk acc (concat (map dim_chunks ds)) =
     acc @ map (\<lambda>(k, vs, r, s). (k, join_with '','' vs, r, s)) ds"
proof (induction ds arbitrary: acc)
  case (Cons d ds)
  obtain k vs r s where "d = (k, vs, r, s)" by (cases d) auto
  with Cons show ?case by (simp add: merge_dim)
qed simp

lemma dim_chunks_plain:
  assumes "clean_dim d"
  shows "list_all plain_chunk (dim_chunks d)" and "dim_chunks d \<noteq> []"
proof -
  obtain k vs r s where d: "d = (k, vs, r, s)" by (cases d) auto
  let ?cs = "(k @ ''='' @ hd vs) # tl vs"
  from assms have "vs \<noteq> []" "clean k" "\<forall>v \<in> set vs. clean v" "s \<longrightarrow> r"
    by (auto simp: clean_dim_def d list_all_iff)
  then have "plain k" "plain (hd vs)" "\<forall>v \<in> set (tl vs). v \<noteq> [] \<and> plain v"
    by (simp_all add: clean_plain clean_ne list.set_sel)
  then have "\<forall>c \<in> set ?cs. c \<noteq> [] \<and> plain c"
    by (simp add: plain_append plain_equals del: append_Cons append_Nil)
  then have "\<forall>c \<in> set (butlast ?cs). c \<noteq> [] \<and> plain c" "last ?cs \<noteq> [] \<and> plain (last ?cs)"
    by (meson in_set_butlastD) (use \<open>\<forall>c \<in> set ?cs. _\<close> last_in_set [of ?cs] in blast)
  with \<open>s \<longrightarrow> r\<close> show "list_all plain_chunk (dim_chunks d)"
    by (auto simp: dim_chunks_def d Let_def plain_chunk_def list_all_iff)
  show "dim_chunks d \<noteq> []" by (simp add: dim_chunks_def d Let_def)
qed

lemma print_hint_chunks:
  assumes "list_all clean_dim ds"
  shows "print_hint ds = join_with '','' (map chunk_text (concat (map dim_chunks ds)))"
proof -
  have "print_dim d = join_with '','' (map chunk_text (dim_chunks d))" if "d \<in> set ds" for d
    using that assms print_dim_chunks by (auto simp: list_all_iff clean_dim_def)
  then have "map print_dim ds = map (join_with '','') (map (map chunk_text) (map dim_chunks ds))"
    by simp
  moreover have "\<forall>x \<in> set (map (map chunk_text) (map dim_chunks ds)). x \<noteq> []"
    using assms dim_chunks_plain(2) by (auto simp: list_all_iff)
  ultimately show ?thesis
    unfolding print_hint_def map_concat by (simp only: join_with_concat)
qed

text \<open>C5. Printing a list of dimensions in the header syntax, with any number of comma-separated
  values each and the strongest modifier on the last value, and parsing the text with the
  legacy parser gives back exactly those dimensions.\<close>

theorem legacy_roundtrip:
  assumes "ds \<noteq> []" and "list_all clean_dim ds"
  shows "parse_hint_legacy (print_hint ds) =
    Some \<lparr>raw = print_hint ds, dimensions = map spec_dimension ds\<rparr>"
proof -
  let ?xs = "concat (map dim_chunks ds)"
  have "?xs \<noteq> []" using assms dim_chunks_plain(2) by (cases ds) auto
  moreover have "list_all plain_chunk ?xs"
    using assms(2) dim_chunks_plain(1) by (auto simp: list_all_iff)
  ultimately have "map prescan (chunks_of_header (print_hint ds)) = ?xs"
    using prescan_chunks print_hint_chunks [OF assms(2)] by simp
  moreover have "foldl merge_chunk [] ?xs = map (\<lambda>(k, vs, r, s). (k, join_with '','' vs, r, s)) ds"
    using merge_dims [OF assms(2), of "[]"] by simp
  moreover have "map to_dimension (map (\<lambda>(k, vs, r, s). (k, join_with '','' vs, r, s)) ds) =
      map spec_dimension ds"
    by (auto simp: to_dimension_def spec_dimension_def split: prod.splits)
  ultimately show ?thesis using assms(1) by (simp only: parse_hint_legacy_def Let_def) simp
qed

theorem legacy_roundtrip_witness:
  "parse_hint_legacy ''task=code,region=eu,us;sovereign'' =
     Some \<lparr>raw = ''task=code,region=eu,us;sovereign'',
       dimensions =
         [\<lparr>dim_key = ''task'', dim_value = ''code'', required = False, sovereign = False\<rparr>,
          \<lparr>dim_key = ''region'', dim_value = ''eu,us'', required = True, sovereign = True\<rparr>]\<rparr>"
proof -
  let ?ds = "[(''task'', [''code''], False, False), (''region'', [''eu'', ''us''], True, True)]"
  have "list_all clean_dim ?ds" by code_simp
  then show ?thesis
    using legacy_roundtrip [of ?ds] by (simp add: print_hint_def print_dim_def spec_dimension_def modifier_text_def)
qed

text \<open>The library absent, as when the import of \<^verbatim>\<open>http_sfv\<close> fails.\<close>

definition no_sfv :: sfv_library where
  "no_sfv h = None"

theorem parsed_sovereign_required_witness:
  "let h = ''task=code,region=eu;sovereign'' in
   \<exists>hint. parse_hint no_sfv (Some h) = Some hint \<and> dimensions hint \<noteq> [] \<and>
     (\<forall>d \<in> set (dimensions hint). sovereign d \<longrightarrow> required d)"
proof -
  have "parse_hint no_sfv (Some ''task=code,region=eu;sovereign'') \<noteq> None" by code_simp
  then show ?thesis using parsed_sovereign_required by (auto simp: Let_def)
qed

end
