(* ===== verification/Lmrh_Score.thy ===== *)
theory Lmrh_Score
  imports Lmrh_Parse
begin

text \<open>
  Scoring and ranking of candidates against a parsed hint (\<^verbatim>\<open>app/routing/lmrh/score.py\<close>).

  The body of the \<^verbatim>\<open>match\<close> statement for one dimension is \<open>dim_verdict\<close>: it rejects the
  candidate (the source returns minus infinity), or adds a number to the score and says whether
  the dimension's key goes to the unmet list. \<open>int()\<close> on a header value that is not a number
  raises \<open>ValueError\<close>, which nothing catches: the whole ranking is an \<open>Inl\<close>.
\<close>

section \<open>Provider families\<close>

definition PROVIDER_FAMILY_TYPES :: "(string \<times> string list) list" where
  "PROVIDER_FAMILY_TYPES =
     [(''anthropic'', [''anthropic'', ''anthropic-direct'', ''anthropic-oauth'', ''claude-oauth'']),
      (''openai'', [''openai'', ''openai-direct'', ''chatgpt-oauth-plan'']),
      (''google'', [''vertex_ai'', ''google-genai'', ''gemini'']),
      (''microsoft'', [''azure'']), (''azure'', [''azure'']),
      (''cohere'', [''cohere'']), (''grok'', [''grok''])]"

definition provider_hint_match :: "string \<Rightarrow> string \<Rightarrow> string \<Rightarrow> bool" where
  "provider_hint_match token pn pt =
     (let t = lower (strip token) in
      if t = [] then False
      else if t = lower pn \<or> t = lower pt then True
      else (case map_of PROVIDER_FAMILY_TYPES t of
              None \<Rightarrow> False
            | Some types \<Rightarrow> lower pt \<in> set types))"

section \<open>One dimension\<close>

datatype verdict = Reject | Count rat bool

definition grade :: "rat \<Rightarrow> hint_dimension \<Rightarrow> bool \<Rightarrow> verdict" where
  "grade w d ok = (if ok then Count w False else if required d then Reject else Count 0 True)"

text \<open>The non-empty comma-separated values, stripped.\<close>

definition csv_values :: "string \<Rightarrow> string list" where
  "csv_values v = filter (\<lambda>x. x \<noteq> []) (map strip (split_on (CHR '','') v))"

definition region_wanted :: "string \<Rightarrow> string list" where
  "region_wanted v = filter (\<lambda>x. x \<noteq> ''any'' \<and> x \<noteq> ''*'') (map lower (csv_values v))"

definition region_matched :: "string list \<Rightarrow> string list \<Rightarrow> bool" where
  "region_matched wanted prs =
     (list_ex (\<lambda>w. w \<in> set prs) wanted \<or>
      list_ex (\<lambda>w. list_ex (\<lambda>pr. prefix (w @ ''-'') pr) prs) wanted)"

definition region_verdict :: "capability_profile \<Rightarrow> hint_dimension \<Rightarrow> verdict" where
  "region_verdict p d =
     (if regions p = []
      then (if sovereign d then Reject else Count (weight ''region'') False)
      else if region_wanted (dim_value d) = [] then Count (weight ''region'') False
      else grade (weight ''region'') d
             (region_matched (region_wanted (dim_value d)) (map lower (regions p))))"

definition exclude_verdict :: "capability_profile \<Rightarrow> hint_dimension \<Rightarrow> verdict" where
  "exclude_verdict p d =
     (let excluded = map lower (csv_values (dim_value d)) in
      if lower (prof_provider_name p) \<in> set excluded \<or> lower (prof_provider_type p) \<in> set excluded
      then (if required d then Reject else Count (- weight ''exclude'') True)
      else Count 0 False)"

definition TIER_USD :: "(string \<times> rat) list" where
  "TIER_USD = [(''economy'', 1 / 500), (''standard'', 1 / 100), (''premium'', 1 / 20)]"

definition float_or_zero :: "string \<Rightarrow> pyfloat" where
  "float_or_zero s = (case py_float s of Inl _ \<Rightarrow> Fin 0 | Inr x \<Rightarrow> x)"

definition refusal_verdict :: "capability_profile \<Rightarrow> hint_dimension \<Rightarrow> verdict" where
  "refusal_verdict p d =
     (case map_of REFUSAL_RATE_TO_SAFETY_CEIL (lower (dim_value d)) of
        None \<Rightarrow> Count 0 True
      | Some c \<Rightarrow> grade (weight ''safety-max'') d (safety p \<le> c))"

definition tolerance_verdict :: "capability_profile \<Rightarrow> hint_dimension \<Rightarrow> verdict" where
  "tolerance_verdict p d =
     (case (map_of REFUSE_TOLERANCE_TO_SAFETY_FLOOR (lower (dim_value d)),
            map_of REFUSE_TOLERANCE_TO_SAFETY_CEIL (lower (dim_value d))) of
        (Some f, Some c) \<Rightarrow> grade (weight ''refuse-tolerance'') d (f \<le> safety p \<and> safety p \<le> c)
      | _ \<Rightarrow> Count 0 True)"

definition dim_verdict :: "capability_profile \<Rightarrow> hint_dimension \<Rightarrow> py_error + verdict" where
  "dim_verdict p d =
     (let k = dim_key d; v = dim_value d in
      if k = ''task'' then
        Inr (grade (weight ''task'') d
          (list_ex (\<lambda>t. t \<in> set (tasks p)) (get_or TASK_ALIASES v [v])))
      else if k = ''safety-min'' then
        map_result (\<lambda>n. grade (weight ''safety-min'') d (n \<le> safety p)) (py_int v)
      else if k = ''safety-max'' then
        map_result (\<lambda>n. grade (weight ''safety-max'') d (safety p \<le> n)) (py_int v)
      else if k = ''latency'' then
        Inr (grade (weight ''latency'') d
          (get_or LATENCY_RANK (latency p) 1 \<le> get_or LATENCY_RANK v 1))
      else if k = ''cost'' then
        Inr (grade (weight ''cost'') d
          (get_or COST_RANK (cost_tier p) 1 \<le> get_or COST_RANK v 1))
      else if k = ''region'' then Inr (region_verdict p d)
      else if k = ''context-length'' then
        map_result (\<lambda>n. grade (weight ''context-length'') d (n \<le> context_length p)) (py_int v)
      else if k = ''modality'' then
        Inr (grade (weight ''modality'') d
          (v \<in> set (modalities p) \<or> ''multimodal'' \<in> set (modalities p)))
      else if k = ''max-ttft'' then
        Inr (grade (weight ''latency'') d
          (avg_ttft_ms p = 0 \<or> le_float (avg_ttft_ms p) (float_or_zero v)))
      else if k = ''max-cost-per-1k'' then
        Inr (grade (weight ''cost'') d
          (le_float (get_or TIER_USD (cost_tier p) (1 / 100)) (float_or_zero v)))
      else if k \<in> {''effort'', ''cascade'', ''hedge'', ''tenant'', ''freshness''} then
        Inr (Count 0 False)
      else if k = ''exclude'' then Inr (exclude_verdict p d)
      else if k = ''provider-hint'' \<or> k = ''fallback-chain'' then
        Inr (grade (weight ''provider-hint'') d
          (list_ex (\<lambda>w. provider_hint_match w (prof_provider_name p) (prof_provider_type p))
            (csv_values v)))
      else if k = ''refusal-rate'' then Inr (refusal_verdict p d)
      else if k = ''refuse-tolerance'' then Inr (tolerance_verdict p d)
      else Inr (Count 0 False))"

section \<open>The score of a candidate\<close>

text \<open>The loop over the dimensions: \<open>None\<close> is minus infinity.\<close>

fun score_dims ::
  "capability_profile \<Rightarrow> hint_dimension list \<Rightarrow> rat \<Rightarrow> string list \<Rightarrow>
   py_error + (rat option \<times> string list)" where
  "score_dims p [] score unmet = Inr (Some score, unmet)"
| "score_dims p (d # ds) score unmet =
     bind_result (dim_verdict p d) (\<lambda>v.
       case v of
         Reject \<Rightarrow> Inr (None, [dim_key d])
       | Count w missed \<Rightarrow>
           score_dims p ds (score + w) (if missed then unmet @ [dim_key d] else unmet))"

definition base_score :: "capability_profile \<Rightarrow> rat" where
  "base_score p =
     (if avg_ttft_ms p > 0 then 5 * max 0 (1 - avg_ttft_ms p / 3000) else 0)
     - (if over_daily_budget p then 50 else 0)
     + of_int (max 0 (100 - prof_priority p))"

definition score_candidate ::
  "capability_profile \<Rightarrow> lmrh_hint \<Rightarrow> py_error + (rat option \<times> string list)" where
  "score_candidate p hint =
     map_result (\<lambda>(s, unmet). (map_option (\<lambda>x. x + base_score p) s, unmet))
       (score_dims p (dimensions hint) 0 [])"

section \<open>Ranking\<close>

type_synonym scored = "capability_profile \<times> string list \<times> rat"

fun score_all :: "capability_profile list \<Rightarrow> lmrh_hint \<Rightarrow> py_error + scored list" where
  "score_all [] hint = Inr []"
| "score_all (p # ps) hint =
     bind_result (score_candidate p hint) (\<lambda>(s, unmet).
       map_result (\<lambda>rest. case s of None \<Rightarrow> rest | Some x \<Rightarrow> (p, unmet, x) # rest)
         (score_all ps hint))"

definition score_of :: "scored \<Rightarrow> rat" where
  "score_of x = snd (snd x)"

definition rank_candidates_with_scores ::
  "capability_profile list \<Rightarrow> lmrh_hint option \<Rightarrow> py_error + scored list" where
  "rank_candidates_with_scores ps hint =
     (case hint of
        None \<Rightarrow> Inr (map (\<lambda>p. (p, [], of_int (1000 - prof_priority p))) (sort_key prof_priority ps))
      | Some h \<Rightarrow> map_result (sort_key (\<lambda>x. - score_of x)) (score_all ps h))"

definition rank_candidates ::
  "capability_profile list \<Rightarrow> lmrh_hint option \<Rightarrow>
   py_error + (capability_profile \<times> string list) list" where
  "rank_candidates ps hint =
     (case hint of
        None \<Rightarrow> Inr (map (\<lambda>p. (p, [])) (sort_key prof_priority ps))
      | Some h \<Rightarrow> map_result (\<lambda>xs. map (\<lambda>(p, u, s). (p, u)) (sort_key (\<lambda>x. - score_of x) xs))
                   (score_all ps h))"

section \<open>What a hard requirement promises\<close>

text \<open>The test of each dimension as a proposition.\<close>

definition passes :: "capability_profile \<Rightarrow> hint_dimension \<Rightarrow> bool" where
  "passes p d =
     (let k = dim_key d; v = dim_value d in
      if k = ''task'' then \<exists>t \<in> set (get_or TASK_ALIASES v [v]). t \<in> set (tasks p)
      else if k = ''safety-min'' then \<exists>n. py_int v = Inr n \<and> n \<le> safety p
      else if k = ''safety-max'' then \<exists>n. py_int v = Inr n \<and> safety p \<le> n
      else if k = ''latency'' then get_or LATENCY_RANK (latency p) 1 \<le> get_or LATENCY_RANK v 1
      else if k = ''cost'' then get_or COST_RANK (cost_tier p) 1 \<le> get_or COST_RANK v 1
      else if k = ''region'' then
        (if regions p = [] then \<not> sovereign d
         else region_wanted v = [] \<or>
           (\<exists>w \<in> set (region_wanted v). \<exists>r \<in> set (regions p). lower r = w \<or> prefix (w @ ''-'') (lower r)))
      else if k = ''context-length'' then \<exists>n. py_int v = Inr n \<and> n \<le> context_length p
      else if k = ''modality'' then v \<in> set (modalities p) \<or> ''multimodal'' \<in> set (modalities p)
      else if k = ''max-ttft'' then avg_ttft_ms p = 0 \<or> le_float (avg_ttft_ms p) (float_or_zero v)
      else if k = ''max-cost-per-1k'' then
        le_float (get_or TIER_USD (cost_tier p) (1 / 100)) (float_or_zero v)
      else if k = ''exclude'' then
        \<forall>n \<in> set (csv_values v). lower n \<noteq> lower (prof_provider_name p) \<and> lower n \<noteq> lower (prof_provider_type p)
      else if k = ''provider-hint'' \<or> k = ''fallback-chain'' then
        \<exists>w \<in> set (csv_values v). provider_hint_match w (prof_provider_name p) (prof_provider_type p)
      else if k = ''refusal-rate'' then
        \<forall>c. map_of REFUSAL_RATE_TO_SAFETY_CEIL (lower v) = Some c \<longrightarrow> safety p \<le> c
      else if k = ''refuse-tolerance'' then
        \<forall>f c. map_of REFUSE_TOLERANCE_TO_SAFETY_FLOOR (lower v) = Some f \<longrightarrow>
          map_of REFUSE_TOLERANCE_TO_SAFETY_CEIL (lower v) = Some c \<longrightarrow> f \<le> safety p \<and> safety p \<le> c
      else True)"

lemma grade_Reject: "grade w d ok = Reject \<longleftrightarrow> required d \<and> \<not> ok"
  by (simp add: grade_def)

lemma region_verdict_Reject:
  "sovereign d \<longrightarrow> required d \<Longrightarrow>
   region_verdict p d = Reject \<longleftrightarrow> required d \<and>
     \<not> (if regions p = [] then \<not> sovereign d
         else region_wanted (dim_value d) = [] \<or>
           (\<exists>w \<in> set (region_wanted (dim_value d)). \<exists>r \<in> set (regions p).
              lower r = w \<or> prefix (w @ ''-'') (lower r)))"
  by (auto simp: region_verdict_def grade_Reject region_matched_def list_ex_iff image_iff)

lemma exclude_verdict_Reject:
  "exclude_verdict p d = Reject \<longleftrightarrow> required d \<and>
     \<not> (\<forall>n \<in> set (csv_values (dim_value d)).
          lower n \<noteq> lower (prof_provider_name p) \<and> lower n \<noteq> lower (prof_provider_type p))"
  by (auto simp: exclude_verdict_def Let_def image_iff)

lemma refusal_verdict_Reject:
  "refusal_verdict p d = Reject \<longleftrightarrow> required d \<and>
     \<not> (\<forall>c. map_of REFUSAL_RATE_TO_SAFETY_CEIL (lower (dim_value d)) = Some c \<longrightarrow> safety p \<le> c)"
  by (cases "map_of REFUSAL_RATE_TO_SAFETY_CEIL (lower (dim_value d))")
    (simp_all add: refusal_verdict_def grade_Reject)

lemma tolerance_verdict_Reject:
  "tolerance_verdict p d = Reject \<longleftrightarrow> required d \<and>
     \<not> (\<forall>f c. map_of REFUSE_TOLERANCE_TO_SAFETY_FLOOR (lower (dim_value d)) = Some f \<longrightarrow>
          map_of REFUSE_TOLERANCE_TO_SAFETY_CEIL (lower (dim_value d)) = Some c \<longrightarrow>
          f \<le> safety p \<and> safety p \<le> c)"
  by (cases "map_of REFUSE_TOLERANCE_TO_SAFETY_FLOOR (lower (dim_value d))";
      cases "map_of REFUSE_TOLERANCE_TO_SAFETY_CEIL (lower (dim_value d))")
    (simp_all add: tolerance_verdict_def grade_Reject)

definition graded_keys :: "string list" where
  "graded_keys =
     [''task'', ''safety-min'', ''safety-max'', ''latency'', ''cost'', ''region'', ''context-length'',
      ''modality'', ''max-ttft'', ''max-cost-per-1k'', ''exclude'', ''provider-hint'',
      ''fallback-chain'', ''refusal-rate'', ''refuse-tolerance'']"

lemma graded_key_cases:
  obtains "k = ''task''" | "k = ''safety-min''" | "k = ''safety-max''" | "k = ''latency''"
    | "k = ''cost''" | "k = ''region''" | "k = ''context-length''" | "k = ''modality''"
    | "k = ''max-ttft''" | "k = ''max-cost-per-1k''" | "k = ''exclude''" | "k = ''provider-hint''"
    | "k = ''fallback-chain''" | "k = ''refusal-rate''" | "k = ''refuse-tolerance''"
    | "k \<notin> set graded_keys"
  by (simp add: graded_keys_def) blast

lemma dim_verdict_Reject:
  assumes v: "dim_verdict p d = Inr v" and s: "sovereign d \<longrightarrow> required d"
  shows "v = Reject \<longleftrightarrow> required d \<and> \<not> passes p d"
proof -
  note defs = dim_verdict_def passes_def Let_def
  show ?thesis
    using v
  proof (cases "dim_key d" rule: graded_key_cases)
    case 6
    with v show ?thesis using region_verdict_Reject [OF s, of p] by (simp add: defs)
  next
    case 11
    with v show ?thesis using exclude_verdict_Reject [of p d] by (simp add: defs)
  next
    case 14
    with v show ?thesis using refusal_verdict_Reject [of p d] by (simp add: defs)
  next
    case 15
    with v show ?thesis using tolerance_verdict_Reject [of p d] by (simp add: defs)
  next
    case 16
    with v show ?thesis by (auto simp: defs graded_keys_def split: if_splits)
  qed (auto simp: defs grade_Reject list_ex_iff result_iff)
qed

lemma grade_met: "grade w d ok = Count x False \<longleftrightarrow> ok \<and> x = w"
  by (auto simp: grade_def)

lemma region_verdict_met:
  "region_verdict p d = Count x False \<Longrightarrow>
   (if regions p = [] then \<not> sovereign d
    else region_wanted (dim_value d) = [] \<or>
      (\<exists>w \<in> set (region_wanted (dim_value d)). \<exists>r \<in> set (regions p).
         lower r = w \<or> prefix (w @ ''-'') (lower r)))"
  by (auto simp: region_verdict_def grade_met region_matched_def list_ex_iff split: if_splits)

lemma exclude_verdict_met:
  "exclude_verdict p d = Count x False \<Longrightarrow>
   \<forall>n \<in> set (csv_values (dim_value d)).
     lower n \<noteq> lower (prof_provider_name p) \<and> lower n \<noteq> lower (prof_provider_type p)"
  by (auto simp: exclude_verdict_def Let_def image_iff split: if_splits)

lemma refusal_verdict_met:
  "refusal_verdict p d = Count x False \<Longrightarrow>
   map_of REFUSAL_RATE_TO_SAFETY_CEIL (lower (dim_value d)) = Some c \<Longrightarrow> safety p \<le> c"
  by (simp add: refusal_verdict_def grade_met)

lemma tolerance_verdict_met:
  "tolerance_verdict p d = Count x False \<Longrightarrow>
   map_of REFUSE_TOLERANCE_TO_SAFETY_FLOOR (lower (dim_value d)) = Some f \<Longrightarrow>
   map_of REFUSE_TOLERANCE_TO_SAFETY_CEIL (lower (dim_value d)) = Some c \<Longrightarrow>
   f \<le> safety p \<and> safety p \<le> c"
  by (simp add: tolerance_verdict_def grade_met)

lemma dim_verdict_met:
  assumes v: "dim_verdict p d = Inr (Count x False)"
  shows "passes p d"
proof -
  note defs = dim_verdict_def passes_def Let_def
  show ?thesis
    using v
  proof (cases "dim_key d" rule: graded_key_cases)
    case 6
    with v show ?thesis using region_verdict_met [of p d x] by (simp add: defs)
  next
    case 11
    with v show ?thesis using exclude_verdict_met [of p d x] by (simp add: defs)
  next
    case 14
    with v show ?thesis using refusal_verdict_met [of p d x] by (simp add: defs)
  next
    case 15
    with v show ?thesis using tolerance_verdict_met [of p d x] by (simp add: defs)
  next
    case 16
    then show ?thesis by (simp add: defs graded_keys_def)
  qed (auto simp: defs grade_met list_ex_iff result_iff)
qed

section \<open>The score, taken apart\<close>

definition gain :: "capability_profile \<Rightarrow> hint_dimension \<Rightarrow> rat" where
  "gain p d = (case dim_verdict p d of Inr (Count w m) \<Rightarrow> w | _ \<Rightarrow> 0)"

definition missed :: "capability_profile \<Rightarrow> hint_dimension \<Rightarrow> bool" where
  "missed p d = (case dim_verdict p d of Inr (Count w m) \<Rightarrow> m | _ \<Rightarrow> False)"

definition counted :: "capability_profile \<Rightarrow> hint_dimension \<Rightarrow> bool" where
  "counted p d \<longleftrightarrow> (\<exists>w m. dim_verdict p d = Inr (Count w m))"

lemma score_dims_Some:
  "score_dims p ds s u = Inr (Some t, u') \<longleftrightarrow>
     (\<forall>d \<in> set ds. counted p d) \<and> t = s + sum_list (map (gain p) ds) \<and>
     u' = u @ map dim_key (filter (missed p) ds)"
proof (induction ds arbitrary: s u)
  case (Cons d ds)
  show ?case
  proof (cases "dim_verdict p d")
    case (Inr v)
    then show ?thesis
      by (cases v) (auto simp: Cons.IH gain_def missed_def counted_def)
  qed (simp add: counted_def)
qed auto

lemma score_dims_None:
  "score_dims p ds s u = Inr (None, u') \<Longrightarrow> \<exists>d \<in> set ds. dim_verdict p d = Inr Reject"
proof (induction ds arbitrary: s u)
  case (Cons d ds)
  show ?case
  proof (cases "dim_verdict p d")
    case (Inr v)
    with Cons show ?thesis by (cases v) auto
  qed (use Cons.prems in simp)
qed simp

lemma score_candidate_Some:
  "score_candidate p h = Inr (Some s, u) \<longleftrightarrow>
     (\<forall>d \<in> set (dimensions h). counted p d) \<and>
     s = sum_list (map (gain p) (dimensions h)) + base_score p \<and>
     u = map dim_key (filter (missed p) (dimensions h))"
proof -
  have "score_candidate p h = Inr (Some s, u) \<longleftrightarrow>
      (\<exists>t. score_dims p (dimensions h) 0 [] = Inr (Some t, u) \<and> s = t + base_score p)"
    by (auto simp: score_candidate_def result_iff)
  then show ?thesis by (auto simp: score_dims_Some)
qed

lemma score_candidate_None:
  "score_candidate p h = Inr (None, u) \<Longrightarrow> \<exists>d \<in> set (dimensions h). dim_verdict p d = Inr Reject"
  by (auto simp: score_candidate_def result_iff dest: score_dims_None)

definition sovereign_required :: "lmrh_hint \<Rightarrow> bool" where
  "sovereign_required h \<longleftrightarrow> (\<forall>d \<in> set (dimensions h). sovereign d \<longrightarrow> required d)"

subsection \<open>The protocol\<close>

text \<open>What the LMRH documents ask of a candidate (\<^verbatim>\<open>docs/draft-blagbrough-lmrh-00.md\<close>,
  \<^verbatim>\<open>docs/lmrh-1.2-region-pinning.md\<close>; for \<open>refuse-tolerance\<close>, which they do not have, the comment in
  \<^verbatim>\<open>app/routing/lmrh/types.py\<close>): a task of a compatible class, a safety integer within the stated bounds or
  band, a tier no slower or dearer than the one named, all modalities of a list, one region of a list or
  a region below it, no excluded provider and one of the hinted ones, by name or type and regardless of
  case. A class that is not registered counts as the middle one, a band that is not registered binds nothing.\<close>

definition task_serves :: "string \<Rightarrow> string \<Rightarrow> bool" where
  "task_serves wanted offered \<longleftrightarrow> offered = wanted \<or>
     (wanted, offered) \<in> {(''reasoning'', ''analysis''), (''reasoning'', ''code''), (''analysis'', ''reasoning''),
       (''code'', ''reasoning''), (''creative'', ''chat'')}"

definition tier_position :: "string list \<Rightarrow> string \<Rightarrow> nat" where
  "tier_position names v = (if v \<in> set names then length (takeWhile (\<lambda>n. n \<noteq> v) names) else 1)"

definition REFUSAL_BANDS :: "(string \<times> int \<times> int) list" where
  "REFUSAL_BANDS = [(''permissive'', 1, 2), (''standard'', 2, 3), (''strict'', 3, 4), (''maximum'', 4, 5)]"

definition TOLERANCE_BANDS :: "(string \<times> int \<times> int) list" where
  "TOLERANCE_BANDS = [(''strict'', 4, 5), (''default'', 2, 4), (''lenient'', 1, 2)]"

definition in_band :: "(string \<times> int \<times> int) list \<Rightarrow> string \<Rightarrow> int \<Rightarrow> bool" where
  "in_band bands v n = (case map_of bands (lower v) of None \<Rightarrow> True | Some (lo, hi) \<Rightarrow> lo \<le> n \<and> n \<le> hi)"

definition below_band :: "(string \<times> int \<times> int) list \<Rightarrow> string \<Rightarrow> int \<Rightarrow> bool" where
  "below_band bands v n = (case map_of bands (lower v) of None \<Rightarrow> False | Some (lo, hi) \<Rightarrow> n < lo)"

definition serves_region :: "capability_profile \<Rightarrow> string \<Rightarrow> bool" where
  "serves_region p w = list_ex (\<lambda>r. lower r = w \<or> prefix (w @ ''-'') (lower r)) (regions p)"

definition any_region :: "string \<Rightarrow> bool" where
  "any_region v \<longleftrightarrow> csv_values v = [] \<or> list_ex (\<lambda>w. lower w = ''any'' \<or> lower w = ''*'') (csv_values v)"

definition names_provider :: "capability_profile \<Rightarrow> string \<Rightarrow> bool" where
  "names_provider p w \<longleftrightarrow> lower w = lower (prof_provider_name p) \<or> lower w = lower (prof_provider_type p)"

definition honours :: "capability_profile \<Rightarrow> hint_dimension \<Rightarrow> bool" where
  "honours p d =
     (let k = dim_key d; v = dim_value d in
      if k = ''task'' then list_ex (task_serves v) (tasks p)
      else if k = ''safety-min'' then (case py_int v of Inr n \<Rightarrow> n \<le> safety p | Inl _ \<Rightarrow> False)
      else if k = ''safety-max'' then (case py_int v of Inr n \<Rightarrow> safety p \<le> n | Inl _ \<Rightarrow> False)
      else if k = ''refusal-rate'' then in_band REFUSAL_BANDS v (safety p)
      else if k = ''refuse-tolerance'' then in_band TOLERANCE_BANDS v (safety p)
      else if k = ''latency''
      then tier_position [''low'', ''medium'', ''high''] (latency p) \<le> tier_position [''low'', ''medium'', ''high''] v
      else if k = ''cost''
      then tier_position [''economy'', ''standard'', ''premium''] (cost_tier p) \<le> tier_position [''economy'', ''standard'', ''premium''] v
      else if k = ''modality'' then set (csv_values v) \<subseteq> set (modalities p)
      else if k = ''region'' then any_region v \<or> list_ex (\<lambda>w. serves_region p (lower w)) (csv_values v)
      else if k = ''context-length'' then (case py_int v of Inr n \<Rightarrow> n \<le> context_length p | Inl _ \<Rightarrow> False)
      else if k = ''max-ttft'' then avg_ttft_ms p \<noteq> 0 \<longrightarrow> le_float (avg_ttft_ms p) (float_or_zero v)
      else if k = ''max-cost-per-1k'' then le_float (get_or TIER_USD (cost_tier p) (1 / 100)) (float_or_zero v)
      else if k = ''exclude'' then \<not> list_ex (names_provider p) (csv_values v)
      else if k = ''provider-hint'' \<or> k = ''fallback-chain'' then list_ex (names_provider p) (csv_values v)
      else True)"

text \<open>Where the scorer lets a candidate pass that the protocol does not: a candidate without regions unless
  the hint is sovereign, one below the band of a refusal rate, one that calls itself \<open>multimodal\<close> or lists the
  whole value as a modality, and one of a family named in a provider hint.\<close>

definition waived :: "capability_profile \<Rightarrow> hint_dimension \<Rightarrow> bool" where
  "waived p d =
     (let k = dim_key d; v = dim_value d in
      k = ''region'' \<and> regions p = [] \<and> \<not> sovereign d \<or>
      k = ''refusal-rate'' \<and> below_band REFUSAL_BANDS v (safety p) \<or>
      k = ''modality'' \<and> (''multimodal'' \<in> set (modalities p) \<or> v \<in> set (modalities p)) \<or>
      (k = ''provider-hint'' \<or> k = ''fallback-chain'') \<and>
        list_ex (\<lambda>w. lower (prof_provider_type p) \<in> set (get_or PROVIDER_FAMILY_TYPES (lower w) [])) (csv_values v))"

text \<open>Where it turns a candidate away that the protocol accepts: a list of modalities, which it compares as one
  text, and a list of regions that names \<open>any\<close> besides others, or \<open>any\<close> with a sovereign hint and no regions.\<close>

definition overruled :: "capability_profile \<Rightarrow> hint_dimension \<Rightarrow> bool" where
  "overruled p d =
     (let k = dim_key d; v = dim_value d in
      k = ''modality'' \<and> csv_values v \<noteq> [v] \<and> v \<notin> set (modalities p) \<and> ''multimodal'' \<notin> set (modalities p) \<or>
      k = ''region'' \<and> any_region v \<and>
        (if regions p = [] then sovereign d
         else region_wanted v \<noteq> [] \<and> \<not> list_ex (serves_region p) (region_wanted v)))"

definition met :: "capability_profile \<Rightarrow> hint_dimension \<Rightarrow> bool" where
  "met p d \<longleftrightarrow> (honours p d \<or> waived p d) \<and> \<not> overruled p d"

definition eligible :: "lmrh_hint \<Rightarrow> capability_profile \<Rightarrow> bool" where
  "eligible h p \<longleftrightarrow> (\<forall>d \<in> set (dimensions h). required d \<longrightarrow> met p d)"

subsection \<open>The scorer tests the protocol, up to the deviations\<close>

lemma task_met: "(\<exists>t \<in> set (get_or TASK_ALIASES v [v]). t \<in> set ts) \<longleftrightarrow> list_ex (task_serves v) ts"
proof -
  have "t \<in> set (get_or TASK_ALIASES v [v]) \<longleftrightarrow> task_serves v t" for t
    by (auto simp: get_or_def TASK_ALIASES_def task_serves_def)
  then show ?thesis by (auto simp: list_ex_iff)
qed

lemma latency_position: "get_or LATENCY_RANK v 1 = int (tier_position [''low'', ''medium'', ''high''] v)"
  by (auto simp: get_or_def LATENCY_RANK_def tier_position_def)

lemma cost_position: "get_or COST_RANK v 1 = int (tier_position [''economy'', ''standard'', ''premium''] v)"
  by (auto simp: get_or_def COST_RANK_def tier_position_def)

lemma refusal_ceil: "map_of REFUSAL_RATE_TO_SAFETY_CEIL v = map_option snd (map_of REFUSAL_BANDS v)"
  by (simp add: REFUSAL_RATE_TO_SAFETY_CEIL_def REFUSAL_BANDS_def)

lemma refusal_bands_ordered: "map_of REFUSAL_BANDS v = Some (lo, hi) \<Longrightarrow> lo \<le> hi"
  by (drule map_of_SomeD) (auto simp: REFUSAL_BANDS_def)

lemma refusal_met:
  "(\<forall>c. map_of REFUSAL_RATE_TO_SAFETY_CEIL (lower v) = Some c \<longrightarrow> n \<le> c) \<longleftrightarrow>
   in_band REFUSAL_BANDS v n \<or> below_band REFUSAL_BANDS v n"
  using refusal_bands_ordered [of "lower v"]
  by (force simp: refusal_ceil in_band_def below_band_def split: option.splits)

lemma tolerance_bounds:
  "map_of REFUSE_TOLERANCE_TO_SAFETY_FLOOR v = map_option fst (map_of TOLERANCE_BANDS v)"
  "map_of REFUSE_TOLERANCE_TO_SAFETY_CEIL v = map_option snd (map_of TOLERANCE_BANDS v)"
  by (simp_all add: REFUSE_TOLERANCE_TO_SAFETY_FLOOR_def REFUSE_TOLERANCE_TO_SAFETY_CEIL_def TOLERANCE_BANDS_def)

lemma tolerance_met:
  "(\<forall>f c. map_of REFUSE_TOLERANCE_TO_SAFETY_FLOOR (lower v) = Some f \<longrightarrow>
      map_of REFUSE_TOLERANCE_TO_SAFETY_CEIL (lower v) = Some c \<longrightarrow> f \<le> n \<and> n \<le> c) \<longleftrightarrow> in_band TOLERANCE_BANDS v n"
  by (auto simp: tolerance_bounds in_band_def split: option.splits)

lemma wanted_regions:
  "set (region_wanted v) = {lower w | w. w \<in> set (csv_values v) \<and> lower w \<noteq> ''any'' \<and> lower w \<noteq> ''*''}"
  by (auto simp: region_wanted_def)

lemma region_met:
  assumes "dim_key d = ''region''"
  shows "met p d \<longleftrightarrow>
    (if regions p = [] then \<not> sovereign d
     else region_wanted (dim_value d) = [] \<or> list_ex (serves_region p) (region_wanted (dim_value d)))"
proof -
  let ?v = "dim_value d"
  have honoured: "honours p d \<longleftrightarrow> any_region ?v \<or> list_ex (serves_region p) (region_wanted ?v)"
    using assms by (auto simp: honours_def Let_def any_region_def list_ex_iff wanted_regions)
  have "region_wanted ?v = [] \<Longrightarrow> any_region ?v"
    by (cases "csv_values ?v") (auto simp: any_region_def region_wanted_def split: if_splits)
  moreover have "regions p = [] \<Longrightarrow> \<not> list_ex (serves_region p) ws" for ws
    by (induction ws) (auto simp: serves_region_def)
  ultimately show ?thesis
    using assms by (auto simp: met_def honoured waived_def overruled_def)
qed

lemma strip_strip: "strip (strip s) = strip s"
proof (rule strip_id, rule disjCI)
  let ?u = "dropWhile is_space s"
  let ?v = "dropWhile is_space (rev ?u)"
  assume "\<not> (\<not> is_space (hd (strip s)) \<and> \<not> is_space (last (strip s)))"
  moreover have "\<not> is_space (hd ?v) \<and> \<not> is_space (last ?v)" if "?v \<noteq> []"
  proof -
    have "last ?v = last (rev ?u)" using that by (metis append_is_Nil_conv last_appendR takeWhile_dropWhile_id)
    moreover have "?u \<noteq> []" using that by (metis dropWhile.simps(1) rev.simps(1))
    ultimately show ?thesis using that hd_dropWhile [of is_space s] hd_dropWhile [of is_space "rev ?u"] by (simp add: last_rev)
  qed
  ultimately show "strip s = []" by (auto simp: strip_def hd_rev last_rev)
qed

lemma strip_csv: "w \<in> set (csv_values v) \<Longrightarrow> strip w = w \<and> w \<noteq> []"
  by (auto simp: csv_values_def strip_strip)

lemma hint_match_iff:
  assumes "w \<in> set (csv_values v)"
  shows "provider_hint_match w (prof_provider_name p) (prof_provider_type p) \<longleftrightarrow>
    names_provider p w \<or> lower (prof_provider_type p) \<in> set (get_or PROVIDER_FAMILY_TYPES (lower w) [])"
  using strip_csv [OF assms]
  by (auto simp: provider_hint_match_def names_provider_def get_or_def Let_def lower_def split: option.splits)

lemma met_iff_passes: "met p d \<longleftrightarrow> passes p d"
proof -
  note defs = met_def honours_def waived_def overruled_def passes_def Let_def
  show ?thesis
  proof (cases "dim_key d" rule: graded_key_cases)
    case 1
    then show ?thesis by (simp add: defs task_met)
  next
    case 4
    then show ?thesis by (simp add: defs latency_position)
  next
    case 5
    then show ?thesis by (simp add: defs cost_position)
  next
    case 6
    then show ?thesis by (simp add: region_met) (simp add: passes_def Let_def list_ex_iff serves_region_def)
  next
    case 8
    then show ?thesis by (auto simp: defs)
  next
    case 11
    then show ?thesis by (auto simp: defs list_ex_iff names_provider_def)
  next
    case 12
    then show ?thesis by (auto simp: defs list_ex_iff hint_match_iff)
  next
    case 13
    then show ?thesis by (auto simp: defs list_ex_iff hint_match_iff)
  next
    case 14
    then show ?thesis by (simp add: defs refusal_met)
  next
    case 15
    then show ?thesis by (simp add: defs flip: tolerance_met)
  next
    case 16
    then show ?thesis by (auto simp: defs graded_keys_def)
  qed (auto simp: defs split: sum.splits)
qed

lemma score_candidate_eligible:
  assumes "score_candidate p h = Inr (s, u)" and "sovereign_required h"
  shows "s \<noteq> None \<longleftrightarrow> eligible h p"
proof (cases s)
  case None
  with assms obtain d where "d \<in> set (dimensions h)" "dim_verdict p d = Inr Reject"
    using score_candidate_None by blast
  with assms(2) dim_verdict_Reject show ?thesis
    unfolding eligible_def met_iff_passes sovereign_required_def None by blast
next
  case (Some t)
  with assms have "\<forall>d \<in> set (dimensions h). counted p d" by (simp add: score_candidate_Some)
  with assms(2) dim_verdict_Reject show ?thesis
    unfolding eligible_def met_iff_passes sovereign_required_def counted_def Some by blast
qed

lemma score_all_eligible:
  "score_all ps h = Inr xs \<Longrightarrow> sovereign_required h \<Longrightarrow> map fst xs = filter (eligible h) ps"
proof (induction ps arbitrary: xs)
  case (Cons p ps)
  from Cons.prems(1) obtain s u ys where p: "score_candidate p h = Inr (s, u)"
    and ys: "score_all ps h = Inr ys" and xs: "xs = (case s of None \<Rightarrow> ys | Some x \<Rightarrow> (p, u, x) # ys)"
    by (auto simp: result_iff)
  with Cons.IH [OF ys Cons.prems(2)] score_candidate_eligible [OF p Cons.prems(2)] show ?case
    by (cases s) auto
qed simp

lemma score_all_mem:
  "score_all ps h = Inr xs \<Longrightarrow> (p, u, s) \<in> set xs \<Longrightarrow>
   p \<in> set ps \<and> score_candidate p h = Inr (Some s, u)"
proof (induction ps arbitrary: xs)
  case (Cons q ps)
  from Cons.prems(1) obtain s' u' ys where q: "score_candidate q h = Inr (s', u')"
    and ys: "score_all ps h = Inr ys" and xs: "xs = (case s' of None \<Rightarrow> ys | Some x \<Rightarrow> (q, u', x) # ys)"
    by (auto simp: result_iff)
  show ?case
  proof (cases "(p, u, s) \<in> set ys")
    case True
    with Cons.IH [OF ys] show ?thesis by simp
  next
    case False
    with Cons.prems(2) q xs show ?thesis by (cases s') auto
  qed
qed simp

section \<open>Ranking\<close>

lemma ranked_parts:
  "rank_candidates_with_scores ps (Some h) = Inr rs \<longleftrightarrow>
   (\<exists>xs. score_all ps h = Inr xs \<and> sort_key (\<lambda>x. - score_of x) xs = rs)"
  by (simp add: rank_candidates_with_scores_def result_iff)

lemma rank_members:
  assumes "rank_candidates_with_scores ps (Some h) = Inr rs" and "sovereign_required h"
  shows "mset (map fst rs) = mset (filter (eligible h) ps)"
proof -
  from assms(1) obtain xs where xs: "score_all ps h = Inr xs"
    and rs: "rs = sort_key (\<lambda>x. - score_of x) xs"
    by (auto simp: ranked_parts)
  have "mset (map fst rs) = image_mset fst (mset xs)" unfolding rs by simp
  also have "\<dots> = mset (map fst xs)" by simp
  also have "map fst xs = filter (eligible h) ps" by (rule score_all_eligible [OF xs assms(2)])
  finally show ?thesis .
qed


text \<open>The ranking is by descending score, ties keep the order in which the candidates came
  in, and the score of each is the sum of what its dimensions contribute and of the base score
  (time to first token, budget demotion, priority); the unmet list holds the keys of the
  dimensions missed, in the order of the header.\<close>

theorem rank_sorted_stable:
  assumes "rank_candidates_with_scores ps (Some h) = Inr rs"
  shows "sorted_wrt (\<lambda>x y. score_of x \<ge> score_of y) rs \<and>
    (\<exists>xs. score_all ps h = Inr xs \<and>
       (\<forall>s. filter (\<lambda>x. score_of x = s) rs = filter (\<lambda>x. score_of x = s) xs)) \<and>
    (\<forall>(p, u, s) \<in> set rs.
       s = sum_list (map (gain p) (dimensions h)) + base_score p \<and>
       u = map dim_key (filter (missed p) (dimensions h)))"
proof -
  from assms obtain xs where xs: "score_all ps h = Inr xs"
    and rs: "rs = sort_key (\<lambda>x. - score_of x) xs"
    by (auto simp: ranked_parts)
  have "sorted (map (\<lambda>x. - score_of x) rs)" unfolding rs by simp
  then have "sorted_wrt (\<lambda>x y. score_of x \<ge> score_of y) rs"
    by (simp add: sorted_map)
  moreover have "filter (\<lambda>x. score_of x = s) rs = filter (\<lambda>x. score_of x = s) xs" for s
    using sort_key_stable [of "\<lambda>x. - score_of x" "- s" xs] unfolding rs by simp
  moreover have "s = sum_list (map (gain p) (dimensions h)) + base_score p \<and>
      u = map dim_key (filter (missed p) (dimensions h))" if "(p, u, s) \<in> set rs" for p u s
    using that score_all_mem [OF xs] unfolding rs by (simp add: score_candidate_Some)
  ultimately show ?thesis using xs by blast
qed

definition demo_hint :: lmrh_hint where
  "demo_hint =
     \<lparr>raw = ''task=code;require,region=eu;sovereign,latency=low'',
      dimensions =
        [\<lparr>dim_key = ''task'', dim_value = ''code'', required = True, sovereign = False\<rparr>,
         \<lparr>dim_key = ''region'', dim_value = ''eu'', required = True, sovereign = True\<rparr>,
         \<lparr>dim_key = ''latency'', dim_value = ''low'', required = False, sovereign = False\<rparr>]\<rparr>"

definition demo_profiles :: "capability_profile list" where
  "demo_profiles =
     [(new_profile ''a'' ''openai'' ''gpt-4o'' 10) \<lparr>tasks := [''chat'', ''code''], regions := [''eu-west'']\<rparr>,
      (new_profile ''b'' ''openai'' ''gpt-4o'' 5) \<lparr>tasks := [''chat'', ''code'']\<rparr>,
      (new_profile ''c'' ''gemini'' ''gemini-2.5-pro'' 20)
        \<lparr>tasks := [''reasoning''], regions := [''EU''], latency := ''low''\<rparr>]"

lemma demo_ranked:
  "\<exists>rs. rank_candidates_with_scores demo_profiles (Some demo_hint) = Inr rs \<and>
     map (prof_provider_id \<circ> fst) rs = [''a'', ''c'']"
proof -
  have "(case rank_candidates_with_scores demo_profiles (Some demo_hint) of
      Inl _ \<Rightarrow> False | Inr rs \<Rightarrow> map (prof_provider_id \<circ> fst) rs = [''a'', ''c''])"
    by code_simp
  then show ?thesis by (simp split: sum.splits)
qed

lemma demo_sovereign: "sovereign_required demo_hint"
  by code_simp


theorem rank_sorted_stable_witness:
  "\<exists>rs. rank_candidates_with_scores demo_profiles (Some demo_hint) = Inr rs \<and>
     sorted_wrt (\<lambda>x y. score_of x \<ge> score_of y) rs"
  using demo_ranked rank_sorted_stable by blast

text \<open>The departures from the protocol occur: a provider without regions passes \<open>region=us;require\<close>, one with
  safety 1 passes \<open>refusal-rate=maximum;require\<close>, an OpenAI plan passes \<open>provider-hint=openai;require\<close>, and one
  with both modalities fails \<open>modality=text,vision;require\<close>.\<close>

definition required_dim :: "string \<Rightarrow> string \<Rightarrow> hint_dimension" where
  "required_dim k v = \<lparr>dim_key = k, dim_value = v, required = True, sovereign = False\<rparr>"

lemma protocol_departures:
  defines "p \<equiv> (new_profile ''a'' ''chatgpt-oauth-plan'' ''m'' 1) \<lparr>safety := 1, modalities := [''text'', ''vision'']\<rparr>"
  shows "dim_verdict p (required_dim ''region'' ''us'') = Inr (Count 6 False)" "\<not> honours p (required_dim ''region'' ''us'')"
    "dim_verdict p (required_dim ''refusal-rate'' ''maximum'') = Inr (Count 8 False)" "\<not> honours p (required_dim ''refusal-rate'' ''maximum'')"
    "dim_verdict p (required_dim ''provider-hint'' ''openai'') = Inr (Count 5 False)" "\<not> honours p (required_dim ''provider-hint'' ''openai'')"
    "dim_verdict p (required_dim ''modality'' ''text,vision'') = Inr Reject" "honours p (required_dim ''modality'' ''text,vision'')"
  unfolding p_def by code_simp+

text \<open>The two ranking functions agree.\<close>

lemma rank_candidates_agree:
  "rank_candidates ps hint = map_result (map (\<lambda>(p, u, s). (p, u))) (rank_candidates_with_scores ps hint)"
  by (cases hint; cases "score_all ps (the hint)")
    (simp_all add: rank_candidates_def rank_candidates_with_scores_def)

text \<open>A header value that is not a number makes the ranking of any non-empty candidate list
  raise, for each of the three integer dimensions when it is the first of the hint: the error
  is not caught and not treated as an unmet hint.\<close>

theorem bad_number_raises:
  assumes "dimensions h = d # ds"
    and "dim_key d \<in> {''safety-min'', ''safety-max'', ''context-length''}"
    and "py_int (dim_value d) = Inl e"
  shows "rank_candidates_with_scores (p # ps) (Some h) = Inl e"
proof -
  have "dim_verdict p d = Inl e" using assms(2,3) by (auto simp: dim_verdict_def)
  with assms(1) show ?thesis
    by (simp add: rank_candidates_with_scores_def score_candidate_def)
qed

theorem bad_number_raises_witness:
  "rank_candidates_with_scores demo_profiles
     (Some \<lparr>raw = ''safety-min=high'', dimensions =
       [\<lparr>dim_key = ''safety-min'', dim_value = ''high'', required = False, sovereign = False\<rparr>]\<rparr>) =
   Inl (ValueError ''high'')"
proof -
  have "py_int ''high'' = Inl (ValueError ''high'')" by code_simp
  then show ?thesis
    unfolding demo_profiles_def
    by (intro bad_number_raises [where ds = "[]" and d = "\<lparr>dim_key = ''safety-min'',
      dim_value = ''high'', required = False, sovereign = False\<rparr>"]) simp_all
qed

end
