(* ===== verification/Model_Names.thy ===== *)
theory Model_Names
  imports Lmrh_Score
begin

text \<open>
  Names of models: the sort-mode suffix (\<^verbatim>\<open>app/routing/model_slug.py\<close>), canonical
  spellings (\<^verbatim>\<open>app/routing/canonical.py\<close>), the logical aliases
  (\<^verbatim>\<open>app/routing/aliases.py\<close>) and the capability profile inferred from a name
  (\<^verbatim>\<open>app/routing/capability_inference.py\<close>).
\<close>

section \<open>Sort-mode suffixes\<close>

definition SHORTCUT_SUFFIXES :: "string list" where
  "SHORTCUT_SUFFIXES = [''floor'', ''nitro'', ''exacto'']"

definition AUTO_MODEL_ALIASES :: "string list" where
  "AUTO_MODEL_ALIASES = [''auto'', ''llmp-auto'']"

definition is_auto_model :: "string option \<Rightarrow> bool" where
  "is_auto_model m = (case m of None \<Rightarrow> False | Some s \<Rightarrow> s \<noteq> [] \<and> lower s \<in> set AUTO_MODEL_ALIASES)"

record parsed_slug =
  bare_model :: string
  sort_mode :: "string option"

definition parse_model_slug :: "string option \<Rightarrow> parsed_slug" where
  "parse_model_slug model =
     (case model of
        None \<Rightarrow> \<lparr>bare_model = [], sort_mode = None\<rparr>
      | Some m \<Rightarrow>
          if m = [] then \<lparr>bare_model = [], sort_mode = None\<rparr>
          else if CHR '':'' \<notin> set m then \<lparr>bare_model = m, sort_mode = None\<rparr>
          else let (h, t) = rpartition_at (CHR '':'') m in
               if lower t \<in> set SHORTCUT_SUFFIXES
               then \<lparr>bare_model = h, sort_mode = Some (lower t)\<rparr>
               else \<lparr>bare_model = m, sort_mode = None\<rparr>)"

section \<open>Canonical spellings\<close>

definition norm_name :: "string \<Rightarrow> string" where
  "norm_name s = lower (strip s)"

definition matches_capability :: "string \<Rightarrow> string \<Rightarrow> string list \<Rightarrow> bool" where
  "matches_capability requested model_id aliases =
     (if requested = [] then False
      else norm_name requested = norm_name model_id \<or> list_ex (\<lambda>a. norm_name a = norm_name requested) aliases)"

definition derive_family :: "string \<Rightarrow> string" where
  "derive_family m = (if CHR ''/'' \<in> set m then snd (partition_at (CHR ''/'') m) else m)"

fun collect_loop :: "string list \<Rightarrow> string list \<Rightarrow> string list \<Rightarrow> string list" where
  "collect_loop [] seen out = out"
| "collect_loop (s # ss) seen out =
     (if s = [] then collect_loop ss seen out
      else if norm_name s \<in> set seen then collect_loop ss seen out
      else collect_loop ss (norm_name s # seen) (out @ [s]))"

definition collect_canonical_aliases :: "string \<Rightarrow> string list \<Rightarrow> string list" where
  "collect_canonical_aliases model_id aliases = collect_loop (model_id # aliases) [] []"

section \<open>Logical aliases\<close>

record logical_alias =
  alias_hint :: string
  self_hosted_only :: bool

definition LOGICAL_ALIASES :: "(string \<times> logical_alias) list" where
  "LOGICAL_ALIASES =
     [(''coordinator-code'',
       \<lparr>alias_hint = ''task=code, safety-min=3, cost=standard, exclude=anthropic;require'',
        self_hosted_only = False\<rparr>),
      (''coordinator-fast'',
       \<lparr>alias_hint = ''task=code, latency=low, cost=economy, exclude=anthropic;require'',
        self_hosted_only = False\<rparr>),
      (''coordinator-reasoning'',
       \<lparr>alias_hint = ''task=reasoning, safety-min=3, context-length=100000, exclude=anthropic;require'',
        self_hosted_only = False\<rparr>),
      (''coordinator-local'',
       \<lparr>alias_hint = ''task=code, exclude=anthropic;require'', self_hosted_only = True\<rparr>)]"

definition is_logical_alias :: "string option \<Rightarrow> bool" where
  "is_logical_alias m = (case m of None \<Rightarrow> False | Some s \<Rightarrow> s \<noteq> [] \<and> map_of LOGICAL_ALIASES s \<noteq> None)"

definition logical_alias_hint :: "string \<Rightarrow> string option" where
  "logical_alias_hint a = map_option alias_hint (map_of LOGICAL_ALIASES a)"

definition resolve_logical_alias :: "string \<Rightarrow> string option" where
  "resolve_logical_alias a = (if map_of LOGICAL_ALIASES a \<noteq> None then Some a else None)"

definition SELF_HOSTED_PROVIDER_TYPES :: "string list" where
  "SELF_HOSTED_PROVIDER_TYPES = [''ollama'', ''vllm'', ''llamacpp'', ''lmstudio'', ''localai'']"

definition is_self_hosted_provider :: "provider \<Rightarrow> bool" where
  "is_self_hosted_provider p =
     (provider_type p \<in> set SELF_HOSTED_PROVIDER_TYPES \<or>
      (provider_type p \<in> {''openai-compatible'', ''compatible'', ''custom''} \<and>
       json_get (extra_config p) ''self_hosted'' = JBool True) \<or>
      owner_company p \<in> {Some ''internal'', Some ''local'', Some ''self-hosted''})"

record model_alias =
  alias_name :: string
  alias_provider_id :: ident
  alias_model_id :: string

definition resolve_alias :: "model_alias list \<Rightarrow> string option \<Rightarrow> model_alias option" where
  "resolve_alias table m =
     (case m of None \<Rightarrow> None
      | Some s \<Rightarrow> if s = [] then None else find (\<lambda>a. alias_name a = s) table)"

section \<open>Capabilities inferred from a name\<close>

definition infer_tier :: "string \<Rightarrow> capability_profile \<Rightarrow> capability_profile" where
  "infer_tier m p =
     (if any_in [''opus'', ''o1'', ''o3'', ''o4'', ''r1'', ''deepseek-r'', ''gemini-2.5'', ''claude-3-7''] m
      then p \<lparr>native_reasoning := True, tasks := [''reasoning'', ''analysis'', ''code'', ''chat''],
              cost_tier := ''premium'', latency := ''high'', safety := 4\<rparr>
      else if any_in [''sonnet'', ''gpt-4o'', ''gemini-2.0'', ''gpt-4-turbo'', ''grok-2''] m
      then p \<lparr>tasks := [''reasoning'', ''analysis'', ''code'', ''chat''],
              cost_tier := ''standard'', latency := ''medium'', safety := 4\<rparr>
      else if any_in [''haiku'', ''flash'', ''mini'', ''gpt-3.5'', ''grok-beta''] m
      then p \<lparr>tasks := [''chat'', ''analysis''], cost_tier := ''economy'', latency := ''low'', safety := 3\<rparr>
      else p)"

definition infer_vision :: "string \<Rightarrow> capability_profile \<Rightarrow> capability_profile" where
  "infer_vision m p =
     (if any_in [''vision'', ''vl'', ''gpt-4o'', ''gemini'', ''claude-3'', ''llava''] m
      then p \<lparr>modalities := [''text'', ''vision''], native_vision := True\<rparr> else p)"

definition infer_tools :: "string \<Rightarrow> capability_profile \<Rightarrow> capability_profile" where
  "infer_tools ty p = (if ty \<in> {''ollama'', ''compatible''} then p \<lparr>native_tools := False\<rparr> else p)"

definition infer_regions :: "string \<Rightarrow> capability_profile \<Rightarrow> capability_profile" where
  "infer_regions ty p =
     (if ty = ''google'' then p \<lparr>regions := [''us'', ''eu'', ''asia'']\<rparr>
      else if ty \<in> {''anthropic'', ''openai'', ''grok'', ''grok-web'', ''claude-oauth'',
                     ''ChatGPT-oauth-plan'', ''cohere'', ''azure''}
      then p \<lparr>regions := [''us'']\<rparr>
      else if ty = ''openrouter'' then p \<lparr>regions := [''us'', ''eu'', ''asia'']\<rparr>
      else if ty = ''nvidia_nim'' then p \<lparr>regions := [''us'', ''eu'', ''asia'']\<rparr>
      else if ty = ''ollama''
      then p \<lparr>regions := [''local''], cost_tier := ''economy'', latency := ''medium''\<rparr>
      else p)"

definition infer_capability_profile :: "ident \<Rightarrow> string \<Rightarrow> string \<Rightarrow> int \<Rightarrow> capability_profile" where
  "infer_capability_profile i ty model prio =
     infer_regions ty (infer_tools ty (infer_vision (lower model)
       (infer_tier (lower model) (new_profile i ty model prio))))"

section \<open>Suffix parsing loses nothing\<close>

text \<open>Appending a sort-mode suffix, in any mixture of cases, to a model name and parsing the
  result gives back the name and the mode in lower case, whatever colons the name itself has.\<close>

theorem slug_roundtrip:
  assumes "lower t \<in> set SHORTCUT_SUFFIXES" and "CHR '':'' \<notin> set t"
  shows "parse_model_slug (Some (m @ '':'' @ t)) = \<lparr>bare_model = m, sort_mode = Some (lower t)\<rparr>"
  using assms rpartition_at_eq [of "CHR '':''" t m] by (simp add: parse_model_slug_def)

theorem slug_roundtrip_witness:
  "parse_model_slug (Some ''anthropic/claude-3:beta:Nitro'') =
     \<lparr>bare_model = ''anthropic/claude-3:beta'', sort_mode = Some ''nitro''\<rparr>"
proof -
  have "lower ''Nitro'' = ''nitro''" by code_simp
  then show ?thesis
    using slug_roundtrip [of "''Nitro''" "''anthropic/claude-3:beta''"] by (simp add: SHORTCUT_SUFFIXES_def)
qed

section \<open>Advertised spellings are the accepted ones\<close>

lemma collect_loop_norms:
  "set seen = norm_name ` set out \<Longrightarrow>
   norm_name ` set (collect_loop ss seen out) =
     norm_name ` set out \<union> norm_name ` {s \<in> set ss. s \<noteq> []}"
proof (induction ss arbitrary: seen out)
  case (Cons s ss)
  consider "s = []" | "s \<noteq> []" "norm_name s \<in> set seen" | "s \<noteq> []" "norm_name s \<notin> set seen" by blast
  then show ?case
  proof cases
    case 1
    then have "{t \<in> set (s # ss). t \<noteq> []} = {t \<in> set ss. t \<noteq> []}" by auto
    with 1 Cons show ?thesis by simp
  next
    case 2
    then have "{t \<in> set (s # ss). t \<noteq> []} = insert s {t \<in> set ss. t \<noteq> []}" by auto
    with 2 Cons show ?thesis by (simp add: insert_absorb)
  next
    case 3
    then have "{t \<in> set (s # ss). t \<noteq> []} = insert s {t \<in> set ss. t \<noteq> []}" by auto
    with 3 Cons show ?thesis by simp
  qed
qed simp

lemma collect_loop_distinct:
  "set seen = norm_name ` set out \<Longrightarrow> distinct (map norm_name out) \<Longrightarrow>
   distinct (map norm_name (collect_loop ss seen out))"
  by (induction ss seen out rule: collect_loop.induct) auto

lemma collect_loop_prefix: "\<exists>zs. collect_loop ss seen out = out @ zs"
  by (induction ss seen out rule: collect_loop.induct) auto

text \<open>The list of spellings advertised for a model starts with its canonical name, holds no
  two spellings that differ only in case or surrounding space, and advertises exactly what the
  router accepts: a request with a non-blank name matches the capability row exactly when its
  normal form is the normal form of an advertised spelling.\<close>

theorem advertised_iff_accepted:
  assumes "norm_name r \<noteq> []" and "model_id \<noteq> []"
  shows "(matches_capability r model_id aliases \<longleftrightarrow>
      norm_name r \<in> norm_name ` set (collect_canonical_aliases model_id aliases)) \<and>
    hd (collect_canonical_aliases model_id aliases) = model_id \<and>
    distinct (map norm_name (collect_canonical_aliases model_id aliases))"
proof -
  let ?c = "collect_canonical_aliases model_id aliases"
  have n: "norm_name [] = []" by (simp add: norm_name_def strip_def lower_def)
  with assms(1) have "r \<noteq> []" by auto
  have "norm_name r \<in> norm_name ` set ?c \<longleftrightarrow>
      (\<exists>s \<in> set (model_id # aliases). s \<noteq> [] \<and> norm_name s = norm_name r)"
    unfolding collect_canonical_aliases_def
    by (subst collect_loop_norms) (simp, fastforce simp: image_iff)
  also have "\<dots> \<longleftrightarrow> (\<exists>s \<in> set (model_id # aliases). norm_name s = norm_name r)"
    using assms(1) n by metis
  also have "\<dots> \<longleftrightarrow> matches_capability r model_id aliases"
    using \<open>r \<noteq> []\<close> by (auto simp: matches_capability_def list_ex_iff)
  finally have "matches_capability r model_id aliases \<longleftrightarrow> norm_name r \<in> norm_name ` set ?c" by simp
  moreover have "hd ?c = model_id"
    using assms(2) collect_loop_prefix [of aliases "[norm_name model_id]" "[model_id]"]
    by (auto simp: collect_canonical_aliases_def)
  moreover have "distinct (map norm_name ?c)"
    unfolding collect_canonical_aliases_def by (rule collect_loop_distinct) simp_all
  ultimately show ?thesis by blast
qed

theorem advertised_iff_accepted_witness:
  "matches_capability ''X-AI/Grok-3'' ''x-ai/grok-3'' [''grok-3'', ''X-ai/grok-3''] \<and>
   hd (collect_canonical_aliases ''x-ai/grok-3'' [''grok-3'', ''X-ai/grok-3'']) = ''x-ai/grok-3''"
proof -
  have "norm_name ''X-AI/Grok-3'' \<noteq> []"
    "norm_name ''X-AI/Grok-3'' \<in> norm_name ` set (collect_canonical_aliases ''x-ai/grok-3'' [''grok-3'', ''X-ai/grok-3''])"
    by code_simp+
  with advertised_iff_accepted [of "''X-AI/Grok-3''" "''x-ai/grok-3''" "[''grok-3'', ''X-ai/grok-3'']"]
  show ?thesis by simp
qed

section \<open>Logical aliases keep Anthropic out\<close>

text \<open>The hint of every logical alias, parsed: a hard \<open>exclude=anthropic\<close> is among its
  dimensions and no dimension is sovereign.\<close>

definition alias_ok :: "string \<times> logical_alias \<Rightarrow> bool" where
  "alias_ok a =
     (case parse_hint_legacy (alias_hint (snd a)) of
        None \<Rightarrow> False
      | Some h \<Rightarrow>
          list_all (\<lambda>d. \<not> sovereign d) (dimensions h) \<and>
          list_ex (\<lambda>d. dim_key d = ''exclude'' \<and> dim_value d = ''anthropic'' \<and> required d) (dimensions h))"

lemma aliases_ok: "list_all alias_ok LOGICAL_ALIASES"
  by code_simp

lemma csv_anthropic: "csv_values ''anthropic'' = [''anthropic'']"
  by code_simp

lemma lower_anthropic: "lower ''anthropic'' = ''anthropic''"
  by code_simp

text \<open>A request for a logical alias, ranked under the alias's own hint, is never served by a
  provider whose type or whose name is \<open>anthropic\<close>, whatever the candidates.\<close>

theorem alias_excludes_anthropic:
  assumes "logical_alias_hint a = Some t"
    and "parse_hint_legacy t = Some h"
    and "rank_candidates_with_scores ps (Some h) = Inr rs"
    and "(p, u, s) \<in> set rs"
  shows "lower (prof_provider_type p) \<noteq> ''anthropic'' \<and> lower (prof_provider_name p) \<noteq> ''anthropic''"
proof -
  from assms(1) obtain e where "map_of LOGICAL_ALIASES a = Some e" "t = alias_hint e"
    by (auto simp: logical_alias_hint_def)
  then have "alias_ok (a, e)" using aliases_ok by (auto simp: list_all_iff dest: map_of_SomeD)
  with assms(2) \<open>t = _\<close> obtain d where d: "d \<in> set (dimensions h)" "dim_key d = ''exclude''"
    "dim_value d = ''anthropic''" "required d" and sov: "sovereign_required h"
    by (auto simp: alias_ok_def list_all_iff list_ex_iff sovereign_required_def)
  have "p \<in> set (map fst rs)" using assms(4) by force
  then have "p \<in># mset (map fst rs)" by simp
  then have "p \<in># mset (filter (eligible h) ps)" by (simp only: rank_members [OF assms(3) sov])
  then have "passes p d" using d(1,4) by (simp add: eligible_def met_iff_passes)
  with d(2,3) csv_anthropic lower_anthropic show ?thesis by (auto simp: passes_def)
qed

definition local_candidates :: "capability_profile list" where
  "local_candidates =
     [infer_capability_profile ''a'' ''anthropic'' ''claude-sonnet-4-6'' 1,
      infer_capability_profile ''o'' ''openai'' ''gpt-4o'' 10]"

theorem alias_excludes_anthropic_witness:
  "\<exists>t h rs p u s. logical_alias_hint ''coordinator-code'' = Some t \<and> parse_hint_legacy t = Some h \<and>
     rank_candidates_with_scores local_candidates (Some h) = Inr rs \<and> (p, u, s) \<in> set rs \<and>
     lower (prof_provider_type p) \<noteq> ''anthropic''"
proof -
  have "(case logical_alias_hint ''coordinator-code'' of None \<Rightarrow> False | Some t \<Rightarrow>
      (case parse_hint_legacy t of None \<Rightarrow> False | Some h \<Rightarrow>
        (case rank_candidates_with_scores local_candidates (Some h) of Inl _ \<Rightarrow> False | Inr rs \<Rightarrow> rs \<noteq> [])))"
    by code_simp
  then obtain t h rs where r: "logical_alias_hint ''coordinator-code'' = Some t" "parse_hint_legacy t = Some h"
    "rank_candidates_with_scores local_candidates (Some h) = Inr rs" "rs \<noteq> []"
    by (auto split: option.splits sum.splits)
  then obtain p u s where "(p, u, s) \<in> set rs" by (cases rs) auto
  with r alias_excludes_anthropic [OF r(1-3) this] show ?thesis by blast
qed

section \<open>Inferred profiles are well formed\<close>

definition profile_ok :: "capability_profile \<Rightarrow> bool" where
  "profile_ok p \<longleftrightarrow>
     ''chat'' \<in> set (tasks p) \<and> safety p \<in> {3, 4} \<and>
     map_of LATENCY_RANK (latency p) \<noteq> None \<and> map_of COST_RANK (cost_tier p) \<noteq> None \<and>
     ''text'' \<in> set (modalities p) \<and> (native_vision p \<longleftrightarrow> ''vision'' \<in> set (modalities p)) \<and>
     (native_reasoning p \<longrightarrow> ''reasoning'' \<in> set (tasks p))"

lemma rank_names:
  "\<exists>y. map_of LATENCY_RANK ''low'' = Some y" "\<exists>y. map_of LATENCY_RANK ''medium'' = Some y"
  "\<exists>y. map_of LATENCY_RANK ''high'' = Some y" "\<exists>y. map_of COST_RANK ''economy'' = Some y"
  "\<exists>y. map_of COST_RANK ''standard'' = Some y" "\<exists>y. map_of COST_RANK ''premium'' = Some y"
  by (simp_all add: LATENCY_RANK_def COST_RANK_def)

lemma infer_stages_ok:
  "profile_ok (new_profile i ty model prio)"
  "profile_ok p \<Longrightarrow> profile_ok (infer_vision m p)"
  "profile_ok p \<Longrightarrow> profile_ok (infer_tools t p)"
  "profile_ok p \<Longrightarrow> profile_ok (infer_regions t p)"
  by (simp_all add: profile_ok_def new_profile_def infer_vision_def infer_tools_def
      infer_regions_def rank_names)

lemma infer_tier_ok: "profile_ok p \<Longrightarrow> \<not> native_reasoning p \<Longrightarrow> profile_ok (infer_tier m p)"
  by (simp add: profile_ok_def infer_tier_def rank_names)

lemma infer_frame:
  "prof_provider_id (infer_tier m p) = prof_provider_id p"
  "prof_model_id (infer_tier m p) = prof_model_id p"
  "prof_priority (infer_tier m p) = prof_priority p"
  "prof_provider_id (infer_vision m p) = prof_provider_id p"
  "prof_model_id (infer_vision m p) = prof_model_id p"
  "prof_priority (infer_vision m p) = prof_priority p"
  "prof_provider_id (infer_tools t p) = prof_provider_id p"
  "prof_model_id (infer_tools t p) = prof_model_id p"
  "prof_priority (infer_tools t p) = prof_priority p"
  "prof_provider_id (infer_regions t p) = prof_provider_id p"
  "prof_model_id (infer_regions t p) = prof_model_id p"
  "prof_priority (infer_regions t p) = prof_priority p"
  by (simp_all only: infer_tier_def infer_vision_def infer_tools_def infer_regions_def
      capability_profile.simps split: if_split) simp_all

text \<open>Every inferred profile is one the scorer can grade: its latency and cost classes are in
  the rank tables, its safety is 3 or 4, the vision flag agrees with the modalities, a reasoning
  model advertises the reasoning task, and it keeps the identity it was inferred for.\<close>

theorem inferred_profile_ok:
  "profile_ok (infer_capability_profile i ty model prio) \<and>
   prof_provider_id (infer_capability_profile i ty model prio) = i \<and>
   prof_model_id (infer_capability_profile i ty model prio) = model \<and>
   prof_priority (infer_capability_profile i ty model prio) = prio"
proof -
  have "\<not> native_reasoning (new_profile i ty model prio)" by (simp add: new_profile_def)
  then have "profile_ok (infer_capability_profile i ty model prio)"
    unfolding infer_capability_profile_def by (intro infer_stages_ok infer_tier_ok)
  then show ?thesis
    by (simp add: infer_capability_profile_def infer_frame new_profile_def)
qed

end
