(* ===== verification/Litellm_Binding.thy ===== *)
theory Litellm_Binding
  imports Model_Names "HOL-Library.List_Lexorder" "HOL-Library.Char_ord"
begin

text \<open>
  From a provider row to a call (\<^verbatim>\<open>app/routing/litellm_binding.py\<close>): which provider types
  can serve a model, the prefixed model name, the keyword arguments of the call, and the budget
  of thinking tokens. A keyword dictionary is an association list of \<open>kwval\<close>, the values
  Python tells apart here; \<open>bool\<close> is a subtype of \<open>int\<close> in \<open>isinstance\<close>.
\<close>

section \<open>Families of models\<close>

definition is_embedding_model :: "string \<Rightarrow> bool" where
  "is_embedding_model m = (m \<noteq> [] \<and> any_prefix [''embed-'', ''text-embedding-'', ''embedding-''] (lower m))"

datatype skip_reason = No_chat_capable_model ident

definition resolve_chat_model_for_provider ::
  "string list \<Rightarrow> provider \<Rightarrow> string option \<times> skip_reason option" where
  "resolve_chat_model_for_provider caps p =
     (let d = or_else (default_model p) [] in
      if \<not> is_embedding_model d then (if d = [] then None else Some d, None)
      else let chat = filter (\<lambda>c. \<not> is_embedding_model c) caps in
           if chat = [] then (None, Some (No_chat_capable_model (pid p)))
           else let preferred = filter (\<lambda>c. prefix ''command-'' c \<or> prefix ''gpt-'' c) chat
                in (Some (hd (if preferred \<noteq> [] then preferred else sort chat)), None))"

definition model_family_provider_types :: "string option \<Rightarrow> string list option" where
  "model_family_provider_types model =
     (case model of
        None \<Rightarrow> None
      | Some s \<Rightarrow>
          let m = lower s in
          if s = [] then None
          else if any_prefix [''claude-'', ''claude/''] m
          then Some [''anthropic'', ''anthropic-direct'', ''anthropic-oauth'', ''claude-oauth'', ''cursor-oauth'']
          else if any_prefix [''gpt-'', ''o1-'', ''o3-'', ''o4-'', ''text-embedding-'', ''whisper-'',
                              ''dall-e-'', ''codex-''] m
          then Some [''openai'', ''ChatGPT-oauth-plan'', ''cursor-oauth'']
          else if any_prefix [''gemini-'', ''text-bison'', ''chat-bison''] m
          then Some [''google'', ''vertex'', ''vertex_ai'']
          else if any_prefix [''embed-'', ''command-''] m then Some [''cohere'']
          else if any_prefix [''grok-'', ''x-ai/''] m then Some [''grok'', ''grok-web'', ''openrouter'']
          else None)"

section \<open>Tables\<close>

definition OWN_DISPATCHER_PROVIDER_TYPES :: "string list" where
  "OWN_DISPATCHER_PROVIDER_TYPES = [''claude-oauth'', ''ChatGPT-oauth-plan'', ''grok-web'']"

definition PROVIDER_TYPE_TO_LITELLM :: "(string \<times> string) list" where
  "PROVIDER_TYPE_TO_LITELLM =
     [(''anthropic'', ''anthropic''), (''openai'', ''openai''), (''google'', ''gemini''),
      (''vertex'', ''vertex_ai''), (''ollama'', ''ollama''), (''grok'', ''xai''),
      (''compatible'', ''openai''), (''claude-oauth'', ''anthropic''),
      (''ChatGPT-oauth-plan'', ''openai''), (''cohere'', ''cohere''), (''azure'', ''azure''),
      (''openrouter'', ''openrouter''), (''grok-web'', ''xai''), (''cursor-oauth'', ''openai''),
      (''nvidia_nim'', ''nvidia_nim'')]"

definition PROVIDER_DEFAULT_MODELS :: "(string \<times> string) list" where
  "PROVIDER_DEFAULT_MODELS =
     [(''anthropic'', ''claude-sonnet-4-6''), (''google'', ''gemini-2.0-flash''),
      (''vertex'', ''gemini-2.0-flash-002''), (''openai'', ''gpt-4o''), (''grok'', ''grok-2''),
      (''ollama'', ''llama3''), (''compatible'', ''gpt-4o''), (''azure'', ''gpt-4o''),
      (''claude-oauth'', ''claude-sonnet-4-6''), (''ChatGPT-oauth-plan'', ''gpt-5.5''),
      (''cohere'', ''embed-english-v3.0''), (''openrouter'', ''openai/gpt-4o''),
      (''grok-web'', ''grok-3''), (''cursor-oauth'', ''claude-4-sonnet''),
      (''nvidia_nim'', ''nvidia/nemotron-3-super-120b-a12b'')]"

definition BARE_TO_VENDOR :: "(string \<times> string) list" where
  "BARE_TO_VENDOR =
     [(''grok-3'', ''x-ai/grok-3''), (''grok-4'', ''x-ai/grok-4''), (''grok-3-beta'', ''x-ai/grok-3-beta'')]"

section \<open>Builders\<close>

definition build_litellm_model :: "provider \<Rightarrow> string option \<Rightarrow> string" where
  "build_litellm_model p model_override =
     (let pre = get_or PROVIDER_TYPE_TO_LITELLM (provider_type p) ''openai'';
          d = get_or PROVIDER_DEFAULT_MODELS (provider_type p) ''gpt-4o'';
          m = or_else model_override (or_else (default_model p) d);
          m' = (if provider_type p = ''openrouter'' \<and> CHR ''/'' \<notin> set m
                then get_or BARE_TO_VENDOR m m else m)
      in pre @ ''/'' @ m')"

datatype kwval = KNone | KBool bool | KInt int | KFloat rat | KStr string | KDict "(string \<times> kwval) list"

type_synonym kwargs = "(string \<times> kwval) list"

fun kw_set :: "string \<Rightarrow> kwval \<Rightarrow> kwargs \<Rightarrow> kwargs" where
  "kw_set k v [] = [(k, v)]"
| "kw_set k v ((k', v') # r) = (if k = k' then (k, v) # r else (k', v') # kw_set k v r)"

definition kw_get :: "kwargs \<Rightarrow> string \<Rightarrow> kwval" where
  "kw_get e k = (case map_of e k of None \<Rightarrow> KNone | Some v \<Rightarrow> v)"

definition build_litellm_kwargs :: "provider \<Rightarrow> kwargs" where
  "build_litellm_kwargs p =
     (if truthy (api_key p) then [(''api_key'', KStr (the (api_key p)))] else []) @
     (if truthy (base_url p) \<and> provider_type p \<in> {''ollama'', ''compatible'', ''cursor-oauth''}
      then [(''api_base'', KStr (the (base_url p)))] else []) @
     [(''timeout'', KInt (timeout_sec p))]"

fun is_o_series :: "string \<Rightarrow> bool" where
  "is_o_series (a # b # _) = (a = CHR ''o'' \<and> digit_val b \<noteq> None)"
| "is_o_series _ = False"

definition native_thinking_params :: "settings \<Rightarrow> string \<Rightarrow> string \<Rightarrow> kwargs" where
  "native_thinking_params cfg ty model =
     (let m = lower model in
      if ty \<in> {''google'', ''vertex''} \<and> any_in [''2.5''] m
      then [(''thinking'', KDict [(''type'', KStr ''enabled''),
                                 (''budget_tokens'', KInt (native_thinking_budget_tokens cfg))])]
      else if ty = ''openai'' \<and> is_o_series m
      then [(''reasoning_effort'', KStr (native_reasoning_effort cfg))]
      else [])"

section \<open>The thinking budget\<close>

definition THINKING_CONTENT_HEADROOM :: int where "THINKING_CONTENT_HEADROOM = 1024"

definition THINKING_BUDGET_MIN :: int where "THINKING_BUDGET_MIN = 128"

fun kw_int :: "kwval \<Rightarrow> int option" where
  "kw_int (KInt n) = Some n"
| "kw_int (KBool b) = Some (if b then 1 else 0)"
| "kw_int _ = None"

definition new_budget :: "int \<Rightarrow> int \<Rightarrow> int" where
  "new_budget budget max_tokens = max THINKING_BUDGET_MIN (min budget (max_tokens div 2))"

definition clamp_thinking_budget :: "kwargs \<Rightarrow> kwargs" where
  "clamp_thinking_budget extra =
     (case (kw_get extra ''thinking'', kw_int (kw_get extra ''max_tokens'')) of
        (KDict th, Some max_tokens) \<Rightarrow>
          (case kw_int (kw_get th ''budget_tokens'') of
             None \<Rightarrow> extra
           | Some budget \<Rightarrow>
               if max_tokens \<le> 0 then extra
               else if budget + THINKING_CONTENT_HEADROOM > max_tokens \<and> new_budget budget max_tokens \<noteq> budget
               then kw_set ''thinking''
                      (KDict (kw_set ''budget_tokens'' (KInt (new_budget budget max_tokens)) th)) extra
               else extra)
      | _ \<Rightarrow> extra)"

section \<open>Lookup after update\<close>

lemma kw_get_set [simp]: "kw_get (kw_set k v e) k' = (if k = k' then v else kw_get e k')"
  by (induction e) (auto simp: kw_get_def)

section \<open>Properties\<close>

text \<open>The model chosen for a chat call is never an embedding model, and it is the provider's
  default or one of its scanned models; when there is none the provider is skipped with a
  reason, and only then.\<close>

theorem chat_model_not_embedding:
  fixes caps p
  defines "r \<equiv> resolve_chat_model_for_provider caps p"
  shows "(\<forall>m. fst r = Some m \<longrightarrow> \<not> is_embedding_model m \<and> (default_model p = Some m \<or> m \<in> set caps)) \<and>
    (snd r \<noteq> None \<longleftrightarrow> is_embedding_model (or_else (default_model p) []) \<and> list_all is_embedding_model caps)"
proof (cases "is_embedding_model (or_else (default_model p) [])")
  case False
  then show ?thesis
    by (cases "default_model p") (auto simp: r_def resolve_chat_model_for_provider_def Let_def or_else_def)
next
  case True
  let ?chat = "filter (\<lambda>c. \<not> is_embedding_model c) caps"
  let ?pref = "filter (\<lambda>c. prefix ''command-'' c \<or> prefix ''gpt-'' c) ?chat"
  show ?thesis
  proof (cases "?chat = []")
    case empty: True
    with True show ?thesis
      by (simp add: r_def resolve_chat_model_for_provider_def Let_def filter_empty_conv list_all_iff)
  next
    case False
    let ?l = "if ?pref \<noteq> [] then ?pref else sort ?chat"
    have "sort ?chat \<noteq> []" using False by (metis set_empty set_sort)
    then have "?l \<noteq> []" by simp
    then have "hd ?l \<in> set ?l" by (rule hd_in_set)
    then have "hd ?l \<in> set ?chat" by (auto split: if_splits)
    moreover have "r = (Some (hd ?l), None)"
      using True False by (simp add: r_def resolve_chat_model_for_provider_def Let_def del: filter_filter)
    moreover have "\<not> list_all is_embedding_model caps" using False by (auto simp: filter_empty_conv list_all_iff)
    ultimately show ?thesis by auto
  qed
qed

theorem chat_model_not_embedding_witness:
  "fst (resolve_chat_model_for_provider [''embed-english-v3.0'', ''command-r'']
     (new_provider ''c'' ''Cohere'' ''cohere'' (Some ''embed-english-v3.0'') 10)) = Some ''command-r'' \<and>
   \<not> is_embedding_model ''command-r''"
proof -
  have "fst (resolve_chat_model_for_provider [''embed-english-v3.0'', ''command-r'']
     (new_provider ''c'' ''Cohere'' ''cohere'' (Some ''embed-english-v3.0'') 10)) = Some ''command-r''"
    by code_simp
  then show ?thesis
    using chat_model_not_embedding [of "[''embed-english-v3.0'', ''command-r'']"
      "new_provider ''c'' ''Cohere'' ''cohere'' (Some ''embed-english-v3.0'') 10"] by blast
qed

definition budget_of :: "kwargs \<Rightarrow> int option" where
  "budget_of e = (case kw_get e ''thinking'' of KDict th \<Rightarrow> kw_int (kw_get th ''budget_tokens'') | _ \<Rightarrow> None)"

lemma clamped_budget:
  assumes "kw_get e ''thinking'' = KDict th" and "kw_int (kw_get th ''budget_tokens'') = Some b"
    and "kw_int (kw_get e ''max_tokens'') = Some m" and "0 < m"
  shows "budget_of (clamp_thinking_budget e) =
    Some (if b + THINKING_CONTENT_HEADROOM > m then new_budget b m else b)"
  using assms by (simp add: clamp_thinking_budget_def budget_of_def)

text \<open>What the clamp guarantees, for a budget \<open>b\<close> and a positive cap \<open>m\<close>: the budget that
  is sent leaves 1024 tokens of content, or half the cap, or is the floor of 128; it never
  exceeds the larger of \<open>b\<close> and the floor; and nothing but the budget changes.\<close>

theorem clamp_leaves_headroom:
  assumes "kw_get e ''thinking'' = KDict th" and "kw_int (kw_get th ''budget_tokens'') = Some b"
    and "kw_int (kw_get e ''max_tokens'') = Some m" and "0 < m"
  shows "\<exists>b'. budget_of (clamp_thinking_budget e) = Some b' \<and>
    (b' + 1024 \<le> m \<or> 2 * b' \<le> m \<or> b' = 128) \<and> b' \<le> max b 128 \<and>
    (\<forall>k. k \<noteq> ''thinking'' \<longrightarrow> kw_get (clamp_thinking_budget e) k = kw_get e k)"
proof -
  let ?b = "if b + THINKING_CONTENT_HEADROOM > m then new_budget b m else b"
  have "?b + 1024 \<le> m \<or> 2 * ?b \<le> m \<or> ?b = 128" "?b \<le> max b 128"
    by (auto simp: new_budget_def THINKING_CONTENT_HEADROOM_def THINKING_BUDGET_MIN_def max_def min_def)
  moreover have "kw_get (clamp_thinking_budget e) k = kw_get e k" if "k \<noteq> ''thinking''" for k
    using that assms by (simp add: clamp_thinking_budget_def)
  ultimately show ?thesis using clamped_budget [OF assms] by blast
qed

theorem clamp_leaves_headroom_witness:
  "\<exists>b'. budget_of (clamp_thinking_budget
      [(''thinking'', KDict [(''type'', KStr ''enabled''), (''budget_tokens'', KInt 8192)]), (''max_tokens'', KInt 4096)]) = Some b' \<and>
    (b' + 1024 \<le> 4096 \<or> 2 * b' \<le> 4096 \<or> b' = 128)"
  using clamp_leaves_headroom [of "[(''thinking'', KDict [(''type'', KStr ''enabled''),
    (''budget_tokens'', KInt 8192)]), (''max_tokens'', KInt 4096)]"
    "[(''type'', KStr ''enabled''), (''budget_tokens'', KInt 8192)]" 8192 4096]
  by (auto simp: kw_get_def)

text \<open>The clamp can raise a budget: one below the floor of 128, such as the zero that
  switches thinking off, becomes 128 whenever the cap leaves no 1024 tokens of headroom, even
  when the cap itself is smaller than that.\<close>

theorem clamp_raises_small_budget:
  assumes "kw_get e ''thinking'' = KDict th" and "kw_int (kw_get th ''budget_tokens'') = Some b"
    and "kw_int (kw_get e ''max_tokens'') = Some m" and "0 < m" and "m < b + 1024" and "b < 128"
  shows "budget_of (clamp_thinking_budget e) = Some 128"
  using clamped_budget [OF assms(1-4)] assms(5,6)
  by (simp add: new_budget_def THINKING_CONTENT_HEADROOM_def THINKING_BUDGET_MIN_def)

theorem clamp_raises_small_budget_witness:
  "budget_of (clamp_thinking_budget
     [(''thinking'', KDict [(''budget_tokens'', KInt 0)]), (''max_tokens'', KInt 100)]) = Some 128"
  using clamp_raises_small_budget [of "[(''thinking'', KDict [(''budget_tokens'', KInt 0)]), (''max_tokens'', KInt 100)]"
    "[(''budget_tokens'', KInt 0)]" 0 100]
  by (simp add: kw_get_def)

text \<open>Every provider type with a prefix has a default model, and the other way round.\<close>

lemma default_for_every_type:
  "set (map fst PROVIDER_TYPE_TO_LITELLM) = set (map fst PROVIDER_DEFAULT_MODELS)"
  by code_simp

end
