(* ===== verification/Lmrh_Headers.thy ===== *)
theory Lmrh_Headers
  imports Lmrh_Score "HOL-Library.List_Lexorder" "HOL-Library.Char_ord"
begin

text \<open>
  The response headers (\<^verbatim>\<open>app/routing/lmrh/headers.py\<close>): \<^verbatim>\<open>LLM-Hint-Set\<close> echoes
  the dimensions that were honoured, \<^verbatim>\<open>LLM-Capability\<close> describes the routing decision. The
  source iterates a Python set of strings, whose order is not fixed by the language; the order is
  the parameter \<open>set_order\<close>, of which the lemmas assume only that it keeps the elements.
\<close>

definition build_hint_set_header :: "lmrh_hint option \<Rightarrow> string list \<Rightarrow> string" where
  "build_hint_set_header hint unmet =
     (case hint of
        None \<Rightarrow> []
      | Some h \<Rightarrow>
          join_with '','' (map (\<lambda>d. dim_key d @ ''='' @ dim_value d)
            (filter (\<lambda>d. dim_key d \<notin> set unmet) (dimensions h))))"

text \<open>The served region and whether it was matched exactly, when the header reports them.\<close>

definition served_region ::
  "(string list \<Rightarrow> string list) \<Rightarrow> lmrh_hint option \<Rightarrow> string list \<Rightarrow> capability_profile \<Rightarrow>
   (string \<times> string) option" where
  "served_region set_order hint unmet p =
     (case hint of
        None \<Rightarrow> None
      | Some h \<Rightarrow>
          (case hint_get h ''region'' of
             None \<Rightarrow> None
           | Some d \<Rightarrow>
               if ''region'' \<in> set unmet \<or> regions p = [] then None
               else let wanted = region_wanted (dim_value d);
                        prs = map lower (regions p);
                        exact = filter (\<lambda>w. w \<in> set prs) wanted
                    in if wanted = [] then None
                       else if exact \<noteq> [] then Some (hd (sort exact), ''strict'')
                       else Some (case concat (map (\<lambda>w. filter (\<lambda>pr. prefix (w @ ''-'') pr) prs)
                                             (set_order wanted)) of
                                    [] \<Rightarrow> hd prs
                                  | pr # _ \<Rightarrow> pr, ''loose'')))"

definition build_capability_header ::
  "(string list \<Rightarrow> string list) \<Rightarrow> capability_profile \<Rightarrow> string list \<Rightarrow> bool \<Rightarrow> bool \<Rightarrow> string \<Rightarrow>
   string \<Rightarrow> lmrh_hint option \<Rightarrow> string" where
  "build_capability_header set_order p unmet cot_engaged tool_emulation chosen_because
     model_override hint =
     join_with '', ''
       ([''v=1'',
         ''provider='' @ prof_provider_id p,
         ''model='' @ or_else (Some model_override) (prof_model_id p),
         ''task='' @ join_with '','' (tasks p),
         ''safety='' @ str_int (safety p),
         ''latency='' @ latency p,
         ''cost='' @ cost_tier p,
         ''region='' @ (if regions p \<noteq> [] then join_with '','' (regions p) else ''any''),
         ''chosen-because='' @ chosen_because]
        @ (if unmet \<noteq> [] then [''unmet='' @ join_with '' '' unmet] else [])
        @ (case served_region set_order hint unmet p of
             None \<Rightarrow> []
           | Some (served, honored) \<Rightarrow> [''served-region='' @ served, ''region-honored='' @ honored])
        @ (if cot_engaged then [''cot-engaged=?1''] else [])
        @ (if tool_emulation then [''tool-emulation=?1''] else []))"

lemma served_region_cong:
  assumes "regions p = regions q"
  shows "served_region f h u p = served_region f h u q"
  unfolding served_region_def assms ..

section \<open>What the headers may claim\<close>

lemma ranked_verdicts:
  assumes "rank_candidates_with_scores ps (Some h) = Inr rs" and "(p, u, s) \<in> set rs"
  shows "\<forall>d \<in> set (dimensions h). counted p d"
    and "u = map dim_key (filter (missed p) (dimensions h))"
proof -
  from assms obtain xs where "score_all ps h = Inr xs" "(p, u, s) \<in> set xs"
    by (auto simp: ranked_parts)
  then have "score_candidate p h = Inr (Some s, u)" using score_all_mem by blast
  then show "\<forall>d \<in> set (dimensions h). counted p d"
    and "u = map dim_key (filter (missed p) (dimensions h))"
    by (simp_all add: score_candidate_Some)
qed

lemma ranked_met:
  assumes "rank_candidates_with_scores ps (Some h) = Inr rs" and "(p, u, s) \<in> set rs"
    and "d \<in> set (dimensions h)" and "dim_key d \<notin> set u"
  shows "met p d"
proof -
  obtain w m where v: "dim_verdict p d = Inr (Count w m)"
    using ranked_verdicts(1) [OF assms(1,2)] assms(3) by (auto simp: counted_def)
  have "\<not> missed p d" using assms(3,4) ranked_verdicts(2) [OF assms(1,2)] by auto
  with v show ?thesis by (cases m) (auto simp: missed_def met_iff_passes dest: dim_verdict_met)
qed

text \<open>The echo header is truthful: for a candidate that came out of the ranking, every
  dimension listed in \<^verbatim>\<open>LLM-Hint-Set\<close> is one that the candidate meets, and every dimension
  whose key was not missed is listed.\<close>

theorem hint_set_truthful:
  assumes "rank_candidates_with_scores ps (Some h) = Inr rs" and "(p, u, s) \<in> set rs"
  shows "\<exists>ds. build_hint_set_header (Some h) u =
      join_with '','' (map (\<lambda>d. dim_key d @ ''='' @ dim_value d) ds) \<and>
    ds = filter (\<lambda>d. \<forall>d' \<in> set (dimensions h). dim_key d' = dim_key d \<longrightarrow> \<not> missed p d') (dimensions h) \<and>
    (\<forall>d \<in> set ds. met p d)"
proof -
  let ?ds = "filter (\<lambda>d. dim_key d \<notin> set u) (dimensions h)"
  have "?ds = filter (\<lambda>d. \<forall>d' \<in> set (dimensions h). dim_key d' = dim_key d \<longrightarrow> \<not> missed p d') (dimensions h)"
    unfolding ranked_verdicts(2) [OF assms] by (rule filter_cong) (auto simp: image_iff)
  moreover have "\<forall>d \<in> set ?ds. met p d" using ranked_met [OF assms] by simp
  ultimately show ?thesis
    by (intro exI [of _ ?ds]) (simp add: build_hint_set_header_def)
qed

lemma demo_first_ranked:
  "\<exists>rs p u s. rank_candidates_with_scores demo_profiles (Some demo_hint) = Inr rs \<and>
     (p, u, s) \<in> set rs \<and> prof_provider_id p = ''a'' \<and> regions p = [''eu-west''] \<and> u = [''latency'']"
proof -
  have "(case rank_candidates_with_scores demo_profiles (Some demo_hint) of
      Inr ((p, u, s) # _) \<Rightarrow>
        prof_provider_id p = ''a'' \<and> regions p = [''eu-west''] \<and> u = [''latency'']
    | _ \<Rightarrow> False)"
    by code_simp
  then show ?thesis by (auto split: sum.splits list.splits prod.splits)
qed

theorem hint_set_truthful_witness:
  "\<exists>rs p u s ds. rank_candidates_with_scores demo_profiles (Some demo_hint) = Inr rs \<and>
     (p, u, s) \<in> set rs \<and>
     build_hint_set_header (Some demo_hint) u =
       join_with '','' (map (\<lambda>d. dim_key d @ ''='' @ dim_value d) ds) \<and>
     build_hint_set_header (Some demo_hint) u = ''task=code,region=eu'' \<and> (\<forall>d \<in> set ds. met p d)"
proof -
  obtain rs p u s where r: "rank_candidates_with_scores demo_profiles (Some demo_hint) = Inr rs"
    "(p, u, s) \<in> set rs" "u = [''latency'']"
    using demo_first_ranked by blast
  have "build_hint_set_header (Some demo_hint) [''latency''] = ''task=code,region=eu''" by code_simp
  moreover obtain ds where "build_hint_set_header (Some demo_hint) u =
      join_with '','' (map (\<lambda>d. dim_key d @ ''='' @ dim_value d) ds)" "\<forall>d \<in> set ds. met p d"
    using hint_set_truthful [OF r(1,2)] by blast
  ultimately show ?thesis using r by (intro exI [of _ rs] exI [of _ p] exI [of _ u]) auto
qed

lemma hd_concat_filter:
  assumes "x \<in> set (concat (map (\<lambda>w. filter (P w) ys) ws))"
  shows "\<exists>w \<in> set ws. hd (concat (map (\<lambda>w. filter (P w) ys) ws)) \<in> set ys \<and>
    P w (hd (concat (map (\<lambda>w. filter (P w) ys) ws)))"
proof -
  let ?c = "concat (map (\<lambda>w. filter (P w) ys) ws)"
  from assms have "hd ?c \<in> set ?c" by (cases ?c) auto
  then show ?thesis by auto
qed

text \<open>The region the capability header reports for a ranked candidate is one of the
  candidate's own regions. Reported as strict, it is a region the caller asked for; reported as
  loose, it lies below one in the hierarchy. Whatever order the set is iterated in.\<close>

theorem served_region_truthful:
  assumes "rank_candidates_with_scores ps (Some h) = Inr rs" and "(p, u, s) \<in> set rs"
    and "served_region set_order (Some h) u p = Some (served, honored)"
    and "\<forall>xs. set (set_order xs) = set xs"
    and "hint_get h ''region'' = Some d"
  shows "served \<in> set (map lower (regions p)) \<and>
    (honored = ''strict'' \<and> served \<in> set (region_wanted (dim_value d)) \<or>
     honored = ''loose'' \<and> (\<exists>w \<in> set (region_wanted (dim_value d)). prefix (w @ ''-'') served))"
proof -
  let ?prs = "map lower (regions p)" and ?w = "region_wanted (dim_value d)"
  let ?exact = "filter (\<lambda>w. w \<in> set ?prs) ?w"
  let ?c = "concat (map (\<lambda>w. filter (\<lambda>pr. prefix (w @ ''-'') pr) ?prs) (set_order ?w))"
  from assms(3,5) have u: "''region'' \<notin> set u" and r: "regions p \<noteq> []" and w: "?w \<noteq> []"
    by (auto simp: served_region_def Let_def split: if_splits)
  from assms(5) have d: "d \<in> set (dimensions h)" "dim_key d = ''region''"
    by (auto simp: hint_get_def find_Some_iff)
  show ?thesis
  proof (cases "?exact = []")
    case False
    with assms(3,5) u r w have "served = hd (sort ?exact)" "honored = ''strict''"
      by (simp_all add: served_region_def Let_def)
    moreover have "hd (sort ?exact) \<in> set ?exact"
      using hd_in_set [of "sort ?exact"] False by (metis set_sort set_empty)
    ultimately show ?thesis by auto
  next
    case True
    have "passes p d" using ranked_met [OF assms(1,2) d(1)] u d(2) by (simp add: met_iff_passes)
    with d(2) r w True obtain v q where "v \<in> set ?w" "q \<in> set ?prs" "prefix (v @ ''-'') q"
      by (auto simp: passes_def filter_empty_conv)
    then have "q \<in> set ?c" using assms(4) by auto
    from hd_concat_filter [OF this] obtain v' where "v' \<in> set ?w" "hd ?c \<in> set ?prs" "prefix (v' @ ''-'') (hd ?c)"
      using assms(4) by auto
    moreover have "served = hd ?c" "honored = ''loose''"
      using assms(3,5) u r w True \<open>q \<in> set ?c\<close>
      by (cases ?c; simp add: served_region_def Let_def)+
    ultimately show ?thesis by auto
  qed
qed

theorem served_region_truthful_witness:
  "\<exists>p. served_region rev (Some demo_hint) [''latency''] p = Some (''eu-west'', ''loose'') \<and>
     ''eu-west'' \<in> set (map lower (regions p)) \<and>
     (\<exists>w \<in> set (region_wanted ''eu''). prefix (w @ ''-'') ''eu-west'')"
proof -
  obtain rs p u s where r: "rank_candidates_with_scores demo_profiles (Some demo_hint) = Inr rs"
    "(p, u, s) \<in> set rs" "u = [''latency'']" "regions p = [''eu-west'']"
    using demo_first_ranked by blast
  have "served_region rev (Some demo_hint) [''latency''] ((new_profile [] [] [] 0) \<lparr>regions := [''eu-west'']\<rparr>) =
      Some (''eu-west'', ''loose'')" by code_simp
  then have sv: "served_region rev (Some demo_hint) u p = Some (''eu-west'', ''loose'')"
    using r(3,4) served_region_cong [of p "(new_profile [] [] [] 0) \<lparr>regions := [''eu-west'']\<rparr>"]
    by simp
  have g: "hint_get demo_hint ''region'' = Some \<lparr>dim_key = ''region'', dim_value = ''eu'',
      required = True, sovereign = True\<rparr>" by code_simp
  have "\<forall>xs :: string list. set (rev xs) = set xs" by simp
  from served_region_truthful [OF r(1,2) sv this g] sv r(3) show ?thesis by auto
qed

end
