(* ===== verification/Stages.thy ===== *)
theory Stages
  imports Provider
begin

text \<open>
  Interfaces of the steps a list of candidates goes through. A guard keeps exactly the candidates
  that pass a test and raises when none does; a soft stage may narrow the list but never invents a
  candidate and never empties the list; a reordering drops nothing. The router's filters, its
  preferences and the reorderings by utilisation are instances, and guards compose.
\<close>

locale candidate_guard =
  fixes guard :: "'a list \<Rightarrow> 'e + 'a list" and keep :: "'a \<Rightarrow> bool"
  assumes guard_Inr: "ps \<noteq> [] \<Longrightarrow> guard ps = Inr qs \<longleftrightarrow> qs = filter keep ps \<and> qs \<noteq> []"
begin

lemma guard_passes: "ps \<noteq> [] \<Longrightarrow> is_ok (guard ps) \<longleftrightarrow> (\<exists>p \<in> set ps. keep p)"
proof -
  assume ne: "ps \<noteq> []"
  have "is_ok (guard ps) \<longleftrightarrow> (\<exists>qs. guard ps = Inr qs)" by (rule is_ok_iff)
  also have "\<dots> \<longleftrightarrow> filter keep ps \<noteq> []" by (simp add: guard_Inr [OF ne])
  finally show ?thesis by (simp add: filter_empty_conv)
qed

lemma guard_mem: "ps \<noteq> [] \<Longrightarrow> guard ps = Inr qs \<Longrightarrow> p \<in> set qs \<Longrightarrow> p \<in> set ps \<and> keep p"
  by (simp add: guard_Inr)

lemma guard_nonempty: "ps \<noteq> [] \<Longrightarrow> guard ps = Inr qs \<Longrightarrow> qs \<noteq> []"
  by (rule conjunct2 [OF iffD1 [OF guard_Inr]])

lemma guard_keeps: "p \<in> set ps \<Longrightarrow> keep p \<Longrightarrow> guard ps = Inr (filter keep ps)"
  by (subst guard_Inr) (auto simp: filter_empty_conv)

lemma guard_raises: "ps \<noteq> [] \<Longrightarrow> guard ps = Inl e \<Longrightarrow> p \<in> set ps \<Longrightarrow> \<not> keep p"
  using guard_passes by (metis is_ok_simps(1))

end

text \<open>The shape most guards have: a test that applies under a condition.\<close>

lemma candidate_guardI:
  assumes "\<And>ps. guard ps =
      (if c then if filter P ps = [] then Inl err else Inr (filter P ps) else Inr ps)"
    and "\<And>p. keep p \<longleftrightarrow> (c \<longrightarrow> P p)"
  shows "candidate_guard guard keep"
proof (unfold_locales, goal_cases)
  case (1 ps qs)
  have "keep = (\<lambda>p. c \<longrightarrow> P p)" using assms(2) by (simp add: fun_eq_iff)
  then show ?case using 1 by (cases c) (auto simp: assms(1))
qed

text \<open>Two guards in a row.\<close>

locale guard_pair = first: candidate_guard f P + second: candidate_guard g Q
  for f g :: "'a list \<Rightarrow> 'e + 'a list" and P Q
begin

lemma pair_Inr:
  assumes "ps \<noteq> []"
  shows "bind_result (f ps) g = Inr qs \<longleftrightarrow> qs = filter (\<lambda>p. P p \<and> Q p) ps \<and> qs \<noteq> []"
proof -
  have eq: "filter Q (filter P ps) = filter (\<lambda>p. P p \<and> Q p) ps" by (simp add: conj_commute)
  show ?thesis
  proof (cases "filter P ps = []")
    case True
    then have "filter (\<lambda>p. P p \<and> Q p) ps = []" by (auto simp: filter_empty_conv)
    moreover have "bind_result (f ps) g \<noteq> Inr qs"
      using first.guard_Inr [OF assms] True by (auto simp: bind_result_Inr)
    ultimately show ?thesis by blast
  next
    case False
    then have "f ps = Inr (filter P ps)" using first.guard_Inr [OF assms] by blast
    then show ?thesis using second.guard_Inr [OF False] eq by simp
  qed
qed

end

sublocale guard_pair \<subseteq> both: candidate_guard "\<lambda>ps. bind_result (f ps) g" "\<lambda>p. P p \<and> Q p"
  by unfold_locales (rule pair_Inr)

locale soft_stage =
  fixes stage :: "'a list \<Rightarrow> 'a list"
  assumes stage_subset: "set (stage ps) \<subseteq> set ps" and stage_nonempty: "ps \<noteq> [] \<Longrightarrow> stage ps \<noteq> []"
begin

lemma stage_mem: "p \<in> set (stage ps) \<Longrightarrow> p \<in> set ps"
  using stage_subset by blast

lemma stage_empty_iff: "stage ps = [] \<longleftrightarrow> ps = []"
  using stage_subset [of ps] stage_nonempty by auto

end

locale candidate_reorder =
  fixes reorder :: "'a list \<Rightarrow> 'a list"
  assumes reorder_mset: "mset (reorder ps) = mset ps"
begin

lemma reorder_set: "set (reorder ps) = set ps"
  using reorder_mset by (metis set_mset_mset)

lemma reorder_length: "length (reorder ps) = length ps"
  using reorder_mset by (metis size_mset)

lemma reorder_nonempty: "reorder ps = [] \<longleftrightarrow> ps = []"
  using reorder_mset [of ps] by (metis mset_zero_iff)

end

sublocale candidate_reorder \<subseteq> soft_stage reorder
  by unfold_locales (simp_all add: reorder_set reorder_nonempty)

section \<open>In-place reordering of a subset\<close>

text \<open>Replace the elements at the given positions by the given values, left to right.\<close>

fun place :: "nat list \<Rightarrow> 'a list \<Rightarrow> 'a list \<Rightarrow> 'a list" where
  "place (i # is) (x # xs) ys = place is xs (ys[i := x])"
| "place _ _ ys = ys"

definition positions :: "('a \<Rightarrow> bool) \<Rightarrow> 'a list \<Rightarrow> nat list" where
  "positions P ys = filter (\<lambda>i. P (ys ! i)) [0..<length ys]"

lemma length_place [simp]: "length (place is xs ys) = length ys"
  by (induction "is" xs ys rule: place.induct) auto

lemma place_other: "i \<notin> set is \<Longrightarrow> place is xs ys ! i = ys ! i"
  by (induction "is" xs ys rule: place.induct) auto

lemma place_at:
  "distinct is \<Longrightarrow> length is = length xs \<Longrightarrow> \<forall>i \<in> set is. i < length ys \<Longrightarrow> k < length is \<Longrightarrow>
   place is xs ys ! (is ! k) = xs ! k"
proof (induction "is" xs ys arbitrary: k rule: place.induct)
  case (1 i "is" x xs ys)
  show ?case
  proof (cases k)
    case 0
    with 1 show ?thesis by (simp add: place_other)
  next
    case (Suc j)
    with 1 show ?thesis by simp
  qed
qed auto

lemma positions_nth: "map ((!) ys) (positions P ys) = filter P ys"
proof -
  have "filter P (map ((!) ys) [0..<length ys]) = map ((!) ys) (filter (P \<circ> (!) ys) [0..<length ys])"
    by (rule filter_map)
  then show ?thesis by (simp add: positions_def map_nth comp_def)
qed

lemma positions_ok: "distinct (positions P ys)" "i \<in> set (positions P ys) \<longleftrightarrow> i < length ys \<and> P (ys ! i)"
  by (auto simp: positions_def)

lemma place_positions:
  assumes "length xs = length (filter P ys)" and "\<forall>x \<in> set xs. P x"
  shows "positions P (place (positions P ys) xs ys) = positions P ys"
    and "filter P (place (positions P ys) xs ys) = xs"
proof -
  let ?is = "positions P ys" and ?r = "place (positions P ys) xs ys"
  have len: "length ?is = length xs" using assms(1) positions_nth [of ys P] by (metis length_map)
  have at: "?r ! (?is ! k) = xs ! k" if "k < length ?is" for k
    using that len by (intro place_at) (auto simp: positions_ok)
  have iff: "P (?r ! i) \<longleftrightarrow> P (ys ! i)" if "i < length ys" for i
  proof (cases "i \<in> set ?is")
    case True
    then obtain k where "k < length ?is" "?is ! k = i" by (auto simp: in_set_conv_nth)
    with at len assms(2) True show ?thesis by (auto simp: positions_ok)
  next
    case False
    then show ?thesis by (simp add: place_other)
  qed
  show "positions P ?r = ?is" using iff by (auto simp: positions_def intro: filter_cong)
  then have "filter P ?r = map ((!) ?r) ?is" using positions_nth [of ?r P] by simp
  also have "\<dots> = xs" using at len by (intro nth_equalityI) auto
  finally show "filter P ?r = xs" .
qed

lemma place_rest:
  assumes "length xs = length (filter P ys)" and "\<forall>x \<in> set xs. P x"
  shows "filter (\<lambda>x. \<not> P x) (place (positions P ys) xs ys) = filter (\<lambda>x. \<not> P x) ys"
proof -
  let ?r = "place (positions P ys) xs ys"
  let ?Q = "\<lambda>x. \<not> P x"
  have eq: "\<forall>i < length ys. P (?r ! i) = P (ys ! i)"
    using place_positions(1) [OF assms] positions_ok(2) [of _ P ys] positions_ok(2) [of _ P ?r]
    by (metis length_place)
  then have "positions ?Q ?r = positions ?Q ys"
    by (auto simp: positions_def intro: filter_cong)
  moreover have "map ((!) ?r) (positions ?Q ys) = map ((!) ys) (positions ?Q ys)"
    by (auto simp: positions_ok place_other)
  ultimately show ?thesis by (metis positions_nth)
qed

lemma place_mset:
  assumes "mset xs = mset (filter P ys)"
  shows "mset (place (positions P ys) xs ys) = mset ys"
proof -
  let ?r = "place (positions P ys) xs ys"
  have a: "length xs = length (filter P ys)" using assms by (metis size_mset)
  have "set xs = set (filter P ys)" using assms by (metis set_mset_mset)
  then have b: "\<forall>x \<in> set xs. P x" by simp
  have "mset ?r = mset (filter P ?r) + mset (filter (\<lambda>x. \<not> P x) ?r)" by simp
  also have "\<dots> = mset (filter P ys) + mset (filter (\<lambda>x. \<not> P x) ys)"
    using place_positions(2) [OF a b] place_rest [OF a b] assms by (metis mset_filter)
  finally show ?thesis by simp
qed

end
