(* ===== verification/Ttl_Cache.thy ===== *)
theory Ttl_Cache
  imports Provider
begin

text \<open>
  The interface of a time-limited cache, which the code has three times: the blocklist of a key,
  the utilisation map and the boolean system settings. A read returns the stored value while it is
  young enough and otherwise reads the source and stores what it found. The client's lemma is the
  staleness bound: an answer is what the source said less than the lifetime ago.
\<close>

definition entries_from :: "(clock \<Rightarrow> 'v) \<Rightarrow> clock \<Rightarrow> (clock \<times> 'v) option \<Rightarrow> bool" where
  "entries_from hist now ent \<longleftrightarrow> (\<forall>t v. ent = Some (t, v) \<longrightarrow> t \<le> now \<and> v = hist t)"

locale ttl_cache =
  fixes get :: "'e \<Rightarrow> clock \<Rightarrow> 'c \<Rightarrow> 'v \<times> 'c" and current :: "'e \<Rightarrow> 'v"
    and entry :: "'c \<Rightarrow> (clock \<times> 'v) option" and ttl :: clock
  assumes ttl_pos: "0 < ttl"
    and get_hit: "entry c = Some (t, v) \<Longrightarrow> now < t + ttl \<Longrightarrow> get e now c = (v, c)"
    and get_miss: "(\<And>t v. entry c = Some (t, v) \<Longrightarrow> t + ttl \<le> now) \<Longrightarrow>
      fst (get e now c) = current e \<and> entry (snd (get e now c)) = Some (now, current e)"
begin

lemma read_empty: "entry c = None \<Longrightarrow> fst (get e now c) = current e"
  using get_miss [of c now e] by simp

lemma read_source:
  assumes "entries_from hist t0 (entry c)" and "t0 \<le> now" and "current e = hist now"
  shows "\<exists>t. now - ttl < t \<and> t \<le> now \<and> fst (get e now c) = hist t"
    and "entries_from hist now (entry (snd (get e now c)))"
proof -
  have "(\<exists>t. now - ttl < t \<and> t \<le> now \<and> fst (get e now c) = hist t) \<and>
      entries_from hist now (entry (snd (get e now c)))"
  proof (cases "\<exists>t v. entry c = Some (t, v) \<and> now < t + ttl")
    case True
    then obtain t v where c: "entry c = Some (t, v)" "now < t + ttl" by blast
    moreover have "t \<le> now" "v = hist t" using assms(1,2) c(1) by (auto simp: entries_from_def)
    ultimately show ?thesis
      using get_hit [OF c, of e] by (auto simp: entries_from_def intro!: exI [of _ t])
  next
    case False
    then have "\<And>t v. entry c = Some (t, v) \<Longrightarrow> t + ttl \<le> now" by force
    from get_miss [of c now e, OF this] show ?thesis
      using assms(3) ttl_pos by (auto simp: entries_from_def intro!: exI [of _ now])
  qed
  then show "\<exists>t. now - ttl < t \<and> t \<le> now \<and> fst (get e now c) = hist t"
    and "entries_from hist now (entry (snd (get e now c)))" by blast+
qed

end

end
