(* ===== verification/External_Rotation.thy ===== *)
theory External_Rotation
  imports Circuit_Breaker Stages Ttl_Cache
begin

text \<open>
  Rotation by externally reported usage (\<^verbatim>\<open>app/routing/external_rotation.py\<close>): usage
  snapshots set and clear a skip window on the provider row, the router leaves skipped providers
  out and prefers the subscription account with more headroom. The texts the rules write for the
  operator are rendered by the parameter \<open>render\<close> from their parts; nothing reads them.
\<close>

section \<open>Snapshots and rules\<close>

record usage_snapshot =
  snap_provider_id :: ident
  captured_at :: clock
  five_hour_utilization :: "rat option"
  five_hour_resets_at :: "clock option"
  seven_day_utilization :: "rat option"
  seven_day_resets_at :: "clock option"

datatype skip_part =
    Session_part rat "clock option"
  | Weekly_part rat rat "clock option"

datatype rotation_decision = No_snapshot | No_utilization | Skip_set | Skip_cleared | No_change

definition latest_snapshot :: "usage_snapshot list \<Rightarrow> ident \<Rightarrow> usage_snapshot option" where
  "latest_snapshot snaps i =
     (case sort_key (\<lambda>s. - captured_at s) (filter (\<lambda>s. snap_provider_id s = i) snaps) of
        [] \<Rightarrow> None | s # _ \<Rightarrow> Some s)"

fun opt_list :: "'a option \<Rightarrow> 'a list" where
  "opt_list None = []"
| "opt_list (Some x) = [x]"

definition session_exhausted :: "usage_snapshot \<Rightarrow> bool" where
  "session_exhausted s = (case five_hour_utilization s of None \<Rightarrow> False | Some u \<Rightarrow> 100 \<le> u)"

definition weekly_exhausted :: "settings \<Rightarrow> usage_snapshot \<Rightarrow> bool" where
  "weekly_exhausted cfg s =
     (case seven_day_utilization s of None \<Rightarrow> False | Some u \<Rightarrow> external_rotation_capacity_pct cfg \<le> u)"

definition clear_below :: "settings \<Rightarrow> rat" where
  "clear_below cfg = max 0 (external_rotation_capacity_pct cfg - external_rotation_hysteresis_pct cfg)"

definition reset_candidates :: "settings \<Rightarrow> usage_snapshot \<Rightarrow> clock list" where
  "reset_candidates cfg s =
     (if session_exhausted s then opt_list (five_hour_resets_at s) else []) @
     (if weekly_exhausted cfg s then opt_list (seven_day_resets_at s) else [])"

definition skip_parts :: "settings \<Rightarrow> usage_snapshot \<Rightarrow> skip_part list" where
  "skip_parts cfg s =
     (if session_exhausted s
      then [Session_part (the (five_hour_utilization s)) (five_hour_resets_at s)] else []) @
     (if weekly_exhausted cfg s
      then [Weekly_part (the (seven_day_utilization s)) (external_rotation_capacity_pct cfg)
              (seven_day_resets_at s)] else [])"

definition evaluate_rules_for_provider ::
  "(skip_part list \<Rightarrow> string) \<Rightarrow> settings \<Rightarrow> usage_snapshot option \<Rightarrow> provider \<Rightarrow>
   provider \<times> rotation_decision" where
  "evaluate_rules_for_provider render cfg snap p =
     (case snap of
        None \<Rightarrow> (p, No_snapshot)
      | Some s \<Rightarrow>
          if seven_day_utilization s = None \<and> five_hour_utilization s = None
          then (p, No_utilization)
          else if session_exhausted s \<or> weekly_exhausted cfg s
          then (let cs = reset_candidates cfg s in
                (p \<lparr>auto_skip_until := (if cs \<noteq> [] then Some (Max (set cs)) else None),
                    auto_skip_reason := Some (render (skip_parts cfg s))\<rparr>, Skip_set))
          else if auto_skip_until p \<noteq> None
          then (let weekly_ok = (case seven_day_utilization s of None \<Rightarrow> True | Some u \<Rightarrow> u \<le> clear_below cfg);
                    session_ok = (case five_hour_utilization s of None \<Rightarrow> True | Some u \<Rightarrow> u < 100)
                in if weekly_ok \<and> session_ok
                   then (p \<lparr>auto_skip_until := None, auto_skip_reason := None\<rparr>, Skip_cleared)
                   else (p, No_change))
          else (p, No_change))"

definition evaluate_rules_for_all_providers ::
  "(skip_part list \<Rightarrow> string) \<Rightarrow> settings \<Rightarrow> usage_snapshot list \<Rightarrow> provider_table \<Rightarrow>
   provider_table \<times> rotation_decision list" where
  "evaluate_rules_for_all_providers render cfg snaps rows =
     (let due = (\<lambda>p. provider_type p \<in> {''claude-oauth'', ''cursor-oauth''} \<and> deleted_at p = None);
          ev = (\<lambda>p. evaluate_rules_for_provider render cfg (latest_snapshot snaps (pid p)) p)
      in (map (\<lambda>p. if due p then fst (ev p) else p) rows, map (\<lambda>p. snd (ev p)) (filter due rows)))"

definition is_currently_at_capacity :: "clock \<Rightarrow> provider \<Rightarrow> bool" where
  "is_currently_at_capacity now p = (case auto_skip_until p of None \<Rightarrow> False | Some u \<Rightarrow> now < u)"

section \<open>The utilisation map\<close>

definition UTIL_CACHE_TTL_SEC :: clock where "UTIL_CACHE_TTL_SEC = 30"

type_synonym util_map = "ident \<rightharpoonup> rat"
type_synonym util_cache = "(clock \<times> util_map) option"

definition query_utilization :: "usage_snapshot list \<Rightarrow> util_map" where
  "query_utilization snaps =
     foldl (\<lambda>m s. if snap_provider_id s \<in> dom m then m
                  else m(snap_provider_id s \<mapsto> the (seven_day_utilization s)))
       Map.empty (sort_key (\<lambda>s. - captured_at s) (filter (\<lambda>s. seven_day_utilization s \<noteq> None) snaps))"

definition get_utilization_map :: "clock \<Rightarrow> usage_snapshot list \<Rightarrow> util_cache \<Rightarrow> util_map \<times> util_cache" where
  "get_utilization_map now snaps cache =
     (let fresh = (query_utilization snaps, Some (now + UTIL_CACHE_TTL_SEC, query_utilization snaps)) in
      case cache of
        Some (expires, m) \<Rightarrow> if now < expires then (m, cache) else fresh
      | None \<Rightarrow> fresh)"

section \<open>Reordering\<close>

definition utilization_bucket :: "rat option \<Rightarrow> rat \<Rightarrow> int" where
  "utilization_bucket util bsize =
     (case util of None \<Rightarrow> 999
      | Some u \<Rightarrow> if u < 0 then 0 else max 0 \<lfloor>u / max bsize 1\<rfloor>)"

definition util_key :: "util_map \<Rightarrow> rat \<Rightarrow> provider \<Rightarrow> int \<times> int" where
  "util_key m bsize p = (utilization_bucket (m (pid p)) bsize, priority p)"

definition reorder_subscription_by_utilization ::
  "util_map \<Rightarrow> string \<Rightarrow> rat \<Rightarrow> provider list \<Rightarrow> provider list" where
  "reorder_subscription_by_utilization m ty bsize ps =
     (let pos = positions (\<lambda>p. provider_type p = ty) ps in
      if length pos < 2 then ps
      else place pos (sort_key (util_key m bsize) (map ((!) ps) pos)) ps)"

definition reorder_claude_oauth_by_utilization :: "util_map \<Rightarrow> rat \<Rightarrow> provider list \<Rightarrow> provider list" where
  "reorder_claude_oauth_by_utilization m bsize ps =
     reorder_subscription_by_utilization m ''cursor-oauth'' bsize
       (reorder_subscription_by_utilization m ''claude-oauth'' bsize ps)"

section \<open>What a reordering keeps\<close>

lemma reorder_one_mset: "mset (reorder_subscription_by_utilization m ty bsize ps) = mset ps"
  by (simp add: reorder_subscription_by_utilization_def Let_def positions_nth place_mset)

lemma sort_key_short: "length xs < 2 \<Longrightarrow> sort_key f xs = xs"
  by (cases xs) (auto simp: neq_Nil_conv)

lemma reorder_one_filter:
  "filter (\<lambda>p. provider_type p = ty) (reorder_subscription_by_utilization m ty bsize ps) =
   sort_key (util_key m bsize) (filter (\<lambda>p. provider_type p = ty) ps)"
proof -
  let ?P = "\<lambda>p. provider_type p = ty"
  have len: "length (positions ?P ps) = length (filter ?P ps)"
    using positions_nth [of ps ?P] by (metis length_map)
  show ?thesis
  proof (cases "length (positions ?P ps) < 2")
    case True
    with len show ?thesis by (simp add: reorder_subscription_by_utilization_def sort_key_short)
  next
    case False
    then show ?thesis
      by (simp add: reorder_subscription_by_utilization_def Let_def positions_nth place_positions(2))
  qed
qed

lemma reorder_one_other:
  assumes "i < length ps" and "provider_type (ps ! i) \<noteq> ty"
  shows "reorder_subscription_by_utilization m ty bsize ps ! i = ps ! i"
  using assms by (simp add: reorder_subscription_by_utilization_def Let_def place_other positions_ok)

interpretation utilization: ttl_cache "\<lambda>snaps now c. get_utilization_map now snaps c" query_utilization
  "map_option (\<lambda>(e, v). (e - UTIL_CACHE_TTL_SEC, v))" UTIL_CACHE_TTL_SEC
  by unfold_locales (auto simp: get_utilization_map_def UTIL_CACHE_TTL_SEC_def Let_def split: option.splits)

interpretation one_type: candidate_reorder "reorder_subscription_by_utilization m ty bsize"
  by unfold_locales (rule reorder_one_mset)

interpretation by_headroom: candidate_reorder "reorder_claude_oauth_by_utilization m bsize"
  by unfold_locales (simp add: reorder_claude_oauth_by_utilization_def reorder_one_mset)

lemma reorder_one_rest:
  "filter (\<lambda>p. provider_type p \<noteq> ty) (reorder_subscription_by_utilization m ty bsize ps) =
   filter (\<lambda>p. provider_type p \<noteq> ty) ps"
  by (simp add: reorder_subscription_by_utilization_def Let_def positions_nth place_rest)

lemma filter_subtype:
  "ty \<noteq> ty' \<Longrightarrow> filter (\<lambda>p. provider_type p = ty) ps =
     filter (\<lambda>p. provider_type p = ty) (filter (\<lambda>p. provider_type p \<noteq> ty') ps)"
  by (auto intro: filter_cong)

lemma reorder_one_other_type:
  "ty \<noteq> ty' \<Longrightarrow> filter (\<lambda>p. provider_type p = ty) (reorder_subscription_by_utilization m ty' bsize ps) =
     filter (\<lambda>p. provider_type p = ty) ps"
  by (metis filter_subtype reorder_one_rest)

text \<open>The reordering by headroom only permutes: no provider is lost or duplicated, a provider
  of any other type keeps its position, and the accounts of each of the two subscription types
  stand in the positions of that type ordered by utilisation bucket and then by the operator's
  priority, ties in their old order.\<close>

theorem headroom_reorder:
  fixes m bsize ps
  defines "r \<equiv> reorder_claude_oauth_by_utilization m bsize ps"
  shows "mset r = mset ps \<and>
    (\<forall>i < length ps. provider_type (ps ! i) \<notin> {''claude-oauth'', ''cursor-oauth''} \<longrightarrow> r ! i = ps ! i) \<and>
    (\<forall>ty \<in> {''claude-oauth'', ''cursor-oauth''}.
       filter (\<lambda>p. provider_type p = ty) r =
         sort_key (util_key m bsize) (filter (\<lambda>p. provider_type p = ty) ps))"
proof -
  let ?q = "reorder_subscription_by_utilization m ''claude-oauth'' bsize ps"
  have len: "length ?q = length ps" by (rule one_type.reorder_length)
  have "r ! i = ps ! i" if "i < length ps" "provider_type (ps ! i) \<notin> {''claude-oauth'', ''cursor-oauth''}" for i
  proof -
    from that have "?q ! i = ps ! i" by (simp add: reorder_one_other)
    with that len show ?thesis by (simp add: r_def reorder_claude_oauth_by_utilization_def reorder_one_other)
  qed
  moreover have "mset r = mset ps" unfolding r_def by (rule by_headroom.reorder_mset)
  ultimately show ?thesis
    by (simp add: r_def reorder_claude_oauth_by_utilization_def reorder_one_filter reorder_one_other_type)
qed

theorem headroom_reorder_witness:
  "let ps = [new_provider ''a'' ''A'' ''claude-oauth'' None 1, new_provider ''x'' ''X'' ''openai'' None 2,
             new_provider ''b'' ''B'' ''claude-oauth'' None 3];
       m = [''a'' \<mapsto> 80, ''b'' \<mapsto> 10]
   in map pid (reorder_claude_oauth_by_utilization m 25 ps) = [''b'', ''x'', ''a''] \<and>
      reorder_claude_oauth_by_utilization m 25 ps ! 1 = ps ! 1"
proof -
  let ?ps = "[new_provider ''a'' ''A'' ''claude-oauth'' None 1, new_provider ''x'' ''X'' ''openai'' None 2,
             new_provider ''b'' ''B'' ''claude-oauth'' None 3]"
  let ?m = "[''a'' \<mapsto> 80, ''b'' \<mapsto> 10]"
  have "provider_type (?ps ! 1) = ''openai''" by (simp add: new_provider_def)
  then have "reorder_claude_oauth_by_utilization ?m 25 ?ps ! 1 = ?ps ! 1"
    using headroom_reorder [of ?m 25 ?ps] by simp
  moreover have "map pid (reorder_claude_oauth_by_utilization ?m 25 ?ps) = [''b'', ''x'', ''a'']" by code_simp
  ultimately show ?thesis by (simp add: Let_def)
qed

section \<open>The rules\<close>

text \<open>When a snapshot reports an exhausted bucket and a reset time for every exhausted bucket,
  the provider is skipped from then on until the last of those resets has passed, and not a
  moment longer, whatever skip it had before.\<close>

theorem exhausted_skips_until_reset:
  assumes "session_exhausted s \<or> weekly_exhausted cfg s"
    and "session_exhausted s \<Longrightarrow> five_hour_resets_at s \<noteq> None"
    and "weekly_exhausted cfg s \<Longrightarrow> seven_day_resets_at s \<noteq> None"
  shows "is_currently_at_capacity now (fst (evaluate_rules_for_provider render cfg (Some s) p)) \<longleftrightarrow>
    session_exhausted s \<and> now < the (five_hour_resets_at s) \<or>
    weekly_exhausted cfg s \<and> now < the (seven_day_resets_at s)"
proof -
  let ?cs = "reset_candidates cfg s"
  have some: "seven_day_utilization s \<noteq> None \<or> five_hour_utilization s \<noteq> None"
    using assms(1) by (auto simp: session_exhausted_def weekly_exhausted_def split: option.splits)
  have ne: "?cs \<noteq> []" and mem: "x \<in> set ?cs \<longleftrightarrow>
      session_exhausted s \<and> x = the (five_hour_resets_at s) \<or>
      weekly_exhausted cfg s \<and> x = the (seven_day_resets_at s)" for x
    using assms by (auto simp: reset_candidates_def)
  have "is_currently_at_capacity now (fst (evaluate_rules_for_provider render cfg (Some s) p)) \<longleftrightarrow>
      now < Max (set ?cs)"
    using some assms(1) ne
    by (auto simp: evaluate_rules_for_provider_def is_currently_at_capacity_def Let_def)
  also have "\<dots> \<longleftrightarrow> (\<exists>x \<in> set ?cs. now < x)" using ne by (simp add: Max_gr_iff)
  also have "\<dots> \<longleftrightarrow> session_exhausted s \<and> now < the (five_hour_resets_at s) \<or>
      weekly_exhausted cfg s \<and> now < the (seven_day_resets_at s)"
    unfolding Bex_def mem by blast
  finally show ?thesis .
qed

definition demo_snapshot :: usage_snapshot where
  "demo_snapshot =
     \<lparr>snap_provider_id = ''p'', captured_at = 0, five_hour_utilization = Some 100,
      five_hour_resets_at = Some 5000, seven_day_utilization = Some 96, seven_day_resets_at = Some 90000\<rparr>"

theorem exhausted_skips_until_reset_witness:
  "is_currently_at_capacity 6000 (fst (evaluate_rules_for_provider (\<lambda>_. []) default_settings (Some demo_snapshot)
     (new_provider ''p'' ''P'' ''claude-oauth'' None 1)))"
  using exhausted_skips_until_reset [of demo_snapshot default_settings 6000 "\<lambda>_. []"
      "new_provider ''p'' ''P'' ''claude-oauth'' None 1"]
  by (simp add: demo_snapshot_def session_exhausted_def weekly_exhausted_def default_settings_def)

text \<open>An exhausted bucket with no reset time does the opposite of a skip: the row's skip window
  is erased, the decision still reads as a skip, and the router treats the provider as
  available at once.\<close>

theorem exhausted_without_reset:
  assumes "session_exhausted s \<or> weekly_exhausted cfg s"
    and "session_exhausted s \<Longrightarrow> five_hour_resets_at s = None"
    and "weekly_exhausted cfg s \<Longrightarrow> seven_day_resets_at s = None"
  shows "\<exists>p'. evaluate_rules_for_provider render cfg (Some s) p = (p', Skip_set) \<and>
    \<not> is_currently_at_capacity now p'"
proof -
  have "seven_day_utilization s \<noteq> None \<or> five_hour_utilization s \<noteq> None"
    using assms(1) by (auto simp: session_exhausted_def weekly_exhausted_def split: option.splits)
  moreover have "reset_candidates cfg s = []" using assms(2,3) by (auto simp: reset_candidates_def)
  ultimately show ?thesis
    using assms(1) by (simp add: evaluate_rules_for_provider_def is_currently_at_capacity_def Let_def)
qed

theorem exhausted_without_reset_witness:
  "\<exists>p'. evaluate_rules_for_provider (\<lambda>_. []) default_settings
       (Some (demo_snapshot \<lparr>five_hour_resets_at := None, seven_day_resets_at := None\<rparr>))
       ((new_provider ''p'' ''P'' ''claude-oauth'' None 1) \<lparr>auto_skip_until := Some 9000\<rparr>) = (p', Skip_set) \<and>
     \<not> is_currently_at_capacity 100 p'"
  by (rule exhausted_without_reset)
    (simp_all add: demo_snapshot_def session_exhausted_def weekly_exhausted_def default_settings_def)

text \<open>Hysteresis: with weekly usage strictly between the floor and the threshold and the session
  bucket not exhausted, an evaluation changes nothing, so a provider keeps the skip it has or
  the lack of one.\<close>

theorem hysteresis_no_flapping:
  assumes "seven_day_utilization s = Some u" and "clear_below cfg < u"
    and "u < external_rotation_capacity_pct cfg" and "\<not> session_exhausted s"
  shows "evaluate_rules_for_provider render cfg (Some s) p = (p, No_change)"
  using assms by (simp add: evaluate_rules_for_provider_def weekly_exhausted_def)

theorem hysteresis_no_flapping_witness:
  "evaluate_rules_for_provider (\<lambda>_. []) default_settings
     (Some (demo_snapshot \<lparr>seven_day_utilization := Some 92, five_hour_utilization := None\<rparr>))
     (new_provider ''p'' ''P'' ''claude-oauth'' None 1) = (new_provider ''p'' ''P'' ''claude-oauth'' None 1, No_change)"
  by (rule hysteresis_no_flapping [where u = 92])
    (simp_all add: demo_snapshot_def clear_below_def default_settings_def session_exhausted_def)

text \<open>The usage rules clear a skip whoever set it: the 24-hour skip persisted for repeated
  authentication failures is removed by the next snapshot with healthy usage, and the provider
  is available to the router again at once.\<close>

theorem healthy_usage_lifts_auth_skip:
  assumes "find_row i rows = Some p" and "\<not> node_local_session p" and "auto_skip_until p = None"
    and "seven_day_utilization s = Some u" and "u \<le> clear_below cfg"
    and "u < external_rotation_capacity_pct cfg" and "\<not> session_exhausted s"
  shows "\<exists>p'. find_row i (persist_auto_skip now i rows) = Some p' \<and>
    auto_skip_reason p' = Some ''persistent_auth_failure'' \<and> is_currently_at_capacity now p' \<and>
    \<not> is_currently_at_capacity now (fst (evaluate_rules_for_provider render cfg (Some s) p'))"
proof -
  let ?p = "p \<lparr>auto_skip_until := Some (now + 24 * 3600), auto_skip_reason := Some ''persistent_auth_failure''\<rparr>"
  have "find_row i (persist_auto_skip now i rows) = Some ?p"
    using persist_auto_skip_row [OF assms(1), of now] assms(2,3) by simp
  moreover have "is_currently_at_capacity now ?p" by (simp add: is_currently_at_capacity_def)
  moreover have "\<not> is_currently_at_capacity now (fst (evaluate_rules_for_provider render cfg (Some s) ?p))"
    using assms(4-7)
    by (cases "five_hour_utilization s")
      (simp_all add: evaluate_rules_for_provider_def weekly_exhausted_def session_exhausted_def
        is_currently_at_capacity_def Let_def)
  ultimately show ?thesis by auto
qed

theorem healthy_usage_lifts_auth_skip_witness:
  "\<exists>p'. find_row ''p'' (persist_auto_skip 100 ''p'' [new_provider ''p'' ''P'' ''claude-oauth'' None 1]) = Some p' \<and>
    is_currently_at_capacity 100 p' \<and>
    \<not> is_currently_at_capacity 100 (fst (evaluate_rules_for_provider (\<lambda>_. []) default_settings
        (Some (demo_snapshot \<lparr>seven_day_utilization := Some 20, five_hour_utilization := None\<rparr>)) p'))"
  using healthy_usage_lifts_auth_skip [of "''p''" "[new_provider ''p'' ''P'' ''claude-oauth'' None 1]"
      "new_provider ''p'' ''P'' ''claude-oauth'' None 1"
      "demo_snapshot \<lparr>seven_day_utilization := Some 20, five_hour_utilization := None\<rparr>" 20 default_settings 100 "\<lambda>_. []"]
  by (auto simp: demo_snapshot_def clear_below_def default_settings_def session_exhausted_def find_row_def
      node_local_session_def json_get_def new_provider_def)

end
