(* ===== verification/Node_Auth.thy ===== *)
theory Node_Auth
  imports Lmrh_Types
begin

text \<open>
  Per-node authentication state (\<^verbatim>\<open>app/routing/node_auth_state.py\<close>). The table is the list
  of rows with key (provider, node); a node writes its own rows only and the router asks whether
  its own row says \<open>ok\<close>.
\<close>

record node_auth_row =
  na_provider_id :: ident
  na_node_id :: ident
  auth_state :: string
  last_ok_at :: "clock option"
  last_check_at :: "clock option"
  reauth_url :: "string option"
  last_error :: "string option"

type_synonym node_auth_table = "node_auth_row list"

definition VALID_AUTH_STATES :: "string list" where
  "VALID_AUTH_STATES = [''ok'', ''expired'', ''needs_reauth'', ''never_authed'', ''bridge_down'']"

definition MAX_LAST_ERROR_CHARS :: nat where "MAX_LAST_ERROR_CHARS = 400"

text \<open>The text appended to a shortened error; its first character, the ellipsis U+2026, is written
  as the three bytes of its UTF-8 encoding.\<close>

definition truncated_mark :: string where
  "truncated_mark = [char_of (226 :: nat), char_of (128 :: nat), char_of (166 :: nat)] @ ''[truncated]''"

definition own_node_id :: "settings \<Rightarrow> ident" where
  "own_node_id cfg = or_else (cluster_node_id cfg) ''unknown-node''"

definition cap_error :: "string option \<Rightarrow> string option" where
  "cap_error e =
     (case e of
        None \<Rightarrow> None
      | Some s \<Rightarrow>
          if s = [] then None
          else if length s > MAX_LAST_ERROR_CHARS
          then Some (take MAX_LAST_ERROR_CHARS s @ truncated_mark) else Some s)"

definition na_key :: "node_auth_row \<Rightarrow> ident \<times> ident" where
  "na_key r = (na_provider_id r, na_node_id r)"

definition read_state :: "settings \<Rightarrow> node_auth_table \<Rightarrow> ident \<Rightarrow> ident option \<Rightarrow> node_auth_row option" where
  "read_state cfg t i node = find (\<lambda>r. na_key r = (i, or_else node (own_node_id cfg))) t"

definition read_all_states :: "node_auth_table \<Rightarrow> ident \<Rightarrow> node_auth_row list" where
  "read_all_states t i = filter (\<lambda>r. na_provider_id r = i) t"

fun update_first :: "('a \<Rightarrow> bool) \<Rightarrow> ('a \<Rightarrow> 'a) \<Rightarrow> 'a list \<Rightarrow> 'a list" where
  "update_first P f [] = []"
| "update_first P f (x # xs) = (if P x then f x # xs else x # update_first P f xs)"

definition write_local_state ::
  "settings \<Rightarrow> clock \<Rightarrow> node_auth_table \<Rightarrow> ident \<Rightarrow> string \<Rightarrow> clock option \<Rightarrow> string option \<Rightarrow>
   string option \<Rightarrow> py_error + node_auth_table" where
  "write_local_state cfg now t i st ok_at url err =
     (if st \<notin> set VALID_AUTH_STATES then Inl (ValueError (''invalid auth_state '' @ st))
      else let k = (i, own_node_id cfg);
               now_if_ok = (if st = ''ok'' then Some now else None)
           in case find (\<lambda>r. na_key r = k) t of
                None \<Rightarrow>
                  Inr (t @ [\<lparr>na_provider_id = i, na_node_id = own_node_id cfg, auth_state = st,
                            last_ok_at = (if ok_at \<noteq> None then ok_at else now_if_ok),
                            last_check_at = Some now, reauth_url = url, last_error = cap_error err\<rparr>])
              | Some _ \<Rightarrow>
                  Inr (update_first (\<lambda>r. na_key r = k)
                    (\<lambda>r. r \<lparr>auth_state := st, last_check_at := Some now,
                           last_ok_at := (if ok_at \<noteq> None then ok_at
                                          else if st = ''ok'' then Some now else last_ok_at r),
                           reauth_url := url, last_error := cap_error err\<rparr>) t))"

definition is_local_node_routable :: "node_auth_row option \<Rightarrow> bool" where
  "is_local_node_routable r = (case r of None \<Rightarrow> False | Some s \<Rightarrow> auth_state s = ''ok'')"

lemma find_snoc: "find P xs = None \<Longrightarrow> P x \<Longrightarrow> find P (xs @ [x]) = Some x"
  by (induction xs) (auto split: if_splits)

section \<open>Writes stay local\<close>

lemma find_update_first_same:
  "(\<And>x. P x \<Longrightarrow> P (f x)) \<Longrightarrow> find P (update_first P f xs) = map_option f (find P xs)"
  by (induction xs) auto

lemma filter_update_first:
  "(\<And>x. P x \<Longrightarrow> \<not> Q x \<and> \<not> Q (f x)) \<Longrightarrow> filter Q (update_first P f xs) = filter Q xs"
  by (induction xs) auto

lemma map_update_first: "(\<And>x. P x \<Longrightarrow> g (f x) = g x) \<Longrightarrow> map g (update_first P f xs) = map g xs"
  by (induction xs) auto

text \<open>A node writes its own row and nothing else: the rows of every other provider or node are
  the same as before, the table keeps one row per key, and reading the row back gives the state
  just written, with a bounded error text; the router on this node may use the provider exactly
  when that state is \<open>ok\<close>.\<close>

theorem node_write_local:
  assumes "write_local_state cfg now t i st ok_at url err = Inr t'"
  shows "filter (\<lambda>r. na_key r \<noteq> (i, own_node_id cfg)) t' = filter (\<lambda>r. na_key r \<noteq> (i, own_node_id cfg)) t \<and>
    (distinct (map na_key t) \<longrightarrow> distinct (map na_key t')) \<and>
    (\<exists>r. read_state cfg t' i None = Some r \<and> auth_state r = st \<and> last_check_at r = Some now \<and>
       (case last_error r of None \<Rightarrow> True | Some e \<Rightarrow> length e \<le> 400 + length truncated_mark)) \<and>
    (is_local_node_routable (read_state cfg t' i None) \<longleftrightarrow> st = ''ok'')"
proof -
  let ?k = "(i, own_node_id cfg)"
  let ?P = "\<lambda>r. na_key r = ?k"
  define f where "f = (\<lambda>r :: node_auth_row. r \<lparr>auth_state := st, last_check_at := Some now,
    last_ok_at := (if ok_at \<noteq> None then ok_at else if st = ''ok'' then Some now else last_ok_at r),
    reauth_url := url, last_error := cap_error err\<rparr>)"
  have cap: "case cap_error err of None \<Rightarrow> True | Some e \<Rightarrow> length e \<le> 400 + length truncated_mark"
    by (cases err) (auto simp: cap_error_def MAX_LAST_ERROR_CHARS_def)
  have key: "na_key (f r) = na_key r" for r by (simp add: f_def na_key_def)
  show ?thesis
  proof (cases "find ?P t")
    case None
    then have new: "\<forall>r \<in> set t. na_key r \<noteq> ?k" by (simp add: find_None_iff)
    with assms None obtain r where t': "t' = t @ [r]" "na_key r = ?k" "auth_state r = st" "last_check_at r = Some now"
      "last_error r = cap_error err"
      by (auto simp: write_local_state_def Let_def na_key_def split: if_splits)
    have "read_state cfg t' i None = Some r"
      using t'(2) find_snoc [OF None, of r] by (simp add: t'(1) read_state_def)
    with t' new cap show ?thesis by (auto simp: is_local_node_routable_def)
  next
    case (Some r)
    with assms have t': "t' = update_first ?P f t"
      by (auto simp: write_local_state_def Let_def f_def split: if_splits)
    have "read_state cfg t' i None = Some (f r)"
      using Some key find_update_first_same [of ?P f t] by (simp add: t' read_state_def)
    moreover have "filter (\<lambda>r. na_key r \<noteq> ?k) t' = filter (\<lambda>r. na_key r \<noteq> ?k) t"
      unfolding t' by (rule filter_update_first) (simp add: key)
    moreover have "map na_key t' = map na_key t" unfolding t' by (rule map_update_first) (rule key)
    ultimately show ?thesis using cap by (simp add: f_def is_local_node_routable_def)
  qed
qed

theorem node_write_local_witness:
  "\<exists>t'. write_local_state default_settings 7 [] ''g'' ''ok'' None None None = Inr t' \<and>
     is_local_node_routable (read_state default_settings t' ''g'' None)"
proof -
  have "(case write_local_state default_settings 7 [] ''g'' ''ok'' None None None of Inl _ \<Rightarrow> False | Inr _ \<Rightarrow> True)"
    by code_simp
  then obtain t' where t': "write_local_state default_settings 7 [] ''g'' ''ok'' None None None = Inr t'"
    by (auto split: sum.splits)
  from node_write_local [OF this] t' show ?thesis by blast
qed

end
