(* ===== verification/Hedging.thy ===== *)
theory Hedging
  imports Provider
begin

text \<open>
  Hedged requests (\<^verbatim>\<open>app/routing/hedging.py\<close>): latency samples per provider, their
  95th percentile and moving average, the token bucket that limits hedges, and the race between a
  primary and a backup stream. A stream is what \<open>_first_chunk\<close> observes of it: when it
  settles, counted from its start, and with what. The test for an error frame is a parameter.
\<close>

section \<open>Latency samples\<close>

definition WINDOW_SIZE :: nat where "WINDOW_SIZE = 200"
definition MIN_SAMPLES :: nat where "MIN_SAMPLES = 20"
definition PEAK_EWMA_LAMBDA :: rat where "PEAK_EWMA_LAMBDA = 1 / 5"

record latency_state =
  ttft_samples :: "ident \<rightharpoonup> rat list"
  peak_ewma_ms :: "ident \<rightharpoonup> rat"

definition init_latency :: latency_state where
  "init_latency = \<lparr>ttft_samples = Map.empty, peak_ewma_ms = Map.empty\<rparr>"

definition peak_ewma :: "latency_state \<Rightarrow> ident \<Rightarrow> rat option" where
  "peak_ewma st i = peak_ewma_ms st i"

text \<open>Appending to a deque of bounded length drops the oldest entry.\<close>

definition push_sample :: "rat list \<Rightarrow> rat \<Rightarrow> rat list" where
  "push_sample buf x = (let b = buf @ [x] in drop (length b - WINDOW_SIZE) b)"

definition record_ttft_sample :: "ident \<Rightarrow> rat \<Rightarrow> latency_state \<Rightarrow> latency_state" where
  "record_ttft_sample i t st =
     (if t \<le> 0 then st
      else let buf = (case ttft_samples st i of None \<Rightarrow> [] | Some b \<Rightarrow> b);
               e = (case peak_ewma_ms st i of
                      None \<Rightarrow> t
                    | Some prev \<Rightarrow>
                        let updated = prev * (1 - PEAK_EWMA_LAMBDA) + t * PEAK_EWMA_LAMBDA
                        in if t > prev then max prev updated else updated)
           in st \<lparr>ttft_samples := (ttft_samples st)(i \<mapsto> push_sample buf t),
                 peak_ewma_ms := (peak_ewma_ms st)(i \<mapsto> e)\<rparr>)"

text \<open>The last cut point of \<open>statistics.quantiles(data, n=20, method="inclusive")\<close>.\<close>

definition quantile_95 :: "rat list \<Rightarrow> rat" where
  "quantile_95 xs =
     (let m = length xs - 1; j = 19 * m div 20; delta = 19 * m mod 20
      in (xs ! j * of_nat (20 - delta) + xs ! (j + 1) * of_nat delta) / 20)"

definition provider_p95_ms :: "latency_state \<Rightarrow> ident \<Rightarrow> rat option" where
  "provider_p95_ms st i =
     (case ttft_samples st i of
        None \<Rightarrow> None
      | Some buf \<Rightarrow> if length buf < MIN_SAMPLES then None else Some (quantile_95 (sort buf)))"

definition wait_budget_ms :: "latency_state \<Rightarrow> ident \<Rightarrow> rat option" where
  "wait_budget_ms st i = map_option (\<lambda>p. p * (6 / 5)) (provider_p95_ms st i)"

definition should_hedge_header :: "string option \<Rightarrow> string option \<Rightarrow> bool" where
  "should_hedge_header hdr lmrh =
     ((case hdr of None \<Rightarrow> False | Some h \<Rightarrow> h \<noteq> [] \<and> lower h \<in> {''on'', ''true'', ''1''}) \<or>
      (case lmrh of None \<Rightarrow> False | Some h \<Rightarrow> h \<noteq> [] \<and> lower h = ''on''))"

section \<open>The token bucket\<close>

record bucket =
  bucket_tokens :: rat
  bucket_last_refill :: clock

definition init_bucket :: bucket where
  "init_bucket = \<lparr>bucket_tokens = 0, bucket_last_refill = 0\<rparr>"

definition refill :: "rat \<Rightarrow> clock \<Rightarrow> bucket \<Rightarrow> bucket" where
  "refill rate now b =
     (if bucket_last_refill b = 0 then \<lparr>bucket_tokens = rate, bucket_last_refill = now\<rparr>
      else \<lparr>bucket_tokens = min rate (bucket_tokens b + (now - bucket_last_refill b) * rate),
            bucket_last_refill = now\<rparr>)"

definition try_consume_hedge_token :: "settings \<Rightarrow> clock \<Rightarrow> bucket \<Rightarrow> bool \<times> bucket" where
  "try_consume_hedge_token cfg now b =
     (let rate = hedge_max_per_sec cfg in
      if rate \<le> 0 then (False, b)
      else let b' = refill rate now b in
           if bucket_tokens b' \<ge> 1 then (True, b' \<lparr>bucket_tokens := bucket_tokens b' - 1\<rparr>)
           else (False, b'))"

section \<open>The race\<close>

datatype settled = Chunk string | Empty | Raised string

record stream =
  settles_after :: clock
  settles_with :: settled

datatype side = Primary | Backup

text \<open>The stream handed to the caller with the chunk to replay, or the exception raised.\<close>

datatype race_result = Winner side "string option" | Race_error string

fun chunk_of :: "settled \<Rightarrow> string option" where
  "chunk_of (Chunk c) = Some c"
| "chunk_of Empty = None"
| "chunk_of (Raised e) = None"

definition chunk_ok :: "(string \<Rightarrow> bool) \<Rightarrow> string option \<Rightarrow> bool" where
  "chunk_ok is_error c = (case c of None \<Rightarrow> False | Some x \<Rightarrow> \<not> is_error x)"

text \<open>Both streams failed.\<close>

definition race_failed :: "settled \<Rightarrow> settled \<Rightarrow> race_result" where
  "race_failed p b =
     (case (chunk_of p, chunk_of b) of
        (Some c, _) \<Rightarrow> Winner Primary (Some c)
      | (None, Some c) \<Rightarrow> Winner Backup (Some c)
      | (None, None) \<Rightarrow>
          (case p of Raised e \<Rightarrow> Race_error e
           | _ \<Rightarrow> (case b of Raised e \<Rightarrow> Race_error e
                   | _ \<Rightarrow> Race_error ''hedge race produced no stream'')))"

text \<open>The race after the primary was slow: the backup starts at the end of the wait.\<close>

definition race_slow :: "(string \<Rightarrow> bool) \<Rightarrow> rat \<Rightarrow> stream \<Rightarrow> stream \<Rightarrow> race_result" where
  "race_slow is_error wait p b =
     (let tp = settles_after p; tb = wait + settles_after b;
          p_done = tp \<le> tb; b_done = tb \<le> tp;
          pc = chunk_of (settles_with p); bc = chunk_of (settles_with b)
      in if p_done \<and> chunk_ok is_error pc then Winner Primary pc
         else if b_done \<and> chunk_ok is_error bc then Winner Backup bc
         else if \<not> p_done \<and> chunk_ok is_error pc then Winner Primary pc
         else if \<not> b_done \<and> chunk_ok is_error bc then Winner Backup bc
         else race_failed (settles_with p) (settles_with b))"

definition race_streams :: "(string \<Rightarrow> bool) \<Rightarrow> rat \<Rightarrow> stream \<Rightarrow> stream \<Rightarrow> race_result" where
  "race_streams is_error wait p b =
     (if settles_after p < wait \<and> settles_with p \<noteq> Raised ''TimeoutError''
      then (case settles_with p of
              Raised e \<Rightarrow> Race_error e
            | _ \<Rightarrow>
                if chunk_ok is_error (chunk_of (settles_with p))
                then Winner Primary (chunk_of (settles_with p))
                else if chunk_ok is_error (chunk_of (settles_with b))
                then Winner Backup (chunk_of (settles_with b))
                else Winner Primary (chunk_of (settles_with p)))
      else race_slow is_error wait p b)"


section \<open>Latency statistics\<close>

lemma peak_ewma_step:
  assumes "0 < t" and "peak_ewma_ms st i = Some prev"
  shows "peak_ewma_ms (record_ttft_sample i t st) i = Some (prev + (t - prev) / 5)"
proof -
  have "prev * (1 - PEAK_EWMA_LAMBDA) + t * PEAK_EWMA_LAMBDA = prev + (t - prev) / 5"
    by (simp add: PEAK_EWMA_LAMBDA_def field_simps)
  moreover have "max prev (prev + (t - prev) / 5) = prev + (t - prev) / 5" if "prev < t"
    using that by simp
  ultimately show ?thesis
    using assms by (simp add: record_ttft_sample_def Let_def)
qed

text \<open>The moving average called a peak average is the plain one: the branch that takes the
  maximum with the previous value never changes the result, because it is only taken when the
  new average is already the larger.\<close>

theorem peak_ewma_is_plain:
  assumes "0 < t" and "peak_ewma_ms st i = Some prev"
  shows "peak_ewma (record_ttft_sample i t st) i = Some (prev + (t - prev) / 5)"
  using peak_ewma_step [OF assms] by (simp add: peak_ewma_def)

theorem peak_ewma_is_plain_witness:
  "peak_ewma (record_ttft_sample ''p'' 500 (init_latency \<lparr>peak_ewma_ms := [''p'' \<mapsto> 100]\<rparr>)) ''p'' =
   Some (100 + (500 - 100) / 5)"
  using peak_ewma_is_plain [of 500 "init_latency \<lparr>peak_ewma_ms := [''p'' \<mapsto> 100]\<rparr>" "''p''" 100] by simp

definition latency_ok :: "latency_state \<Rightarrow> bool" where
  "latency_ok st \<longleftrightarrow>
     (\<forall>i buf. ttft_samples st i = Some buf \<longrightarrow>
        buf \<noteq> [] \<and> length buf \<le> WINDOW_SIZE \<and> (\<forall>x \<in> set buf. 0 < x)) \<and>
     (\<forall>i e. peak_ewma_ms st i = Some e \<longrightarrow> 0 < e) \<and>
     dom (ttft_samples st) = dom (peak_ewma_ms st)"

lemma push_sample_props:
  "push_sample buf x \<noteq> []" "length (push_sample buf x) \<le> WINDOW_SIZE"
  "set (push_sample buf x) \<subseteq> insert x (set buf)"
proof -
  show "push_sample buf x \<noteq> []" by (simp add: push_sample_def Let_def WINDOW_SIZE_def)
  show "length (push_sample buf x) \<le> WINDOW_SIZE" by (simp add: push_sample_def Let_def)
  show "set (push_sample buf x) \<subseteq> insert x (set buf)"
    using set_drop_subset [of "length (buf @ [x]) - WINDOW_SIZE" "buf @ [x]"]
    by (simp add: push_sample_def Let_def del: drop_append)
qed

lemma record_ttft_sample_ok:
  assumes "latency_ok st"
  shows "latency_ok (record_ttft_sample i t st)"
proof (cases "t \<le> 0")
  case True
  with assms show ?thesis by (simp add: record_ttft_sample_def)
next
  case False
  let ?buf = "case ttft_samples st i of None \<Rightarrow> [] | Some b \<Rightarrow> b"
  have "\<forall>x \<in> set ?buf. 0 < x" 
    using assms by (cases "ttft_samples st i") (auto simp: latency_ok_def)
  then have buf: "\<forall>x \<in> set (push_sample ?buf t). 0 < x"
    using push_sample_props(3) [of ?buf t] False by (metis insertE not_le subsetD)
  have "\<exists>e > 0. peak_ewma_ms (record_ttft_sample i t st) = (peak_ewma_ms st)(i \<mapsto> e)"
  proof (cases "peak_ewma_ms st i")
    case None
    with False show ?thesis by (intro exI [of _ t]) (simp add: record_ttft_sample_def Let_def)
  next
    case (Some prev)
    then have "0 < prev" using assms by (auto simp: latency_ok_def)
    with False have "0 < prev + (t - prev) / 5" by (simp add: field_simps)
    then show ?thesis
      using peak_ewma_step [OF _ Some, of t] False by (auto simp: record_ttft_sample_def Let_def)
  qed
  then obtain e where e: "0 < e" "peak_ewma_ms (record_ttft_sample i t st) = (peak_ewma_ms st)(i \<mapsto> e)"
    by blast
  have "ttft_samples (record_ttft_sample i t st) = (ttft_samples st)(i \<mapsto> push_sample ?buf t)"
    using False by (simp add: record_ttft_sample_def Let_def)
  with e buf assms push_sample_props(1,2) show ?thesis by (simp add: latency_ok_def)
qed

text \<open>A run of samples.\<close>

definition record_all :: "(ident \<times> rat) list \<Rightarrow> latency_state" where
  "record_all xs = foldl (\<lambda>st (i, t). record_ttft_sample i t st) init_latency xs"

lemma foldl_latency_ok: "latency_ok st \<Longrightarrow> latency_ok (foldl (\<lambda>st (i, t). record_ttft_sample i t st) st xs)"
  by (induction xs arbitrary: st) (auto simp: record_ttft_sample_ok)

lemma record_all_ok: "latency_ok (record_all xs)"
  unfolding record_all_def by (rule foldl_latency_ok) (simp add: latency_ok_def init_latency_def)

lemma quantile_index:
  assumes "2 \<le> length xs"
  shows "19 * (length xs - 1) div 20 + 1 < length xs"
  using assms by (simp add: less_diff_conv [symmetric])

lemma quantile_above:
  assumes "sorted xs" and "2 \<le> length xs"
  shows "xs ! (19 * (length xs - 1) div 20) \<le> quantile_95 xs" and "quantile_95 xs \<le> last xs"
proof -
  let ?j = "19 * (length xs - 1) div 20" and ?d = "19 * (length xs - 1) mod 20"
  let ?a = "xs ! ?j" and ?b = "xs ! (?j + 1)"
  have j: "?j + 1 < length xs" using quantile_index [OF assms(2)] .
  have ab: "?a \<le> ?b" using assms(1) j by (simp add: sorted_nth_mono)
  have bl: "?b \<le> last xs"
  proof -
    have "xs \<noteq> []" using assms(2) by auto
    moreover have "?b \<le> xs ! (length xs - 1)"
      by (rule sorted_nth_mono [OF assms(1)]) (use j in auto)
    ultimately show ?thesis by (simp add: last_conv_nth)
  qed
  have d: "?d \<le> 20" by simp
  have q: "quantile_95 xs = ?a + (?b - ?a) * of_nat ?d / 20"
    using d by (simp add: quantile_95_def Let_def of_nat_diff field_simps)
  have "0 \<le> (?b - ?a) * (of_nat ?d :: rat)" using ab by simp
  then show "?a \<le> quantile_95 xs" unfolding q by simp
  have "(?b - ?a) * (of_nat ?d :: rat) \<le> (?b - ?a) * 20"
    using ab d by (intro mult_left_mono) (simp_all add: of_nat_le_iff [of _ 20, simplified])
  then have "quantile_95 xs \<le> ?b" unfolding q by (simp add: field_simps)
  with bl show "quantile_95 xs \<le> last xs" by simp
qed

lemma count_above:
  assumes "sorted xs" and "k < length xs" and "xs ! k \<le> y"
  shows "length (filter (\<lambda>x. y < x) xs) \<le> length xs - (k + 1)"
proof -
  have "filter (\<lambda>x. y < x) (take (k + 1) xs) = []"
  proof -
    have "x \<le> y" if "x \<in> set (take (k + 1) xs)" for x
    proof -
      from that obtain i where "i < k + 1" "i < length xs" "x = xs ! i"
        by (auto simp: in_set_conv_nth)
      with assms sorted_nth_mono [OF assms(1), of i k] show ?thesis by simp
    qed
    then show ?thesis by (simp add: filter_empty_conv not_less)
  qed
  then have "filter (\<lambda>x. y < x) xs = filter (\<lambda>x. y < x) (drop (k + 1) xs)"
    by (metis append_Nil append_take_drop_id filter_append)
  then show ?thesis by (metis length_drop length_filter_le)
qed

text \<open>The hedging delay rests on a true 95th percentile: after any run of samples, the value is
  reported only for at least 20 retained samples, is positive and at most their maximum, and at
  most one sample in twenty (rounded up) lies above it.\<close>

theorem p95_bounds:
  assumes "provider_p95_ms (record_all xs) i = Some p"
  shows "\<exists>buf. ttft_samples (record_all xs) i = Some buf \<and> 20 \<le> length buf \<and> length buf \<le> 200 \<and>
    0 < p \<and> p \<le> Max (set buf) \<and>
    20 * length (filter (\<lambda>x. p < x) buf) \<le> length buf + 18"
proof -
  from assms obtain buf where buf: "ttft_samples (record_all xs) i = Some buf" "20 \<le> length buf"
    and p: "p = quantile_95 (sort buf)"
    by (auto simp: provider_p95_ms_def MIN_SAMPLES_def split: option.splits if_splits)
  have ok: "length buf \<le> 200" "\<forall>x \<in> set buf. 0 < x"
    using record_all_ok [of xs] buf(1) by (auto simp: latency_ok_def WINDOW_SIZE_def)
  let ?s = "sort buf" and ?j = "19 * (length buf - 1) div 20"
  have two: "2 \<le> length ?s" using buf(2) by simp
  have j: "?j + 1 < length ?s" using quantile_index [OF two] by simp
  have lo: "?s ! ?j \<le> p" and hi: "p \<le> last ?s"
    using quantile_above [OF _ two] by (simp_all add: p)
  have "?s ! ?j \<in> set buf" using j nth_mem [of ?j ?s] by simp
  then have pos: "0 < p" using ok(2) lo by fastforce
  have "last ?s \<in> set buf" using two last_in_set [of ?s] by (cases "?s = []") auto
  then have mx: "p \<le> Max (set buf)" using hi by (meson List.finite_set Max_ge order_trans)
  have "length (filter (\<lambda>x. p < x) ?s) \<le> length ?s - (?j + 1)"
    by (rule count_above) (use j lo in auto)
  then have "length (filter (\<lambda>x. p < x) buf) \<le> length buf - (?j + 1)"
    by (simp add: filter_sort)
  moreover have "20 * (length buf - (?j + 1)) \<le> length buf + 18" by linarith
  ultimately show ?thesis using buf ok(1) pos mx by auto
qed

theorem p95_bounds_witness:
  "let xs = replicate 20 (''p'', 100) in
   \<exists>p. provider_p95_ms (record_all xs) ''p'' = Some p \<and> 0 < p \<and>
     (\<exists>buf. ttft_samples (record_all xs) ''p'' = Some buf \<and> 20 * length (filter (\<lambda>x. p < x) buf) \<le> length buf + 18)"
proof -
  let ?xs = "replicate 20 (''p'', 100 :: rat)"
  have "provider_p95_ms (record_all ?xs) ''p'' \<noteq> None" by code_simp
  then obtain p where "provider_p95_ms (record_all ?xs) ''p'' = Some p" by blast
  with p95_bounds [OF this] show ?thesis unfolding Let_def by blast
qed

section \<open>The bucket bounds the rate of hedges\<close>

fun hedge_run :: "settings \<Rightarrow> clock list \<Rightarrow> bucket \<Rightarrow> nat \<times> bucket" where
  "hedge_run cfg [] b = (0, b)"
| "hedge_run cfg (t # ts) b =
     (let (ok, b1) = try_consume_hedge_token cfg t b; (n, b2) = hedge_run cfg ts b1
      in ((if ok then 1 else 0) + n, b2))"

definition bucket_ok :: "settings \<Rightarrow> bucket \<Rightarrow> bool" where
  "bucket_ok cfg b \<longleftrightarrow> bucket_last_refill b \<noteq> 0 \<and> 0 \<le> bucket_tokens b \<and> bucket_tokens b \<le> hedge_max_per_sec cfg"

lemma try_consume_step:
  assumes "0 < hedge_max_per_sec cfg" and "bucket_ok cfg b" and "bucket_last_refill b \<le> t" and "0 < t"
    and "try_consume_hedge_token cfg t b = (ok, b')"
  shows "bucket_ok cfg b' \<and> bucket_last_refill b' = t \<and>
    (if ok then 1 else 0) + bucket_tokens b' \<le>
      bucket_tokens b + (t - bucket_last_refill b) * hedge_max_per_sec cfg"
proof -
  let ?r = "hedge_max_per_sec cfg"
  let ?k = "min ?r (bucket_tokens b + (t - bucket_last_refill b) * ?r)"
  have "0 \<le> (t - bucket_last_refill b) * ?r" using assms(1,3) by simp
  then have k: "0 \<le> ?k" "?k \<le> ?r" using assms(1,2) by (auto simp: bucket_ok_def min_def)
  have rf: "refill ?r t b = \<lparr>bucket_tokens = ?k, bucket_last_refill = t\<rparr>"
    using assms(2) by (simp add: refill_def bucket_ok_def)
  show ?thesis
  proof (cases "1 \<le> ?k")
    case True
    with assms(1,5) rf have "ok" "b' = \<lparr>bucket_tokens = ?k - 1, bucket_last_refill = t\<rparr>"
      by (auto simp: try_consume_hedge_token_def Let_def)
    with True k assms(4) show ?thesis by (simp add: bucket_ok_def)
  next
    case False
    with assms(1,5) rf have "\<not> ok" "b' = \<lparr>bucket_tokens = ?k, bucket_last_refill = t\<rparr>"
      by (auto simp: try_consume_hedge_token_def Let_def)
    with k assms(4) show ?thesis by (simp add: bucket_ok_def)
  qed
qed

lemma hedge_run_bound:
  assumes "0 < hedge_max_per_sec cfg" and "bucket_ok cfg b" and "sorted (bucket_last_refill b # ts)"
    and "0 < bucket_last_refill b"
  shows "of_nat (fst (hedge_run cfg ts b)) \<le>
    bucket_tokens b + (last (bucket_last_refill b # ts) - bucket_last_refill b) * hedge_max_per_sec cfg"
  using assms(2-)
proof (induction ts arbitrary: b)
  case Nil
  then show ?case by (simp add: bucket_ok_def)
next
  case (Cons t ts)
  let ?r = "hedge_max_per_sec cfg"
  obtain ok b1 where s: "try_consume_hedge_token cfg t b = (ok, b1)" by fastforce
  obtain n b2 where n: "hedge_run cfg ts b1 = (n, b2)" by fastforce
  have t: "bucket_last_refill b \<le> t" "0 < t" using Cons.prems by auto
  note st = try_consume_step [OF assms(1) Cons.prems(1) t s]
  have "of_nat n \<le> bucket_tokens b1 + (last (t # ts) - t) * ?r"
    using Cons.IH [of b1] st Cons.prems(2) t n by auto
  moreover have "fst (hedge_run cfg (t # ts) b) = (if ok then 1 else 0) + n" using s n by simp
  moreover have "last (bucket_last_refill b # t # ts) = last (t # ts)" by simp
  moreover have "(last (t # ts) - bucket_last_refill b) * ?r =
      (t - bucket_last_refill b) * ?r + (last (t # ts) - t) * ?r"
    by (simp only: algebra_simps)
  ultimately show ?case using st by (simp only: of_nat_add split: if_splits) auto
qed

text \<open>The bucket limits hedging: however often and whenever the router asks, from the start of
  the process, the number of hedges granted up to some moment is at most the configured rate
  times one second more than the time since the first request.\<close>

theorem hedge_rate_limited:
  assumes "0 \<le> hedge_max_per_sec cfg" and "sorted (t # ts)" and "0 < t"
  shows "of_nat (fst (hedge_run cfg (t # ts) init_bucket)) \<le>
    hedge_max_per_sec cfg * (last (t # ts) - t + 1)"
proof (cases "hedge_max_per_sec cfg = 0")
  case True
  then have "fst (hedge_run cfg us b) = 0" for us b
    by (induction us arbitrary: b) (auto simp: try_consume_hedge_token_def Let_def split: prod.splits)
  with True show ?thesis by (simp del: hedge_run.simps)
next
  case False
  with assms(1) have r: "0 < hedge_max_per_sec cfg" by simp
  let ?r = "hedge_max_per_sec cfg"
  let ?b = "\<lparr>bucket_tokens = ?r, bucket_last_refill = t\<rparr>"
  have "try_consume_hedge_token cfg t init_bucket = try_consume_hedge_token cfg t ?b"
    unfolding try_consume_hedge_token_def Let_def refill_def init_bucket_def using assms(3) r by simp
  then have "hedge_run cfg (t # ts) init_bucket = hedge_run cfg (t # ts) ?b" by simp
  moreover have "of_nat (fst (hedge_run cfg (t # ts) ?b)) \<le> ?r + (last (t # ts) - t) * ?r"
    using hedge_run_bound [of cfg ?b "t # ts"] assms r by (simp add: bucket_ok_def del: hedge_run.simps)
  ultimately show ?thesis by (simp add: algebra_simps del: hedge_run.simps)
qed

theorem hedge_rate_limited_witness:
  "of_nat (fst (hedge_run default_settings [1, 1, 1, 1, 1, 1, 1, 2] init_bucket)) \<le>
     hedge_max_per_sec default_settings * (2 - 1 + 1) \<and>
   fst (hedge_run default_settings [1, 1, 1, 1, 1, 1, 1, 2] init_bucket) = 6"
proof -
  have "fst (hedge_run default_settings [1, 1, 1, 1, 1, 1, 1, 2] init_bucket) = 6" by code_simp
  then show ?thesis
    using hedge_rate_limited [of default_settings 1 "[1, 1, 1, 1, 1, 1, 2]"]
    by (simp add: default_settings_def del: hedge_run.simps)
qed

section \<open>Who wins the race\<close>

definition healthy :: "(string \<Rightarrow> bool) \<Rightarrow> stream \<Rightarrow> bool" where
  "healthy is_error s = chunk_ok is_error (chunk_of (settles_with s))"

text \<open>As long as the primary does not raise before its wait is over, a healthy stream wins
  whenever there is one: the caller gets a healthy first chunk, from the primary when it settles
  in time or no later than the backup, and otherwise from the healthy one that settles first.\<close>

theorem race_prefers_healthy:
  assumes "healthy is_error p \<or> healthy is_error b"
    and "settles_after p < wait \<Longrightarrow> \<forall>e. settles_with p \<noteq> Raised e"
    and "0 \<le> settles_after b"
  shows "race_streams is_error wait p b =
    (if healthy is_error p \<and>
        (settles_after p < wait \<or> settles_after p \<le> wait + settles_after b \<or> \<not> healthy is_error b)
     then Winner Primary (chunk_of (settles_with p))
     else Winner Backup (chunk_of (settles_with b)))"
proof (cases "settles_after p < wait")
  case True
  then have nr: "settles_with p \<noteq> Raised e" for e using assms(2) by blast
  then show ?thesis
    using True assms(1) by (cases "settles_with p") (auto simp: race_streams_def healthy_def)
next
  case False
  then have "race_streams is_error wait p b = race_slow is_error wait p b"
    by (simp add: race_streams_def)
  then show ?thesis
    using False assms(1) by (auto simp: race_slow_def healthy_def Let_def)
qed

theorem race_prefers_healthy_witness:
  "race_streams (\<lambda>c. c = ''error'') 100
     \<lparr>settles_after = 10, settles_with = Chunk ''error''\<rparr> \<lparr>settles_after = 30, settles_with = Chunk ''hi''\<rparr> =
   Winner Backup (Some ''hi'')"
  using race_prefers_healthy [of "\<lambda>c. c = ''error''" "\<lparr>settles_after = 10, settles_with = Chunk ''error''\<rparr>"
      "\<lparr>settles_after = 30, settles_with = Chunk ''hi''\<rparr>" 100]
  by (simp add: healthy_def chunk_ok_def)

text \<open>A primary that raises before its wait is over ends the race with that exception; the
  backup, healthy or not, is never asked.\<close>

theorem race_fast_exception:
  assumes "settles_after p < wait" and "settles_with p = Raised e" and "e \<noteq> ''TimeoutError''"
  shows "race_streams is_error wait p b = Race_error e"
  using assms by (simp add: race_streams_def)

theorem race_fast_exception_witness:
  "race_streams (\<lambda>c. False) 100
     \<lparr>settles_after = 10, settles_with = Raised ''ConnectError''\<rparr> \<lparr>settles_after = 1, settles_with = Chunk ''hi''\<rparr> =
   Race_error ''ConnectError''"
  by (rule race_fast_exception) simp_all

end
