(* ===== verification/Compliance.thy ===== *)
theory Compliance
  imports Stages Ttl_Cache
begin

text \<open>
  Vendor policy (\<^verbatim>\<open>app/compliance/company_map.py\<close> and
  \<^verbatim>\<open>app/compliance/policy.py\<close>): which company a provider type and a model name belong
  to, the effective policy of an API key, and the filter that drops providers the policy forbids.
  Sets of companies are lists here. Model patterns are shell globs, matched as Python's
  \<open>fnmatch.fnmatchcase\<close> does.
\<close>

section \<open>Companies\<close>

record company =
  company_id :: string
  model_prefixes :: "string list"
  provider_types :: "string list"

definition KNOWN_COMPANIES :: "company list" where
  "KNOWN_COMPANIES =
     [\<lparr>company_id = ''anthropic'', model_prefixes = [''claude-'', ''claude/'', ''anthropic.claude-''],
       provider_types = [''anthropic'', ''anthropic-direct'', ''anthropic-oauth'', ''claude-oauth'']\<rparr>,
      \<lparr>company_id = ''openai'',
       model_prefixes = [''gpt-'', ''o1-'', ''o3-'', ''o4-'', ''codex-'', ''text-embedding-'', ''whisper-'', ''dall-e-''],
       provider_types = [''openai'', ''ChatGPT-oauth-plan'']\<rparr>,
      \<lparr>company_id = ''google'', model_prefixes = [''gemini-'', ''bison'', ''palm-'', ''text-bison'', ''chat-bison''],
       provider_types = [''google'', ''vertex'']\<rparr>,
      \<lparr>company_id = ''xai'', model_prefixes = [''grok-'', ''x-ai/''], provider_types = [''grok'', ''grok-web'']\<rparr>,
      \<lparr>company_id = ''cohere'', model_prefixes = [''embed-'', ''command-'', ''rerank-''], provider_types = [''cohere'']\<rparr>,
      \<lparr>company_id = ''meta'', model_prefixes = [''llama-'', ''llama2-'', ''llama3-'', ''code-llama-''], provider_types = []\<rparr>,
      \<lparr>company_id = ''mistral'', model_prefixes = [''mistral-'', ''mixtral-'', ''codestral-'', ''magistral-''],
       provider_types = []\<rparr>,
      \<lparr>company_id = ''aws'',
       model_prefixes = [''anthropic.claude-'', ''ai21.j2-'', ''cohere.command-'', ''meta.llama-'',
                         ''mistral.mistral-'', ''amazon.titan-'', ''stability.sd-''],
       provider_types = [''bedrock'']\<rparr>,
      \<lparr>company_id = ''microsoft'', model_prefixes = [''phi-'', ''orca-''], provider_types = [''azure'']\<rparr>,
      \<lparr>company_id = ''amazon'', model_prefixes = [''amazon.titan-'', ''titan-'', ''nova-'', ''nova.''],
       provider_types = []\<rparr>]"

definition AGGREGATOR_COMPANIES :: "(string \<times> string) list" where
  "AGGREGATOR_COMPANIES =
     [(''openrouter'', ''openrouter''), (''cursor-oauth'', ''cursor''),
      (''openai-compatible'', ''compatible''), (''compatible'', ''compatible''), (''custom'', ''custom'')]"

definition provider_type_to_company :: "string option \<Rightarrow> string option" where
  "provider_type_to_company ty =
     (case ty of
        None \<Rightarrow> None
      | Some t \<Rightarrow>
          if t = [] then None
          else (case find (\<lambda>c. t \<in> set (provider_types c)) KNOWN_COMPANIES of
                  Some c \<Rightarrow> Some (company_id c)
                | None \<Rightarrow> map_of AGGREGATOR_COMPANIES t))"

definition has_prefix_of :: "string \<Rightarrow> company \<Rightarrow> bool" where
  "has_prefix_of m c = any_prefix (map lower (model_prefixes c)) (lower m)"

definition model_family_to_company :: "string option \<Rightarrow> string option" where
  "model_family_to_company model =
     (case model of
        None \<Rightarrow> None
      | Some m \<Rightarrow> if m = [] then None else map_option company_id (find (has_prefix_of m) KNOWN_COMPANIES))"

definition model_family_companies :: "string option \<Rightarrow> string list" where
  "model_family_companies model =
     (case model of
        None \<Rightarrow> []
      | Some m \<Rightarrow> if m = [] then [] else map company_id (filter (has_prefix_of m) KNOWN_COMPANIES))"

section \<open>Shell globs\<close>

datatype glob = Star | Any | Lit char | Cls bool "(char \<times> char) list"

text \<open>The items of a bracket expression: ranges, a single character being a range of one.\<close>

fun cls_items :: "string \<Rightarrow> (char \<times> char) list" where
  "cls_items (a # m # b # r) = (if m = CHR ''-'' then (a, b) # cls_items r else (a, a) # cls_items (m # b # r))"
| "cls_items (a # r) = (a, a) # cls_items r"
| "cls_items [] = []"

text \<open>The text of a bracket expression and what follows it: a negation and a closing bracket in
  first position belong to the text. No closing bracket means a literal bracket.\<close>

definition bracket_split :: "string \<Rightarrow> (string \<times> string) option" where
  "bracket_split s =
     (let h1 = (case s of c # _ \<Rightarrow> if c = CHR ''!'' then 1 else 0 | [] \<Rightarrow> 0);
          h2 = (case drop h1 s of c # _ \<Rightarrow> if c = CHR '']'' then h1 + 1 else h1 | [] \<Rightarrow> h1);
          body = takeWhile (\<lambda>c. c \<noteq> CHR '']'') (drop h2 s);
          rest = drop (h2 + length body) s
      in if rest = [] then None else Some (take h2 s @ body, tl rest))"

definition bracket_token :: "string \<Rightarrow> glob" where
  "bracket_token stuff =
     (case stuff of
        c # r \<Rightarrow> if c = CHR ''!'' then Cls True (cls_items r) else Cls False (cls_items stuff)
      | [] \<Rightarrow> Cls False [])"

lemma bracket_split_shorter: "bracket_split s = Some (b, r) \<Longrightarrow> length r < length s"
  by (auto simp: bracket_split_def Let_def split: if_splits)

function glob_tokens :: "string \<Rightarrow> glob list" where
  "glob_tokens [] = []"
| "glob_tokens (c # cs) =
     (if c = CHR ''*'' then Star # glob_tokens cs
      else if c = CHR ''?'' then Any # glob_tokens cs
      else if c = CHR ''['' then
        (case bracket_split cs of
           None \<Rightarrow> Lit c # glob_tokens cs
         | Some (b, r) \<Rightarrow> bracket_token b # glob_tokens r)
      else Lit c # glob_tokens cs)"
  by pat_completeness auto
termination
  by (relation "measure length") (auto dest: bracket_split_shorter)

definition in_range :: "char \<Rightarrow> char \<times> char \<Rightarrow> bool" where
  "in_range c ab = ((of_char (fst ab) :: nat) \<le> of_char c \<and> (of_char c :: nat) \<le> of_char (snd ab))"

fun glob_match :: "glob list \<Rightarrow> string \<Rightarrow> bool" where
  "glob_match [] s = (s = [])"
| "glob_match (Star # ts) [] = glob_match ts []"
| "glob_match (Star # ts) (c # cs) = (glob_match ts (c # cs) \<or> glob_match (Star # ts) cs)"
| "glob_match (Any # ts) s = (case s of [] \<Rightarrow> False | c # cs \<Rightarrow> glob_match ts cs)"
| "glob_match (Lit a # ts) s = (case s of [] \<Rightarrow> False | c # cs \<Rightarrow> c = a \<and> glob_match ts cs)"
| "glob_match (Cls neg rs # ts) s =
     (case s of [] \<Rightarrow> False | c # cs \<Rightarrow> (list_ex (in_range c) rs \<noteq> neg) \<and> glob_match ts cs)"

definition fnmatchcase :: "string \<Rightarrow> string \<Rightarrow> bool" where
  "fnmatchcase name pat = glob_match (glob_tokens pat) name"

definition model_matches_any :: "string option \<Rightarrow> string list \<Rightarrow> bool" where
  "model_matches_any model patterns =
     (case model of
        None \<Rightarrow> False
      | Some m \<Rightarrow> m \<noteq> [] \<and> list_ex (\<lambda>pat. fnmatchcase (lower m) (lower pat)) patterns)"

section \<open>Policies\<close>

record policy =
  blocked_companies :: "string list"
  allowed_companies :: "string list"
  blocked_models :: "string list"
  allowed_models :: "string list"

definition empty_policy :: policy where
  "empty_policy = \<lparr>blocked_companies = [], allowed_companies = [], blocked_models = [], allowed_models = []\<rparr>"

definition is_empty_policy :: "policy \<Rightarrow> bool" where
  "is_empty_policy pol =
     (blocked_companies pol = [] \<and> allowed_companies pol = [] \<and> blocked_models pol = [] \<and> allowed_models pol = [])"

definition meets :: "string list \<Rightarrow> string list \<Rightarrow> bool" where
  "meets xs ys = list_ex (\<lambda>x. x \<in> set ys) xs"

text \<open>The owner of a provider as a list of at most one company; the empty string counts as none.\<close>

definition owners :: "provider \<Rightarrow> string list" where
  "owners p = (case owner_company p of None \<Rightarrow> [] | Some c \<Rightarrow> if c = [] then [] else [c])"

definition evaluate_policy :: "policy \<Rightarrow> provider \<Rightarrow> string option \<Rightarrow> bool \<times> string" where
  "evaluate_policy pol p requested =
     (let families = model_family_companies (default_model p) in
      if is_empty_policy pol then (True, [])
      else if meets (owners p) (blocked_companies pol) then (False, ''blocked-company'')
      else if meets families (blocked_companies pol) then (False, ''blocked-model-family'')
      else if model_matches_any (default_model p) (blocked_models pol) \<or>
              model_matches_any requested (blocked_models pol) then (False, ''blocked-model'')
      else if allowed_companies pol \<noteq> [] \<and>
              \<not> (meets (owners p) (allowed_companies pol) \<or> meets families (allowed_companies pol))
      then (False, ''company-not-in-allowlist'')
      else if allowed_models pol \<noteq> [] \<and>
              \<not> (model_matches_any (default_model p) (allowed_models pol) \<or>
                 model_matches_any requested (allowed_models pol))
      then (False, ''model-not-in-allowlist'')
      else (True, []))"

text \<open>\<open>ComplianceNoSubstituteError\<close>: the blocked companies and how many candidates were dropped.\<close>

datatype compliance_error = No_substitute "string list" nat

definition filter_providers_v2 :: "policy \<Rightarrow> string option \<Rightarrow> provider list \<Rightarrow> compliance_error + provider list" where
  "filter_providers_v2 pol requested ps =
     (if is_empty_policy pol then Inr ps
      else let out = filter (\<lambda>p. fst (evaluate_policy pol p requested)) ps in
           if out = [] \<and> ps \<noteq> [] then Inl (No_substitute (blocked_companies pol) (length ps))
           else Inr out)"

definition filter_providers :: "string list \<Rightarrow> string option \<Rightarrow> provider list \<Rightarrow> compliance_error + provider list" where
  "filter_providers blocklist requested ps =
     (if blocklist = [] then Inr ps
      else let out = filter (\<lambda>p. \<not> meets (owners p) blocklist \<and>
                               \<not> meets (model_family_companies (default_model p)) blocklist) ps in
           if out = [] \<and> ps \<noteq> [] then Inl (No_substitute blocklist (length ps)) else Inr out)"

definition is_company_banned :: "string option \<Rightarrow> string list \<Rightarrow> bool" where
  "is_company_banned c blocklist =
     (if blocklist = [] then False else case c of None \<Rightarrow> True | Some x \<Rightarrow> x \<in> set blocklist)"

section \<open>The effective policy of a key\<close>

text \<open>The columns of an API key that carry policy, as decoded; \<open>JNull\<close> is SQL \<open>NULL\<close>. The
  parameters are \<open>json.loads\<close>, \<open>None\<close> when it raises, and \<open>str\<close> on a decoded value.\<close>

record key_policy_row =
  kp_id :: ident
  kp_blocked_companies :: json
  kp_allowed_companies :: json
  kp_blocked_models :: json
  kp_allowed_models :: json

record system_policy =
  sys_blocked_companies :: string
  sys_allowed_companies :: string
  sys_blocked_models :: string
  sys_allowed_models :: string

record json_lib =
  loads :: "string \<Rightarrow> json option"
  str_of :: "json \<Rightarrow> string"

definition list_of_json :: "json_lib \<Rightarrow> json option \<Rightarrow> string list" where
  "list_of_json lib j =
     (case j of Some (JList xs) \<Rightarrow> map (str_of lib) (filter json_truthy xs) | _ \<Rightarrow> [])"

definition get_system_setting_list :: "json_lib \<Rightarrow> string \<Rightarrow> string list" where
  "get_system_setting_list lib raw = (if strip raw = [] then [] else list_of_json lib (loads lib raw))"

definition coerce_list :: "json_lib \<Rightarrow> json \<Rightarrow> string list" where
  "coerce_list lib j =
     (case j of
        JStr s \<Rightarrow> list_of_json lib (loads lib s)
      | _ \<Rightarrow> list_of_json lib (Some j))"

definition get_effective_policy ::
  "json_lib \<Rightarrow> system_policy \<Rightarrow> key_policy_row list \<Rightarrow> ident option \<Rightarrow> policy" where
  "get_effective_policy lib sys rows key =
     (let row = (if truthy key then find (\<lambda>r. kp_id r = the key) rows else None);
          per = (\<lambda>f. case row of None \<Rightarrow> [] | Some r \<Rightarrow> coerce_list lib (f r));
          glb = (\<lambda>f. get_system_setting_list lib (f sys))
      in \<lparr>blocked_companies = per kp_blocked_companies @ glb sys_blocked_companies,
          allowed_companies = per kp_allowed_companies @ glb sys_allowed_companies,
          blocked_models = per kp_blocked_models @ glb sys_blocked_models,
          allowed_models = per kp_allowed_models @ glb sys_allowed_models\<rparr>)"

definition CACHE_TTL_SEC :: clock where "CACHE_TTL_SEC = 30"

type_synonym blocklist_cache = "ident \<rightharpoonup> clock \<times> string list"

definition invalidate_blocklist_cache :: "ident option \<Rightarrow> blocklist_cache \<Rightarrow> blocklist_cache" where
  "invalidate_blocklist_cache key c = (case key of None \<Rightarrow> Map.empty | Some k \<Rightarrow> c(k := None))"

definition current_blocklist :: "json_lib \<Rightarrow> system_policy \<Rightarrow> key_policy_row list \<Rightarrow> ident \<Rightarrow> string list" where
  "current_blocklist lib sys rows k =
     (case find (\<lambda>r. kp_id r = k) rows of None \<Rightarrow> [] | Some r \<Rightarrow> coerce_list lib (kp_blocked_companies r)) @
     get_system_setting_list lib (sys_blocked_companies sys)"

definition get_effective_blocklist ::
  "json_lib \<Rightarrow> clock \<Rightarrow> system_policy \<Rightarrow> key_policy_row list \<Rightarrow> ident option \<Rightarrow> blocklist_cache \<Rightarrow>
   string list \<times> blocklist_cache" where
  "get_effective_blocklist lib now sys rows key c =
     (if \<not> truthy key then (get_system_setting_list lib (sys_blocked_companies sys), c)
      else let k = the key; v = current_blocklist lib sys rows k;
               fresh = (v, c(k \<mapsto> (now + CACHE_TTL_SEC, v)))
           in case c k of
                Some (expires, x) \<Rightarrow> if now < expires then (x, c) else fresh
              | None \<Rightarrow> fresh)"

section \<open>Globs\<close>

definition plain_pattern :: "string \<Rightarrow> bool" where
  "plain_pattern p \<longleftrightarrow> CHR ''*'' \<notin> set p \<and> CHR ''?'' \<notin> set p \<and> CHR ''['' \<notin> set p"

lemma glob_tokens_plain: "plain_pattern p \<Longrightarrow> glob_tokens (p @ r) = map Lit p @ glob_tokens r"
proof (induction p)
  case (Cons a p)
  then have "plain_pattern p" "a \<noteq> CHR ''*''" "a \<noteq> CHR ''?''" "a \<noteq> CHR ''[''"
    by (auto simp: plain_pattern_def)
  with Cons.IH show ?case by simp
qed simp

lemma glob_match_lits: "glob_match (map Lit p @ ts) s \<longleftrightarrow> (\<exists>r. s = p @ r \<and> glob_match ts r)"
  by (induction p arbitrary: s) (auto split: list.splits)

lemma glob_match_star: "glob_match [Star] s"
  by (induction s) auto

lemma upper_high_bit:
  assumes "is_upper (Char b0 b1 b2 b3 b4 b5 b6 b7)"
  shows "b6 \<or> b7"
proof (rule ccontr)
  assume "\<not> (b6 \<or> b7)"
  with assms show False
    by (cases b0; cases b1; cases b2; cases b3; cases b4; cases b5) (simp_all add: is_upper_def)
qed

lemma char_lower_meta:
  assumes "char_lower a = c" and "c = CHR ''*'' \<or> c = CHR ''?'' \<or> c = CHR ''[''"
  shows "a = c"
proof (cases "is_upper a")
  case True
  obtain b0 b1 b2 b3 b4 b5 b6 b7 where a: "a = Char b0 b1 b2 b3 b4 b5 b6 b7" by (cases a)
  with True upper_high_bit have "b6 \<or> b7" by simp
  moreover have "c = Char b0 b1 b2 b3 b4 True b6 b7" using assms(1) True by (simp add: char_lower_def a)
  ultimately show ?thesis using assms(2) by (elim disjE) simp_all
next
  case False
  with assms(1) show ?thesis by (simp add: char_lower_def)
qed

lemma lower_notin:
  assumes "c = CHR ''*'' \<or> c = CHR ''?'' \<or> c = CHR ''[''" and "c \<notin> set p"
  shows "c \<notin> set (lower p)"
proof
  assume "c \<in> set (lower p)"
  then have "c \<in> char_lower ` set p" by (simp add: lower_def)
  then obtain a where a: "c = char_lower a" "a \<in> set p" by (rule imageE)
  from char_lower_meta [OF a(1) [symmetric] assms(1)] a(2) assms(2) show False by simp
qed

lemma lower_plain: "plain_pattern p \<Longrightarrow> plain_pattern (lower p)"
  by (simp add: plain_pattern_def lower_notin)

text \<open>What a model pattern matches, whatever the case of either side: a pattern without
  wildcards exactly the model of that name, and such a pattern followed by a star exactly the
  models that begin with it.\<close>

theorem pattern_meaning:
  assumes "plain_pattern pat" and "m \<noteq> []"
  shows "(model_matches_any (Some m) [pat] \<longleftrightarrow> lower m = lower pat) \<and>
    (model_matches_any (Some m) [pat @ ''*''] \<longleftrightarrow> prefix (lower pat) (lower m))"
proof -
  let ?p = "lower pat"
  have pl: "plain_pattern ?p" by (rule lower_plain [OF assms(1)])
  have "fnmatchcase (lower m) ?p \<longleftrightarrow> lower m = ?p"
    using glob_tokens_plain [OF pl, of "[]"] glob_match_lits [of ?p "[]" "lower m"]
    by (simp add: fnmatchcase_def)
  moreover have "lower (pat @ ''*'') = ?p @ ''*''" by (simp add: lower_def char_lower_def is_upper_def)
  moreover have "fnmatchcase (lower m) (?p @ ''*'') \<longleftrightarrow> prefix ?p (lower m)"
    using glob_tokens_plain [OF pl, of "''*''"] glob_match_lits [of ?p "[Star]" "lower m"]
    by (simp add: fnmatchcase_def glob_match_star prefix_def)
  ultimately show ?thesis using assms(2) by (simp add: model_matches_any_def)
qed

theorem pattern_meaning_witness:
  "model_matches_any (Some ''Claude-haiku'') [''claude-'' @ ''*''] \<and> \<not> model_matches_any (Some ''Claude-haiku'') [''claude-'']"
proof -
  have "plain_pattern ''claude-''" "prefix (lower ''claude-'') (lower ''Claude-haiku'')"
    "lower ''Claude-haiku'' \<noteq> lower ''claude-''" by code_simp+
  then show ?thesis using pattern_meaning [of "''claude-''" "''Claude-haiku''"] by simp
qed

section \<open>The filter\<close>

text \<open>What a policy demands of a provider: it and its default model belong to no blocked company, neither that
  model nor the requested one matches a blocked pattern, and each allowlist that is not empty has the
  company, by owner or model family, or one of the two models on it.\<close>

definition clears :: "policy \<Rightarrow> string option \<Rightarrow> provider \<Rightarrow> bool" where
  "clears pol requested p \<longleftrightarrow>
     (\<forall>c \<in> set (blocked_companies pol). owner_company p = Some c \<longrightarrow> c = []) \<and>
     (\<forall>c \<in> set (model_family_companies (default_model p)). c \<notin> set (blocked_companies pol)) \<and>
     \<not> model_matches_any (default_model p) (blocked_models pol) \<and>
     \<not> model_matches_any requested (blocked_models pol) \<and>
     (allowed_companies pol \<noteq> [] \<longrightarrow>
       (\<exists>c \<in> set (allowed_companies pol).
          owner_company p = Some c \<and> c \<noteq> [] \<or> c \<in> set (model_family_companies (default_model p)))) \<and>
     (allowed_models pol \<noteq> [] \<longrightarrow>
       model_matches_any (default_model p) (allowed_models pol) \<or> model_matches_any requested (allowed_models pol))"

lemma meets_iff: "meets xs ys \<longleftrightarrow> (\<exists>x \<in> set xs. x \<in> set ys)"
  by (simp add: meets_def list_ex_iff)

lemma owners_blocked: "meets (owners p) ys \<longleftrightarrow> (\<exists>c \<in> set ys. owner_company p = Some c \<and> c \<noteq> [])"
  by (cases "owner_company p") (auto simp: meets_iff owners_def)

lemma allowed_iff_clears: "fst (evaluate_policy pol p requested) \<longleftrightarrow> clears pol requested p"
proof (cases "is_empty_policy pol")
  case True
  then show ?thesis
    by (cases "default_model p"; cases requested)
      (auto simp: evaluate_policy_def clears_def is_empty_policy_def model_matches_any_def)
next
  case False
  let ?fs = "model_family_companies (default_model p)"
  have "fst (evaluate_policy pol p requested) \<longleftrightarrow>
      \<not> meets (owners p) (blocked_companies pol) \<and> \<not> meets ?fs (blocked_companies pol) \<and>
      \<not> model_matches_any (default_model p) (blocked_models pol) \<and> \<not> model_matches_any requested (blocked_models pol) \<and>
      (allowed_companies pol \<noteq> [] \<longrightarrow> meets (owners p) (allowed_companies pol) \<or> meets ?fs (allowed_companies pol)) \<and>
      (allowed_models pol \<noteq> [] \<longrightarrow>
        model_matches_any (default_model p) (allowed_models pol) \<or> model_matches_any requested (allowed_models pol))"
    using False by (simp add: evaluate_policy_def Let_def)
  moreover have "\<not> meets (owners p) ys \<longleftrightarrow> (\<forall>c \<in> set ys. owner_company p = Some c \<longrightarrow> c = [])"
    "\<not> meets ?fs ys \<longleftrightarrow> (\<forall>c \<in> set ?fs. c \<notin> set ys)"
    "meets (owners p) ys \<or> meets ?fs ys \<longleftrightarrow> (\<exists>c \<in> set ys. owner_company p = Some c \<and> c \<noteq> [] \<or> c \<in> set ?fs)" for ys
    by (simp only: owners_blocked, blast, simp only: meets_iff, blast) (simp only: owners_blocked, simp only: meets_iff, blast)
  ultimately show ?thesis by (simp only: clears_def)
qed

lemmas allowed_clears = iffD1 [OF allowed_iff_clears]

text \<open>A policy that blocks nothing and allows nothing in particular lets everything through.\<close>

lemma filter_v2_Inr:
  "filter_providers_v2 pol requested ps = Inr qs \<longleftrightarrow>
     qs = filter (\<lambda>p. fst (evaluate_policy pol p requested)) ps \<and> (qs = [] \<longrightarrow> ps = [])"
proof -
  have e: "is_empty_policy pol \<Longrightarrow> fst (evaluate_policy pol p requested)" for p
    by (simp add: evaluate_policy_def)
  show ?thesis
    by (cases "is_empty_policy pol") (auto simp: filter_providers_v2_def Let_def e)
qed

text \<open>Deny wins: for any key, whatever its own allowlists say, a provider that survives the
  filter under the key's effective policy is not owned by a company the system settings block,
  its default model is of no family they block, and neither that model nor the requested one
  matches a pattern they block; the survivors are input providers in their old order, and the
  filter fails only when it would leave none.\<close>

theorem system_block_wins:
  fixes lib sys rows key
  defines "pol \<equiv> get_effective_policy lib sys rows key"
  assumes "filter_providers_v2 pol requested ps = Inr qs"
  shows "(\<forall>q \<in> set qs.
      (\<forall>c \<in> set (get_system_setting_list lib (sys_blocked_companies sys)).
         c \<noteq> [] \<longrightarrow> owner_company q \<noteq> Some c \<and> c \<notin> set (model_family_companies (default_model q))) \<and>
      \<not> model_matches_any (default_model q) (get_system_setting_list lib (sys_blocked_models sys)) \<and>
      \<not> model_matches_any requested (get_system_setting_list lib (sys_blocked_models sys))) \<and>
    subseq qs ps \<and> (qs = [] \<longrightarrow> ps = [])"
proof -
  have qs: "qs = filter (\<lambda>p. fst (evaluate_policy pol p requested)) ps" "qs = [] \<longrightarrow> ps = []"
    using iffD1 [OF filter_v2_Inr assms(2)] by blast+
  have sub: "set (get_system_setting_list lib (sys_blocked_companies sys)) \<subseteq> set (blocked_companies pol)"
    by (simp add: pol_def get_effective_policy_def Let_def)
  have mono: "model_matches_any m (get_system_setting_list lib (sys_blocked_models sys)) \<Longrightarrow>
      model_matches_any m (blocked_models pol)" for m
    by (cases m) (simp_all add: pol_def get_effective_policy_def Let_def model_matches_any_def)
  have cl: "clears pol requested q" if "q \<in> set qs" for q
    using that qs(1) allowed_clears by simp
  have "subseq qs ps" unfolding qs(1) by (rule subseq_filter_left)
  moreover have "(\<forall>c \<in> set (get_system_setting_list lib (sys_blocked_companies sys)).
         c \<noteq> [] \<longrightarrow> owner_company q \<noteq> Some c \<and> c \<notin> set (model_family_companies (default_model q))) \<and>
      \<not> model_matches_any (default_model q) (get_system_setting_list lib (sys_blocked_models sys)) \<and>
      \<not> model_matches_any requested (get_system_setting_list lib (sys_blocked_models sys))"
    if "q \<in> set qs" for q
  proof -
    note c = cl [OF that, unfolded clears_def]
    have "owner_company q \<noteq> Some c" "c \<notin> set (model_family_companies (default_model q))"
      if "c \<in> set (get_system_setting_list lib (sys_blocked_companies sys))" "c \<noteq> []" for c
      using that c sub by auto
    with c mono show ?thesis by auto
  qed
  ultimately show ?thesis using qs(2) by blast
qed

definition demo_json :: json_lib where
  "demo_json = \<lparr>loads = (\<lambda>s. if s = ''[anthropic]'' then Some (JList [JStr ''anthropic'']) else None),
     str_of = (\<lambda>j. case j of JStr s \<Rightarrow> s | _ \<Rightarrow> [])\<rparr>"

definition demo_system :: system_policy where
  "demo_system = \<lparr>sys_blocked_companies = ''[anthropic]'', sys_allowed_companies = [],
     sys_blocked_models = [], sys_allowed_models = []\<rparr>"

definition demo_fleet :: "provider list" where
  "demo_fleet =
     [(new_provider ''a'' ''A'' ''claude-oauth'' (Some ''claude-sonnet-4-6'') 1) \<lparr>owner_company := Some ''anthropic''\<rparr>,
      (new_provider ''b'' ''B'' ''openai'' (Some ''gpt-4o'') 2) \<lparr>owner_company := Some ''openai''\<rparr>]"

theorem system_block_wins_witness:
  "\<exists>qs. filter_providers_v2 (get_effective_policy demo_json demo_system [] None) None demo_fleet = Inr qs \<and>
     map pid qs = [''b''] \<and> (\<forall>q \<in> set qs. owner_company q \<noteq> Some ''anthropic'')"
proof -
  have "(case filter_providers_v2 (get_effective_policy demo_json demo_system [] None) None demo_fleet of
      Inl _ \<Rightarrow> False | Inr qs \<Rightarrow> map pid qs = [''b''])" by code_simp
  then obtain qs where qs: "filter_providers_v2 (get_effective_policy demo_json demo_system [] None) None demo_fleet = Inr qs"
    "map pid qs = [''b'']" by (auto split: sum.splits)
  have "''anthropic'' \<in> set (get_system_setting_list demo_json (sys_blocked_companies demo_system))" by code_simp
  with system_block_wins [OF qs(1)] qs show ?thesis by fastforce
qed

lemma filter_providers_as_policy:
  "filter_providers bl requested ps = filter_providers_v2 (empty_policy \<lparr>blocked_companies := bl\<rparr>) requested ps"
proof (cases "bl = []")
  case True
  then show ?thesis
    by (simp add: filter_providers_def filter_providers_v2_def is_empty_policy_def empty_policy_def)
next
  case False
  let ?pol = "empty_policy \<lparr>blocked_companies := bl\<rparr>"
  have ne: "\<not> is_empty_policy ?pol" using False by (simp add: is_empty_policy_def)
  have none: "\<not> model_matches_any m []" for m by (cases m) (simp_all add: model_matches_any_def)
  have "fst (evaluate_policy ?pol p requested) \<longleftrightarrow>
      \<not> meets (owners p) bl \<and> \<not> meets (model_family_companies (default_model p)) bl" for p
    using ne none by (simp add: evaluate_policy_def Let_def empty_policy_def)
  then show ?thesis
    using False ne by (simp add: filter_providers_def filter_providers_v2_def Let_def empty_policy_def)
qed

text \<open>The bare blocklist filter is the policy filter for a policy that only blocks
  companies.\<close>

theorem blocklist_filter_refines:
  "filter_providers bl requested ps = filter_providers_v2 (empty_policy \<lparr>blocked_companies := bl\<rparr>) requested ps"
  by (rule filter_providers_as_policy)

section \<open>The blocklist cache\<close>

definition blocklist_entry :: "ident \<Rightarrow> blocklist_cache \<Rightarrow> (clock \<times> string list) option" where
  "blocklist_entry k c = map_option (\<lambda>(e, v). (e - CACHE_TTL_SEC, v)) (c k)"

lemma blocklist_read:
  "get_effective_blocklist lib now sys rows (Some (x # k)) c =
    (case c (x # k) of
       Some (e, v) \<Rightarrow> if now < e then (v, c)
         else (current_blocklist lib sys rows (x # k),
               c(x # k \<mapsto> (now + CACHE_TTL_SEC, current_blocklist lib sys rows (x # k))))
     | None \<Rightarrow> (current_blocklist lib sys rows (x # k),
               c(x # k \<mapsto> (now + CACHE_TTL_SEC, current_blocklist lib sys rows (x # k)))))"
  by (simp add: get_effective_blocklist_def Let_def)

text \<open>The entry of one (non-empty) key is a time-limited cache.\<close>

interpretation blocklist: ttl_cache
  "\<lambda>(lib, sys, rows) now c. get_effective_blocklist lib now sys rows (Some (x # k)) c"
  "\<lambda>(lib, sys, rows). current_blocklist lib sys rows (x # k)"
  "blocklist_entry (x # k)" CACHE_TTL_SEC for x k
  by unfold_locales
    (auto simp: blocklist_entry_def blocklist_read CACHE_TTL_SEC_def split: option.splits)

definition cache_ok :: "clock \<Rightarrow> (clock \<Rightarrow> ident \<Rightarrow> string list) \<Rightarrow> blocklist_cache \<Rightarrow> bool" where
  "cache_ok now hist c \<longleftrightarrow> (\<forall>k. entries_from (\<lambda>t. hist t k) now (blocklist_entry k c))"

text \<open>The cached blocklist is at most 30 seconds old: with entries written at their proper
  times, an answer either is the current one or was computed by a call less than 30 seconds
  earlier, and right after an invalidation it is the current one.\<close>

theorem blocklist_staleness:
  assumes "cache_ok now hist c" and "hist now = current_blocklist lib sys rows" and "k \<noteq> []"
  shows "(\<exists>t. now - 30 < t \<and> t \<le> now \<and>
      fst (get_effective_blocklist lib now sys rows (Some k) c) = hist t k) \<and>
    fst (get_effective_blocklist lib now sys rows (Some k) (invalidate_blocklist_cache (Some k) c)) = hist now k \<and>
    fst (get_effective_blocklist lib now sys rows (Some k) (invalidate_blocklist_cache None c)) = hist now k"
proof -
  from assms(3) obtain x k' where k: "k = x # k'" by (cases k) auto
  have "entries_from (\<lambda>t. hist t k) now (blocklist_entry k c)" using assms(1) by (simp add: cache_ok_def)
  with blocklist.read_source(1) [of "\<lambda>t. hist t k" now x k' c now "(lib, sys, rows)"]
  have "\<exists>t. now - 30 < t \<and> t \<le> now \<and> fst (get_effective_blocklist lib now sys rows (Some k) c) = hist t k"
    using assms(2) k by (simp add: CACHE_TTL_SEC_def)
  moreover have "fst (get_effective_blocklist lib now sys rows (Some k) c') = hist now k" if "c' k = None" for c'
    using that assms(2) k blocklist.read_empty [of x k' c' "(lib, sys, rows)" now] by (simp add: blocklist_entry_def)
  ultimately show ?thesis by (simp add: invalidate_blocklist_cache_def)
qed

theorem blocklist_staleness_witness:
  "fst (get_effective_blocklist demo_json 50 demo_system [] (Some ''k'') (invalidate_blocklist_cache None Map.empty)) =
     current_blocklist demo_json demo_system [] ''k''"
proof -
  have "cache_ok 50 (\<lambda>_. current_blocklist demo_json demo_system []) Map.empty"
    by (simp add: cache_ok_def entries_from_def blocklist_entry_def)
  from blocklist_staleness [OF this refl, of "''k''"] show ?thesis by simp
qed

end
