(* ===== verification/Router.thy ===== *)
theory Router
  imports Litellm_Binding Lmrh_Headers External_Rotation Node_Auth Hedging Compliance
begin

text \<open>
  The provider router (\<^verbatim>\<open>app/routing/router.py\<close>). \<open>select_provider\<close> is a pipeline of
  stages over the list of candidate providers, in the order of the source; a stage that may raise
  returns a sum. The database tables, the in-process state (breaker, latency samples, utilisation
  cache) and the clock are the record \<open>router_env\<close>; the breaker and the cache, which a selection
  changes, are returned updated. Parameters are the pricing catalogue's output cap, Python's set
  iteration order and the random choice of two candidates.
\<close>

section \<open>Requests, environment, results\<close>

record request =
  rq_hint :: "lmrh_hint option"
  has_tools :: bool
  has_images :: bool
  key_type :: string
  pinned_provider_id :: "ident option"
  model_override :: "string option"
  exclude_provider_id :: "ident option"
  exclude_provider_ids :: "ident list"
  prefer_cheapest :: bool
  rq_sort_mode :: "string option"
  excluded_provider_types :: "string list"
  api_key_id :: "ident option"
  dry_run :: bool
  est_input_tokens :: "int option"
  requested_max_tokens :: "int option"
  rq_blocked_companies :: "string list option"

definition new_request :: request where
  "new_request =
     \<lparr>rq_hint = None, has_tools = False, has_images = False, key_type = ''standard'',
      pinned_provider_id = None, model_override = None, exclude_provider_id = None,
      exclude_provider_ids = [], prefer_cheapest = False, rq_sort_mode = None,
      excluded_provider_types = [], api_key_id = None, dry_run = False, est_input_tokens = None,
      requested_max_tokens = None, rq_blocked_companies = None\<rparr>"

record capability_row =
  cap_provider_id :: ident
  cap_model_id :: string
  cap_aliases :: "string list"
  cap_tasks :: "string list"
  cap_latency :: "string option"
  cap_cost_tier :: "string option"
  cap_safety :: "int option"
  cap_context_length :: "int option"
  cap_regions :: "string list"
  cap_modalities :: "string list"
  cap_native_reasoning :: "bool option"
  cap_native_tools :: "bool option"
  cap_native_vision :: "bool option"
  cap_tool_call_success_rate :: "rat option"

record metric_row =
  metric_provider_id :: ident
  bucket_ts :: clock
  metric_avg_ttft_ms :: "rat option"
  total_cost_usd :: rat

record router_env =
  env_settings :: settings
  env_now :: clock
  env_monotonic :: clock
  env_midnight :: clock
  providers :: provider_table
  capabilities :: "capability_row list"
  metrics :: "metric_row list"
  snapshots :: "usage_snapshot list"
  node_states :: node_auth_table
  key_policies :: "key_policy_row list"
  sys_policy :: system_policy
  env_json :: json_lib
  current_api_key_id :: "ident option"
  latency_samples :: latency_state
  env_breaker :: breaker
  util_cache :: util_cache
  max_output_for :: "string \<Rightarrow> int option"
  set_order :: "string list \<Rightarrow> string list"
  sample2 :: "scored list \<Rightarrow> scored \<times> scored"

datatype fit_reason = No_native_vision | Context_window int int | Max_output int int

datatype route_error =
    No_providers_configured
  | Pinned_not_enabled ident
  | Compliance_blocked compliance_error
  | No_backup_provider
  | None_after_exclusions nat
  | No_accessible_providers
  | All_unavailable
  | No_tool_providers
  | None_after_types "string list"
  | No_chat_capable_providers
  | Hint_error py_error
  | Hard_constraints_unmet
  | Tool_success_excluded
  | Vision_refused "(string \<times> fit_reason) list"
  | Missing_provider ident

text \<open>Which of them are Python's \<open>RuntimeError\<close>.\<close>

fun is_runtime_error :: "route_error \<Rightarrow> bool" where
  "is_runtime_error (Compliance_blocked _) = False"
| "is_runtime_error (Hint_error _) = False"
| "is_runtime_error (Vision_refused _) = False"
| "is_runtime_error (Missing_provider _) = False"
| "is_runtime_error _ = True"

record route_result =
  rt_provider :: provider
  rt_profile :: capability_profile
  litellm_model :: string
  litellm_kwargs :: kwargs
  unmet_hints :: "string list"
  cot_engaged :: bool
  tool_emulation_engaged :: bool
  vision_stripped :: bool
  capability_header :: string
  rt_native_thinking_params :: kwargs
  capability_skipped :: "(string \<times> fit_reason) list"
  cross_family_fallback :: bool
  requested_model :: "string option"
  served_model_native :: "string option"
  compliance_substituted :: bool
  compliance_blocked_company :: "string option"
  compliance_served_company :: "string option"

datatype selection = Route route_result | Quotes "(provider \<times> scored) list"

section \<open>The initial candidates\<close>

definition enabled_providers :: "router_env \<Rightarrow> provider list" where
  "enabled_providers env = sort_key priority (filter enabled (providers env))"

definition node_may_route :: "router_env \<Rightarrow> provider \<Rightarrow> bool" where
  "node_may_route env p =
     (\<not> node_local_session p \<or>
      is_local_node_routable (read_state (env_settings env) (node_states env) (pid p) None))"

definition routable_now :: "router_env \<Rightarrow> provider list" where
  "routable_now env =
     filter (node_may_route env)
       (filter (\<lambda>p. \<not> is_currently_at_capacity (env_now env) p) (enabled_providers env))"

definition env_utilization :: "router_env \<Rightarrow> util_map \<times> util_cache" where
  "env_utilization env = get_utilization_map (env_monotonic env) (snapshots env) (util_cache env)"

definition initial_candidates :: "router_env \<Rightarrow> provider list" where
  "initial_candidates env =
     (let ps = reorder_claude_oauth_by_utilization (fst (env_utilization env))
                 (external_rotation_util_bucket_pct (env_settings env)) (routable_now env)
      in if ps = [] then enabled_providers env else ps)"

section \<open>Stages on providers\<close>

definition pin_stage :: "request \<Rightarrow> provider list \<Rightarrow> route_error + provider list" where
  "pin_stage rq ps =
     (if truthy (pinned_provider_id rq)
      then let i = the (pinned_provider_id rq); out = filter (\<lambda>p. pid p = i) ps
           in if out = [] then Inl (Pinned_not_enabled i) else Inr out
      else Inr ps)"

fun wrap_compliance :: "compliance_error + 'a \<Rightarrow> route_error + 'a" where
  "wrap_compliance (Inl e) = Inl (Compliance_blocked e)"
| "wrap_compliance (Inr x) = Inr x"

definition compliance_stage :: "router_env \<Rightarrow> request \<Rightarrow> provider list \<Rightarrow> route_error + provider list" where
  "compliance_stage env rq ps =
     (case rq_blocked_companies rq of
        Some bl \<Rightarrow> if bl \<noteq> [] then wrap_compliance (filter_providers bl (model_override rq) ps) else Inr ps
      | None \<Rightarrow>
          if truthy (api_key_id rq)
          then let pol = get_effective_policy (env_json env) (sys_policy env) (key_policies env) (api_key_id rq)
               in if \<not> is_empty_policy pol
                  then wrap_compliance (filter_providers_v2 pol (model_override rq) ps) else Inr ps
          else Inr ps)"

definition exclude_one_stage :: "request \<Rightarrow> provider list \<Rightarrow> route_error + provider list" where
  "exclude_one_stage rq ps =
     (if truthy (exclude_provider_id rq)
      then let out = filter (\<lambda>p. Some (pid p) \<noteq> exclude_provider_id rq) ps
           in if out = [] then Inl No_backup_provider else Inr out
      else Inr ps)"

definition exclude_many_stage :: "request \<Rightarrow> provider list \<Rightarrow> route_error + provider list" where
  "exclude_many_stage rq ps =
     (if exclude_provider_ids rq \<noteq> []
      then let out = filter (\<lambda>p. pid p \<notin> set (exclude_provider_ids rq)) ps
           in if out = [] then Inl (None_after_exclusions (length (exclude_provider_ids rq))) else Inr out
      else Inr ps)"

definition effective_key :: "router_env \<Rightarrow> request \<Rightarrow> ident option" where
  "effective_key env rq = (if truthy (api_key_id rq) then api_key_id rq else current_api_key_id env)"

definition tenant_ok :: "router_env \<Rightarrow> request \<Rightarrow> provider \<Rightarrow> bool" where
  "tenant_ok env rq p = (\<not> truthy (owned_by_key_id p) \<or> owned_by_key_id p = effective_key env rq)"

definition tenant_stage :: "router_env \<Rightarrow> request \<Rightarrow> provider list \<Rightarrow> route_error + provider list" where
  "tenant_stage env rq ps =
     (let out = filter (tenant_ok env rq) ps in if out = [] then Inl No_accessible_providers else Inr out)"

text \<open>The breaker is asked for each provider in turn and may move it to half-open.\<close>

fun breaker_filter :: "settings \<Rightarrow> clock \<Rightarrow> provider list \<Rightarrow> breaker \<Rightarrow> provider list \<times> breaker" where
  "breaker_filter cfg now [] b = ([], b)"
| "breaker_filter cfg now (p # ps) b =
     (let (ok, b1) = is_available cfg now (pid p) b; (rest, b2) = breaker_filter cfg now ps b1
      in (if ok then p # rest else rest, b2))"

definition token_dead :: "clock \<Rightarrow> provider \<Rightarrow> bool" where
  "token_dead now p =
     (case oauth_expires_at p of None \<Rightarrow> False | Some e \<Rightarrow> e \<noteq> 0 \<and> e < now - 900)"

definition token_stage :: "clock \<Rightarrow> provider list \<Rightarrow> provider list" where
  "token_stage now ps = (let live = filter (\<lambda>p. \<not> token_dead now p) ps in if live \<noteq> [] then live else ps)"

definition tool_stage :: "request \<Rightarrow> provider list \<Rightarrow> route_error + provider list" where
  "tool_stage rq ps =
     (if has_tools rq
      then let out = filter (\<lambda>p. \<not> exclude_from_tool_requests p) ps
           in if out = [] then Inl No_tool_providers else Inr out
      else Inr ps)"

definition type_stage :: "request \<Rightarrow> provider list \<Rightarrow> route_error + provider list" where
  "type_stage rq ps =
     (let out = filter (\<lambda>p. provider_type p \<notin> set (excluded_provider_types rq)) ps
      in if out = [] then Inl (None_after_types (excluded_provider_types rq)) else Inr out)"

definition embedding_stage :: "request \<Rightarrow> provider list \<Rightarrow> route_error + provider list" where
  "embedding_stage rq ps =
     (if \<not> truthy (model_override rq)
      then let out = filter (\<lambda>p. \<not> is_embedding_model (or_else (default_model p) [])) ps
           in if out = [] then Inl No_chat_capable_providers else Inr out
      else Inr ps)"

definition drop_own_dispatcher_types :: "provider list \<Rightarrow> provider list" where
  "drop_own_dispatcher_types ps =
     (let out = filter (\<lambda>p. provider_type p \<notin> set OWN_DISPATCHER_PROVIDER_TYPES) ps
      in if out = [] then ps else out)"

text \<open>The family filter; the flag says that no candidate is of the requested family.\<close>

definition family_stage :: "request \<Rightarrow> provider list \<Rightarrow> provider list \<times> bool" where
  "family_stage rq ps =
     (if truthy (model_override rq)
      then (case model_family_provider_types (model_override rq) of
              None \<Rightarrow> (ps, False)
            | Some types \<Rightarrow>
                let out = filter (\<lambda>p. provider_type p \<in> set types) ps
                in if out \<noteq> [] then (out, False) else (drop_own_dispatcher_types ps, True))
      else (ps, False))"

definition supports_model :: "capability_row list \<Rightarrow> string \<Rightarrow> provider \<Rightarrow> bool" where
  "supports_model caps m p =
     (let own = filter (\<lambda>c. cap_provider_id c = pid p) caps
      in own = [] \<or> list_ex (\<lambda>c. matches_capability m (cap_model_id c) (cap_aliases c)) own)"

definition capability_stage :: "router_env \<Rightarrow> request \<Rightarrow> provider list \<times> bool \<Rightarrow> provider list \<times> bool" where
  "capability_stage env rq pc =
     (let (ps, cross) = pc in
      if truthy (model_override rq)
      then let out = filter (supports_model (capabilities env) (the (model_override rq))) ps
           in if out \<noteq> [] then (out, cross)
              else if \<not> cross then (drop_own_dispatcher_types ps, True) else (ps, cross)
      else (ps, cross))"

text \<open>All stages up to the loading of profiles.\<close>

definition candidate_pipeline ::
  "router_env \<Rightarrow> request \<Rightarrow> (route_error + provider list \<times> bool) \<times> breaker" where
  "candidate_pipeline env rq =
     (let cfg = env_settings env; now = env_now env; b0 = env_breaker env in
      if enabled_providers env = [] then (Inl No_providers_configured, b0)
      else case bind_result (pin_stage rq (initial_candidates env)) (\<lambda>p1.
                bind_result (compliance_stage env rq p1) (\<lambda>p2.
                bind_result (exclude_one_stage rq p2) (\<lambda>p3.
                bind_result (exclude_many_stage rq p3) (tenant_stage env rq)))) of
             Inl e \<Rightarrow> (Inl e, b0)
           | Inr p5 \<Rightarrow>
               let (avail, b1) = breaker_filter cfg now p5 b0 in
               (if avail = [] then Inl All_unavailable
                else bind_result (tool_stage rq (token_stage now avail)) (\<lambda>p7.
                     bind_result (type_stage rq p7) (\<lambda>p8.
                     bind_result (embedding_stage rq p8) (\<lambda>p9.
                     Inr (capability_stage env rq (family_stage rq p9))))), b1))"

section \<open>Profiles\<close>

definition or_list :: "'a list \<Rightarrow> 'a list \<Rightarrow> 'a list" where
  "or_list xs d = (if xs = [] then d else xs)"

definition or_bool :: "bool option \<Rightarrow> bool \<Rightarrow> bool" where
  "or_bool x d = (case x of None \<Rightarrow> d | Some b \<Rightarrow> b)"

definition stored_profile :: "router_env \<Rightarrow> provider \<Rightarrow> capability_row \<Rightarrow> capability_profile" where
  "stored_profile env p c =
     (let model_id = or_else (default_model p) [] in
      \<lparr>prof_provider_id = pid p, prof_provider_type = provider_type p, prof_model_id = model_id,
       prof_provider_name = pname p, tasks = or_list (cap_tasks c) [''chat''],
       latency = or_else (cap_latency c) ''medium'', cost_tier = or_else (cap_cost_tier c) ''standard'',
       safety = or_int (cap_safety c) 3, context_length = or_int (cap_context_length c) 128000,
       max_output_tokens = max_output_for env model_id, regions = cap_regions c,
       modalities = or_list (cap_modalities c) [''text''],
       native_reasoning = or_bool (cap_native_reasoning c) False,
       native_tools = or_bool (cap_native_tools c) True,
       native_vision = or_bool (cap_native_vision c) False,
       prof_priority = priority p, avg_ttft_ms = 0, over_daily_budget = False,
       tool_call_success_rate = cap_tool_call_success_rate c\<rparr>)"

definition latest_ttft :: "metric_row list \<Rightarrow> ident \<Rightarrow> rat" where
  "latest_ttft ms i =
     (case sort_key (\<lambda>m. - bucket_ts m) (filter (\<lambda>m. metric_provider_id m = i) ms) of
        [] \<Rightarrow> 0
      | m # _ \<Rightarrow> (case metric_avg_ttft_ms m of None \<Rightarrow> 0 | Some t \<Rightarrow> t))"

definition spent_today :: "router_env \<Rightarrow> ident \<Rightarrow> rat" where
  "spent_today env i =
     sum_list (map total_cost_usd
       (filter (\<lambda>m. metric_provider_id m = i \<and> env_midnight env \<le> bucket_ts m) (metrics env)))"

definition over_budget :: "router_env \<Rightarrow> provider \<Rightarrow> bool" where
  "over_budget env p =
     (case daily_budget_usd p of None \<Rightarrow> False | Some cap \<Rightarrow> cap \<le> spent_today env (pid p))"

definition base_profile :: "router_env \<Rightarrow> provider \<Rightarrow> capability_profile" where
  "base_profile env p =
     (let model_id = or_else (default_model p) [] in
      case find (\<lambda>c. cap_provider_id c = pid p \<and> cap_model_id c = model_id) (capabilities env) of
        Some c \<Rightarrow> stored_profile env p c
      | None \<Rightarrow> (infer_capability_profile (pid p) (provider_type p) model_id (priority p))
                 \<lparr>prof_provider_name := pname p\<rparr>)"

definition load_profile :: "router_env \<Rightarrow> provider \<Rightarrow> capability_profile" where
  "load_profile env p =
     (base_profile env p) \<lparr>avg_ttft_ms := latest_ttft (metrics env) (pid p), over_daily_budget := over_budget env p\<rparr>"

definition requested_tier :: "string \<Rightarrow> string option" where
  "requested_tier model =
     (let m = lower model in
      if any_in [''opus'', ''o1'', ''o3'', ''o4'', ''r1'', ''deepseek-r'', ''claude-3-7''] m then Some ''premium''
      else if any_in [''sonnet'', ''gpt-4o'', ''gemini-2.0'', ''gpt-4-turbo'', ''grok-2''] m then Some ''standard''
      else if any_in [''haiku'', ''flash'', ''mini'', ''gpt-3.5'', ''grok-beta''] m then Some ''economy''
      else None)"

definition retier :: "request \<Rightarrow> provider \<Rightarrow> capability_profile \<Rightarrow> capability_profile" where
  "retier rq p prof =
     (if \<not> truthy (model_override rq) then prof
      else case requested_tier (the (model_override rq)) of
             None \<Rightarrow> prof
           | Some tier \<Rightarrow>
               (case model_family_provider_types (model_override rq) of
                  Some types \<Rightarrow> if provider_type p \<in> set types then prof \<lparr>cost_tier := tier\<rparr> else prof
                | None \<Rightarrow> prof))"

section \<open>Ranking and the capability gate\<close>

definition TOOL_SUCCESS_HARD_SKIP_THRESHOLD :: rat where "TOOL_SUCCESS_HARD_SKIP_THRESHOLD = 3 / 10"

text \<open>The adjusted score, \<open>None\<close> for minus infinity.\<close>

definition tool_weighted :: "scored \<Rightarrow> rat option" where
  "tool_weighted t =
     (case tool_call_success_rate (fst t) of
        None \<Rightarrow> Some (score_of t)
      | Some r \<Rightarrow> if r < TOOL_SUCCESS_HARD_SKIP_THRESHOLD then None else Some (score_of t * r))"

definition apply_tool_success_weighting :: "scored list \<Rightarrow> scored list" where
  "apply_tool_success_weighting xs =
     (let weighted = map (\<lambda>t. (t, tool_weighted t)) xs;
          ordered = sort_key (\<lambda>(t, w). case w of Some s \<Rightarrow> (0 :: int, - s) | None \<Rightarrow> (1, 0)) weighted
      in map (\<lambda>(t, w). (fst t, fst (snd t), the w)) (filter (\<lambda>(t, w). w \<noteq> None) ordered))"

fun wrap_hint :: "py_error + 'a \<Rightarrow> route_error + 'a" where
  "wrap_hint (Inl e) = Inl (Hint_error e)"
| "wrap_hint (Inr x) = Inr x"

definition rank_stage :: "request \<Rightarrow> capability_profile list \<Rightarrow> route_error + scored list" where
  "rank_stage rq profiles =
     bind_result (wrap_hint (rank_candidates_with_scores profiles (rq_hint rq))) (\<lambda>ranked.
       if ranked = [] then Inl Hard_constraints_unmet
       else if has_tools rq
       then let w = apply_tool_success_weighting ranked
            in if w = [] then Inl Tool_success_excluded else Inr w
       else Inr ranked)"

definition positive :: "int option \<Rightarrow> bool" where
  "positive x = (case x of None \<Rightarrow> False | Some n \<Rightarrow> n \<noteq> 0)"

definition capability_fit :: "request \<Rightarrow> capability_profile \<Rightarrow> fit_reason option" where
  "capability_fit rq p =
     (if has_images rq \<and> \<not> native_vision p then Some No_native_vision
      else if positive (est_input_tokens rq) \<and> context_length p \<noteq> 0 \<and>
              the (est_input_tokens rq) > context_length p
      then Some (Context_window (context_length p) (the (est_input_tokens rq)))
      else if positive (requested_max_tokens rq) \<and> positive (max_output_tokens p) \<and>
              the (requested_max_tokens rq) > the (max_output_tokens p)
      then Some (Max_output (the (max_output_tokens p)) (the (requested_max_tokens rq)))
      else None)"

definition fit_skipped :: "request \<Rightarrow> scored list \<Rightarrow> (string \<times> fit_reason) list" where
  "fit_skipped rq xs =
     map (\<lambda>t. (or_list (prof_provider_name (fst t)) (prof_provider_id (fst t)), the (capability_fit rq (fst t))))
       (filter (\<lambda>t. capability_fit rq (fst t) \<noteq> None) xs)"

definition fit_stage :: "request \<Rightarrow> scored list \<Rightarrow> route_error + scored list" where
  "fit_stage rq xs =
     (let kept = filter (\<lambda>t. capability_fit rq (fst t) = None) xs in
      if has_images rq \<and> kept = [] then Inl (Vision_refused (fit_skipped rq xs))
      else if kept \<noteq> [] \<and> length kept < length xs then Inr kept
      else Inr xs)"

definition needs_reasoning :: "router_env \<Rightarrow> request \<Rightarrow> bool" where
  "needs_reasoning env rq =
     (cot_enabled (env_settings env) \<and>
      (key_type rq = ''claude-code'' \<or>
       (case rq_hint rq of
          None \<Rightarrow> False
        | Some h \<Rightarrow> (case hint_get h ''task'' of None \<Rightarrow> False | Some d \<Rightarrow> dim_value d = ''reasoning''))))"

section \<open>Picking the winner\<close>

definition pick_cheapest :: "scored list \<Rightarrow> scored" where
  "pick_cheapest xs = arg_min_list (\<lambda>t. (get_or COST_RANK (cost_tier (fst t)) 1, prof_priority (fst t))) xs"

definition pick_nitro :: "latency_state \<Rightarrow> scored list \<Rightarrow> scored" where
  "pick_nitro lat xs =
     arg_min_list (\<lambda>t. case peak_ewma lat (prof_provider_id (fst t)) of
                         Some e \<Rightarrow> (0 :: int, e, prof_priority (fst t))
                       | None \<Rightarrow> (1, 0, prof_priority (fst t))) xs"

definition top_tier :: "scored list \<Rightarrow> scored list" where
  "top_tier xs = filter (\<lambda>t. score_of (hd xs) - score_of t < 1) xs"

definition pick_exacto :: "scored list \<Rightarrow> scored" where
  "pick_exacto xs = arg_min_list (\<lambda>t. prof_priority (fst t)) (top_tier xs)"

definition low_bucket_tier :: "util_map \<Rightarrow> rat \<Rightarrow> scored list \<Rightarrow> scored list" where
  "low_bucket_tier m bsize xs =
     (let bucket_of = (\<lambda>t. utilization_bucket (m (prof_provider_id (fst t))) bsize) in
      if length xs \<ge> 2 then filter (\<lambda>t. bucket_of t = Min (set (map bucket_of xs))) xs else xs)"

definition p2c :: "latency_state \<Rightarrow> scored \<times> scored \<Rightarrow> scored" where
  "p2c lat cc =
     (let (c1, c2) = cc in
      case (peak_ewma lat (prof_provider_id (fst c1)), peak_ewma lat (prof_provider_id (fst c2))) of
        (None, None) \<Rightarrow> if prof_priority (fst c1) \<le> prof_priority (fst c2) then c1 else c2
      | (None, Some _) \<Rightarrow> c2
      | (Some _, None) \<Rightarrow> c1
      | (Some e1, Some e2) \<Rightarrow> if e1 \<le> e2 then c1 else c2)"

definition pick_default :: "router_env \<Rightarrow> util_map \<Rightarrow> scored list \<Rightarrow> scored" where
  "pick_default env m xs =
     (let tier = low_bucket_tier m (external_rotation_util_bucket_pct (env_settings env)) (top_tier xs)
      in if length tier \<ge> 2 then p2c (latency_samples env) (sample2 env tier) else hd tier)"

definition pick :: "router_env \<Rightarrow> request \<Rightarrow> util_map \<Rightarrow> scored list \<Rightarrow> scored" where
  "pick env rq m xs =
     (if rq_sort_mode rq = Some ''nitro'' then pick_nitro (latency_samples env) xs
      else if rq_sort_mode rq = Some ''exacto'' then pick_exacto xs
      else pick_default env m xs)"

section \<open>The route\<close>

text \<open>\<open>str.replace\<close> for a non-empty pattern.\<close>

function replace_all :: "string \<Rightarrow> string \<Rightarrow> string \<Rightarrow> string" where
  "replace_all old new [] = []"
| "replace_all old new (c # cs) =
     (if old \<noteq> [] \<and> prefix old (c # cs) then new @ replace_all old new (drop (length old) (c # cs))
      else c # replace_all old new cs)"
  by pat_completeness auto
termination
  by (relation "measure (\<lambda>(_, _, s). length s)") (auto simp: neq_Nil_conv)

definition cheapest_route ::
  "router_env \<Rightarrow> request \<Rightarrow> (string \<times> fit_reason) list \<Rightarrow> scored \<Rightarrow> provider \<Rightarrow> route_result" where
  "cheapest_route env rq skipped t p =
     \<lparr>rt_provider = p, rt_profile = fst t,
      litellm_model = build_litellm_model p (model_override rq),
      litellm_kwargs = build_litellm_kwargs p, unmet_hints = fst (snd t),
      cot_engaged = False, tool_emulation_engaged = False, vision_stripped = False,
      capability_header = build_capability_header (set_order env) (fst t) (fst (snd t)) False False ''score''
        (or_else (model_override rq) []) (rq_hint rq),
      rt_native_thinking_params = [], capability_skipped = skipped, cross_family_fallback = False,
      requested_model = None, served_model_native = None, compliance_substituted = False,
      compliance_blocked_company = None, compliance_served_company = None\<rparr>"

text \<open>The company the disclosure names, when a banned family was substituted.\<close>

definition substituted_company :: "request \<Rightarrow> bool \<Rightarrow> string option" where
  "substituted_company rq cross =
     (if cross \<and> rq_blocked_companies rq \<noteq> None \<and> the (rq_blocked_companies rq) \<noteq> []
      then (case model_family_to_company (model_override rq) of
              None \<Rightarrow> None
            | Some c \<Rightarrow> if c \<in> set (the (rq_blocked_companies rq)) then Some c else None)
      else None)"

definition finish_route ::
  "router_env \<Rightarrow> request \<Rightarrow> bool \<Rightarrow> (string \<times> fit_reason) list \<Rightarrow> scored \<Rightarrow> provider \<Rightarrow> route_result" where
  "finish_route env rq cross skipped t p =
     (let prof = fst t;
          cot = needs_reasoning env rq \<and> \<not> native_reasoning prof;
          eff = (if cross then None else model_override rq);
          unmet = (if cross then fst (snd t) @ [''model''] else fst (snd t));
          model = build_litellm_model p eff;
          emul = has_tools rq \<and> \<not> native_tools prof;
          header = build_capability_header (set_order env) prof unmet cot emul ''score''
                     (or_else eff (or_else (model_override rq) [])) (rq_hint rq);
          sub = substituted_company rq cross
      in \<lparr>rt_provider = p, rt_profile = prof, litellm_model = model,
          litellm_kwargs = build_litellm_kwargs p, unmet_hints = unmet, cot_engaged = cot,
          tool_emulation_engaged = emul, vision_stripped = has_images rq \<and> \<not> native_vision prof,
          capability_header =
            (if cross \<and> truthy (model_override rq)
             then replace_all ''chosen-because=score'' ''chosen-because=cross-family-fallback'' header @
                  '', requested-model='' @ the (model_override rq) @ '', served-model='' @ model
             else header),
          rt_native_thinking_params =
            (if native_reasoning prof \<and> \<not> cot
             then native_thinking_params (env_settings env) (provider_type p) (prof_model_id prof) else []),
          capability_skipped = skipped, cross_family_fallback = cross,
          requested_model = (if cross then model_override rq else None),
          served_model_native = (if cross then default_model p else None),
          compliance_substituted = sub \<noteq> None, compliance_blocked_company = sub,
          compliance_served_company =
            (if sub \<noteq> None then provider_type_to_company (Some (provider_type p)) else None)\<rparr>)"

definition lookup_provider :: "provider list \<Rightarrow> ident \<Rightarrow> route_error + provider" where
  "lookup_provider avail i =
     (case find_row i avail of None \<Rightarrow> Inl (Missing_provider i) | Some p \<Rightarrow> Inr p)"

text \<open>\<open>sort_mode == "floor"\<close> is folded into the cheapest path.\<close>

definition wants_cheapest :: "request \<Rightarrow> bool" where
  "wants_cheapest rq = (prefer_cheapest rq \<or> rq_sort_mode rq = Some ''floor'')"

fun quote_list :: "provider list \<Rightarrow> scored list \<Rightarrow> route_error + (provider \<times> scored) list" where
  "quote_list avail [] = Inr []"
| "quote_list avail (t # ts) =
     bind_result (lookup_provider avail (prof_provider_id (fst t))) (\<lambda>p.
       map_result (\<lambda>r. (p, t) # r) (quote_list avail ts))"

definition choose_route :: "router_env \<Rightarrow> request \<Rightarrow> provider list \<Rightarrow> bool \<Rightarrow> scored list \<Rightarrow> route_error + selection" where
  "choose_route env rq avail cross ranked =
     bind_result (fit_stage rq ranked) (\<lambda>fit.
       let skipped = fit_skipped rq ranked in
       if dry_run rq then map_result Quotes (quote_list avail fit)
       else if wants_cheapest rq
       then (let t = pick_cheapest fit in
             map_result (\<lambda>p. Route (cheapest_route env rq skipped t p))
               (lookup_provider avail (prof_provider_id (fst t))))
       else (let t = pick env rq (fst (env_utilization env)) fit in
             map_result (\<lambda>p. Route (finish_route env rq cross skipped t p))
               (lookup_provider avail (prof_provider_id (fst t)))))"

definition select_from :: "router_env \<Rightarrow> request \<Rightarrow> provider list \<times> bool \<Rightarrow> route_error + selection" where
  "select_from env rq ac =
     (let (avail, cross) = ac; profiles = map (\<lambda>p. retier rq p (load_profile env p)) avail
      in bind_result (rank_stage rq profiles) (choose_route env rq avail cross))"

definition select_provider :: "router_env \<Rightarrow> request \<Rightarrow> (route_error + selection) \<times> router_env" where
  "select_provider env rq =
     (let (r, b) = candidate_pipeline env rq;
          env' = env \<lparr>env_breaker := b, util_cache := snd (env_utilization env)\<rparr>
      in if enabled_providers env = [] then (Inl No_providers_configured, env)
         else (bind_result r (select_from env rq), env'))"

definition failover_preserves_model :: "provider \<Rightarrow> string option \<Rightarrow> bool" where
  "failover_preserves_model p requested =
     (truthy requested \<and>
      (case model_family_provider_types requested of None \<Rightarrow> True | Some ts \<Rightarrow> provider_type p \<in> set ts))"

section \<open>What each stage keeps\<close>

text \<open>The tests of the guards, as the predicates a candidate has to pass.\<close>

definition pin_keep :: "request \<Rightarrow> provider \<Rightarrow> bool" where
  "pin_keep rq p \<longleftrightarrow> truthy (pinned_provider_id rq) \<longrightarrow> pinned_provider_id rq = Some (pid p)"

definition compliance_keep :: "router_env \<Rightarrow> request \<Rightarrow> provider \<Rightarrow> bool" where
  "compliance_keep env rq p \<longleftrightarrow>
     (case rq_blocked_companies rq of
        Some bl \<Rightarrow> fst (evaluate_policy (empty_policy \<lparr>blocked_companies := bl\<rparr>) p (model_override rq))
      | None \<Rightarrow> truthy (api_key_id rq) \<longrightarrow>
          fst (evaluate_policy (get_effective_policy (env_json env) (sys_policy env) (key_policies env) (api_key_id rq))
                 p (model_override rq)))"

definition exclude_keep :: "request \<Rightarrow> provider \<Rightarrow> bool" where
  "exclude_keep rq p \<longleftrightarrow> truthy (exclude_provider_id rq) \<longrightarrow> exclude_provider_id rq \<noteq> Some (pid p)"

definition tool_keep :: "request \<Rightarrow> provider \<Rightarrow> bool" where
  "tool_keep rq p \<longleftrightarrow> has_tools rq \<longrightarrow> \<not> exclude_from_tool_requests p"

definition type_keep :: "request \<Rightarrow> provider \<Rightarrow> bool" where
  "type_keep rq p \<longleftrightarrow> provider_type p \<notin> set (excluded_provider_types rq)"

definition embedding_keep :: "request \<Rightarrow> provider \<Rightarrow> bool" where
  "embedding_keep rq p \<longleftrightarrow>
     \<not> truthy (model_override rq) \<longrightarrow> \<not> is_embedding_model (or_else (default_model p) [])"

lemma filter_all: "(\<And>p. P p) \<Longrightarrow> filter P ps = ps"
  by simp

lemma wrap_compliance_Inr [result_iff]: "wrap_compliance r = Inr x \<longleftrightarrow> r = Inr x"
  by (cases r) auto

interpretation pin: candidate_guard "pin_stage rq" "pin_keep rq" for rq
  by (rule candidate_guardI [where err = "Pinned_not_enabled (the (pinned_provider_id rq))" and c = "truthy (pinned_provider_id rq)" and
      P = "\<lambda>p. pid p = the (pinned_provider_id rq)"])
    (auto simp: pin_stage_def pin_keep_def Let_def truthy_iff)

lemma filter_v2_guard:
  assumes "ps \<noteq> []"
  shows "filter_providers_v2 pol m ps = Inr qs \<longleftrightarrow>
    qs = filter (\<lambda>p. fst (evaluate_policy pol p m)) ps \<and> qs \<noteq> []"
  using assms unfolding filter_v2_Inr by blast

lemma empty_allows: "is_empty_policy pol \<Longrightarrow> fst (evaluate_policy pol p m)"
  by (simp add: evaluate_policy_def)

lemma no_blocklist_allows: "fst (evaluate_policy (empty_policy \<lparr>blocked_companies := []\<rparr>) p m)"
  by (rule empty_allows) (simp add: is_empty_policy_def empty_policy_def)

interpretation compliance: candidate_guard "compliance_stage env rq" "compliance_keep env rq" for env rq
proof unfold_locales
  fix ps qs assume ne: "(ps :: provider list) \<noteq> []"
  show "compliance_stage env rq ps = Inr qs \<longleftrightarrow> qs = filter (compliance_keep env rq) ps \<and> qs \<noteq> []"
  proof (cases "rq_blocked_companies rq")
    case None
    let ?pol = "get_effective_policy (env_json env) (sys_policy env) (key_policies env) (api_key_id rq)"
    show ?thesis
    proof (cases "truthy (api_key_id rq) \<and> \<not> is_empty_policy ?pol")
      case True
      then have "compliance_keep env rq = (\<lambda>p. fst (evaluate_policy ?pol p (model_override rq)))"
        using None by (simp add: compliance_keep_def fun_eq_iff)
      then show ?thesis
        using True None filter_v2_guard [OF ne] by (simp add: compliance_stage_def wrap_compliance_Inr)
    next
      case False
      then have "compliance_keep env rq p" for p
        using None empty_allows by (auto simp: compliance_keep_def)
      then have "filter (compliance_keep env rq) ps = ps" by (rule filter_all)
      then show ?thesis using False None ne by (auto simp: compliance_stage_def)
    qed
  next
    case (Some bl)
    let ?pol = "empty_policy \<lparr>blocked_companies := bl\<rparr>"
    have k: "compliance_keep env rq = (\<lambda>p. fst (evaluate_policy ?pol p (model_override rq)))"
      using Some by (simp add: compliance_keep_def fun_eq_iff)
    show ?thesis
    proof (cases "bl = []")
      case True
      then have "filter (compliance_keep env rq) ps = ps"
        unfolding k using no_blocklist_allows by (intro filter_all) simp
      then show ?thesis using True Some ne by (auto simp: compliance_stage_def)
    next
      case False
      then show ?thesis
        using Some filter_v2_guard [OF ne] k
        by (simp add: compliance_stage_def wrap_compliance_Inr filter_providers_as_policy)
    qed
  qed
qed

interpretation exclude_one: candidate_guard "exclude_one_stage rq" "exclude_keep rq" for rq
  by (rule candidate_guardI [where err = "No_backup_provider" and c = "truthy (exclude_provider_id rq)" and
      P = "\<lambda>p. Some (pid p) \<noteq> exclude_provider_id rq"])
    (auto simp: exclude_one_stage_def exclude_keep_def Let_def)

interpretation exclude_many: candidate_guard "exclude_many_stage rq" "\<lambda>p. pid p \<notin> set (exclude_provider_ids rq)" for rq
  by (rule candidate_guardI [where err = "None_after_exclusions (length (exclude_provider_ids rq))" and c = "exclude_provider_ids rq \<noteq> []" and
      P = "\<lambda>p. pid p \<notin> set (exclude_provider_ids rq)"])
    (auto simp: exclude_many_stage_def Let_def)

interpretation tenant: candidate_guard "tenant_stage env rq" "tenant_ok env rq" for env rq
  by (rule candidate_guardI [where err = "No_accessible_providers" and c = True and P = "tenant_ok env rq"])
    (simp_all add: tenant_stage_def Let_def)

interpretation tool: candidate_guard "tool_stage rq" "tool_keep rq" for rq
  by (rule candidate_guardI [where err = "No_tool_providers" and c = "has_tools rq" and P = "\<lambda>p. \<not> exclude_from_tool_requests p"])
    (simp_all add: tool_stage_def tool_keep_def Let_def)

interpretation ptype: candidate_guard "type_stage rq" "type_keep rq" for rq
  by (rule candidate_guardI [where err = "None_after_types (excluded_provider_types rq)" and c = True and P = "\<lambda>p. provider_type p \<notin> set (excluded_provider_types rq)"])
    (simp_all add: type_stage_def type_keep_def Let_def)

interpretation embedding: candidate_guard "embedding_stage rq" "embedding_keep rq" for rq
  by (rule candidate_guardI [where err = "No_chat_capable_providers" and c = "\<not> truthy (model_override rq)" and
      P = "\<lambda>p. \<not> is_embedding_model (or_else (default_model p) [])"])
    (simp_all add: embedding_stage_def embedding_keep_def Let_def)

text \<open>The two runs of guards, before and after the breaker.\<close>

interpretation excl_tenant: guard_pair "exclude_many_stage rq" "tenant_stage env rq"
  "\<lambda>p. pid p \<notin> set (exclude_provider_ids rq)" "tenant_ok env rq" for env rq
  by unfold_locales

interpretation excl_all: guard_pair "exclude_one_stage rq"
  "\<lambda>ps. bind_result (exclude_many_stage rq ps) (tenant_stage env rq)"
  "exclude_keep rq" "\<lambda>p. pid p \<notin> set (exclude_provider_ids rq) \<and> tenant_ok env rq p" for env rq
  by unfold_locales

interpretation compl_all: guard_pair "compliance_stage env rq"
  "\<lambda>ps. bind_result (exclude_one_stage rq ps) (\<lambda>p3. bind_result (exclude_many_stage rq p3) (tenant_stage env rq))"
  "compliance_keep env rq"
  "\<lambda>p. exclude_keep rq p \<and> pid p \<notin> set (exclude_provider_ids rq) \<and> tenant_ok env rq p" for env rq
  by unfold_locales

interpretation before: guard_pair "pin_stage rq"
  "\<lambda>ps. bind_result (compliance_stage env rq ps) (\<lambda>p2. bind_result (exclude_one_stage rq p2)
     (\<lambda>p3. bind_result (exclude_many_stage rq p3) (tenant_stage env rq)))"
  "pin_keep rq"
  "\<lambda>p. compliance_keep env rq p \<and> exclude_keep rq p \<and> pid p \<notin> set (exclude_provider_ids rq) \<and> tenant_ok env rq p"
  for env rq
  by unfold_locales

interpretation type_embedding: guard_pair "type_stage rq" "embedding_stage rq" "type_keep rq" "embedding_keep rq" for rq
  by unfold_locales

interpretation after: guard_pair "tool_stage rq" "\<lambda>ps. bind_result (type_stage rq ps) (embedding_stage rq)"
  "tool_keep rq" "\<lambda>p. type_keep rq p \<and> embedding_keep rq p" for rq
  by unfold_locales

interpretation token: soft_stage "token_stage now" for now
  by unfold_locales (auto simp: token_stage_def Let_def)

interpretation dispatcher: soft_stage drop_own_dispatcher_types
  by unfold_locales (auto simp: drop_own_dispatcher_types_def Let_def)

interpretation family: soft_stage "\<lambda>ps. fst (family_stage rq ps)" for rq
proof unfold_locales
  fix ps show "set (fst (family_stage rq ps)) \<subseteq> set ps"
    using dispatcher.stage_subset [of ps] by (auto simp: family_stage_def Let_def split: option.splits)
next
  fix ps assume "(ps :: provider list) \<noteq> []"
  then show "fst (family_stage rq ps) \<noteq> []"
    using dispatcher.stage_nonempty [of ps] by (auto simp: family_stage_def Let_def split: option.splits)
qed

interpretation capability: soft_stage "\<lambda>ps. fst (capability_stage env rq (ps, cross))" for env rq cross
proof unfold_locales
  fix ps show "set (fst (capability_stage env rq (ps, cross))) \<subseteq> set ps"
    using dispatcher.stage_subset [of ps] by (auto simp: capability_stage_def Let_def)
next
  fix ps assume "(ps :: provider list) \<noteq> []"
  then show "fst (capability_stage env rq (ps, cross)) \<noteq> []"
    using dispatcher.stage_nonempty [of ps] by (auto simp: capability_stage_def Let_def)
qed

end
