(* ===== verification/Routing.thy ===== *)
theory Routing
  imports Router
begin

text \<open>
  The properties of a provider selection. The guards and soft stages of the pipeline are
  interpretations of the stage interfaces, so membership and non-emptiness go through the pipeline
  once; the breaker's answers do not interfere; the ranking, the capability gate and the picking
  modes return members of the list they are given. From these: what a route respects, when a route
  exists, how the winner compares with the other candidates and what a selection changes.
\<close>

section \<open>The breaker within a selection\<close>

lemma is_available_stable:
  "fst (is_available cfg now j (snd (is_available cfg now i b))) = fst (is_available cfg now j b)"
proof -
  let ?r = "\<lambda>k b. cb_state (get_local b k) = OPEN \<and> ready_at cfg (get_local b k) \<le> now"
  have "get_local (snd (is_available cfg now i b)) j =
      (if i = j \<and> \<not> now < hold_down_until (get_local b i) \<and> ?r i b
       then (get_local b i)\<lparr>cb_state := HALF_OPEN, successes := 0\<rparr> else get_local b j)"
    by (auto simp: is_available_via_get_state get_local_get_state)
  then show ?thesis
    by (auto simp: is_available_via_get_state fst_get_state)
qed

lemma breaker_filter_fst:
  "fst (breaker_filter cfg now ps b) = filter (\<lambda>p. fst (is_available cfg now (pid p) b)) ps"
proof (induction ps arbitrary: b)
  case (Cons p ps)
  obtain ok b1 where a: "is_available cfg now (pid p) b = (ok, b1)" by fastforce
  have "fst (is_available cfg now j b1) = fst (is_available cfg now j b)" for j
    using is_available_stable [of cfg now j "pid p" b] a by simp
  then show ?case using Cons.IH [of b1] a by (simp add: split_beta)
qed simp

lemma breaker_filter_stable:
  "fst (is_available cfg now j (snd (breaker_filter cfg now ps b))) = fst (is_available cfg now j b)"
proof (induction ps arbitrary: b)
  case (Cons p ps)
  obtain ok b1 where a: "is_available cfg now (pid p) b = (ok, b1)" by fastforce
  then show ?case
    using Cons.IH [of b1] is_available_stable [of cfg now j "pid p" b] by (simp add: split_beta)
qed simp

section \<open>The pipeline\<close>

lemma initial_enabled: "p \<in> set (initial_candidates env) \<Longrightarrow> p \<in> set (providers env) \<and> enabled p"
  by (auto simp: initial_candidates_def Let_def by_headroom.reorder_set routable_now_def
      enabled_providers_def split: if_splits)

lemma initial_nonempty: "enabled_providers env \<noteq> [] \<Longrightarrow> initial_candidates env \<noteq> []"
  by (simp add: initial_candidates_def Let_def)

lemma initial_routable:
  assumes "routable_now env \<noteq> []"
  shows "set (initial_candidates env) = set (routable_now env)"
  using assms by (simp add: initial_candidates_def Let_def by_headroom.reorder_nonempty by_headroom.reorder_set)

definition passes_before :: "router_env \<Rightarrow> request \<Rightarrow> provider \<Rightarrow> bool" where
  "passes_before env rq p \<longleftrightarrow>
     pin_keep rq p \<and> compliance_keep env rq p \<and> exclude_keep rq p \<and>
     pid p \<notin> set (exclude_provider_ids rq) \<and> tenant_ok env rq p"

definition passes_after :: "request \<Rightarrow> provider \<Rightarrow> bool" where
  "passes_after rq p \<longleftrightarrow> tool_keep rq p \<and> type_keep rq p \<and> embedding_keep rq p"

definition breaker_ok :: "router_env \<Rightarrow> provider \<Rightarrow> bool" where
  "breaker_ok env p \<longleftrightarrow> fst (is_available (env_settings env) (env_now env) (pid p) (env_breaker env))"

definition guards_before :: "router_env \<Rightarrow> request \<Rightarrow> provider list \<Rightarrow> route_error + provider list" where
  "guards_before env rq ps =
     bind_result (pin_stage rq ps) (\<lambda>p1. bind_result (compliance_stage env rq p1) (\<lambda>p2.
       bind_result (exclude_one_stage rq p2) (\<lambda>p3.
       bind_result (exclude_many_stage rq p3) (tenant_stage env rq))))"

definition guards_after :: "request \<Rightarrow> provider list \<Rightarrow> route_error + provider list" where
  "guards_after rq ps =
     bind_result (tool_stage rq ps) (\<lambda>p7. bind_result (type_stage rq p7) (embedding_stage rq))"

interpretation admission: candidate_guard "guards_before env rq" "passes_before env rq" for env rq
  using before.both.candidate_guard_axioms [of rq env]
  by (simp add: guards_before_def [abs_def] passes_before_def [abs_def])

interpretation suitability: candidate_guard "guards_after rq" "passes_after rq" for rq
  using after.both.candidate_guard_axioms [of rq]
  by (simp add: guards_after_def [abs_def] passes_after_def [abs_def])

lemma guards_after_map:
  "bind_result (tool_stage rq ps) (\<lambda>p7. bind_result (type_stage rq p7) (\<lambda>p8.
     bind_result (embedding_stage rq p8) (\<lambda>p9. Inr (f p9)))) = map_result f (guards_after rq ps)"
  unfolding guards_after_def map_result_def bind_result_def by (auto split: sum.splits)

lemma candidate_pipeline_eq:
  "candidate_pipeline env rq =
     (if enabled_providers env = [] then (Inl No_providers_configured, env_breaker env)
      else case guards_before env rq (initial_candidates env) of
             Inl e \<Rightarrow> (Inl e, env_breaker env)
           | Inr p5 \<Rightarrow>
               let avail = filter (breaker_ok env) p5 in
               (if avail = [] then Inl All_unavailable
                else map_result (\<lambda>p9. capability_stage env rq (family_stage rq p9))
                       (guards_after rq (token_stage (env_now env) avail)),
                snd (breaker_filter (env_settings env) (env_now env) p5 (env_breaker env))))"
proof -
  have "fst (breaker_filter (env_settings env) (env_now env) p5 (env_breaker env)) = filter (breaker_ok env) p5" for p5
    unfolding breaker_filter_fst breaker_ok_def ..
  then show ?thesis
    unfolding candidate_pipeline_def guards_before_def Let_def guards_after_map
    by (simp add: split_beta split: sum.split)
qed

lemma pipeline_Inr:
  assumes "candidate_pipeline env rq = (Inr (ps, cross), b)"
  obtains p5 p9 where "guards_before env rq (initial_candidates env) = Inr p5" "initial_candidates env \<noteq> []"
    and "filter (breaker_ok env) p5 \<noteq> []"
    and "guards_after rq (token_stage (env_now env) (filter (breaker_ok env) p5)) = Inr p9"
    and "capability_stage env rq (family_stage rq p9) = (ps, cross)"
  using assms initial_nonempty [of env]
  by (auto simp: candidate_pipeline_eq Let_def map_result_Inr split: if_splits sum.splits)

lemma pipeline_members:
  assumes "candidate_pipeline env rq = (Inr (ps, cross), b)"
  shows "ps \<noteq> []" and "\<And>p. p \<in> set ps \<Longrightarrow>
    p \<in> set (initial_candidates env) \<and> passes_before env rq p \<and> breaker_ok env p \<and> passes_after rq p"
proof -
  from assms obtain p5 p9 where s: "guards_before env rq (initial_candidates env) = Inr p5"
    "initial_candidates env \<noteq> []" "filter (breaker_ok env) p5 \<noteq> []"
    "guards_after rq (token_stage (env_now env) (filter (breaker_ok env) p5)) = Inr p9"
    "capability_stage env rq (family_stage rq p9) = (ps, cross)"
    by (rule pipeline_Inr)
  let ?t = "token_stage (env_now env) (filter (breaker_ok env) p5)"
  have t: "?t \<noteq> []" using s(3) by (rule token.stage_nonempty)
  have ps: "ps = fst (capability_stage env rq (fst (family_stage rq p9), snd (family_stage rq p9)))"
    using s(5) by simp
  have "p9 \<noteq> []" by (rule suitability.guard_nonempty [OF t s(4)])
  then show "ps \<noteq> []" unfolding ps by (intro capability.stage_nonempty family.stage_nonempty)
  fix p assume "p \<in> set ps"
  then have "p \<in> set p9" unfolding ps by (rule family.stage_mem [OF capability.stage_mem])
  then have "p \<in> set ?t" "passes_after rq p" using suitability.guard_mem [OF t s(4)] by blast+
  then have "p \<in> set p5" "breaker_ok env p" using token.stage_mem by fastforce+
  then show "p \<in> set (initial_candidates env) \<and> passes_before env rq p \<and> breaker_ok env p \<and> passes_after rq p"
    using admission.guard_mem [OF s(2,1)] \<open>passes_after rq p\<close> by blast
qed

text \<open>A candidate with a live token that passes every guard makes the pipeline succeed.\<close>

lemma pipeline_succeeds:
  assumes "p \<in> set (initial_candidates env)" and "passes_before env rq p" and "breaker_ok env p"
    and "passes_after rq p" and "\<not> token_dead (env_now env) p"
  obtains ps cross b where "candidate_pipeline env rq = (Inr (ps, cross), b)" and "ps \<noteq> []"
proof -
  have en: "enabled_providers env \<noteq> []"
    using initial_enabled [OF assms(1)] by (auto simp: enabled_providers_def filter_empty_conv dest!: arg_cong [of _ _ set])
  let ?p5 = "filter (passes_before env rq) (initial_candidates env)"
  have p: "p \<in> set (filter (breaker_ok env) ?p5)" using assms by simp
  have p5: "guards_before env rq (initial_candidates env) = Inr ?p5"
    by (rule admission.guard_keeps [OF assms(1,2)])
  let ?a = "filter (breaker_ok env) ?p5" and ?t = "token_stage (env_now env) (filter (breaker_ok env) ?p5)"
  have "p \<in> set ?t" using p assms(5) by (auto simp: token_stage_def Let_def filter_empty_conv)
  then have "guards_after rq ?t = Inr (filter (passes_after rq) ?t)"
    using assms(4) by (rule suitability.guard_keeps)
  moreover obtain ps cross where "capability_stage env rq (family_stage rq (filter (passes_after rq) ?t)) = (ps, cross)" by fastforce
  moreover have "?a \<noteq> []" using p by (metis empty_iff list.set(1))
  ultimately have r: "candidate_pipeline env rq =
      (Inr (ps, cross), snd (breaker_filter (env_settings env) (env_now env) ?p5 (env_breaker env)))"
    using p5 en by (simp add: candidate_pipeline_eq)
  show thesis by (rule that [OF r pipeline_members(1) [OF r]])
qed

section \<open>The ranked candidates\<close>

lemma wrap_hint_Inr [result_iff]: "wrap_hint r = Inr x \<longleftrightarrow> r = Inr x"
  by (cases r) auto

lemma tool_weighting_members:
  "set (map fst (apply_tool_success_weighting xs)) \<subseteq> set (map fst xs)"
  by (auto simp: apply_tool_success_weighting_def intro: rev_image_eqI)

text \<open>A rank stage returns a non-empty list of profiles it was given.\<close>

lemma rank_profiles:
  assumes "rank_candidates_with_scores profs hint = Inr ranked" and "t \<in> set ranked"
  shows "fst t \<in> set profs"
proof (cases hint)
  case None
  with assms show ?thesis by (auto simp: rank_candidates_with_scores_def)
next
  case (Some h)
  with assms obtain xs where xs: "score_all profs h = Inr xs" "t \<in> set xs"
    by (auto simp: ranked_parts)
  then show ?thesis by (cases t) (use score_all_mem in fastforce)
qed

lemma rank_stage_Inr:
  assumes "rank_stage rq profs = Inr ranked"
  obtains raw where "rank_candidates_with_scores profs (rq_hint rq) = Inr raw" "ranked \<noteq> []"
    and "set (map fst ranked) \<subseteq> set (map fst raw)"
  using assms tool_weighting_members
  by (auto simp: rank_stage_def bind_result_Inr wrap_hint_Inr Let_def split: if_splits)

lemma rank_stage_profiles:
  assumes "rank_stage rq profs = Inr ranked"
  shows "ranked \<noteq> []" and "t \<in> set ranked \<Longrightarrow> fst t \<in> set profs"
    and "rq_hint rq = Some h \<Longrightarrow> sovereign_required h \<Longrightarrow> t \<in> set ranked \<Longrightarrow> eligible h (fst t)"
proof -
  from assms obtain raw where raw: "rank_candidates_with_scores profs (rq_hint rq) = Inr raw"
    "ranked \<noteq> []" "set (map fst ranked) \<subseteq> set (map fst raw)" by (rule rank_stage_Inr)
  then show "ranked \<noteq> []" by blast
  show "fst t \<in> set profs" if "t \<in> set ranked"
  proof -
    from that raw(3) obtain u where "u \<in> set raw" "fst u = fst t" by fastforce
    with rank_profiles [OF raw(1)] show ?thesis by metis
  qed
  show "eligible h (fst t)" if "rq_hint rq = Some h" "sovereign_required h" "t \<in> set ranked"
  proof -
    have m: "mset (map fst raw) = mset (filter (eligible h) profs)"
      using raw(1) that(1,2) by (intro rank_members) simp_all
    have "fst t \<in> set (map fst raw)" using that(3) raw(3) by auto
    then have "fst t \<in># mset (map fst raw)" by simp
    then show ?thesis unfolding m by simp
  qed
qed

lemma fit_stage_Inr:
  assumes "fit_stage rq xs = Inr fit" and "xs \<noteq> []"
  shows "fit \<noteq> []" and "set fit \<subseteq> set xs"
    and "has_images rq \<Longrightarrow> t \<in> set fit \<Longrightarrow> capability_fit rq (fst t) = None"
  using assms
  by (auto simp: fit_stage_def Let_def split: if_splits)
     (metis (mono_tags, lifting) length_filter_less nat_neq_iff filter_id_conv less_irrefl)+

section \<open>Picking\<close>

definition samples_members :: "router_env \<Rightarrow> bool" where
  "samples_members env \<longleftrightarrow>
     (\<forall>xs. 2 \<le> length xs \<longrightarrow> fst (sample2 env xs) \<in> set xs \<and> snd (sample2 env xs) \<in> set xs)"

lemma p2c_either: "p2c lat (a, b) = a \<or> p2c lat (a, b) = b"
  by (simp add: p2c_def split: option.split)

lemma top_tier_nonempty: "xs \<noteq> [] \<Longrightarrow> hd xs \<in> set (top_tier xs)"
  by (simp add: top_tier_def)

lemma low_bucket_nonempty:
  assumes "xs \<noteq> []"
  shows "low_bucket_tier m bsize xs \<noteq> []"
proof (cases "length xs \<ge> 2")
  case True
  let ?b = "\<lambda>t. utilization_bucket (m (prof_provider_id (fst t))) bsize"
  have "Min (set (map ?b xs)) \<in> set (map ?b xs)" using assms by (intro Min_in) auto
  then obtain t where "t \<in> set xs" "?b t = Min (set (map ?b xs))" by auto
  then show ?thesis using True by (auto simp: low_bucket_tier_def Let_def filter_empty_conv)
qed (use assms in \<open>simp add: low_bucket_tier_def\<close>)

lemma low_bucket_mem:
  assumes "t \<in> set (low_bucket_tier m bsize xs)"
  shows "t \<in> set xs" and "2 \<le> length xs \<Longrightarrow> u \<in> set xs \<Longrightarrow>
    utilization_bucket (m (prof_provider_id (fst t))) bsize \<le> utilization_bucket (m (prof_provider_id (fst u))) bsize"
  using assms by (auto simp: low_bucket_tier_def Let_def split: if_splits)

lemma pick_default_mem:
  assumes "xs \<noteq> []" and "samples_members env"
  shows "pick_default env m xs \<in>
    set (low_bucket_tier m (external_rotation_util_bucket_pct (env_settings env)) (top_tier xs))"
proof -
  let ?l = "low_bucket_tier m (external_rotation_util_bucket_pct (env_settings env)) (top_tier xs)"
  have "?l \<noteq> []" using top_tier_nonempty [OF assms(1)] by (intro low_bucket_nonempty) auto
  moreover have "p2c (latency_samples env) (sample2 env ?l) \<in> set ?l" if "2 \<le> length ?l"
    using assms(2) that p2c_either [of "latency_samples env" "fst (sample2 env ?l)" "snd (sample2 env ?l)"]
    unfolding samples_members_def prod.collapse by metis
  ultimately show ?thesis by (simp add: pick_default_def Let_def)
qed

lemma pick_mem:
  assumes "xs \<noteq> []" and "samples_members env"
  shows "pick env rq m xs \<in> set xs"
proof -
  have "top_tier xs \<noteq> []" using top_tier_nonempty [OF assms(1)] by auto
  then have "pick_exacto xs \<in> set (top_tier xs)" unfolding pick_exacto_def by (rule arg_min_list_mem)
  moreover have "pick_nitro lat xs \<in> set xs" for lat
    unfolding pick_nitro_def by (rule arg_min_list_mem [OF assms(1)])
  moreover have "pick_default env m xs \<in> set (top_tier xs)"
    using pick_default_mem [OF assms] by (rule low_bucket_mem(1))
  ultimately show ?thesis by (auto simp: pick_def top_tier_def)
qed

section \<open>The route\<close>

lemma lookup_Inr [result_iff]: "lookup_provider avail i = Inr p \<longleftrightarrow> find_row i avail = Some p"
  by (simp add: lookup_provider_def split: option.split)

definition pick_route :: "router_env \<Rightarrow> request \<Rightarrow> scored list \<Rightarrow> scored" where
  "pick_route env rq fit =
     (if wants_cheapest rq then pick_cheapest fit else pick env rq (fst (env_utilization env)) fit)"

definition build_route ::
  "router_env \<Rightarrow> request \<Rightarrow> bool \<Rightarrow> (string \<times> fit_reason) list \<Rightarrow> scored \<Rightarrow> provider \<Rightarrow> route_result" where
  "build_route env rq cross skipped t p =
     (if wants_cheapest rq then cheapest_route env rq skipped t p else finish_route env rq cross skipped t p)"

lemma build_route_simps [simp]:
  "rt_provider (build_route env rq cross skipped t p) = p"
  "rt_profile (build_route env rq cross skipped t p) = fst t"
  "capability_skipped (build_route env rq cross skipped t p) = skipped"
  "vision_stripped (build_route env rq cross skipped t p) \<longleftrightarrow>
     \<not> wants_cheapest rq \<and> has_images rq \<and> \<not> native_vision (fst t)"
  by (simp_all add: build_route_def cheapest_route_def finish_route_def Let_def)

lemma pick_route_mem:
  assumes "xs \<noteq> []" and "samples_members env"
  shows "pick_route env rq xs \<in> set xs"
  using pick_mem [OF assms] by (simp add: pick_route_def pick_cheapest_def arg_min_list_mem [OF assms(1)])

lemma choose_route_eq:
  "choose_route env rq avail cross ranked =
     bind_result (fit_stage rq ranked) (\<lambda>fit.
       if dry_run rq then map_result Quotes (quote_list avail fit)
       else map_result (\<lambda>p. Route (build_route env rq cross (fit_skipped rq ranked) (pick_route env rq fit) p))
              (lookup_provider avail (prof_provider_id (fst (pick_route env rq fit)))))"
  unfolding choose_route_def build_route_def pick_route_def Let_def
  by (cases "fit_stage rq ranked") simp_all

lemma select_Inr:
  assumes "select_provider env rq = (Inr x, env')"
  obtains avail cross ranked b where "candidate_pipeline env rq = (Inr (avail, cross), b)"
    and "rank_stage rq (map (\<lambda>p. retier rq p (load_profile env p)) avail) = Inr ranked"
    and "choose_route env rq avail cross ranked = Inr x"
  using assms
  by (auto simp: select_provider_def select_from_def Let_def split_beta bind_result_Inr split: if_splits)
    (metis prod.collapse)

lemma route_parts:
  assumes "select_provider env rq = (Inr (Route r), env')" and "samples_members env"
  obtains avail cross ranked fit t p b where "candidate_pipeline env rq = (Inr (avail, cross), b)"
    and "rank_stage rq (map (\<lambda>p. retier rq p (load_profile env p)) avail) = Inr ranked"
    and "fit_stage rq ranked = Inr fit" and "t = pick_route env rq fit" and "t \<in> set fit" and "t \<in> set ranked"
    and "find_row (prof_provider_id (fst t)) avail = Some p"
    and "r = build_route env rq cross (fit_skipped rq ranked) t p"
proof -
  from assms(1) obtain avail cross ranked b where s: "candidate_pipeline env rq = (Inr (avail, cross), b)"
    "rank_stage rq (map (\<lambda>p. retier rq p (load_profile env p)) avail) = Inr ranked"
    "choose_route env rq avail cross ranked = Inr (Route r)" by (rule select_Inr)
  note ne = rank_stage_profiles(1) [OF s(2)]
  from s(3) obtain fit p where f: "fit_stage rq ranked = Inr fit"
    "find_row (prof_provider_id (fst (pick_route env rq fit))) avail = Some p"
    "r = build_route env rq cross (fit_skipped rq ranked) (pick_route env rq fit) p"
    by (auto simp: choose_route_eq bind_result_Inr map_result_Inr lookup_Inr split: if_splits)
  have m: "pick_route env rq fit \<in> set fit"
    by (rule pick_route_mem [OF fit_stage_Inr(1) [OF f(1) ne] assms(2)])
  with fit_stage_Inr(2) [OF f(1) ne] have "pick_route env rq fit \<in> set ranked" by blast
  then show thesis by (rule that [OF s(1,2) f(1) refl m _ f(2,3)])
qed

text \<open>Whatever the sampling does, the provider of a route came out of the pipeline.\<close>

lemma route_from_pipeline:
  assumes "select_provider env rq = (Inr (Route r), env')"
  obtains avail cross b where "candidate_pipeline env rq = (Inr (avail, cross), b)" and "rt_provider r \<in> set avail"
proof -
  from assms obtain avail cross ranked b where s: "candidate_pipeline env rq = (Inr (avail, cross), b)"
    "choose_route env rq avail cross ranked = Inr (Route r)" by (rule select_Inr)
  from s(2) have "rt_provider r \<in> set avail"
    by (auto simp: choose_route_eq bind_result_Inr map_result_Inr lookup_Inr split: if_splits dest: find_row_mem)
  with s(1) show thesis by (rule that)
qed

lemma route_candidate:
  assumes "select_provider env rq = (Inr (Route r), env')"
  shows "rt_provider r \<in> set (initial_candidates env)" and "passes_before env rq (rt_provider r)"
    and "breaker_ok env (rt_provider r)" and "passes_after rq (rt_provider r)"
proof -
  from assms obtain avail cross b where s: "candidate_pipeline env rq = (Inr (avail, cross), b)"
    "rt_provider r \<in> set avail" by (rule route_from_pipeline)
  from pipeline_members(2) [OF s] show "rt_provider r \<in> set (initial_candidates env)"
    "passes_before env rq (rt_provider r)" "breaker_ok env (rt_provider r)" "passes_after rq (rt_provider r)" by simp_all
qed

text \<open>C1. Whatever the mode, the provider a selection returns is an enabled row of the table that
  honours every exclusion of the request: it is the pinned one if one is pinned, not the excluded
  one and not in the excluded set, owned by nobody or by the calling key, of no excluded type, not
  barred from tool requests when the request has tools, no embedding model when no model is named,
  and its breaker answers that it is available.\<close>

theorem route_respects_request:
  assumes "select_provider env rq = (Inr (Route r), env')"
  shows "rt_provider r \<in> set (providers env) \<and> enabled (rt_provider r) \<and>
    (truthy (pinned_provider_id rq) \<longrightarrow> pinned_provider_id rq = Some (pid (rt_provider r))) \<and>
    (truthy (exclude_provider_id rq) \<longrightarrow> exclude_provider_id rq \<noteq> Some (pid (rt_provider r))) \<and>
    pid (rt_provider r) \<notin> set (exclude_provider_ids rq) \<and>
    (truthy (owned_by_key_id (rt_provider r)) \<longrightarrow> owned_by_key_id (rt_provider r) = effective_key env rq) \<and>
    provider_type (rt_provider r) \<notin> set (excluded_provider_types rq) \<and>
    (has_tools rq \<longrightarrow> \<not> exclude_from_tool_requests (rt_provider r)) \<and>
    (\<not> truthy (model_override rq) \<longrightarrow> \<not> is_embedding_model (or_else (default_model (rt_provider r)) [])) \<and>
    fst (is_available (env_settings env) (env_now env) (pid (rt_provider r)) (env_breaker env))"
  using route_candidate [OF assms] initial_enabled [of "rt_provider r" env]
  by (simp add: passes_before_def passes_after_def breaker_ok_def pin_keep_def exclude_keep_def
      tenant_ok_def type_keep_def tool_keep_def embedding_keep_def disj_imp)

text \<open>C25. The compliance gate holds of the chosen provider: with an explicit blocklist neither its
  owner nor the family of its default model is on the list; without one, a request with a key is
  only served by a provider the key's effective policy clears.\<close>

theorem route_respects_compliance:
  assumes "select_provider env rq = (Inr (Route r), env')"
  shows "(case rq_blocked_companies rq of
      Some bl \<Rightarrow> \<forall>c \<in> set bl. (c \<noteq> [] \<longrightarrow> owner_company (rt_provider r) \<noteq> Some c) \<and>
        c \<notin> set (model_family_companies (default_model (rt_provider r)))
    | None \<Rightarrow> truthy (api_key_id rq) \<longrightarrow>
        clears (get_effective_policy (env_json env) (sys_policy env) (key_policies env) (api_key_id rq))
          (model_override rq) (rt_provider r))"
proof -
  have k: "compliance_keep env rq (rt_provider r)"
    using route_candidate(2) [OF assms] by (simp add: passes_before_def)
  show ?thesis
  proof (cases "rq_blocked_companies rq")
    case None
    with k show ?thesis using allowed_clears by (simp add: compliance_keep_def)
  next
    case (Some bl)
    with k have "clears (empty_policy \<lparr>blocked_companies := bl\<rparr>) (model_override rq) (rt_provider r)"
      using allowed_clears by (simp add: compliance_keep_def)
    with Some show ?thesis by (auto simp: clears_def)
  qed
qed

text \<open>Capacity: as long as one enabled provider is neither marked at capacity nor, for a
  node-local session, logged out on this node, the chosen provider is such a one.\<close>

theorem capacity_respected:
  assumes "select_provider env rq = (Inr (Route r), env')"
    and "p \<in> set (providers env)" and "enabled p" and "\<not> is_currently_at_capacity (env_now env) p"
    and "node_may_route env p"
  shows "\<not> is_currently_at_capacity (env_now env) (rt_provider r) \<and> node_may_route env (rt_provider r)"
proof -
  have "p \<in> set (routable_now env)" using assms(2-5) by (simp add: routable_now_def enabled_providers_def)
  then have "set (initial_candidates env) = set (routable_now env)" by (intro initial_routable) auto
  then have "rt_provider r \<in> set (routable_now env)" using route_candidate(1) [OF assms(1)] by simp
  then show ?thesis by (simp add: routable_now_def)
qed

lemma profile_frame: "prof_provider_id (retier rq p (load_profile env p)) = pid p"
proof -
  have "prof_provider_id (load_profile env p) = pid p"
    by (simp add: load_profile_def base_profile_def stored_profile_def Let_def infer_capability_profile_def
        infer_frame new_profile_def split: option.split)
  then show ?thesis by (simp add: retier_def split: option.split)
qed


text \<open>No route answers an image request blind: the chosen profile has native vision, so the
  flag that says the images were stripped is never set.\<close>

theorem images_never_stripped:
  assumes "select_provider env rq = (Inr (Route r), env')" and "samples_members env"
  shows "(has_images rq \<longrightarrow> native_vision (rt_profile r)) \<and> \<not> vision_stripped r"
proof -
  from assms obtain avail cross ranked fit t p b where s:
    "rank_stage rq (map (\<lambda>p. retier rq p (load_profile env p)) avail) = Inr ranked"
    "fit_stage rq ranked = Inr fit" "t \<in> set fit" "r = build_route env rq cross (fit_skipped rq ranked) t p"
    by (rule route_parts)
  have "native_vision (fst t)" if "has_images rq"
    using fit_stage_Inr(3) [OF s(2) rank_stage_profiles(1) [OF s(1)] that s(3)] that
    by (simp add: capability_fit_def split: if_splits)
  with s(4) show ?thesis by simp
qed

text \<open>How two candidates compare by latency: one with samples before one without, then the smaller
  estimate, then the better priority; the two sampled candidates of the default mode are not compared by
  priority when both have samples.\<close>

definition no_slower :: "latency_state \<Rightarrow> scored \<Rightarrow> scored \<Rightarrow> bool" where
  "no_slower lat w u =
     (case (peak_ewma lat (prof_provider_id (fst w)), peak_ewma lat (prof_provider_id (fst u))) of
        (Some a, Some b) \<Rightarrow> a < b \<or> a = b \<and> prof_priority (fst w) \<le> prof_priority (fst u)
      | (Some _, None) \<Rightarrow> True
      | (None, Some _) \<Rightarrow> False
      | (None, None) \<Rightarrow> prof_priority (fst w) \<le> prof_priority (fst u))"

definition not_behind :: "latency_state \<Rightarrow> scored \<Rightarrow> scored \<Rightarrow> bool" where
  "not_behind lat w u =
     (case (peak_ewma lat (prof_provider_id (fst w)), peak_ewma lat (prof_provider_id (fst u))) of
        (Some a, Some b) \<Rightarrow> a \<le> b
      | (Some _, None) \<Rightarrow> True
      | (None, Some _) \<Rightarrow> False
      | (None, None) \<Rightarrow> prof_priority (fst w) \<le> prof_priority (fst u))"

text \<open>The candidates the default mode samples from: less than one point behind the first and, among those, in
  the lowest utilisation bucket.\<close>

definition near_first :: "scored list \<Rightarrow> scored \<Rightarrow> bool" where
  "near_first xs t \<longleftrightarrow> score_of (hd xs) - score_of t < 1"

definition best_tier :: "router_env \<Rightarrow> scored list \<Rightarrow> scored list" where
  "best_tier env xs =
     (let bucket = (\<lambda>t. utilization_bucket (fst (env_utilization env) (prof_provider_id (fst t)))
                          (external_rotation_util_bucket_pct (env_settings env)))
      in filter (\<lambda>t. near_first xs t \<and> list_all (\<lambda>v. near_first xs v \<longrightarrow> bucket t \<le> bucket v) xs) xs)"

lemma low_bucket_least:
  fixes m bsize
  defines "bucket \<equiv> \<lambda>t. utilization_bucket (m (prof_provider_id (fst t))) bsize"
  shows "low_bucket_tier m bsize xs = filter (\<lambda>t. \<forall>v \<in> set xs. bucket t \<le> bucket v) xs"
proof (cases "2 \<le> length xs")
  case True
  have "bucket t = Min (bucket ` set xs) \<longleftrightarrow> (\<forall>v \<in> set xs. bucket t \<le> bucket v)" if "t \<in> set xs" for t
  proof
    show "\<forall>v \<in> set xs. bucket t \<le> bucket v \<Longrightarrow> bucket t = Min (bucket ` set xs)"
      using that by (intro Min_eqI [symmetric]) auto
  qed simp
  then show ?thesis using True unfolding low_bucket_tier_def bucket_def Let_def by (auto intro!: filter_cong)
next
  case False
  then have "xs = [] \<or> (\<exists>t. xs = [t])" by (cases xs; cases "tl xs") auto
  then show ?thesis by (auto simp: low_bucket_tier_def)
qed

lemma best_tier_eq:
  "low_bucket_tier (fst (env_utilization env)) (external_rotation_util_bucket_pct (env_settings env)) (top_tier xs) = best_tier env xs"
  unfolding low_bucket_least top_tier_def best_tier_def Let_def near_first_def filter_filter
  by (rule filter_cong) (simp_all only: list_all_iff set_filter mem_Collect_eq, blast)

lemma p2c_not_behind: "not_behind lat (p2c lat (a, b)) a \<and> not_behind lat (p2c lat (a, b)) b"
  by (auto simp: p2c_def not_behind_def split: option.splits)

text \<open>C26. How the winner compares with every other candidate, in each mode. Cheapest first: no candidate is in a
  cheaper tier, nor in the same tier with a better priority. Fastest first: none with latency samples is faster,
  ties going to the better priority, and one without samples wins only when none has any. Exact: the
  winner is less than one point behind the first, with the best priority among those. Default: the
  winner is in the best tier, and when that has two or more it is one of the two sampled and no
  slower than either.\<close>

theorem pick_optimal:
  fixes env rq xs
  assumes "xs \<noteq> []" and "samples_members env" and "u \<in> set xs"
  defines "w \<equiv> pick_route env rq xs" and "cost \<equiv> \<lambda>t. get_or COST_RANK (cost_tier (fst t)) 1"
  shows "(wants_cheapest rq \<longrightarrow>
       cost w < cost u \<or> cost w = cost u \<and> prof_priority (fst w) \<le> prof_priority (fst u)) \<and>
    (\<not> wants_cheapest rq \<and> rq_sort_mode rq = Some ''nitro'' \<longrightarrow> no_slower (latency_samples env) w u) \<and>
    (\<not> wants_cheapest rq \<and> rq_sort_mode rq = Some ''exacto'' \<longrightarrow>
       near_first xs w \<and> (near_first xs u \<longrightarrow> prof_priority (fst w) \<le> prof_priority (fst u))) \<and>
    (\<not> wants_cheapest rq \<and> rq_sort_mode rq \<notin> {Some ''nitro'', Some ''exacto''} \<longrightarrow>
       w \<in> set (best_tier env xs) \<and>
       (2 \<le> length (best_tier env xs) \<longrightarrow>
          (case sample2 env (best_tier env xs) of (a, b) \<Rightarrow>
             w \<in> {a, b} \<and> not_behind (latency_samples env) w a \<and> not_behind (latency_samples env) w b)))"
    (is "(?c \<longrightarrow> ?C) \<and> (\<not> ?c \<and> ?n \<longrightarrow> ?N) \<and> (\<not> ?c \<and> ?e \<longrightarrow> ?E) \<and> (\<not> ?c \<and> ?d \<longrightarrow> ?D)")
proof (intro conjI impI; (elim conjE)?)
  assume ?c
  then have "w = pick_cheapest xs" by (simp add: w_def pick_route_def)
  then have "(cost w, prof_priority (fst w)) \<le> (cost u, prof_priority (fst u))"
    unfolding cost_def pick_cheapest_def by (simp only: arg_min_list_least [OF assms(3), of "\<lambda>t. (get_or COST_RANK (cost_tier (fst t)) 1, prof_priority (fst t))"])
  then show ?C by (simp only: less_eq_prod_simp) linarith
next
  assume "\<not> ?c" ?n
  then have w: "w = pick_nitro (latency_samples env) xs" by (simp add: w_def pick_route_def pick_def)
  let ?key = "\<lambda>t. case peak_ewma (latency_samples env) (prof_provider_id (fst t)) of
      Some e \<Rightarrow> (0 :: int, e, prof_priority (fst t)) | None \<Rightarrow> (1, 0, prof_priority (fst t))"
  have "?key w \<le> ?key u" unfolding w pick_nitro_def by (rule arg_min_list_least [OF assms(3)])
  then show ?N by (auto simp: no_slower_def less_eq_prod_def split: option.splits)
next
  assume "\<not> ?c" ?e
  then have w: "w = pick_exacto xs" by (simp add: w_def pick_route_def pick_def)
  have "w \<in> set (top_tier xs)"
    unfolding w pick_exacto_def using top_tier_nonempty [OF assms(1)] by (intro arg_min_list_mem) auto
  then show "near_first xs w" by (simp add: top_tier_def near_first_def)
  assume "near_first xs u"
  then have "u \<in> set (top_tier xs)" using assms(3) by (simp add: top_tier_def near_first_def)
  then show "prof_priority (fst w) \<le> prof_priority (fst u)"
    unfolding w pick_exacto_def by (rule arg_min_list_least)
next
  assume "\<not> ?c" ?d
  then have w: "w = pick_default env (fst (env_utilization env)) xs" by (simp add: w_def pick_route_def pick_def)
  show "w \<in> set (best_tier env xs)" unfolding w best_tier_eq [symmetric] by (rule pick_default_mem [OF assms(1,2)])
  assume "2 \<le> length (best_tier env xs)"
  then have "w = p2c (latency_samples env) (sample2 env (best_tier env xs))"
    unfolding w pick_default_def by (simp add: best_tier_eq Let_def)
  then show "case sample2 env (best_tier env xs) of (a, b) \<Rightarrow>
      w \<in> {a, b} \<and> not_behind (latency_samples env) w a \<and> not_behind (latency_samples env) w b"
    using p2c_either p2c_not_behind by (auto split: prod.split)
qed

text \<open>The exact mode is not exact: of two candidates less than a point apart the one with the lower score, and
  the lower safety tier, wins by its priority.\<close>

lemma exacto_not_best:
  fixes s :: rat
  assumes "prof_priority p < prof_priority q" and "s < s'" and "s' - s < 1"
  shows "pick_exacto [(q, u, s'), (p, v, s)] = (p, v, s)"
  using assms by (simp add: pick_exacto_def top_tier_def score_of_def)

section \<open>When a route exists\<close>

lemma sort_key_Nil: "sort_key f xs = [] \<longleftrightarrow> xs = []"
  by (metis length_0_conv length_sort)

lemma find_row_exists: "q \<in> set ps \<Longrightarrow> \<exists>p. find_row (pid q) ps = Some p"
  by (induction ps) (auto simp: find_row_def)

text \<open>C4. A plain text request without routing hint always gets a route when some enabled
  provider is routable on this node, has a live token and passes the request's filters and its
  breaker: no later stage, neither the family preference nor the capability gate, takes the
  last candidate away.\<close>

theorem route_exists:
  assumes "p \<in> set (routable_now env)" and "passes_before env rq p" and "breaker_ok env p"
    and "passes_after rq p" and "\<not> token_dead (env_now env) p" and "samples_members env"
    and "rq_hint rq = None" and "\<not> has_tools rq" and "\<not> has_images rq" and "\<not> dry_run rq"
  shows "\<exists>r env'. select_provider env rq = (Inr (Route r), env')"
proof -
  have "p \<in> set (initial_candidates env)" using assms(1) initial_routable [of env] by fastforce
  then obtain avail cross b where pl: "candidate_pipeline env rq = (Inr (avail, cross), b)" "avail \<noteq> []"
    using assms(2-5) by (rule pipeline_succeeds)
  let ?profs = "map (\<lambda>p. retier rq p (load_profile env p)) avail"
  obtain ranked where ranked: "rank_stage rq ?profs = Inr ranked"
    using assms(7,8) pl(2) by (simp add: rank_stage_def rank_candidates_with_scores_def sort_key_Nil)
  note ne = rank_stage_profiles(1) [OF ranked]
  have "is_ok (fit_stage rq ranked)" using assms(9) by (simp add: fit_stage_def Let_def)
  then obtain fit where fit: "fit_stage rq ranked = Inr fit" by (auto simp: is_ok_iff)
  let ?t = "pick_route env rq fit"
  have "?t \<in> set ranked"
    using pick_route_mem [OF fit_stage_Inr(1) [OF fit ne] assms(6)] fit_stage_Inr(2) [OF fit ne] by blast
  from rank_stage_profiles(2) [OF ranked this] obtain q where "q \<in> set avail" "prof_provider_id (fst ?t) = pid q"
    using profile_frame by auto
  with find_row_exists obtain p' where "find_row (prof_provider_id (fst ?t)) avail = Some p'" by metis
  then have "choose_route env rq avail cross ranked = Inr (Route (build_route env rq cross (fit_skipped rq ranked) ?t p'))"
    using fit assms(10) by (simp add: choose_route_eq lookup_provider_def)
  moreover have "enabled_providers env \<noteq> []" using assms(1) by (auto simp: routable_now_def)
  ultimately show ?thesis using pl(1) ranked by (simp add: select_provider_def select_from_def)
qed

section \<open>What a selection changes\<close>

text \<open>A selection changes nothing but the breaker's state and the utilisation cache, and it
  does not change which providers the breaker calls available: asking moves an open breaker whose
  wait is over to half-open, and the answers stay.\<close>

theorem selection_frame:
  assumes "select_provider env rq = (res, env')"
  shows "env' = env \<lparr>env_breaker := env_breaker env', util_cache := util_cache env'\<rparr> \<and>
    (\<forall>i. fst (is_available (env_settings env) (env_now env) i (env_breaker env')) =
         fst (is_available (env_settings env) (env_now env) i (env_breaker env)))"
proof -
  obtain r b where p: "candidate_pipeline env rq = (r, b)" by fastforce
  have "fst (is_available (env_settings env) (env_now env) i b) =
      fst (is_available (env_settings env) (env_now env) i (env_breaker env))" for i
    using p by (auto simp: candidate_pipeline_eq Let_def breaker_filter_stable split: if_splits sum.splits)
  moreover have "env' = env \<or> env' = env \<lparr>env_breaker := b, util_cache := snd (env_utilization env)\<rparr>"
    using assms p by (simp add: select_provider_def split: if_splits)
  ultimately show ?thesis by (elim disjE) simp_all
qed

section \<open>Where the code departs from its comments\<close>

text \<open>Weighting a negative score by a success rate turns the preference around: of two
  candidates with the same negative score the one that fails tool calls more often comes first.\<close>

theorem tool_weighting_inverts:
  assumes "tool_call_success_rate p = Some a" and "tool_call_success_rate q = Some b"
    and "s < 0" and "TOOL_SUCCESS_HARD_SKIP_THRESHOLD \<le> b" and "b < a"
  shows "apply_tool_success_weighting [(p, u, s), (q, v, s)] = [(q, v, s * b), (p, u, s * a)]"
proof -
  have "s * a < s * b" using assms(3,5) by simp
  then show ?thesis
    using assms
    by (simp add: apply_tool_success_weighting_def tool_weighted_def score_of_def sort_key_def insort_key.simps)
qed

definition prober_profile :: "string \<Rightarrow> rat \<Rightarrow> capability_profile" where
  "prober_profile i r = (new_profile i ''openai'' ''gpt-4o'' 100) \<lparr>over_daily_budget := True, tool_call_success_rate := Some r\<rparr>"

theorem tool_weighting_inverts_witness:
  "apply_tool_success_weighting [(prober_profile ''good'' 1, [], - 50), (prober_profile ''bad'' (1 / 2), [], - 50)] =
     [(prober_profile ''bad'' (1 / 2), [], - 25), (prober_profile ''good'' 1, [], - 50)]"
  using tool_weighting_inverts [of "prober_profile ''good'' 1" 1 "prober_profile ''bad'' (1 / 2)" "1 / 2" "- 50" "[]" "[]"]
  by (simp add: prober_profile_def TOOL_SUCCESS_HARD_SKIP_THRESHOLD_def)

text \<open>The cheapest-first path never discloses a fallback across model families and always
  forwards the requested model name, whatever family the chosen provider is of; every other path
  that fell back replaces the model by the provider's own, marks the model as unmet and reports
  what was requested.\<close>

theorem fallback_disclosure:
  assumes "select_provider env rq = (Inr (Route r), env')" and "samples_members env"
  shows "(if wants_cheapest rq
      then \<not> cross_family_fallback r \<and> litellm_model r = build_litellm_model (rt_provider r) (model_override rq)
      else (cross_family_fallback r \<longrightarrow> litellm_model r = build_litellm_model (rt_provider r) None \<and>
              ''model'' \<in> set (unmet_hints r) \<and> requested_model r = model_override rq \<and>
              served_model_native r = default_model (rt_provider r)) \<and>
           (\<not> cross_family_fallback r \<longrightarrow> litellm_model r = build_litellm_model (rt_provider r) (model_override rq)))"
proof -
  from assms obtain cross ranked t p where "r = build_route env rq cross (fit_skipped rq ranked) t p"
    by (rule route_parts)
  then show ?thesis
    by (cases "wants_cheapest rq") (auto simp: build_route_def cheapest_route_def finish_route_def Let_def)
qed

section \<open>A concrete selection\<close>

definition demo_env :: router_env where
  "demo_env =
     \<lparr>env_settings = default_settings, env_now = 1000, env_monotonic = 1000, env_midnight = 0,
      providers =
        [(new_provider ''a'' ''A'' ''x'' (Some ''m'') 1) \<lparr>auto_skip_until := Some 5000\<rparr>,
         new_provider ''b'' ''B'' ''y'' (Some ''llava'') 1,
         (new_provider ''c'' ''C'' ''cursor-oauth'' (Some ''gpt-4o'') 20) \<lparr>owner_company := Some ''cursor''\<rparr>],
      capabilities = [], metrics = [], snapshots = [], node_states = [], key_policies = [],
      sys_policy = demo_system, env_json = demo_json, current_api_key_id = None,
      latency_samples = init_latency, env_breaker = init_breaker, util_cache = None,
      max_output_for = (\<lambda>_. None), set_order = id, sample2 = (\<lambda>xs. (hd xs, last xs))\<rparr>"

definition image_request :: request where
  "image_request = new_request
     \<lparr>has_images := True,
      rq_hint := Some \<lparr>raw = ''exclude=q;require'',
        dimensions = [\<lparr>dim_key = ''exclude'', dim_value = ''q'', required = True, sovereign = False\<rparr>]\<rparr>\<rparr>"

lemma demo_samples: "samples_members demo_env"
proof -
  have "hd xs \<in> set xs \<and> last xs \<in> set xs" if "2 \<le> length xs" for xs :: "scored list"
    using that by (cases xs) auto
  then show ?thesis by (simp add: samples_members_def demo_env_def)
qed

text \<open>The image request is served by provider \<open>b\<close>.\<close>

lemma demo_image_route:
  obtains r env' where "select_provider demo_env image_request = (Inr (Route r), env')" "pid (rt_provider r) = ''b''"
proof -
  have "(case fst (select_provider demo_env image_request) of
      Inr (Route r) \<Rightarrow> pid (rt_provider r) = ''b'' | _ \<Rightarrow> False)" by code_simp
  then show thesis
    using that by (cases "select_provider demo_env image_request") (auto split: sum.splits selection.splits)
qed

theorem route_respects_request_witness:
  "\<exists>r env'. select_provider demo_env image_request = (Inr (Route r), env') \<and>
     rt_provider r \<in> set (providers demo_env) \<and> enabled (rt_provider r)"
proof -
  obtain r env' where r: "select_provider demo_env image_request = (Inr (Route r), env')" by (rule demo_image_route)
  from route_respects_request [OF r] r show ?thesis by blast
qed

theorem capacity_respected_witness:
  "\<exists>r env'. select_provider demo_env image_request = (Inr (Route r), env') \<and>
     \<not> is_currently_at_capacity (env_now demo_env) (rt_provider r)"
proof -
  obtain r env' where r: "select_provider demo_env image_request = (Inr (Route r), env')" by (rule demo_image_route)
  let ?b = "providers demo_env ! 1"
  have b: "?b \<in> set (providers demo_env)" "enabled ?b" "\<not> is_currently_at_capacity (env_now demo_env) ?b"
    "node_may_route demo_env ?b" by code_simp+
  from capacity_respected [OF r b] r show ?thesis by blast
qed


theorem images_never_stripped_witness:
  "\<exists>r env'. select_provider demo_env image_request = (Inr (Route r), env') \<and> native_vision (rt_profile r)"
proof -
  obtain r env' where r: "select_provider demo_env image_request = (Inr (Route r), env')" by (rule demo_image_route)
  have "has_images image_request" by (simp add: image_request_def)
  with images_never_stripped [OF r demo_samples] r show ?thesis by blast
qed

theorem fallback_disclosure_witness:
  "\<exists>r env'. select_provider demo_env image_request = (Inr (Route r), env') \<and>
     (cross_family_fallback r \<or>
      litellm_model r = build_litellm_model (rt_provider r) (model_override image_request))"
proof -
  obtain r env' where r: "select_provider demo_env image_request = (Inr (Route r), env')" by (rule demo_image_route)
  have "\<not> wants_cheapest image_request" by (simp add: image_request_def new_request_def wants_cheapest_def)
  with fallback_disclosure [OF r demo_samples] r show ?thesis by auto
qed

theorem selection_frame_witness:
  "providers (snd (select_provider demo_env new_request)) = providers demo_env"
proof -
  obtain res env' where r: "select_provider demo_env new_request = (res, env')" by fastforce
  from selection_frame [OF r] have "env' = demo_env \<lparr>env_breaker := env_breaker env', util_cache := util_cache env'\<rparr>" ..
  then have "providers env' = providers demo_env" by (metis router_env.select_convs(5) router_env.surjective router_env.update_convs(15,16))
  with r show ?thesis by simp
qed

theorem pick_optimal_witness:
  "pick_route demo_env new_request
     [(new_profile ''a'' ''x'' ''m'' 1, [], 3), (new_profile ''b'' ''x'' ''m'' 1, [], 1)]
   \<in> set (best_tier demo_env [(new_profile ''a'' ''x'' ''m'' 1, [], 3), (new_profile ''b'' ''x'' ''m'' 1, [], 1)])"
proof -
  let ?xs = "[(new_profile ''a'' ''x'' ''m'' 1, [], 3), (new_profile ''b'' ''x'' ''m'' 1, [], 1)] :: scored list"
  have "rq_sort_mode new_request = None" "\<not> wants_cheapest new_request" by (simp_all add: new_request_def wants_cheapest_def)
  then show ?thesis using pick_optimal [of ?xs demo_env "hd ?xs" new_request] demo_samples by simp
qed

theorem route_exists_witness:
  "\<exists>r env'. select_provider demo_env new_request = (Inr (Route r), env')"
proof -
  let ?b = "providers demo_env ! 1"
  have b: "?b \<in> set (routable_now demo_env)" "passes_before demo_env new_request ?b" "breaker_ok demo_env ?b"
    "passes_after new_request ?b" "\<not> token_dead (env_now demo_env) ?b" by code_simp+
  have q: "rq_hint new_request = None" "\<not> has_tools new_request" "\<not> has_images new_request" "\<not> dry_run new_request"
    by (simp_all add: new_request_def)
  from route_exists [OF b demo_samples q] show ?thesis .
qed

text \<open>A request for a model of a blocked company, with a relay among the candidates.\<close>

definition relay_request :: request where
  "relay_request = new_request
     \<lparr>model_override := Some ''claude-x'', rq_blocked_companies := Some [''anthropic'']\<rparr>"

lemma relay_route:
  obtains r env' where "select_provider demo_env relay_request = (Inr (Route r), env')"
    "litellm_model r = ''openai/claude-x''" "\<not> compliance_substituted r"
proof -
  have "(case fst (select_provider demo_env relay_request) of
      Inr (Route r) \<Rightarrow> litellm_model r = ''openai/claude-x'' \<and> \<not> compliance_substituted r | _ \<Rightarrow> False)" by code_simp
  then show thesis
    using that by (cases "select_provider demo_env relay_request") (auto split: sum.splits selection.splits)
qed

text \<open>The compliance gate looks at a provider's owner and default model only: with Anthropic
  blocked, a request for a Claude model is forwarded under that very name to a relay whose default
  model is another company's, without substitution or disclosure.\<close>

theorem relay_serves_blocked_family:
  "\<exists>r env'. rq_blocked_companies relay_request = Some [''anthropic''] \<and>
     model_family_to_company (model_override relay_request) = Some ''anthropic'' \<and>
     select_provider demo_env relay_request = (Inr (Route r), env') \<and>
     litellm_model r = ''openai/claude-x'' \<and> \<not> compliance_substituted r"
proof -
  have "model_family_to_company (model_override relay_request) = Some ''anthropic''" by code_simp
  moreover have "rq_blocked_companies relay_request = Some [''anthropic'']" by (simp add: relay_request_def)
  ultimately show ?thesis using relay_route by blast
qed

theorem route_respects_compliance_witness:
  "\<exists>r env'. select_provider demo_env relay_request = (Inr (Route r), env') \<and>
     owner_company (rt_provider r) \<noteq> Some ''anthropic''"
proof -
  obtain r env' where r: "select_provider demo_env relay_request = (Inr (Route r), env')" by (rule relay_route)
  have "rq_blocked_companies relay_request = Some [''anthropic'']" by (simp add: relay_request_def)
  with route_respects_compliance [OF r] have "owner_company (rt_provider r) \<noteq> Some ''anthropic''" by simp
  with r show ?thesis by blast
qed

end
