(* ===== verification/Fallback.thy ===== *)
theory Fallback
  imports Routing
begin

text \<open>
  Ordered fallback of non-streaming requests (\<^verbatim>\<open>app/routing/fallback.py\<close>): when a call on the
  chosen provider fails, the router is asked for the best provider not tried yet, up to a cap. The
  call itself is a parameter; it may raise and may change the world, which is the router's
  environment together with whatever else the caller keeps.
\<close>

section \<open>The chain\<close>

record py_exception =
  exc_type :: string
  exc_msg :: string

definition SAME_PROVIDER_RETRIABLE_PREFIXES :: "string list" where
  "SAME_PROVIDER_RETRIABLE_PREFIXES =
     [''litellm.Timeout'', ''litellm.APIConnectionError'', ''litellm.InternalServerError'', ''litellm.RateLimitError'']"

definition is_same_provider_retriable :: "py_exception \<Rightarrow> bool" where
  "is_same_provider_retriable e = any_in SAME_PROVIDER_RETRIABLE_PREFIXES (exc_msg e)"

type_synonym fallback_chain = "string list"

definition chain_add :: "string \<Rightarrow> string \<Rightarrow> fallback_chain \<Rightarrow> fallback_chain" where
  "chain_add name outcome chain = chain @ [name @ '':'' @ outcome]"

definition as_header :: "fallback_chain \<Rightarrow> string" where
  "as_header chain = join_with '','' chain"

definition OAUTH_NOT_VIA_LITELLM :: "string list" where
  "OAUTH_NOT_VIA_LITELLM = [''claude-oauth'', ''ChatGPT-oauth-plan'']"

definition oauth_route :: "route_result \<Rightarrow> bool" where
  "oauth_route r = (provider_type (rt_provider r) \<in> set OAUTH_NOT_VIA_LITELLM)"

section \<open>The next candidate\<close>

datatype next_error =
    Pinned_no_fallback
  | No_untried_candidate
  | Returned_excluded ident
  | Selection_error route_error
  | Not_a_route

text \<open>The arguments the chain passes on; every other argument of the selection has its default.\<close>

record fallback_args =
  fa_hint :: "lmrh_hint option"
  fa_has_tools :: bool
  fa_has_images :: bool
  fa_key_type :: string
  fa_pinned_provider_id :: "ident option"
  fa_model_override :: "string option"

definition fallback_request :: "fallback_args \<Rightarrow> ident list \<Rightarrow> request" where
  "fallback_request a excl =
     new_request \<lparr>rq_hint := fa_hint a, has_tools := fa_has_tools a, has_images := fa_has_images a,
       key_type := fa_key_type a, model_override := fa_model_override a, exclude_provider_ids := excl\<rparr>"

lemma route_in_table:
  assumes "select_provider env rq = (Inr (Route r), env')"
  shows "pid (rt_provider r) \<in> pid ` set (providers env)" and "pid (rt_provider r) \<notin> set (exclude_provider_ids rq)"
  using route_candidate(1,2) [OF assms] initial_enabled by (auto simp: passes_before_def)

lemma select_keeps_providers: "select_provider env rq = (res, env') \<Longrightarrow> providers env' = providers env"
  by (auto simp: select_provider_def Let_def split_beta split: if_splits)

text \<open>Every turn of the loop excludes a provider that was not excluded before.\<close>

function next_loop ::
  "router_env \<Rightarrow> fallback_args \<Rightarrow> ident list \<Rightarrow> (next_error + route_result) \<times> router_env" where
  "next_loop env a excl =
     (case select_provider env (fallback_request a excl) of
        (Inl e, env') \<Rightarrow> (Inl (if is_runtime_error e then No_untried_candidate else Selection_error e), env')
      | (Inr (Quotes qs), env') \<Rightarrow> (Inl Not_a_route, env')
      | (Inr (Route r), env') \<Rightarrow>
          if pid (rt_provider r) \<in> set excl then (Inl (Returned_excluded (pid (rt_provider r))), env')
          else if oauth_route r then next_loop env' a (excl @ [pid (rt_provider r)])
          else (Inr r, env'))"
  by pat_completeness auto
termination
proof (relation "measure (\<lambda>(env, a, excl). card (pid ` set (providers env) - set excl))", goal_cases)
  case (2 env a excl x y z r)
  have s: "select_provider env (fallback_request a excl) = (Inr (Route r), y)" using 2 by simp
  have "pid (rt_provider r) \<in> pid ` set (providers env) - set excl"
    using route_in_table(1) [OF s] 2(4) by simp
  moreover have "providers y = providers env" by (rule select_keeps_providers [OF s])
  moreover have "pid ` set (providers env) - set (excl @ [pid (rt_provider r)]) =
      (pid ` set (providers env) - set excl) - {pid (rt_provider r)}" by auto
  ultimately show ?case
    using card_Diff1_less [of "pid ` set (providers env) - set excl" "pid (rt_provider r)"] by simp
qed simp

definition next_route ::
  "router_env \<Rightarrow> fallback_args \<Rightarrow> ident list \<Rightarrow> (next_error + route_result) \<times> router_env" where
  "next_route env a tried =
     (if truthy (fa_pinned_provider_id a) then (Inl Pinned_no_fallback, env)
      else if tried = [] then (Inl No_untried_candidate, env)
      else next_loop env a tried)"

lemma next_loop_fresh:
  "next_loop env a excl = (Inr r, env') \<Longrightarrow> pid (rt_provider r) \<notin> set excl \<and> \<not> oauth_route r"
proof (induction env a excl rule: next_loop.induct)
  case (1 env a excl)
  obtain res env1 where s: "select_provider env (fallback_request a excl) = (res, env1)" by fastforce
  show ?case
  proof (cases res)
    case (Inr sel)
    with 1 s show ?thesis
      by (cases sel) (auto simp del: next_loop.simps simp: next_loop.simps [of env a excl] split: if_splits)
  qed (use 1 s in simp)
qed

lemma next_route_fresh:
  assumes "next_route env a tried = (Inr r, env')"
  shows "pid (rt_provider r) \<notin> set tried" and "\<not> oauth_route r"
  using assms next_loop_fresh by (auto simp: next_route_def simp del: next_loop.simps split: if_splits)

section \<open>The loop over providers\<close>

type_synonym ('r, 'w) call_fn = "route_result \<Rightarrow> router_env \<times> 'w \<Rightarrow> (py_exception + 'r) \<times> router_env \<times> 'w"

datatype chain_error = Call_failed py_exception | Chain_exhausted

definition failure_entry :: "py_exception \<Rightarrow> string" where
  "failure_entry e = (if is_same_provider_retriable e then ''retry-exhausted'' else ''err:'' @ exc_type e)"

function fallback_loop ::
  "('r, 'w) call_fn \<Rightarrow> fallback_args \<Rightarrow> int \<Rightarrow> ident list \<Rightarrow> fallback_chain \<Rightarrow> route_result \<Rightarrow>
   router_env \<times> 'w \<Rightarrow> (chain_error + 'r \<times> route_result \<times> fallback_chain) \<times> router_env \<times> 'w" where
  "fallback_loop call a cap tried chain current world =
     (let tried' = List.insert (pid (rt_provider current)) tried; name = pname (rt_provider current) in
      case call current world of
        (Inr x, world') \<Rightarrow> (Inr (x, current, chain_add name ''ok'' chain), world')
      | (Inl e, world') \<Rightarrow>
          if cap \<le> int (length tried') then (Inl (Call_failed e), world')
          else (case next_route (fst world') a tried' of
                  (Inl _, env') \<Rightarrow> (Inl (Call_failed e), (env', snd world'))
                | (Inr r, env') \<Rightarrow>
                    fallback_loop call a cap tried' (chain_add name (failure_entry e) chain) r (env', snd world')))"
  by pat_completeness auto
termination
proof (relation "measure (\<lambda>(call, a, cap, tried, chain, r, w). nat (cap - int (length (List.insert (pid (rt_provider r)) tried))))",
    goal_cases)
  case (2 call a cap tried chain current world tried' name res world' e nxt env' r)
  then have "next_route (fst world') a tried' = (Inr r, env')" by simp
  then have "pid (rt_provider r) \<notin> set tried'" by (rule next_route_fresh(1))
  then have "length (List.insert (pid (rt_provider r)) tried') = Suc (length tried')" by simp
  with 2 show ?case by simp
qed simp

definition try_ranked_non_streaming ::
  "('r, 'w) call_fn \<Rightarrow> fallback_args \<Rightarrow> route_result option \<Rightarrow> int option \<Rightarrow>
   router_env \<times> 'w \<Rightarrow> (chain_error + 'r \<times> route_result \<times> fallback_chain) \<times> router_env \<times> 'w" where
  "try_ranked_non_streaming call a primary max_providers world =
     (let cap = (case max_providers of Some n \<Rightarrow> n | None \<Rightarrow> fallback_max_providers (env_settings (fst world))) in
      case primary of
        None \<Rightarrow> (Inl Chain_exhausted, world)
      | Some r \<Rightarrow>
          if oauth_route r
          then let tried = [pid (rt_provider r)];
                   chain = chain_add (pname (rt_provider r)) ''skip:oauth-not-via-litellm'' []
               in (case next_route (fst world) a tried of
                     (Inl _, env') \<Rightarrow> (Inl Chain_exhausted, (env', snd world))
                   | (Inr r', env') \<Rightarrow> fallback_loop call a cap tried chain r' (env', snd world))
          else fallback_loop call a cap [] [] r world)"

declare next_loop.simps [simp del] fallback_loop.simps [simp del]

section \<open>What a run of the chain does\<close>

text \<open>A call that keeps a list of the routes it was made on, to observe a run.\<close>

definition logged ::
  "(route_result \<Rightarrow> router_env \<Rightarrow> (py_exception + 'r) \<times> router_env) \<Rightarrow> ('r, route_result list) call_fn" where
  "logged call = (\<lambda>r (env, done_calls). let (res, env') = call r env in (res, (env', done_calls @ [r])))"

definition call_ids :: "route_result list \<Rightarrow> ident list" where
  "call_ids rs = map (\<lambda>r. pid (rt_provider r)) rs"

text \<open>The calls a run of the loop makes: the current route first, then fresh ones.\<close>

definition loop_run_ok ::
  "int \<Rightarrow> ident list \<Rightarrow> fallback_chain \<Rightarrow> route_result \<Rightarrow> chain_error + 'r \<times> route_result \<times> fallback_chain \<Rightarrow>
   route_result list \<Rightarrow> bool" where
  "loop_run_ok cap tried chain r res calls \<longleftrightarrow>
     calls \<noteq> [] \<and> hd calls = r \<and> distinct (call_ids calls) \<and> set (call_ids (tl calls)) \<inter> set tried = {} \<and>
     (\<forall>c \<in> set (tl calls). \<not> oauth_route c) \<and> int (length calls) \<le> max 1 (cap - int (length tried)) \<and>
     res \<noteq> Inl Chain_exhausted \<and>
     (\<forall>x fr ch. res = Inr (x, fr, ch) \<longrightarrow> fr = last calls \<and> length ch = length chain + length calls)"

lemma loop_run_one:
  assumes "res \<noteq> Inl Chain_exhausted"
    and "\<forall>x fr ch. res = Inr (x, fr, ch) \<longrightarrow> fr = r \<and> length ch = Suc (length chain)"
  shows "loop_run_ok cap tried chain r res [r]"
  using assms by (simp add: loop_run_ok_def call_ids_def)

lemma fallback_loop_run:
  assumes "pid (rt_provider r) \<notin> set tried"
  shows "\<exists>calls. snd (snd (fallback_loop (logged call) a cap tried chain r (env, done_calls))) = done_calls @ calls \<and>
    loop_run_ok cap tried chain r (fst (fallback_loop (logged call) a cap tried chain r (env, done_calls))) calls"
  using assms
proof (induction "nat (cap - int (length tried))" arbitrary: tried chain r env done_calls rule: less_induct)
  case less
  let ?tried = "List.insert (pid (rt_provider r)) tried"
  have len: "length ?tried = Suc (length tried)" using less.prems by simp
  obtain cres env1 where c: "call r env = (cres, env1)" by fastforce
  then have l: "logged call r (env, done_calls) = (cres, (env1, done_calls @ [r]))" by (simp add: logged_def)
  show ?case
  proof (cases cres)
    case (Inr x)
    then show ?thesis using l by (simp add: fallback_loop.simps [of _ _ _ tried] chain_add_def loop_run_one)
  next
    case (Inl e)
    obtain nxt env2 where n: "next_route env1 a ?tried = (nxt, env2)" by fastforce
    show ?thesis
    proof (cases "cap \<le> int (length ?tried) \<or> (\<exists>ne. nxt = Inl ne)")
      case True
      then show ?thesis using l Inl n by (auto simp: fallback_loop.simps [of _ _ _ tried] Let_def loop_run_one)
    next
      case False
      then obtain r' where r': "nxt = Inr r'" by (cases nxt) auto
      have fresh: "pid (rt_provider r') \<notin> set ?tried" "\<not> oauth_route r'"
        using next_route_fresh n r' by blast+
      let ?run = "fallback_loop (logged call) a cap ?tried
        (chain_add (pname (rt_provider r)) (failure_entry e) chain) r' (env2, done_calls @ [r])"
      have "nat (cap - int (length ?tried)) < nat (cap - int (length tried))" using False len by simp
      from less.hyps [OF this fresh(1)] obtain calls where calls: "snd (snd ?run) = (done_calls @ [r]) @ calls"
        "loop_run_ok cap ?tried (chain_add (pname (rt_provider r)) (failure_entry e) chain) r' (fst ?run) calls" by blast
      have eq: "fallback_loop (logged call) a cap tried chain r (env, done_calls) = ?run"
        using False l Inl n r' by (simp add: fallback_loop.simps [of _ _ _ tried] Let_def)
      have "calls \<noteq> []" "hd calls = r'" "set (call_ids (tl calls)) \<inter> set ?tried = {}"
        using calls(2) by (simp_all add: loop_run_ok_def)
      then obtain cs where cs: "calls = r' # cs" "set (call_ids cs) \<inter> set ?tried = {}" by (cases calls) auto
      have "loop_run_ok cap tried chain r (fst ?run) (r # calls)"
        using calls(2) cs fresh less.prems len False
        by (auto simp: loop_run_ok_def call_ids_def chain_add_def set_insert split: if_splits)
      then show ?thesis unfolding eq using calls(1) by (intro exI [of _ "r # calls"]) simp
    qed
  qed
qed

text \<open>C27. Whatever the calls do, a run of the fallback chain calls no provider twice, calls no provider of the
  two types it skips, \<open>claude-oauth\<close> and \<open>ChatGPT-oauth-plan\<close>, and makes at most \<open>max 1 cap\<close> calls: the
  first is made whatever the cap is. A result comes
  from the last call, with one entry of the chain per provider considered; and the chain is
  exhausted without a captured exception exactly when nothing was called. A third type that litellm cannot
  call, \<open>grok-web\<close>, is not skipped.\<close>

theorem fallback_run:
  fixes a primary env
  assumes "try_ranked_non_streaming (logged call) a primary (Some cap) (env, []) = (res, (env', calls))"
  shows "distinct (call_ids calls) \<and> (\<forall>c \<in> set calls. \<not> oauth_route c) \<and> int (length calls) \<le> max 1 cap \<and>
    (res = Inl Chain_exhausted \<longleftrightarrow> calls = []) \<and>
    (\<forall>x fr ch. res = Inr (x, fr, ch) \<longrightarrow> fr = last calls \<and>
       length ch = length calls + (if oauth_route (the primary) then 1 else 0))"
proof (cases primary)
  case None
  with assms show ?thesis by (auto simp: try_ranked_non_streaming_def call_ids_def)
next
  case (Some r)
  show ?thesis
  proof (cases "oauth_route r")
    case False
    let ?run = "fallback_loop (logged call) a cap [] [] r (env, [])"
    have "?run = (res, (env', calls))" using assms Some False by (simp add: try_ranked_non_streaming_def)
    with fallback_loop_run [of r "[]" call a cap "[]" env "[]"]
    have "loop_run_ok cap [] [] r res calls" by simp
    then show ?thesis using Some False by (cases calls) (auto simp: loop_run_ok_def)
  next
    case True
    let ?t = "[pid (rt_provider r)]" and ?c = "chain_add (pname (rt_provider r)) ''skip:oauth-not-via-litellm'' []"
    obtain nxt env1 where n: "next_route env a ?t = (nxt, env1)" by fastforce
    show ?thesis
    proof (cases nxt)
      case (Inl ne)
      with assms Some True n show ?thesis by (auto simp: try_ranked_non_streaming_def call_ids_def)
    next
      case (Inr r')
      with n have fresh: "pid (rt_provider r') \<notin> set ?t" "\<not> oauth_route r'" using next_route_fresh by blast+
      let ?run = "fallback_loop (logged call) a cap ?t ?c r' (env1, [])"
      have "?run = (res, (env', calls))" using assms Some True n Inr by (simp add: try_ranked_non_streaming_def)
      with fallback_loop_run [OF fresh(1), of call a cap ?c env1 "[]"]
      have "loop_run_ok cap ?t ?c r' res calls" by simp
      then show ?thesis using Some True fresh by (cases calls) (auto simp: loop_run_ok_def chain_add_def)
    qed
  qed
qed

text \<open>The chain and the binding disagree on which types litellm cannot call: a route to a \<open>grok-web\<close> provider,
  which has a dispatcher of its own, is called.\<close>

lemma grok_web_called:
  assumes "provider_type (rt_provider r) = ''grok-web''"
    and "try_ranked_non_streaming (logged call) a (Some r) (Some cap) (env, []) = (res, (env', calls))"
  shows "provider_type (rt_provider r) \<in> set OWN_DISPATCHER_PROVIDER_TYPES \<and> r \<in> set calls"
proof -
  have "\<not> oauth_route r" by (simp add: oauth_route_def OAUTH_NOT_VIA_LITELLM_def assms(1))
  then have "loop_run_ok cap [] [] r res calls"
    using assms(2) fallback_loop_run [of r "[]" call a cap "[]" env "[]"] by (simp add: try_ranked_non_streaming_def)
  then show ?thesis by (cases calls) (auto simp: loop_run_ok_def OWN_DISPATCHER_PROVIDER_TYPES_def assms(1))
qed

text \<open>The search for the next candidate without its termination argument: a loop that gives up
  when its fuel is spent.\<close>

fun next_fuel :: "nat \<Rightarrow> router_env \<Rightarrow> fallback_args \<Rightarrow> ident list \<Rightarrow>
  ((next_error + route_result) \<times> router_env) option" where
  "next_fuel 0 env a excl = None"
| "next_fuel (Suc n) env a excl =
     (case select_provider env (fallback_request a excl) of
        (Inl e, env') \<Rightarrow> Some (Inl (if is_runtime_error e then No_untried_candidate else Selection_error e), env')
      | (Inr (Quotes qs), env') \<Rightarrow> Some (Inl Not_a_route, env')
      | (Inr (Route r), env') \<Rightarrow>
          if pid (rt_provider r) \<in> set excl then Some (Inl (Returned_excluded (pid (rt_provider r))), env')
          else if oauth_route r then next_fuel n env' a (excl @ [pid (rt_provider r)])
          else Some (Inr r, env'))"

lemma next_fuel_enough:
  "card (pid ` set (providers env) - set excl) < n \<Longrightarrow> next_fuel n env a excl = Some (next_loop env a excl)"
proof (induction n arbitrary: env excl)
  case (Suc n)
  obtain res env1 where s: "select_provider env (fallback_request a excl) = (res, env1)" by fastforce
  show ?case
  proof (cases res)
    case (Inr sel)
    show ?thesis
    proof (cases sel)
      case (Route r)
      with s Inr have s': "select_provider env (fallback_request a excl) = (Inr (Route r), env1)" by simp
      let ?i = "pid (rt_provider r)" and ?A = "pid ` set (providers env) - set excl"
      have "?i \<in> ?A" using route_in_table [OF s'] by (simp add: fallback_request_def)
      moreover have "pid ` set (providers env1) - set (excl @ [?i]) = ?A - {?i}"
        using select_keeps_providers [OF s'] by auto
      ultimately have "card (pid ` set (providers env1) - set (excl @ [?i])) < n"
        using Suc.prems card_Diff1_less [of ?A ?i] by simp
      from Suc.IH [OF this] show ?thesis using s' by (simp add: next_loop.simps [of env])
    qed (use s Inr in \<open>simp add: next_loop.simps [of env]\<close>)
  qed (use s in \<open>simp add: next_loop.simps [of env]\<close>)
qed simp

text \<open>The search for the next candidate ends after at most one selection more than there are
  providers, and with a provider that was not tried and is of no skipped type, or an error.\<close>

theorem next_route_terminates:
  "next_fuel (Suc (length (providers env))) env a excl = Some (next_loop env a excl)"
proof (rule next_fuel_enough)
  have "card (pid ` set (providers env) - set excl) \<le> card (pid ` set (providers env))" by (intro card_mono) auto
  also have "\<dots> \<le> card (set (providers env))" by (rule card_image_le) simp
  also have "\<dots> \<le> length (providers env)" by (rule card_length)
  finally show "card (pid ` set (providers env) - set excl) < Suc (length (providers env))" by simp
qed

section \<open>The chain forgets the compliance policy\<close>

definition two_owners :: router_env where
  "two_owners = demo_env \<lparr>providers :=
     [(new_provider ''a'' ''A'' ''x'' None 1) \<lparr>owner_company := Some ''acme''\<rparr>,
      (new_provider ''b'' ''B'' ''y'' None 2) \<lparr>owner_company := Some ''banned''\<rparr>]\<rparr>"

definition banned_request :: request where
  "banned_request = new_request \<lparr>rq_blocked_companies := Some [''banned'']\<rparr>"

definition plain_args :: fallback_args where
  "plain_args = \<lparr>fa_hint = None, fa_has_tools = False, fa_has_images = False, fa_key_type = ''standard'',
     fa_pinned_provider_id = None, fa_model_override = None\<rparr>"

definition a_is_down :: "route_result \<Rightarrow> router_env \<Rightarrow> (py_exception + string) \<times> router_env" where
  "a_is_down r env =
     ((if pid (rt_provider r) = ''a'' then Inl \<lparr>exc_type = ''AuthenticationError'', exc_msg = []\<rparr> else Inr ''answer''), env)"

definition chain_scenario :: "(ident \<times> ident option) option" where
  "chain_scenario =
     (case select_provider two_owners banned_request of
        (Inr (Route r), env) \<Rightarrow>
          (case try_ranked_non_streaming (logged a_is_down) plain_args (Some r) None (env, []) of
             (Inr (x, fr, ch), _) \<Rightarrow> Some (pid (rt_provider r), owner_company (rt_provider fr))
           | _ \<Rightarrow> None)
      | _ \<Rightarrow> None)"

lemma chain_scenario_run: "chain_scenario = Some (''a'', Some ''banned'')"
  by code_simp

lemma chain_scenario_parts:
  obtains r env x fr ch w where "select_provider two_owners banned_request = (Inr (Route r), env)"
    "try_ranked_non_streaming (logged a_is_down) plain_args (Some r) None (env, []) = (Inr (x, fr, ch), w)"
    "owner_company (rt_provider fr) = Some ''banned''"
  using chain_scenario_run that
  by (auto simp: chain_scenario_def split: prod.splits sum.splits selection.splits)

text \<open>The blocklist is not among the arguments the chain passes on. With a company blocked
  the selection returns the other provider; when the call on it fails the chain answers the
  request from the blocked company's provider.\<close>

theorem chain_ignores_blocklist:
  "\<exists>r env x fr ch w. rq_blocked_companies banned_request = Some [''banned''] \<and>
     select_provider two_owners banned_request = (Inr (Route r), env) \<and>
     try_ranked_non_streaming (logged a_is_down) plain_args (Some r) None (env, []) = (Inr (x, fr, ch), w) \<and>
     owner_company (rt_provider fr) = Some ''banned''"
proof -
  have "rq_blocked_companies banned_request = Some [''banned'']" by (simp add: banned_request_def)
  moreover obtain r env x fr ch w where "select_provider two_owners banned_request = (Inr (Route r), env)"
    "try_ranked_non_streaming (logged a_is_down) plain_args (Some r) None (env, []) = (Inr (x, fr, ch), w)"
    "owner_company (rt_provider fr) = Some ''banned''" by (rule chain_scenario_parts)
  ultimately show ?thesis by (intro exI conjI)
qed

theorem fallback_run_witness:
  "\<exists>r env. select_provider two_owners banned_request = (Inr (Route r), env) \<and>
     distinct (call_ids (snd (snd (try_ranked_non_streaming (logged a_is_down) plain_args (Some r) (Some 3) (env, [])))))"
proof -
  obtain r env where r: "select_provider two_owners banned_request = (Inr (Route r), env)"
    by (rule chain_scenario_parts)
  obtain res env' calls where
    t: "try_ranked_non_streaming (logged a_is_down) plain_args (Some r) (Some 3) (env, []) = (res, (env', calls))"
    by (metis prod.collapse)
  from fallback_run [OF t] r t show ?thesis by simp
qed

end
