(* ===== verification/Bool_Setting.thy ===== *)
theory Bool_Setting
  imports Ttl_Cache
begin

text \<open>
  The cluster-replicated boolean switches (\<^verbatim>\<open>app/monitoring/_bool_system_setting.py\<close>) and their two
  instances, the emergency stop of all model traffic and the switch of the activity log. The
  database is the list of setting rows, or \<open>None\<close> when reading it raises; the audit identifier and
  the clock are arguments.
\<close>

section \<open>Rows and switches\<close>

record setting_row =
  sr_key :: string
  sr_value :: "string option"
  sr_updated_at :: clock

record policy_change =
  change_id :: string
  changed_by :: string
  before_state :: bool
  after_state :: bool
  change_reason :: string

record bool_setting =
  setting_key :: string
  setting_default :: bool
  on_label :: string
  off_label :: string
  audit_subject :: string
  ttl_sec :: clock
  cache_value :: "bool option"
  cache_at :: clock

definition TRUTHY :: "string list" where
  "TRUTHY = [''true'', ''1'', ''yes'', ''on'']"

definition invalidate_cache :: "bool_setting \<Rightarrow> bool_setting" where
  "invalidate_cache s = s \<lparr>cache_value := None, cache_at := 0\<rparr>"

definition read_from_db :: "bool_setting \<Rightarrow> setting_row list \<Rightarrow> bool" where
  "read_from_db s rows =
     (case find (\<lambda>r. sr_key r = setting_key s) rows of
        None \<Rightarrow> setting_default s
      | Some r \<Rightarrow> lower (strip (or_else (sr_value r) [])) \<in> set TRUTHY)"

definition read_or_default :: "bool_setting \<Rightarrow> setting_row list option \<Rightarrow> bool" where
  "read_or_default s db = (case db of None \<Rightarrow> setting_default s | Some rows \<Rightarrow> read_from_db s rows)"

definition get_setting :: "setting_row list option \<Rightarrow> clock \<Rightarrow> bool_setting \<Rightarrow> bool \<times> bool_setting" where
  "get_setting db now s =
     (if cache_value s \<noteq> None \<and> now - cache_at s < ttl_sec s then (the (cache_value s), s)
      else let v = read_or_default s db in (v, s \<lparr>cache_value := Some v, cache_at := now\<rparr>))"

definition get_session_less :: "setting_row list option \<Rightarrow> clock \<Rightarrow> bool_setting \<Rightarrow> bool \<times> bool_setting" where
  "get_session_less db now s = get_setting db now s"

definition write_row :: "string \<Rightarrow> string \<Rightarrow> clock \<Rightarrow> setting_row list \<Rightarrow> setting_row list" where
  "write_row k v now rows =
     (if find (\<lambda>r. sr_key r = k) rows = None
      then rows @ [\<lparr>sr_key = k, sr_value = Some v, sr_updated_at = now\<rparr>]
      else map (\<lambda>r. if sr_key r = k then r \<lparr>sr_value := Some v, sr_updated_at := now\<rparr> else r) rows)"

definition audit_summary :: "bool_setting \<Rightarrow> bool \<Rightarrow> bool \<Rightarrow> string \<Rightarrow> string option \<Rightarrow> string" where
  "audit_summary s on noop actor reason =
     audit_subject s @ '' '' @ (if on then on_label s else off_label s) @ '' by '' @ actor @
     (if truthy reason then ''; reason: '' @ the reason else []) @
     (if noop then '' (no-op re-affirmation)'' else [])"

record set_status =
  status_enabled :: bool
  prior_state :: bool
  status_noop :: bool
  audit_id :: string

definition set_setting ::
  "string \<Rightarrow> clock \<Rightarrow> bool \<Rightarrow> string \<Rightarrow> string option \<Rightarrow> bool_setting \<Rightarrow> setting_row list \<Rightarrow> policy_change list \<Rightarrow>
   set_status \<times> bool_setting \<times> setting_row list \<times> policy_change list" where
  "set_setting aid now on actor reason s rows audit =
     (let prior = read_from_db s rows; noop = (prior = on) in
      (\<lparr>status_enabled = on, prior_state = prior, status_noop = noop, audit_id = aid\<rparr>,
       invalidate_cache s,
       write_row (setting_key s) (if on then ''true'' else ''false'') now rows,
       audit @ [\<lparr>change_id = aid, changed_by = actor, before_state = prior, after_state = on,
                 change_reason = audit_summary s on noop actor reason\<rparr>]))"

definition llm_emergency_stop :: bool_setting where
  "llm_emergency_stop =
     \<lparr>setting_key = ''compliance.llm_emergency_stop'', setting_default = False, on_label = ''ENGAGED'',
      off_label = ''DISENGAGED'', audit_subject = ''llm_emergency_stop'', ttl_sec = 30,
      cache_value = None, cache_at = 0\<rparr>"

definition logging_controls :: bool_setting where
  "logging_controls =
     \<lparr>setting_key = ''compliance.activity_logging_enabled'', setting_default = True, on_label = ''ENABLED'',
      off_label = ''DISABLED'', audit_subject = ''activity_logging'', ttl_sec = 30,
      cache_value = None, cache_at = 0\<rparr>"

section \<open>The switches as time-limited caches\<close>

definition with_cache :: "bool_setting \<Rightarrow> bool option \<times> clock \<Rightarrow> bool_setting" where
  "with_cache s c = s \<lparr>cache_value := fst c, cache_at := snd c\<rparr>"

definition cached_get ::
  "bool_setting \<Rightarrow> setting_row list option \<Rightarrow> clock \<Rightarrow> bool option \<times> clock \<Rightarrow> bool \<times> bool option \<times> clock" where
  "cached_get s db now c =
     (let (v, s') = get_setting db now (with_cache s c) in (v, cache_value s', cache_at s'))"

definition setting_entry :: "bool option \<times> clock \<Rightarrow> (clock \<times> bool) option" where
  "setting_entry c = map_option (\<lambda>v. (snd c, v)) (fst c)"

lemma read_frame: "read_or_default (s \<lparr>cache_value := v, cache_at := a\<rparr>) db = read_or_default s db"
  by (auto simp: read_or_default_def read_from_db_def split: option.split)

lemma cached_get_eq:
  "cached_get s db now (v, a) =
     (if v \<noteq> None \<and> now - a < ttl_sec s then (the v, v, a)
      else (read_or_default s db, Some (read_or_default s db), now))"
  by (simp add: cached_get_def get_setting_def with_cache_def read_frame Let_def)

lemma setting_is_cache:
  assumes "0 < ttl_sec s"
  shows "ttl_cache (cached_get s) (read_or_default s) setting_entry (ttl_sec s)"
proof (unfold_locales, goal_cases)
  case (2 c t v now e)
  then show ?case by (cases c) (auto simp: setting_entry_def cached_get_eq)
next
  case (3 c now e)
  then have "fst c = None \<or> snd c + ttl_sec s \<le> now" by (cases "fst c") (auto simp: setting_entry_def)
  then show ?case by (cases c) (auto simp: setting_entry_def cached_get_eq)
qed (rule assms)

interpretation stop: ttl_cache "cached_get llm_emergency_stop" "read_or_default llm_emergency_stop" setting_entry 30
  using setting_is_cache [of llm_emergency_stop] by (simp add: llm_emergency_stop_def)

interpretation activity: ttl_cache "cached_get logging_controls" "read_or_default logging_controls" setting_entry 30
  using setting_is_cache [of logging_controls] by (simp add: logging_controls_def)

section \<open>Flipping a switch\<close>

lemma find_write_row_same: "\<exists>r. find (\<lambda>r. sr_key r = k) (write_row k v now rows) = Some r \<and> sr_value r = Some v"
proof (cases "find (\<lambda>r. sr_key r = k) rows")
  case None
  then have "\<forall>r \<in> set rows. sr_key r \<noteq> k" by (simp add: find_None_iff)
  then show ?thesis
    by (auto simp: write_row_def None find_Some_iff nth_append intro!: exI [of _ "length rows"])
next
  case (Some r)
  then show ?thesis unfolding write_row_def by (induction rows) (auto split: if_splits)
qed

lemma find_write_row_other:
  assumes "k' \<noteq> k"
  shows "find (\<lambda>r. sr_key r = k') (write_row k v now rows) = find (\<lambda>r. sr_key r = k') rows"
proof -
  have "find (\<lambda>r. sr_key r = k') (rows @ [x]) = find (\<lambda>r. sr_key r = k') rows" if "sr_key x = k" for x
    using that assms by (induction rows) auto
  moreover have "find (\<lambda>r. sr_key r = k')
      (map (\<lambda>r. if sr_key r = k then r \<lparr>sr_value := Some v, sr_updated_at := now\<rparr> else r) rows) =
      find (\<lambda>r. sr_key r = k') rows"
    using assms by (induction rows) auto
  ultimately show ?thesis by (simp add: write_row_def)
qed

lemma flag_words: "lower (strip ''true'') \<in> set TRUTHY" "lower (strip ''false'') \<notin> set TRUTHY"
  by code_simp+

text \<open>A flip takes effect at once on the node that makes it: the next read of the switch
  returns the new value whatever was cached, every other setting keeps its row, and one audit row
  is appended that records the state before and after, also when nothing changed.\<close>

theorem flip_takes_effect:
  assumes "set_setting aid now on actor reason s rows audit = (status, s', rows', audit')"
  shows "fst (get_setting (Some rows') t s') = on \<and>
    (\<forall>k. k \<noteq> setting_key s \<longrightarrow> find (\<lambda>r. sr_key r = k) rows' = find (\<lambda>r. sr_key r = k) rows) \<and>
    (\<exists>c. audit' = audit @ [c] \<and> before_state c = read_from_db s rows \<and> after_state c = on \<and> changed_by c = actor)"
proof -
  let ?v = "if on then ''true'' else ''false''"
  have r: "rows' = write_row (setting_key s) ?v now rows" and s': "s' = invalidate_cache s"
    using assms by (auto simp: set_setting_def Let_def)
  have "fst (get_setting (Some rows') t s') = read_from_db s rows'"
    using read_frame [where s = s and v = None and a = 0 and db = "Some rows'"]
    by (simp add: s' get_setting_def invalidate_cache_def Let_def) (simp add: read_or_default_def)
  also have "\<dots> = on"
    using find_write_row_same [of "setting_key s" ?v now rows] flag_words by (auto simp: r read_from_db_def)
  finally show ?thesis
    using assms find_write_row_other by (auto simp: set_setting_def Let_def)
qed

theorem flip_takes_effect_witness:
  "\<exists>status s' rows' audit'. set_setting ''id'' 5 True ''ops'' None llm_emergency_stop [] [] = (status, s', rows', audit') \<and>
     fst (get_setting (Some rows') 6 s')"
proof -
  obtain status s' rows' audit' where
    s: "set_setting ''id'' 5 True ''ops'' None llm_emergency_stop [] [] = (status, s', rows', audit')"
    by (metis prod.collapse)
  from flip_takes_effect [OF s] s show ?thesis by blast
qed

text \<open>The emergency stop reaches every node: on a node whose cache holds what its database
  said at some earlier moment, any read thirty seconds or more after the database started to say
  that traffic is stopped answers that it is stopped, as long as the database says so and can be
  read.\<close>

theorem stop_effective_after_ttl:
  assumes "entries_from hist now (setting_entry c)" and "hist now = read_or_default llm_emergency_stop db"
    and "\<forall>t. since \<le> t \<and> t \<le> now \<longrightarrow> hist t" and "since + 30 \<le> now"
  shows "fst (cached_get llm_emergency_stop db now c)"
proof -
  obtain t where "now - 30 < t" "t \<le> now" "fst (cached_get llm_emergency_stop db now c) = hist t"
    using stop.read_source(1) [OF assms(1) order_refl assms(2) [symmetric]] by blast
  with assms(3,4) show ?thesis by simp
qed

definition stop_row :: setting_row where
  "stop_row = \<lparr>sr_key = ''compliance.llm_emergency_stop'', sr_value = Some ''true'', sr_updated_at = 100\<rparr>"

theorem stop_effective_after_ttl_witness:
  "fst (cached_get llm_emergency_stop (Some [stop_row]) 130 (Some False, 99))"
proof -
  let ?hist = "\<lambda>t. (100 :: rat) \<le> t"
  have "read_or_default llm_emergency_stop (Some [stop_row])" by code_simp
  then show ?thesis
    using stop_effective_after_ttl [of ?hist 130 "(Some False, 99)" "Some [stop_row]" 100]
    by (simp add: entries_from_def setting_entry_def)
qed

end
