(* ===== verification/Retry.thy ===== *)
theory Retry
  imports Error_Classes Fallback Bool_Setting
begin

text \<open>
  Retries on one provider (\<^verbatim>\<open>app/routing/retry.py\<close>), with the registry of retired models
  (\<^verbatim>\<open>app/providers/deprecations.py\<close>) and the message normalisation for the Cursor bridge
  (\<^verbatim>\<open>app/providers/cursor_oauth.py\<close>). The upstream is a parameter, its answer a function of the
  number of the attempt, the model and the messages; so are the random numbers of the jitter and
  whether the database accepts the write of a replacement model.
\<close>

section \<open>Retired models\<close>

definition MODEL_DEPRECATIONS :: "(string \<times> string) list" where
  "MODEL_DEPRECATIONS =
     [(''gemini-2.0-flash'', ''gemini-2.5-flash''),
      (''gemini-2.0-flash-exp'', ''gemini-2.5-flash''),
      (''gemini-2.0-pro'', ''gemini-2.5-pro''),
      (''gemini-2.0-pro-exp'', ''gemini-2.5-pro''),
      (''gemini-1.5-flash'', ''gemini-2.5-flash''),
      (''gemini-1.5-flash-8b'', ''gemini-2.5-flash''),
      (''gemini-1.5-pro'', ''gemini-2.5-pro''),
      (''models/gemini-2.0-flash'', ''gemini-2.5-flash''),
      (''models/gemini-1.5-flash'', ''gemini-2.5-flash''),
      (''models/gemini-1.5-pro'', ''gemini-2.5-pro''),
      (''gemini/gemini-2.0-flash'', ''gemini/gemini-2.5-flash''),
      (''gemini/gemini-1.5-flash'', ''gemini/gemini-2.5-flash''),
      (''gemini/gemini-1.5-pro'', ''gemini/gemini-2.5-pro''),
      (''claude-3-5-sonnet-20241022'', ''claude-sonnet-4-6''),
      (''claude-3-5-sonnet-20240620'', ''claude-sonnet-4-6''),
      (''claude-3-opus-20240229'', ''claude-opus-4-7''),
      (''claude-3-haiku-20240307'', ''claude-haiku-4-5''),
      (''anthropic/claude-3-5-sonnet-20241022'', ''anthropic/claude-sonnet-4-6''),
      (''anthropic/claude-3-opus-20240229'', ''anthropic/claude-opus-4-7''),
      (''anthropic/claude-3-haiku-20240307'', ''anthropic/claude-haiku-4-5''),
      (''gpt-4-turbo'', ''gpt-4o''),
      (''gpt-4-turbo-preview'', ''gpt-4o''),
      (''gpt-4-0125-preview'', ''gpt-4o''),
      (''gpt-3.5-turbo-16k'', ''gpt-4o-mini''),
      (''openai/gpt-4-turbo'', ''openai/gpt-4o''),
      (''openai/gpt-3.5-turbo-16k'', ''openai/gpt-4o-mini'')]"

definition check_model_deprecation :: "string option \<Rightarrow> string option" where
  "check_model_deprecation m = (if truthy m then map_of MODEL_DEPRECATIONS (the m) else None)"

definition migrate_row :: "provider \<Rightarrow> provider" where
  "migrate_row p =
     (case default_model p of
        None \<Rightarrow> p
      | Some old \<Rightarrow>
          if deleted_at p = None
          then (case map_of MODEL_DEPRECATIONS old of
                  None \<Rightarrow> p
                | Some new \<Rightarrow> if new = [] \<or> new = old then p else p \<lparr>default_model := Some new\<rparr>)
          else p)"

definition migrate_deprecated_default_models :: "provider_table \<Rightarrow> provider_table \<times> ident list" where
  "migrate_deprecated_default_models rows =
     (map migrate_row rows, map pid (filter (\<lambda>p. migrate_row p \<noteq> p) rows))"

definition strip_prefix :: "string \<Rightarrow> string" where
  "strip_prefix m = (if CHR ''/'' \<in> set m then snd (partition_at (CHR ''/'') m) else m)"

definition replacement_for :: "string \<Rightarrow> string option" where
  "replacement_for model =
     (case map_of MODEL_DEPRECATIONS model of
        Some r \<Rightarrow> Some r
      | None \<Rightarrow>
          (case map_of MODEL_DEPRECATIONS (strip_prefix model) of
             None \<Rightarrow> None
           | Some r \<Rightarrow>
               if CHR ''/'' \<in> set model
               then Some (if CHR ''/'' \<in> set r then r else fst (partition_at (CHR ''/'') model) @ ''/'' @ r)
               else Some r))"

definition persist_default_model_bump :: "string \<Rightarrow> string \<Rightarrow> provider_table \<Rightarrow> provider_table \<times> nat" where
  "persist_default_model_bump old new rows =
     (let hit = (\<lambda>p. default_model p = Some (strip_prefix old) \<and> deleted_at p = None)
      in (map (\<lambda>p. if hit p then p \<lparr>default_model := Some (strip_prefix new)\<rparr> else p) rows,
          length (filter hit rows)))"

section \<open>Messages for the Cursor bridge\<close>

text \<open>The text parts of one content block; a non-text \<open>text\<close> field is kept as it is and makes the
  later join raise.\<close>

definition bridge_part :: "(json \<Rightarrow> string) \<Rightarrow> json_lib \<Rightarrow> json \<Rightarrow> json list" where
  "bridge_part dumps lib blk =
     (case blk of
        JStr s \<Rightarrow> [JStr s]
      | JObj d \<Rightarrow>
          (let t = json_get d ''type'' in
           if t \<in> {JStr ''text'', JStr ''input_text'', JStr ''output_text'', JStr ''summary_text''}
           then (if json_truthy (json_get d ''text'') then [json_get d ''text''] else [])
           else if t \<in> {JStr ''image_url'', JStr ''image''} then [JStr ''[image]'']
           else if t = JStr ''refusal''
           then (if json_truthy (json_get d ''refusal'')
                 then [JStr (''[refusal: '' @ str_of lib (json_get d ''refusal'') @ '']'')] else [])
           else [JStr (dumps blk)])
      | _ \<Rightarrow> [JStr (dumps blk)])"

fun json_str :: "json \<Rightarrow> string option" where
  "json_str (JStr s) = Some s"
| "json_str _ = None"

definition newline :: string where "newline = [CHR 0x0A]"

text \<open>\<open>"\n".join(parts)\<close>: a part that is no string raises \<open>TypeError\<close>.\<close>

fun join_parts :: "json list \<Rightarrow> string list option" where
  "join_parts [] = Some []"
| "join_parts (x # xs) =
     (case (json_str x, join_parts xs) of (Some s, Some ss) \<Rightarrow> Some (s # ss) | _ \<Rightarrow> None)"

definition json_put :: "string \<Rightarrow> json \<Rightarrow> (string \<times> json) list \<Rightarrow> (string \<times> json) list" where
  "json_put k v d = map (\<lambda>(k', v'). if k' = k then (k', v) else (k', v')) d"

definition bridge_message :: "(json \<Rightarrow> string) \<Rightarrow> json_lib \<Rightarrow> json \<Rightarrow> json option" where
  "bridge_message dumps lib m =
     (case m of
        JObj d \<Rightarrow>
          (case json_get d ''content'' of
             JList blks \<Rightarrow>
               map_option (\<lambda>ss. JObj (json_put ''content'' (JStr (join_with newline ss)) d))
                 (join_parts (concat (map (bridge_part dumps lib) blks)))
           | _ \<Rightarrow> Some m)
      | _ \<Rightarrow> Some m)"

fun normalize_messages_for_bridge :: "(json \<Rightarrow> string) \<Rightarrow> json_lib \<Rightarrow> json list \<Rightarrow> json list option" where
  "normalize_messages_for_bridge dumps lib [] = Some []"
| "normalize_messages_for_bridge dumps lib (m # ms) =
     (case (bridge_message dumps lib m, normalize_messages_for_bridge dumps lib ms) of
        (Some m', Some ms') \<Rightarrow> Some (m' # ms') | _ \<Rightarrow> None)"

section \<open>Waiting\<close>

definition MAX_WAIT_SEC :: rat where "MAX_WAIT_SEC = 30"

definition parse_retry_after :: "string option \<Rightarrow> pyfloat" where
  "parse_retry_after header =
     (if truthy header
      then (case py_float (the header) of
              Inl _ \<Rightarrow> Fin 5
            | Inr (Fin x) \<Rightarrow> Fin (max 0 x)
            | Inr PosInf \<Rightarrow> PosInf
            | Inr _ \<Rightarrow> Fin 0)
      else Fin 5)"

definition min_float :: "pyfloat \<Rightarrow> rat \<Rightarrow> rat" where
  "min_float x b = (case x of Fin a \<Rightarrow> min a b | _ \<Rightarrow> b)"

definition backoff :: "nat \<Rightarrow> pyfloat \<Rightarrow> rat \<Rightarrow> rat" where
  "backoff attempt retry_after u =
     (let e = min_float retry_after (2 ^ attempt * 2) in min (e + u * (e / 4)) MAX_WAIT_SEC)"

section \<open>The retry loop\<close>

datatype 'r upstream =
    Completed 'r
  | Not_found string
  | Rate_limited string "string option"
  | Failed py_exception

datatype 'r retry_outcome =
    Returned 'r
  | Returned_none
  | Raised_not_found string
  | Raised_rate_limit string
  | Raised_other py_exception
  | Raised_emergency_stop
  | Raised_type_error

record retry_log =
  called_models :: "string list"
  waited :: "rat list"
  table :: provider_table
  stop_switch :: bool_setting

record 'r retry_env =
  answer :: "nat \<Rightarrow> string \<Rightarrow> json list \<Rightarrow> 'r upstream"
  jitter :: "nat \<Rightarrow> rat"
  db_writes :: bool
  settings_db :: "setting_row list option"
  started_at :: clock

text \<open>\<open>left\<close> counts the turns of the loop still to come, this one included.\<close>

fun retry_loop ::
  "'r retry_env \<Rightarrow> json list \<Rightarrow> nat \<Rightarrow> nat \<Rightarrow> bool \<Rightarrow> string \<Rightarrow> retry_log \<Rightarrow> 'r retry_outcome \<times> retry_log" where
  "retry_loop env msgs max_retries 0 dep model st = (Returned_none, st)"
| "retry_loop env msgs max_retries (Suc left) dep model st =
     (let attempt = max_retries - left; st1 = st \<lparr>called_models := called_models st @ [model]\<rparr> in
      case answer env attempt model msgs of
        Completed r \<Rightarrow> (Returned r, st1)
      | Not_found m \<Rightarrow>
          if dep then (Raised_not_found m, st1)
          else (case replacement_for model of
                  None \<Rightarrow> (Raised_not_found m, st1)
                | Some new \<Rightarrow>
                    retry_loop env msgs max_retries left True new
                      (if db_writes env
                       then st1 \<lparr>table := fst (persist_default_model_bump model new (table st1))\<rparr> else st1))
      | Rate_limited m header \<Rightarrow>
          if is_billing_error m \<or> max_retries \<le> attempt then (Raised_rate_limit m, st1)
          else retry_loop env msgs max_retries left dep model
                 (st1 \<lparr>waited := waited st1 @ [backoff attempt (parse_retry_after header) (jitter env attempt)]\<rparr>)
      | Failed e \<Rightarrow> (Raised_other e, st1))"

definition acompletion_with_retry ::
  "(json \<Rightarrow> string) \<Rightarrow> json_lib \<Rightarrow> 'r retry_env \<Rightarrow> string option \<Rightarrow> string \<Rightarrow> json list \<Rightarrow> nat \<Rightarrow> retry_log \<Rightarrow>
   'r retry_outcome \<times> retry_log" where
  "acompletion_with_retry dumps lib env api_base model msgs max_retries st =
     (let (stopped, sw) = get_session_less (settings_db env) (started_at env) (stop_switch st);
          st = st \<lparr>stop_switch := sw\<rparr>
      in if stopped then (Raised_emergency_stop, st)
         else if sublist ''cursor-bridge'' (or_else api_base [])
         then (case normalize_messages_for_bridge dumps lib msgs of
                 None \<Rightarrow> (Raised_type_error, st)
               | Some ms \<Rightarrow> retry_loop env ms max_retries (Suc max_retries) False model st)
         else retry_loop env msgs max_retries (Suc max_retries) False model st)"

section \<open>The registry\<close>

lemma registry_closed:
  "list_all (\<lambda>(k, v). replacement_for v = None \<and> map_of MODEL_DEPRECATIONS v = None \<and> v \<noteq> [] \<and> v \<noteq> k) MODEL_DEPRECATIONS"
  by code_simp

lemma registry_value:
  assumes "map_of MODEL_DEPRECATIONS m = Some v"
  shows "replacement_for v = None" "map_of MODEL_DEPRECATIONS v = None" "v \<noteq> []" "v \<noteq> m"
  using registry_closed map_of_SomeD [OF assms] by (auto simp: list_all_iff)

text \<open>One migration is enough: no replacement in the registry is itself retired, so after the
  migration no active provider has a retired default model, a second run changes nothing, and
  provider identities and deleted rows are untouched.\<close>

theorem migration_complete:
  assumes "migrate_deprecated_default_models rows = (rows', changed)"
  shows "(\<forall>p \<in> set rows'. deleted_at p = None \<longrightarrow> check_model_deprecation (default_model p) = None) \<and>
    migrate_deprecated_default_models rows' = (rows', []) \<and>
    map pid rows' = map pid rows \<and> filter (\<lambda>p. deleted_at p \<noteq> None) rows' = filter (\<lambda>p. deleted_at p \<noteq> None) rows"
proof -
  have r: "rows' = map migrate_row rows" using assms by (simp add: migrate_deprecated_default_models_def)
  have d: "deleted_at (migrate_row p) = deleted_at p" "pid (migrate_row p) = pid p" for p
    by (auto simp: migrate_row_def split: option.splits)
  have ok: "check_model_deprecation (default_model (migrate_row p)) = None" if "deleted_at p = None" for p
    using that registry_value
    by (auto simp: migrate_row_def check_model_deprecation_def truthy_def split: option.splits)
  have "migrate_row (migrate_row p) = migrate_row p" for p
  proof (cases "deleted_at p")
    case None
    with ok [OF this] d(1) [of p] show ?thesis
      by (auto simp: migrate_row_def check_model_deprecation_def truthy_def split: option.splits)
  qed (simp add: migrate_row_def split: option.split)
  moreover have "migrate_row p = p" if "deleted_at p \<noteq> None" for p
    using that by (auto simp: migrate_row_def split: option.split)
  then have "filter (\<lambda>p. deleted_at p \<noteq> None) (map migrate_row rows) = filter (\<lambda>p. deleted_at p \<noteq> None) rows"
    using d(1) by (induction rows) auto
  ultimately show ?thesis
    using ok d by (auto simp: r migrate_deprecated_default_models_def)
qed

theorem migration_complete_witness:
  "migrate_deprecated_default_models
     (fst (migrate_deprecated_default_models [new_provider ''p'' ''P'' ''openai'' (Some ''gpt-4-turbo'') 1])) =
   (fst (migrate_deprecated_default_models [new_provider ''p'' ''P'' ''openai'' (Some ''gpt-4-turbo'') 1]), [])"
proof -
  obtain rows' ch where m: "migrate_deprecated_default_models [new_provider ''p'' ''P'' ''openai'' (Some ''gpt-4-turbo'') 1] = (rows', ch)"
    by fastforce
  from migration_complete [OF m] m show ?thesis by simp
qed

section \<open>Waits and calls\<close>

lemma backoff_bounds:
  assumes "0 \<le> u" "u \<le> 1"
  shows "0 \<le> backoff n (parse_retry_after h) u" "backoff n (parse_retry_after h) u \<le> 30"
    "backoff n (parse_retry_after h) u \<le> 5 / 2 * 2 ^ n"
proof -
  let ?e = "min_float (parse_retry_after h) (2 ^ n * 2)"
  have e: "0 \<le> ?e" "?e \<le> 2 ^ n * 2"
    by (auto simp: min_float_def parse_retry_after_def split: sum.split pyfloat.split)
  have "u * (?e / 4) \<le> 1 * (?e / 4)" using assms e(1) by (intro mult_right_mono) auto
  then have "?e + u * (?e / 4) \<le> 5 / 4 * (2 ^ n * 2)" using e(2) by simp
  then show "backoff n (parse_retry_after h) u \<le> 5 / 2 * 2 ^ n"
    unfolding backoff_def Let_def by (intro min.coboundedI1) simp
  show "0 \<le> backoff n (parse_retry_after h) u" "backoff n (parse_retry_after h) u \<le> 30"
    using assms(1) e(1) by (simp_all add: backoff_def Let_def MAX_WAIT_SEC_def)
qed

text \<open>What a run of the loop adds to the log.\<close>

definition one_switch :: "bool \<Rightarrow> string \<Rightarrow> string list \<Rightarrow> bool" where
  "one_switch dep model cs \<longleftrightarrow>
     (\<exists>a b. cs = replicate a model @ replicate b (the (replacement_for model)) \<and>
            (0 < b \<longrightarrow> \<not> dep \<and> replacement_for model \<noteq> None))"

lemma one_switch_Nil: "one_switch dep model []"
  unfolding one_switch_def by (intro exI [of _ 0]) simp

lemma one_switch_same: "one_switch dep model cs \<Longrightarrow> one_switch dep model (model # cs)"
  unfolding one_switch_def by (elim exE, rule_tac x = "Suc a" in exI) auto

lemma one_switch_new:
  assumes "one_switch True new cs" and "replacement_for model = Some new" and "\<not> dep"
  shows "one_switch dep model (model # cs)"
proof -
  obtain a where "cs = replicate a new" using assms(1) by (auto simp: one_switch_def)
  with assms(2,3) show ?thesis unfolding one_switch_def by (intro exI [of _ 1] exI [of _ a]) simp
qed

definition run_ok :: "nat \<Rightarrow> nat \<Rightarrow> string list \<Rightarrow> rat list \<Rightarrow> bool" where
  "run_ok max_retries left cs ws \<longleftrightarrow>
     length cs \<le> left \<and> length ws \<le> left - 1 \<and> (\<forall>w \<in> set ws. 0 \<le> w \<and> w \<le> 30) \<and>
     sum_list ws \<le> 5 / 2 * (2 ^ max_retries - 2 ^ min max_retries (Suc max_retries - left))"

lemma run_ok_one: "run_ok mx (Suc left) [model] []"
proof -
  have "(2 :: rat) ^ min mx (mx - left) \<le> 2 ^ mx" by (rule power_increasing) auto
  then show ?thesis by (simp add: run_ok_def)
qed

lemma run_ok_call:
  assumes "run_ok mx left cs ws"
  shows "run_ok mx (Suc left) (model # cs) ws"
proof -
  have "(2 :: rat) ^ min mx (Suc mx - Suc left) \<le> 2 ^ min mx (Suc mx - left)" by (rule power_increasing) auto
  moreover have "sum_list ws \<le> 5 / 2 * (2 ^ mx - 2 ^ min mx (Suc mx - left))" using assms by (simp add: run_ok_def)
  ultimately have "sum_list ws \<le> 5 / 2 * (2 ^ mx - 2 ^ min mx (Suc mx - Suc left))"
    by (elim order_trans) (simp add: mult_left_mono)
  with assms show ?thesis unfolding run_ok_def by (intro conjI) auto
qed

lemma run_ok_wait:
  assumes "run_ok mx left cs ws" and "0 < left" "left \<le> mx"
    and "0 \<le> w" "w \<le> 30" "w \<le> 5 / 2 * 2 ^ (mx - left)"
  shows "run_ok mx (Suc left) (model # cs) (w # ws)"
proof -
  have "min mx (Suc mx - left) = Suc (mx - left)" "min mx (Suc mx - Suc left) = mx - left"
    using assms(2,3) by auto
  then have "sum_list ws \<le> 5 / 2 * (2 ^ mx - 2 * 2 ^ (mx - left))"
    using assms(1) by (simp add: run_ok_def)
  with assms show ?thesis by (auto simp: run_ok_def)
qed

lemma retry_loop_run:
  assumes "\<forall>n. 0 \<le> jitter env n \<and> jitter env n \<le> 1" and "left \<le> Suc mx"
    and "retry_loop env msgs mx left dep model st = (out, st')"
  shows "\<exists>cs ws. called_models st' = called_models st @ cs \<and> waited st' = waited st @ ws \<and> run_ok mx left cs ws \<and> one_switch dep model cs"
  using assms(2,3)
proof (induction left arbitrary: dep model st)
  case 0
  then show ?case by (auto simp: run_ok_def one_switch_Nil)
next
  case (Suc left)
  let ?st1 = "st \<lparr>called_models := called_models st @ [model]\<rparr>"
  have one: ?case if "st' = ?st1"
    using that run_ok_one [of mx left model] one_switch_same [OF one_switch_Nil, of dep model]
    by (intro exI [of _ "[model]"] exI [of _ "[]"]) simp
  show ?case
  proof (cases "answer env (mx - left) model msgs")
    case (Not_found m)
    show ?thesis
    proof (cases "dep \<or> replacement_for model = None")
      case True
      then have "st' = ?st1" using Suc.prems(2) Not_found by (auto simp: Let_def split: if_splits)
      then show ?thesis by (rule one)
    next
      case False
      then obtain new where new: "replacement_for model = Some new" "\<not> dep" by blast
      let ?st2 = "if db_writes env then ?st1 \<lparr>table := fst (persist_default_model_bump model new (table ?st1))\<rparr> else ?st1"
      have "retry_loop env msgs mx left True new ?st2 = (out, st')" using Suc.prems(2) Not_found new by (simp add: Let_def)
      from Suc.IH [OF _ this] obtain cs ws where "called_models st' = called_models ?st2 @ cs"
        "waited st' = waited ?st2 @ ws" "run_ok mx left cs ws" "one_switch True new cs" using Suc.prems(1) by auto
      with run_ok_call [OF this(3), of model] one_switch_new [OF this(4) new] show ?thesis by (intro exI [of _ "model # cs"] exI [of _ ws]) simp
    qed
  next
    case (Rate_limited m h)
    show ?thesis
    proof (cases "is_billing_error m \<or> mx \<le> mx - left")
      case True
      then have "st' = ?st1" using Suc.prems(2) Rate_limited by (auto simp: Let_def)
      then show ?thesis by (rule one)
    next
      case False
      let ?w = "backoff (mx - left) (parse_retry_after h) (jitter env (mx - left))"
      let ?st2 = "?st1 \<lparr>waited := waited ?st1 @ [?w]\<rparr>"
      have l: "0 < left" "left \<le> mx" using False Suc.prems(1) by auto
      have "retry_loop env msgs mx left dep model ?st2 = (out, st')" using Suc.prems(2) Rate_limited False by (simp add: Let_def)
      from Suc.IH [OF _ this] obtain cs ws where "called_models st' = called_models ?st2 @ cs"
        "waited st' = waited ?st2 @ ws" "run_ok mx left cs ws" "one_switch dep model cs" using Suc.prems(1) by auto
      moreover have "run_ok mx (Suc left) (model # cs) (?w # ws)"
        by (rule run_ok_wait [OF calculation(3) l backoff_bounds]) (use assms(1) in auto)
      ultimately show ?thesis
        using one_switch_same by (intro exI [of _ "model # cs"] exI [of _ "?w # ws"]) simp
    qed
  qed (use Suc.prems(2) one in \<open>simp_all add: Let_def\<close>)
qed

declare retry_loop.simps(2) [simp del]

text \<open>Whatever the upstream answers, one request makes at most \<open>max_retries + 1\<close> calls and
  sleeps at most \<open>max_retries\<close> times; each sleep is between 0 and 30 seconds and all of them
  together are at most \<open>2.5 * (2 ^ max_retries - 1)\<close> seconds (17.5 with the default of 3). The
  model changes at most once, to the registered replacement.\<close>

theorem retry_bounded:
  assumes "\<forall>n. 0 \<le> jitter env n \<and> jitter env n \<le> 1"
    and "acompletion_with_retry dumps lib env api_base model msgs max_retries st = (out, st')"
  shows "\<exists>cs ws. called_models st' = called_models st @ cs \<and> waited st' = waited st @ ws \<and>
    length cs \<le> max_retries + 1 \<and> length ws \<le> max_retries \<and> (\<forall>w \<in> set ws. 0 \<le> w \<and> w \<le> 30) \<and>
    sum_list ws \<le> 5 / 2 * (2 ^ max_retries - 1) \<and>
    (\<exists>a b. cs = replicate a model @ replicate b (the (replacement_for model)) \<and>
       (b = 0 \<or> replacement_for model \<noteq> None))"
proof -
  obtain stopped sw where sw: "get_session_less (settings_db env) (started_at env) (stop_switch st) = (stopped, sw)"
    by fastforce
  let ?st = "st \<lparr>stop_switch := sw\<rparr>"
  have "st' = ?st \<or> (\<exists>ms. retry_loop env ms max_retries (Suc max_retries) False model ?st = (out, st'))"
    using assms(2) sw by (auto simp: acompletion_with_retry_def Let_def split: if_splits option.splits)
  then show ?thesis
  proof
    assume "st' = ?st"
    then show ?thesis
      by (intro exI [of _ "[]"] conjI) (simp_all add: exI [of _ 0])
  next
    assume "\<exists>ms. retry_loop env ms max_retries (Suc max_retries) False model ?st = (out, st')"
    then obtain cs ws where r: "called_models st' = called_models ?st @ cs" "waited st' = waited ?st @ ws"
      "run_ok max_retries (Suc max_retries) cs ws" "one_switch False model cs"
      using retry_loop_run [OF assms(1) order_refl] by blast
    from r(3) have "length cs \<le> max_retries + 1 \<and> length ws \<le> max_retries \<and> (\<forall>w \<in> set ws. 0 \<le> w \<and> w \<le> 30) \<and>
        sum_list ws \<le> 5 / 2 * (2 ^ max_retries - 1)" by (simp add: run_ok_def)
    moreover from r(4) have "\<exists>a b. cs = replicate a model @ replicate b (the (replacement_for model)) \<and>
        (b = 0 \<or> replacement_for model \<noteq> None)" by (auto simp: one_switch_def)
    ultimately show ?thesis using r(1,2) by (intro exI [of _ cs] exI [of _ ws]) simp
  qed
qed

lemma retry_loop_succeeds:
  assumes "answer env k model msgs = Completed r" and "k \<le> mx"
    and "\<And>n. n < k \<Longrightarrow> \<exists>m h. answer env n model msgs = Rate_limited m h \<and> \<not> is_billing_error m"
    and "j \<le> k"
  shows "\<exists>st'. retry_loop env msgs mx (Suc mx - j) dep model st = (Returned r, st') \<and>
    length (waited st') = length (waited st) + (k - j)"
  using assms(4)
proof (induction "k - j" arbitrary: j st)
  case 0
  then have "Suc mx - j = Suc (mx - k)" "mx - (mx - k) = k" using assms(2) by auto
  with 0 assms(1) show ?case by (simp add: retry_loop.simps(2) Let_def)
next
  case (Suc d)
  then have j: "j < k" by simp
  then have e: "Suc mx - j = Suc (mx - j)" "mx - (mx - j) = j" "\<not> mx \<le> j"
    using assms(2) by auto
  from assms(3) [OF j] obtain m h where a: "answer env j model msgs = Rate_limited m h" "\<not> is_billing_error m" by blast
  let ?st = "st \<lparr>called_models := called_models st @ [model],
    waited := waited st @ [backoff j (parse_retry_after h) (jitter env j)]\<rparr>"
  have "retry_loop env msgs mx (Suc mx - j) dep model st = retry_loop env msgs mx (mx - j) dep model ?st"
    unfolding e(1) retry_loop.simps(2) Let_def e(2) using a e(3) by simp
  moreover have "\<exists>st'. retry_loop env msgs mx (mx - j) dep model ?st = (Returned r, st') \<and>
      length (waited st') = length (waited ?st) + (k - Suc j)"
    using Suc.hyps(1) [of "Suc j" ?st] Suc.hyps(2) j by simp
  moreover have "length (waited ?st) + (k - Suc j) = length (waited st) + (k - j)" using j by simp
  ultimately show ?case by metis
qed

text \<open>A rate-limited upstream that recovers within the retries is waited out: with the first
  \<open>k\<close> attempts rate-limited without a billing error and attempt \<open>k\<close> answered, the answer is
  returned after exactly \<open>k\<close> sleeps.\<close>

theorem retry_succeeds:
  assumes "answer env k model msgs = Completed r" and "k \<le> max_retries"
    and "\<forall>n < k. \<exists>m h. answer env n model msgs = Rate_limited m h \<and> \<not> is_billing_error m"
    and "\<not> fst (get_session_less (settings_db env) (started_at env) (stop_switch st))"
    and "\<not> sublist ''cursor-bridge'' (or_else api_base [])"
  shows "\<exists>st'. acompletion_with_retry dumps lib env api_base model msgs max_retries st = (Returned r, st') \<and>
    length (waited st') = length (waited st) + k"
proof -
  obtain stopped sw where sw: "get_session_less (settings_db env) (started_at env) (stop_switch st) = (stopped, sw)"
    by fastforce
  have "\<exists>st'. retry_loop env msgs max_retries (Suc max_retries - 0) False model (st \<lparr>stop_switch := sw\<rparr>) = (Returned r, st') \<and>
      length (waited st') = length (waited (st \<lparr>stop_switch := sw\<rparr>)) + (k - 0)"
    using assms(1-3) by (intro retry_loop_succeeds) auto
  with sw assms(4,5) show ?thesis by (simp add: acompletion_with_retry_def)
qed

definition flaky :: "string retry_env" where
  "flaky = \<lparr>answer = (\<lambda>n m ms. if n < 2 then Rate_limited ''slow down'' (Some ''60'') else Completed ''ok''),
     jitter = (\<lambda>n. 1 / 2), db_writes = True, settings_db = Some [], started_at = 0\<rparr>"

definition fresh_log :: retry_log where
  "fresh_log = \<lparr>called_models = [], waited = [], table = [], stop_switch = llm_emergency_stop\<rparr>"

theorem retry_succeeds_witness:
  "\<exists>st'. acompletion_with_retry (\<lambda>_. []) demo_json flaky None ''openai/gpt-4o'' [] 3 fresh_log = (Returned ''ok'', st') \<and>
     length (waited st') = 2"
proof -
  have b: "\<not> is_billing_error ''slow down''" by code_simp
  have s: "\<not> fst (get_session_less (settings_db flaky) (started_at flaky) (stop_switch fresh_log))" by code_simp
  show ?thesis
    using retry_succeeds [of flaky 2 "''openai/gpt-4o''" "[]" "''ok''" 3 fresh_log None "\<lambda>_. []" demo_json] b s
    by (simp add: flaky_def fresh_log_def numeral_2_eq_2)
qed

theorem retry_bounded_witness:
  "\<exists>out st'. acompletion_with_retry (\<lambda>_. []) demo_json flaky None ''openai/gpt-4o'' [] 3 fresh_log = (out, st') \<and>
     length (called_models st') \<le> 4"
proof -
  obtain out st' where r: "acompletion_with_retry (\<lambda>_. []) demo_json flaky None ''openai/gpt-4o'' [] 3 fresh_log = (out, st')"
    by fastforce
  have "\<forall>n. 0 \<le> jitter flaky n \<and> jitter flaky n \<le> 1" by (simp add: flaky_def)
  from retry_bounded [OF this r] r show ?thesis by (auto simp: fresh_log_def)
qed

text \<open>The wait undercuts the server: when the server asks for more than \<open>2.5 * 2 ^ attempt\<close> seconds,
  the retry comes earlier than asked, whatever the random number.\<close>

theorem retry_after_undercut:
  assumes "parse_retry_after header = Fin a" and "5 / 2 * 2 ^ attempt < a" and "0 \<le> u" "u \<le> 1"
  shows "backoff attempt (parse_retry_after header) u < a"
  using backoff_bounds(3) [OF assms(3,4), of attempt header] assms(2) by simp

theorem retry_after_undercut_witness: "backoff 0 (parse_retry_after (Some ''60'')) 1 < 60"
proof -
  have "parse_retry_after (Some ''60'') = Fin 60" by code_simp
  then show ?thesis using retry_after_undercut [of "Some ''60''" 60 0 1] by simp
qed

text \<open>A retired model reported on the last attempt: the replacement is stored, no call is made with
  it, and the caller gets \<open>None\<close> instead of an answer or an exception.\<close>

theorem last_attempt_returns_none:
  assumes "answer env max_retries model msgs = Not_found m" and "replacement_for model = Some new"
  shows "fst (retry_loop env msgs max_retries 1 False model st) = Returned_none"
  using assms by (simp add: retry_loop.simps(2) Let_def)

theorem last_attempt_returns_none_witness:
  "fst (retry_loop (flaky \<lparr>answer := (\<lambda>n m ms. Not_found [])\<rparr>) [] 0 1 False ''gpt-4-turbo'' fresh_log) = Returned_none"
proof -
  have "replacement_for ''gpt-4-turbo'' = Some ''gpt-4o''" by code_simp
  then show ?thesis using last_attempt_returns_none [of "flaky \<lparr>answer := (\<lambda>n m ms. Not_found [])\<rparr>" 0] by simp
qed

section \<open>Shape of the messages\<close>

lemma map_of_json_put: "map_of (json_put k v d) k' = (if k' = k then map_option (\<lambda>_. v) (map_of d k) else map_of d k')"
  by (induction d) (auto simp: json_put_def)

definition bridge_related :: "json \<Rightarrow> json \<Rightarrow> bool" where
  "bridge_related m m' \<longleftrightarrow>
     (case m of
        JObj d \<Rightarrow> (\<exists>d'. m' = JObj d' \<and> (\<forall>k. k \<noteq> ''content'' \<longrightarrow> json_get d' k = json_get d k) \<and>
                       (\<forall>xs. json_get d' ''content'' \<noteq> JList xs) \<and>
                       ((\<forall>xs. json_get d ''content'' \<noteq> JList xs) \<longrightarrow> d' = d))
      | _ \<Rightarrow> m' = m)"

lemma bridge_message_related:
  assumes "bridge_message dumps lib m = Some m'"
  shows "bridge_related m m'"
proof (cases m)
  case (JObj d)
  show ?thesis
  proof (cases "json_get d ''content''")
    case (JList blks)
    then have "map_of d ''content'' = Some (JList blks)" by (auto simp: json_get_def split: option.splits)
    with assms JObj JList show ?thesis
      by (auto simp: bridge_message_def bridge_related_def json_get_def map_of_json_put)
  qed (use assms JObj in \<open>auto simp: bridge_message_def bridge_related_def\<close>)
qed (use assms in \<open>auto simp: bridge_message_def bridge_related_def\<close>)

text \<open>Messages sent to the Cursor bridge have the shape it requires: as many messages in the
  same order, no object with a list as its content, every other field as it was, and a message
  whose content was no list unchanged.\<close>

theorem bridge_shape:
  assumes "normalize_messages_for_bridge dumps lib ms = Some ms'"
  shows "list_all2 bridge_related ms ms'"
  using assms
proof (induction ms arbitrary: ms')
  case (Cons m ms)
  then show ?case by (auto split: option.splits intro: bridge_message_related)
qed simp

definition parts_message :: json where
  "parts_message = JObj [(''role'', JStr ''user''),
     (''content'', JList [JObj [(''type'', JStr ''text''), (''text'', JStr ''hi'')], JObj [(''type'', JStr ''image_url'')]])]"

theorem bridge_shape_witness:
  "\<exists>ms'. normalize_messages_for_bridge (\<lambda>_. []) demo_json [parts_message] = Some ms' \<and>
     list_all2 bridge_related [parts_message] ms'"
proof -
  have "normalize_messages_for_bridge (\<lambda>_. []) demo_json [parts_message] \<noteq> None" by code_simp
  then obtain ms' where "normalize_messages_for_bridge (\<lambda>_. []) demo_json [parts_message] = Some ms'" by blast
  with bridge_shape [OF this] show ?thesis by blast
qed

end
