(* ===== verification/Run_State.thy ===== *)
theory Run_State
  imports Provider
begin

text \<open>
  The state machine of agent runs (\<^verbatim>\<open>app/runs/state.py\<close>): statuses, events, one handler per event
  and \<open>advance\<close>. A run is then a sequence of accepted events; the terminal states are absorbing, the
  turn budget holds in every reachable state, and every run of accepted events that change
  something is finite.
\<close>

section \<open>Statuses and events\<close>

datatype run_status = QUEUED | RUNNING | REQUIRES_TOOL | COMPLETED | FAILED | EXPIRED | CANCELLED

datatype error_kind = PROVIDER | TOOL_LOOP_EXCEEDED | CONTEXT_EXHAUSTED_ERR | BAD_REQUEST | INTERNAL

datatype event_kind =
    START | MODEL_RETURNED_TEXT | MODEL_RETURNED_TOOL | TOOL_RESULT | PROVIDER_EXHAUSTED
  | MAX_TURNS_HIT | CONTEXT_EXHAUSTED | INTERNAL_ERROR | DEADLINE_EXCEEDED | CANCEL

fun terminal :: "run_status \<Rightarrow> bool" where
  "terminal COMPLETED = True"
| "terminal FAILED = True"
| "terminal EXPIRED = True"
| "terminal CANCELLED = True"
| "terminal _ = False"

record run_ctx =
  status :: run_status
  deadline_ts :: clock
  max_turns :: int
  turns_used :: int
  ctx_error_kind :: "error_kind option"
  ctx_error_message :: "string option"

record transition =
  new_status :: run_status
  new_turns :: int
  new_error_kind :: "error_kind option"
  new_error_message :: "string option"

datatype invalid_transition = Invalid_transition run_status event_kind string

section \<open>Handlers\<close>

abbreviation plain :: "run_status \<Rightarrow> int \<Rightarrow> transition" where
  "plain s n \<equiv> \<lparr>new_status = s, new_turns = n, new_error_kind = None, new_error_message = None\<rparr>"

abbreviation failing :: "int \<Rightarrow> error_kind \<Rightarrow> string \<Rightarrow> transition" where
  "failing n k m \<equiv> \<lparr>new_status = FAILED, new_turns = n, new_error_kind = Some k, new_error_message = Some m\<rparr>"

type_synonym handler = "run_ctx \<Rightarrow> clock \<Rightarrow> string option \<Rightarrow> invalid_transition + transition"

definition start :: handler where
  "start ctx now detail =
     (if status ctx \<noteq> QUEUED then Inl (Invalid_transition (status ctx) START [])
      else if deadline_ts ctx \<le> now then Inr (plain EXPIRED (turns_used ctx))
      else Inr (plain RUNNING (turns_used ctx)))"

definition model_text :: handler where
  "model_text ctx now detail =
     (if status ctx \<noteq> RUNNING then Inl (Invalid_transition (status ctx) MODEL_RETURNED_TEXT [])
      else if deadline_ts ctx \<le> now then Inr (plain EXPIRED (turns_used ctx))
      else Inr (plain COMPLETED (turns_used ctx + 1)))"

definition turns_message :: "run_ctx \<Rightarrow> string" where
  "turns_message ctx = ''max_turns='' @ str_int (max_turns ctx) @ '' reached''"

definition model_tool :: handler where
  "model_tool ctx now detail =
     (if status ctx \<noteq> RUNNING then Inl (Invalid_transition (status ctx) MODEL_RETURNED_TOOL [])
      else if deadline_ts ctx \<le> now then Inr (plain EXPIRED (turns_used ctx))
      else let n = turns_used ctx + 1 in
           if n \<ge> max_turns ctx then Inr (failing n TOOL_LOOP_EXCEEDED (turns_message ctx))
           else Inr (plain REQUIRES_TOOL n))"

definition tool_result :: handler where
  "tool_result ctx now detail =
     (if status ctx \<noteq> REQUIRES_TOOL
      then Inl (Invalid_transition (status ctx) TOOL_RESULT ''run is not awaiting a tool result'')
      else if deadline_ts ctx \<le> now then Inr (plain EXPIRED (turns_used ctx))
      else Inr (plain RUNNING (turns_used ctx)))"

definition provider_exhausted :: handler where
  "provider_exhausted ctx now detail =
     (if status ctx \<notin> {RUNNING, REQUIRES_TOOL} then Inl (Invalid_transition (status ctx) PROVIDER_EXHAUSTED [])
      else Inr (failing (turns_used ctx) PROVIDER (or_else detail ''all providers exhausted'')))"

definition max_turns_hit :: handler where
  "max_turns_hit ctx now detail =
     (if status ctx \<noteq> RUNNING then Inl (Invalid_transition (status ctx) MAX_TURNS_HIT [])
      else Inr (failing (turns_used ctx) TOOL_LOOP_EXCEEDED (turns_message ctx)))"

definition context_exhausted :: handler where
  "context_exhausted ctx now detail =
     (if status ctx \<notin> {RUNNING, REQUIRES_TOOL} then Inl (Invalid_transition (status ctx) CONTEXT_EXHAUSTED [])
      else Inr (failing (turns_used ctx) CONTEXT_EXHAUSTED_ERR ''context window exceeded even after compaction''))"

definition internal :: handler where
  "internal ctx now detail =
     (if terminal (status ctx) then Inl (Invalid_transition (status ctx) INTERNAL_ERROR [])
      else Inr (failing (turns_used ctx) INTERNAL (or_else detail ''internal error'')))"

definition deadline :: handler where
  "deadline ctx now detail =
     (if terminal (status ctx) then Inl (Invalid_transition (status ctx) DEADLINE_EXCEEDED [])
      else Inr (plain EXPIRED (turns_used ctx)))"

definition cancel :: handler where
  "cancel ctx now detail =
     (if status ctx = CANCELLED then Inr (plain CANCELLED (turns_used ctx))
      else if terminal (status ctx)
      then Inr \<lparr>new_status = status ctx, new_turns = turns_used ctx, new_error_kind = ctx_error_kind ctx,
                new_error_message = ctx_error_message ctx\<rparr>
      else Inr (plain CANCELLED (turns_used ctx)))"

fun advance :: "run_ctx \<Rightarrow> event_kind \<Rightarrow> clock \<Rightarrow> string option \<Rightarrow> invalid_transition + transition" where
  "advance ctx START now d = start ctx now d"
| "advance ctx MODEL_RETURNED_TEXT now d = model_text ctx now d"
| "advance ctx MODEL_RETURNED_TOOL now d = model_tool ctx now d"
| "advance ctx TOOL_RESULT now d = tool_result ctx now d"
| "advance ctx PROVIDER_EXHAUSTED now d = provider_exhausted ctx now d"
| "advance ctx MAX_TURNS_HIT now d = max_turns_hit ctx now d"
| "advance ctx CONTEXT_EXHAUSTED now d = context_exhausted ctx now d"
| "advance ctx INTERNAL_ERROR now d = internal ctx now d"
| "advance ctx DEADLINE_EXCEEDED now d = deadline ctx now d"
| "advance ctx CANCEL now d = cancel ctx now d"

definition clamp_max_turns :: "int \<Rightarrow> int \<Rightarrow> int \<Rightarrow> int \<times> bool" where
  "clamp_max_turns requested default_ceiling hard_ceiling =
     (if requested < 1 then (1, requested \<noteq> 1)
      else let cap = min default_ceiling hard_ceiling in
           if requested > cap then (cap, True) else (requested, False))"

lemmas handler_defs = start_def model_text_def model_tool_def tool_result_def provider_exhausted_def
  max_turns_hit_def context_exhausted_def internal_def deadline_def cancel_def

section \<open>Runs\<close>

definition apply_transition :: "transition \<Rightarrow> run_ctx \<Rightarrow> run_ctx" where
  "apply_transition t ctx =
     ctx \<lparr>status := new_status t, turns_used := new_turns t,
          ctx_error_kind := new_error_kind t, ctx_error_message := new_error_message t\<rparr>"

inductive step :: "run_ctx \<Rightarrow> event_kind \<Rightarrow> run_ctx \<Rightarrow> bool" where
  step: "advance ctx e now d = Inr t \<Longrightarrow> step ctx e (apply_transition t ctx)"

inductive reach :: "run_ctx \<Rightarrow> event_kind list \<Rightarrow> run_ctx \<Rightarrow> bool" for ctx0 where
  reach_init: "reach ctx0 [] ctx0"
| reach_step: "reach ctx0 es ctx \<Longrightarrow> step ctx e ctx' \<Longrightarrow> reach ctx0 (es @ [e]) ctx'"

inductive_cases stepE: "step ctx e ctx'"
inductive_simps step_iff: "step ctx e ctx'"

definition fresh_run :: "clock \<Rightarrow> int \<Rightarrow> run_ctx" where
  "fresh_run d n = \<lparr>status = QUEUED, deadline_ts = d, max_turns = n, turns_used = 0,
     ctx_error_kind = None, ctx_error_message = None\<rparr>"

definition ctx_ok :: "run_ctx \<Rightarrow> bool" where
  "ctx_ok ctx \<longleftrightarrow>
     0 \<le> turns_used ctx \<and> turns_used ctx \<le> max_turns ctx \<and>
     (status ctx \<in> {QUEUED, RUNNING, REQUIRES_TOOL} \<longrightarrow> turns_used ctx < max_turns ctx) \<and>
     (status ctx = QUEUED \<longrightarrow> turns_used ctx = 0) \<and>
     (ctx_error_kind ctx \<noteq> None \<longleftrightarrow> status ctx = FAILED) \<and>
     (ctx_error_kind ctx \<noteq> None \<longleftrightarrow> ctx_error_message ctx \<noteq> None)"

text \<open>The effect of an accepted event on a context, event by event.\<close>

lemma step_effect:
  assumes "step ctx e ctx'"
  shows "deadline_ts ctx' = deadline_ts ctx \<and> max_turns ctx' = max_turns ctx \<and>
    (terminal (status ctx) \<and> e = CANCEL \<and> status ctx' = status ctx \<and> turns_used ctx' = turns_used ctx \<or>
     \<not> terminal (status ctx) \<and> terminal (status ctx') \<and> turns_used ctx \<le> turns_used ctx' \<and> turns_used ctx' \<le> turns_used ctx + 1 \<and>
       (status ctx = RUNNING \<or> turns_used ctx' = turns_used ctx) \<or>
     status ctx \<in> {QUEUED, REQUIRES_TOOL} \<and> status ctx' = RUNNING \<and> turns_used ctx' = turns_used ctx \<or>
     status ctx = RUNNING \<and> status ctx' = REQUIRES_TOOL \<and> turns_used ctx' = turns_used ctx + 1 \<and>
       turns_used ctx' < max_turns ctx)"
proof -
  from assms obtain now d t where a: "advance ctx e now d = Inr t" "ctx' = apply_transition t ctx"
    by (auto simp: step_iff)
  then show ?thesis
    by (cases e; cases "status ctx") (auto simp: handler_defs apply_transition_def Let_def split: if_splits)
qed

lemma step_errors:
  assumes "step ctx e ctx'" and "ctx_error_kind ctx \<noteq> None \<longleftrightarrow> status ctx = FAILED"
    and "ctx_error_kind ctx \<noteq> None \<longleftrightarrow> ctx_error_message ctx \<noteq> None"
  shows "(ctx_error_kind ctx' \<noteq> None \<longleftrightarrow> status ctx' = FAILED) \<and>
    (ctx_error_kind ctx' \<noteq> None \<longleftrightarrow> ctx_error_message ctx' \<noteq> None)"
proof -
  from assms(1) obtain now d t where a: "advance ctx e now d = Inr t" "ctx' = apply_transition t ctx"
    by (auto simp: step_iff)
  with assms(2,3) show ?thesis
    by (cases e; cases "status ctx") (auto simp: handler_defs apply_transition_def Let_def split: if_splits)
qed

lemma step_ok:
  assumes "step ctx e ctx'" and "ctx_ok ctx"
  shows "ctx_ok ctx'"
proof -
  note e = step_effect [OF assms(1)]
  have "ctx_error_kind ctx \<noteq> None \<longleftrightarrow> status ctx = FAILED" "ctx_error_kind ctx \<noteq> None \<longleftrightarrow> ctx_error_message ctx \<noteq> None"
    using assms(2) unfolding ctx_ok_def by blast+
  with step_errors [OF assms(1)] e assms(2) show ?thesis
    by (cases "status ctx"; cases "status ctx'") (simp_all add: ctx_ok_def)
qed

text \<open>In every state a run can reach from its creation with a positive turn budget: the number
  of turns is between 0 and the budget and strictly below it while the run is live, an error is
  recorded exactly when the run has failed, and the deadline and the budget never change.\<close>

theorem run_invariant:
  assumes "reach (fresh_run d n) es ctx" and "1 \<le> n"
  shows "ctx_ok ctx \<and> deadline_ts ctx = d \<and> max_turns ctx = n"
  using assms(1)
proof induction
  case reach_init
  then show ?case using assms(2) by (simp add: fresh_run_def ctx_ok_def)
next
  case (reach_step es ctx e ctx')
  with step_ok step_effect show ?case by metis
qed

text \<open>A finished run stays as it finished: the only event it accepts is a cancellation, which
  changes neither its status nor its turns.\<close>

theorem terminal_absorbing:
  assumes "terminal (status ctx)"
  shows "((\<exists>t. advance ctx e now d = Inr t) \<longleftrightarrow> e = CANCEL) \<and>
    (\<forall>t. advance ctx e now d = Inr t \<longrightarrow> new_status t = status ctx \<and> new_turns t = turns_used ctx)"
  using assms by (cases e; cases "status ctx") (simp_all add: handler_defs)

theorem terminal_absorbing_witness:
  "\<not> (\<exists>t. advance ((fresh_run 10 3) \<lparr>status := COMPLETED\<rparr>) TOOL_RESULT 1 None = Inr t)"
  using terminal_absorbing [of "(fresh_run 10 3) \<lparr>status := COMPLETED\<rparr>" TOOL_RESULT 1 None] by simp

text \<open>A measure that every accepted event decreases, a cancellation of a finished run apart.\<close>

definition work_left :: "run_ctx \<Rightarrow> nat" where
  "work_left ctx =
     (case status ctx of
        QUEUED \<Rightarrow> nat (2 * (max_turns ctx - turns_used ctx) + 2)
      | RUNNING \<Rightarrow> nat (2 * (max_turns ctx - turns_used ctx) + 1)
      | REQUIRES_TOOL \<Rightarrow> nat (2 * (max_turns ctx - turns_used ctx) + 2)
      | _ \<Rightarrow> 0)"

lemma step_decreases:
  assumes "step ctx e ctx'" and "ctx_ok ctx"
  shows "work_left ctx' < work_left ctx \<or> terminal (status ctx)"
  using step_effect [OF assms(1)] assms(2)
  by (cases "status ctx"; cases "status ctx'") (auto simp: work_left_def ctx_ok_def)

lemma live_before: "step ctx e ctx' \<Longrightarrow> \<not> terminal (status ctx') \<Longrightarrow> \<not> terminal (status ctx)"
  using step_effect by fastforce

lemma reach_work:
  assumes "reach (fresh_run d n) es ctx" and "1 \<le> n" and "\<not> terminal (status ctx)"
  shows "ctx_ok ctx \<and> max_turns ctx = n \<and> int (length es) + int (work_left ctx) \<le> 2 * n + 2"
  using assms(1,3)
proof induction
  case reach_init
  then show ?case using assms(2) by (simp add: fresh_run_def ctx_ok_def work_left_def)
next
  case (reach_step es ctx e ctx')
  have l: "\<not> terminal (status ctx)" by (rule live_before [OF reach_step.hyps(2) reach_step.prems])
  with reach_step have "ctx_ok ctx" "max_turns ctx = n" "int (length es) + int (work_left ctx) \<le> 2 * n + 2" by blast+
  moreover have "work_left ctx' < work_left ctx" using step_decreases [OF reach_step.hyps(2)] calculation(1) l by blast
  moreover have "ctx_ok ctx'" "max_turns ctx' = max_turns ctx"
    using step_ok [OF reach_step.hyps(2)] step_effect [OF reach_step.hyps(2)] calculation(1) by blast+
  ultimately show ?case by simp
qed

text \<open>C28. Every run ends: after twice as many accepted events as it has turns, whatever they are, a
  run is finished.\<close>

theorem run_terminates:
  assumes "reach (fresh_run d n) es ctx" and "1 \<le> n" and "2 * n \<le> int (length es)"
  shows "terminal (status ctx)"
proof (rule ccontr)
  assume l: "\<not> terminal (status ctx)"
  note w = reach_work [OF assms(1,2) l]
  then have "3 \<le> work_left ctx" using l by (cases "status ctx") (auto simp: work_left_def ctx_ok_def)
  with w assms(3) show False by simp
qed

lemma tool_then_result:
  "reach (fresh_run 10 1) [START, MODEL_RETURNED_TOOL]
     ((fresh_run 10 1) \<lparr>status := FAILED, turns_used := 1, ctx_error_kind := Some TOOL_LOOP_EXCEEDED,
        ctx_error_message := Some (turns_message (fresh_run 10 1))\<rparr>)"
proof -
  have s: "step (fresh_run 10 1) START ((fresh_run 10 1) \<lparr>status := RUNNING\<rparr>)"
    using step.intros [of "fresh_run 10 1" START 0 None] by (simp add: start_def apply_transition_def fresh_run_def)
  have "step ((fresh_run 10 1) \<lparr>status := RUNNING\<rparr>) MODEL_RETURNED_TOOL
      ((fresh_run 10 1) \<lparr>status := FAILED, turns_used := 1, ctx_error_kind := Some TOOL_LOOP_EXCEEDED,
        ctx_error_message := Some (turns_message (fresh_run 10 1))\<rparr>)"
    using step.intros [of "(fresh_run 10 1) \<lparr>status := RUNNING\<rparr>" MODEL_RETURNED_TOOL 0 None]
    by (simp add: model_tool_def apply_transition_def fresh_run_def turns_message_def)
  with s show ?thesis using reach_step [OF reach_step [OF reach_init s]] by fastforce
qed

theorem run_terminates_witness:
  "terminal (status ((fresh_run 10 1) \<lparr>status := FAILED, turns_used := 1, ctx_error_kind := Some TOOL_LOOP_EXCEEDED,
     ctx_error_message := Some (turns_message (fresh_run 10 1))\<rparr>))"
  by (rule run_terminates [OF tool_then_result]) simp_all

theorem run_invariant_witness:
  "ctx_ok ((fresh_run 10 1) \<lparr>status := FAILED, turns_used := 1, ctx_error_kind := Some TOOL_LOOP_EXCEEDED,
     ctx_error_message := Some (turns_message (fresh_run 10 1))\<rparr>)"
  using run_invariant [OF tool_then_result] by simp

section \<open>The turn budget\<close>

text \<open>The clamp returns a budget the state machine can work with: at least one turn when the ceilings
  are positive, never more than either ceiling, and it reports a clamp exactly when the result
  differs from the request.\<close>

lemma clamp_max_turns_ok:
  assumes "1 \<le> default_ceiling" "1 \<le> hard_ceiling"
  shows "1 \<le> fst (clamp_max_turns r default_ceiling hard_ceiling)"
    and "fst (clamp_max_turns r default_ceiling hard_ceiling) \<le> min default_ceiling hard_ceiling"
    and "snd (clamp_max_turns r default_ceiling hard_ceiling) \<longleftrightarrow> fst (clamp_max_turns r default_ceiling hard_ceiling) \<noteq> r"
  using assms by (auto simp: clamp_max_turns_def Let_def)

end
