(* ===== verification/Run_Worker.thy ===== *)
theory Run_Worker
  imports Run_State Routing Error_Classes
begin

text \<open>
  Run rows, the worker that drives a run (\<^verbatim>\<open>app/runs/worker.py\<close>) and the endpoints that change one
  (\<^verbatim>\<open>app/api/runs.py\<close>). The worker's sessions keep the row they loaded when they commit
  (\<open>expire_on_commit=False\<close>), so a handler decides on a snapshot and its assignments go to the row
  as it is by then: a handler is a function of the snapshot that returns an update of the row. The
  clock readings and what the model call returned are arguments. A column assigned the value the
  session loaded is not written, the way SQLAlchemy computes an UPDATE. Streaming, replication and
  compaction are left out, and so are the events a model call emits itself before its outcome is handled (its start and
  end, rate limiting, a compaction): they take numbers of the same sequence, in the order they are
  emitted, and \<open>Run_Calls\<close> has those of the attempts.
\<close>

section \<open>Rows\<close>

record run_row =
  run_id :: ident
  run_api_key_id :: ident
  owner_node_id :: string
  run_status :: run_status
  run_deadline_ts :: clock
  run_max_turns :: int
  has_tools_spec :: bool
  model_calls :: int
  tool_calls :: int
  last_provider_id :: "ident option"
  current_tool_use :: "(string \<times> string \<times> json) option"
  result_text :: "string option"
  run_error_kind :: "error_kind option"
  run_error_message :: "string option"
  created_at :: clock
  updated_at :: clock
  completed_at :: "clock option"
  run_messages :: "(json \<times> json) list"
  run_events :: "(int \<times> string) list"

type_synonym row_update = "run_row \<Rightarrow> run_row"

definition ctx_from_row :: "run_row \<Rightarrow> run_ctx" where
  "ctx_from_row r =
     \<lparr>status = run_status r, deadline_ts = run_deadline_ts r, max_turns = run_max_turns r,
      turns_used = model_calls r, ctx_error_kind = None, ctx_error_message = None\<rparr>"

definition next_event_seq :: "run_row \<Rightarrow> int" where
  "next_event_seq r = fold max (map fst (run_events r)) 0 + 1"

definition emit :: "string \<Rightarrow> row_update" where
  "emit kind r = r \<lparr>run_events := run_events r @ [(next_event_seq r, kind)]\<rparr>"

definition persist_transition :: "clock \<Rightarrow> run_row \<Rightarrow> transition \<Rightarrow> row_update" where
  "persist_transition now snap t r =
     r \<lparr>run_status := (if new_status t \<noteq> run_status snap then new_status t else run_status r), updated_at := now,
        completed_at := (if terminal (new_status t) then Some now else completed_at r),
        run_error_kind := (if new_error_kind t \<noteq> None then new_error_kind t else run_error_kind r),
        run_error_message := (if new_error_kind t \<noteq> None then new_error_message t else run_error_message r),
        model_calls := (if new_turns t \<noteq> model_calls snap then new_turns t else model_calls r)\<rparr>"

definition append_message :: "string \<Rightarrow> json \<Rightarrow> row_update" where
  "append_message role content r = r \<lparr>run_messages := run_messages r @ [(JStr role, content)]\<rparr>"

section \<open>The worker\<close>

datatype step_result = Step_continue | Step_return | Step_wait

datatype block = Text_block string | Tool_use string string json

datatype model_outcome =
    Reply "block list"
  | Provider_exhausted string
  | Billing_hard_stop string
  | Crashed string string

type_synonym worker_step = "invalid_transition + (step_result \<times> row_update)"

definition step_check_deadline :: "clock \<Rightarrow> run_row \<Rightarrow> worker_step option" where
  "step_check_deadline now snap =
     (if terminal (run_status snap) \<or> now < run_deadline_ts snap then None
      else Some (map_result (\<lambda>t. (Step_return, \<lambda>r. emit ''expired'' (persist_transition now snap t r)))
             (advance (ctx_from_row snap) DEADLINE_EXCEEDED now None)))"

definition step_queued :: "clock \<Rightarrow> run_row \<Rightarrow> worker_step" where
  "step_queued now snap =
     map_result (\<lambda>t. (Step_continue, \<lambda>r. emit ''run_started'' (persist_transition now snap t r)))
       (advance (ctx_from_row snap) START now None)"

definition fail_run :: "clock \<Rightarrow> run_row \<Rightarrow> error_kind \<Rightarrow> string \<Rightarrow> worker_step" where
  "fail_run now snap kind detail =
     map_result (\<lambda>t. (Step_return, \<lambda>r. emit ''failed'' (persist_transition now snap t r)))
       (advance (ctx_from_row snap) (if kind = PROVIDER then PROVIDER_EXHAUSTED else INTERNAL_ERROR) now (Some detail))"

fun first_tool_use :: "block list \<Rightarrow> (string \<times> string \<times> json) option" where
  "first_tool_use [] = None"
| "first_tool_use (Tool_use i n x # bs) = Some (i, n, x)"
| "first_tool_use (Text_block t # bs) = first_tool_use bs"

definition terminal_text :: "block list \<Rightarrow> string" where
  "terminal_text bs =
     join_with [CHR 0x0A] (filter (\<lambda>t. t \<noteq> []) (concat (map (\<lambda>b. case b of Text_block t \<Rightarrow> [t] | _ \<Rightarrow> []) bs)))"

definition handle_tool_use :: "clock \<Rightarrow> run_row \<Rightarrow> string \<times> string \<times> json \<Rightarrow> worker_step" where
  "handle_tool_use now snap tool =
     map_result (\<lambda>t.
       case new_status t of
         REQUIRES_TOOL \<Rightarrow>
           (Step_continue, \<lambda>r. emit ''tool_use_requested''
              ((persist_transition now snap t r) \<lparr>current_tool_use := Some tool\<rparr>))
       | FAILED \<Rightarrow>
           (Step_return, \<lambda>r. if new_error_kind t = Some TOOL_LOOP_EXCEEDED
              then emit ''failed'' (persist_transition now snap t r) else persist_transition now snap t r)
       | EXPIRED \<Rightarrow> (Step_return, \<lambda>r. emit ''expired'' (persist_transition now snap t r))
       | _ \<Rightarrow> (Step_return, persist_transition now snap t))
       (advance (ctx_from_row snap) MODEL_RETURNED_TOOL now None)"

definition handle_terminal_text :: "clock \<Rightarrow> run_row \<Rightarrow> block list \<Rightarrow> worker_step" where
  "handle_terminal_text now snap bs =
     map_result (\<lambda>t.
       (Step_return, \<lambda>r.
          let r' = persist_transition now snap t r in
          case new_status t of
            COMPLETED \<Rightarrow> emit ''completed'' (r' \<lparr>result_text := Some (terminal_text bs)\<rparr>)
          | EXPIRED \<Rightarrow> emit ''expired'' r'
          | _ \<Rightarrow> r'))
       (advance (ctx_from_row snap) MODEL_RETURNED_TEXT now None)"

definition blocks_json :: "block list \<Rightarrow> json" where
  "blocks_json bs =
     JList (map (\<lambda>b. case b of
         Text_block t \<Rightarrow> JObj [(''type'', JStr ''text''), (''text'', JStr t)]
       | Tool_use i n x \<Rightarrow> JObj [(''type'', JStr ''tool_use''), (''id'', JStr i), (''name'', JStr n), (''input'', x)]) bs)"

definition step_running :: "clock \<Rightarrow> run_row \<Rightarrow> model_outcome \<Rightarrow> worker_step" where
  "step_running now snap outcome =
     (case outcome of
        Provider_exhausted e \<Rightarrow> fail_run now snap PROVIDER e
      | Billing_hard_stop e \<Rightarrow> fail_run now snap INTERNAL (''billing: '' @ e)
      | Crashed ty e \<Rightarrow> fail_run now snap INTERNAL (ty @ '': '' @ (if e = [] then ''no message'' else e))
      | Reply bs \<Rightarrow>
          map_result (\<lambda>(st, u). (st, \<lambda>r. u (append_message ''assistant'' (blocks_json bs) r)))
            (case first_tool_use bs of
               Some tool \<Rightarrow> handle_tool_use now snap tool
             | None \<Rightarrow> handle_terminal_text now snap bs))"

text \<open>One turn of the loop: the deadline is checked at \<open>now\<close>, the handler runs at \<open>later\<close>.\<close>

definition drive_turn :: "clock \<Rightarrow> clock \<Rightarrow> run_row \<Rightarrow> model_outcome \<Rightarrow> worker_step" where
  "drive_turn now later snap outcome =
     (case step_check_deadline now snap of
        Some s \<Rightarrow> s
      | None \<Rightarrow>
          (case run_status snap of
             QUEUED \<Rightarrow> step_queued later snap
           | RUNNING \<Rightarrow> step_running later snap outcome
           | REQUIRES_TOOL \<Rightarrow> Inr (Step_wait, id)
           | _ \<Rightarrow> Inr (Step_return, id)))"

section \<open>The endpoints\<close>

datatype http_error = Http int string | Redirect_to string | Conflict invalid_transition

text \<open>The peers this node knows a URL of; a run owned by another known node is redirected.\<close>

definition maybe_redirect_to_owner :: "string \<Rightarrow> (string \<rightharpoonup> string) \<Rightarrow> run_row \<Rightarrow> string option" where
  "maybe_redirect_to_owner own peer_urls r =
     (if owner_node_id r = [] \<or> owner_node_id r = own then None
      else case peer_urls (owner_node_id r) of
             Some u \<Rightarrow> if u = [] then None else Some u
           | None \<Rightarrow> None)"

definition cancel_run ::
  "string \<Rightarrow> (string \<rightharpoonup> string) \<Rightarrow> ident \<Rightarrow> clock \<Rightarrow> run_row option \<Rightarrow> http_error + row_update" where
  "cancel_run own peer_urls key now row =
     (case row of
        None \<Rightarrow> Inl (Http 404 ''run not found'')
      | Some r0 \<Rightarrow>
          if run_api_key_id r0 \<noteq> key then Inl (Http 403 ''run is owned by a different api key'')
          else case maybe_redirect_to_owner own peer_urls r0 of
                 Some u \<Rightarrow> Inl (Redirect_to u)
               | None \<Rightarrow>
                   (case advance (ctx_from_row r0) CANCEL now None of
                      Inl e \<Rightarrow> Inl (Conflict e)
                    | Inr t \<Rightarrow>
                        Inr (\<lambda>r. let r' = persist_transition now r0 t r
                                 in if new_status t = CANCELLED \<and> run_status r0 \<noteq> CANCELLED
                                    then emit ''cancelled'' r' else r')))"

record tool_result_body =
  body_tool_use_id :: json
  output_text :: json
  is_error :: bool

definition post_tool_result ::
  "string \<Rightarrow> (string \<rightharpoonup> string) \<Rightarrow> ident \<Rightarrow> clock \<Rightarrow> tool_result_body \<Rightarrow> run_row option \<Rightarrow> http_error + row_update" where
  "post_tool_result own peer_urls key now body row =
     (case body_tool_use_id body of
        JStr i \<Rightarrow>
          if i = [] then Inl (Http 400 ''tool_use_id is required'')
          else (case row of
             None \<Rightarrow> Inl (Http 404 ''run not found'')
           | Some r0 \<Rightarrow>
               if run_api_key_id r0 \<noteq> key then Inl (Http 403 ''run is owned by a different api key'')
               else case maybe_redirect_to_owner own peer_urls r0 of
                      Some u \<Rightarrow> Inl (Redirect_to u)
                    | None \<Rightarrow>
                        if run_status r0 = CANCELLED then Inl (Http 410 ''run was cancelled; tool result discarded'')
                        else if run_status r0 \<noteq> REQUIRES_TOOL
                        then Inl (Http 409 ''tool_result only valid in requires_tool'')
                        else if map_option fst (current_tool_use r0) \<noteq> Some i
                        then Inl (Http 409 ''tool_use_id mismatch'')
                        else (case advance (ctx_from_row r0) TOOL_RESULT now None of
                                Inl e \<Rightarrow> Inl (Conflict e)
                              | Inr t \<Rightarrow>
                                  Inr (\<lambda>r. emit ''tool_use_received''
                                    ((persist_transition now r0 t
                                       (append_message ''user''
                                         (JList [JObj [(''type'', JStr ''tool_result''), (''tool_use_id'', JStr i),
                                            (''content'', if json_truthy (output_text body) then output_text body else JStr []),
                                            (''is_error'', JBool (is_error body))]]) r))
                                     \<lparr>tool_calls := tool_calls r + 1, current_tool_use := None\<rparr>))))
      | _ \<Rightarrow> Inl (Http 400 ''tool_use_id is required''))"

definition ADOPT_OWNER_GRACE_SEC :: rat where "ADOPT_OWNER_GRACE_SEC = 30"

record peer_view =
  peer_unreachable :: bool
  last_heartbeat :: clock

definition adopt_run ::
  "string \<Rightarrow> (string \<rightharpoonup> peer_view) \<Rightarrow> ident \<Rightarrow> clock \<Rightarrow> run_row option \<Rightarrow> http_error + row_update" where
  "adopt_run own registry key now row =
     (case row of
        None \<Rightarrow> Inl (Http 404 ''run not found'')
      | Some r0 \<Rightarrow>
          if run_api_key_id r0 \<noteq> key then Inl (Http 403 ''run is owned by a different api key'')
          else if owner_node_id r0 = own then Inr id
          else if terminal (run_status r0) then Inl (Http 409 ''run already terminal'')
          else let take_over = (\<lambda>r. emit ''run_recovered'' (r \<lparr>owner_node_id := own, updated_at := now\<rparr>)) in
               (case registry (owner_node_id r0) of
                  None \<Rightarrow> Inr take_over
                | Some p \<Rightarrow>
                    if \<not> peer_unreachable p then Inl (Http 409 ''owner node appears reachable'')
                    else if last_heartbeat p \<noteq> 0 \<and> now - last_heartbeat p < ADOPT_OWNER_GRACE_SEC
                    then Inl (Http 409 ''owner node in grace'')
                    else Inr take_over))"

text \<open>The start-up sweep: the rows it announces and restarts a worker for.\<close>

definition recover_orphans :: "string \<Rightarrow> run_row list \<Rightarrow> run_row list \<times> ident list" where
  "recover_orphans own rows =
     (let mine = (\<lambda>r. owner_node_id r = own \<and> run_status r \<in> {RUNNING, REQUIRES_TOOL})
      in (map (\<lambda>r. if mine r then emit ''run_recovered'' r else r) rows, map run_id (filter mine rows)))"

section \<open>The worker against the state machine\<close>

definition erase_error :: "run_ctx \<Rightarrow> run_ctx" where
  "erase_error c = c \<lparr>ctx_error_kind := None, ctx_error_message := None\<rparr>"

definition refines_step :: "run_row \<Rightarrow> run_row \<Rightarrow> bool" where
  "refines_step r r' \<longleftrightarrow>
     ctx_from_row r' = ctx_from_row r \<or>
     (\<exists>e c. step (ctx_from_row r) e c \<and> ctx_from_row r' = erase_error c)"

lemma emit_frame [simp]:
  "run_status (emit k r) = run_status r" "run_deadline_ts (emit k r) = run_deadline_ts r"
  "run_max_turns (emit k r) = run_max_turns r" "model_calls (emit k r) = model_calls r"
  "ctx_from_row (emit k r) = ctx_from_row r" "completed_at (emit k r) = completed_at r"
  "run_error_kind (emit k r) = run_error_kind r" "run_error_message (emit k r) = run_error_message r"
  "current_tool_use (emit k r) = current_tool_use r" "result_text (emit k r) = result_text r"
  "owner_node_id (emit k r) = owner_node_id r" "run_api_key_id (emit k r) = run_api_key_id r"
  by (simp_all add: emit_def ctx_from_row_def)

lemma append_message_frame [simp]:
  "run_status (append_message k x r) = run_status r" "run_deadline_ts (append_message k x r) = run_deadline_ts r"
  "run_max_turns (append_message k x r) = run_max_turns r" "model_calls (append_message k x r) = model_calls r"
  "ctx_from_row (append_message k x r) = ctx_from_row r" "completed_at (append_message k x r) = completed_at r"
  "run_error_kind (append_message k x r) = run_error_kind r"
  "run_error_message (append_message k x r) = run_error_message r"
  "current_tool_use (append_message k x r) = current_tool_use r" "result_text (append_message k x r) = result_text r"
  "run_events (append_message k x r) = run_events r"
  by (simp_all add: append_message_def ctx_from_row_def)

text \<open>A transition persisted on the row it was computed from is the step of the state machine.\<close>

lemma persist_own_row:
  assumes "ctx_from_row r = ctx_from_row snap"
  shows "ctx_from_row (persist_transition now snap t r) = erase_error (apply_transition t (ctx_from_row snap))"
  using assms by (auto simp: ctx_from_row_def persist_transition_def erase_error_def apply_transition_def)

lemma refines_stepI:
  assumes "advance (ctx_from_row snap) e now d = Inr t" and "ctx_from_row r' = erase_error (apply_transition t (ctx_from_row snap))"
  shows "refines_step snap r'"
  using assms step.intros [of "ctx_from_row snap"] unfolding refines_step_def by blast

lemma persist_status:
  "run_status (persist_transition now snap t snap) = new_status t"
  by (simp add: persist_transition_def)

lemma persist_status_append:
  "run_status (persist_transition now snap t (append_message k x snap)) = new_status t"
  by (simp add: persist_transition_def)

lemma ctx_frame [simp]:
  "ctx_from_row (r \<lparr>current_tool_use := c\<rparr>) = ctx_from_row r" "ctx_from_row (r \<lparr>result_text := y\<rparr>) = ctx_from_row r"
  "ctx_from_row (r \<lparr>tool_calls := n\<rparr>) = ctx_from_row r" "ctx_from_row (r \<lparr>owner_node_id := own\<rparr>) = ctx_from_row r"
  "ctx_from_row (r \<lparr>updated_at := u\<rparr>) = ctx_from_row r"
  by (simp_all add: ctx_from_row_def)

lemma refines_frame [simp]:
  "refines_step r (emit k r') = refines_step r r'" "refines_step r (r' \<lparr>current_tool_use := c\<rparr>) = refines_step r r'"
  "refines_step r (r' \<lparr>result_text := y\<rparr>) = refines_step r r'" "refines_step r (r' \<lparr>tool_calls := n\<rparr>) = refines_step r r'"
  by (simp_all add: refines_step_def)

lemma refines_persist:
  assumes "advance (ctx_from_row snap) e now d = Inr t"
  shows "refines_step snap (persist_transition later snap t snap)"
    and "refines_step snap (persist_transition later snap t (append_message k x snap))"
  using assms by (rule refines_stepI; simp add: persist_own_row)+

lemma step_queued_worker:
  assumes "run_status r = QUEUED"
  shows "\<exists>u. step_queued now r = Inr (Step_continue, u) \<and> refines_step r (u r)"
proof -
  obtain t where a: "advance (ctx_from_row r) START now None = Inr t"
    using assms by (fastforce simp: start_def ctx_from_row_def)
  then show ?thesis using refines_persist(1) [OF a] by (simp add: step_queued_def)
qed

text \<open>Failures of the model call and the two kinds of reply, on a running row.\<close>

lemma fail_run_worker:
  assumes "run_status r = RUNNING"
  shows "\<exists>u. fail_run now r k d = Inr (Step_return, u) \<and> refines_step r (u r) \<and> run_status (u r) = FAILED"
proof -
  let ?e = "if k = PROVIDER then PROVIDER_EXHAUSTED else INTERNAL_ERROR"
  have s: "status (ctx_from_row r) = RUNNING" using assms by (simp add: ctx_from_row_def)
  obtain t where a: "advance (ctx_from_row r) ?e now (Some d) = Inr t" "new_status t = FAILED"
    by (cases "k = PROVIDER") (simp_all add: provider_exhausted_def internal_def s)
  then show ?thesis using refines_persist(1) [OF a(1)] by (simp add: fail_run_def persist_status)
qed

lemma handle_tool_use_worker:
  assumes "run_status r = RUNNING"
  shows "\<exists>st u. handle_tool_use now r tool = Inr (st, u) \<and> st \<noteq> Step_wait \<and>
    (\<forall>k x. refines_step r (u (append_message k x r)) \<and>
       (st = Step_return \<longrightarrow> terminal (run_status (u (append_message k x r)))))"
proof -
  have s: "status (ctx_from_row r) = RUNNING" using assms by (simp add: ctx_from_row_def)
  obtain t where a: "advance (ctx_from_row r) MODEL_RETURNED_TOOL now None = Inr t"
    "new_status t = EXPIRED \<or> new_status t = FAILED \<or> new_status t = REQUIRES_TOOL"
  proof (cases "deadline_ts (ctx_from_row r) \<le> now")
    case False
    then show thesis
      using s that by (cases "turns_used (ctx_from_row r) + 1 \<ge> max_turns (ctx_from_row r)") (simp_all add: model_tool_def)
  qed (use s that in \<open>simp add: model_tool_def\<close>)
  from a(2) show ?thesis
    using refines_persist(2) [OF a(1)] a(1)
    by (elim disjE) (simp_all add: handle_tool_use_def persist_status_append)
qed

lemma handle_terminal_text_worker:
  assumes "run_status r = RUNNING"
  shows "\<exists>u. handle_terminal_text now r bs = Inr (Step_return, u) \<and>
    (\<forall>k x. refines_step r (u (append_message k x r)) \<and> terminal (run_status (u (append_message k x r))))"
proof -
  have s: "status (ctx_from_row r) = RUNNING" using assms by (simp add: ctx_from_row_def)
  obtain t where a: "advance (ctx_from_row r) MODEL_RETURNED_TEXT now None = Inr t"
    "new_status t = EXPIRED \<or> new_status t = COMPLETED"
    using s by (cases "deadline_ts (ctx_from_row r) \<le> now") (simp_all add: model_text_def)
  from a(2) show ?thesis
    using refines_persist(2) [OF a(1)] a(1)
    by (elim disjE) (simp_all add: handle_terminal_text_def persist_status_append Let_def)
qed

lemma step_running_worker:
  assumes "run_status r = RUNNING"
  obtains st u where "step_running now r outcome = Inr (st, u)" "refines_step r (u r)"
    "st = Step_return \<longrightarrow> terminal (run_status (u r))" "st \<noteq> Step_wait"
proof (cases outcome)
  case (Reply bs)
  show thesis
  proof (cases "first_tool_use bs")
    case None
    with Reply handle_terminal_text_worker [OF assms, of now bs] that show thesis by (fastforce simp: step_running_def)
  next
    case (Some tool)
    with Reply handle_tool_use_worker [OF assms, of now tool] that show thesis by (fastforce simp: step_running_def)
  qed
next
  case (Provider_exhausted e)
  with fail_run_worker [OF assms, of now PROVIDER e] that show thesis by (fastforce simp: step_running_def)
next
  case (Billing_hard_stop e)
  with fail_run_worker [OF assms, of now INTERNAL "''billing: '' @ e"] that show thesis by (fastforce simp: step_running_def)
next
  case (Crashed c e)
  with fail_run_worker [OF assms, of now INTERNAL "c @ '': '' @ (if e = [] then ''no message'' else e)"] that
  show thesis by (fastforce simp: step_running_def)
qed

lemma drive_turn_refines:
  "\<exists>st u. drive_turn now later r outcome = Inr (st, u) \<and> refines_step r (u r) \<and>
     (st = Step_return \<longrightarrow> terminal (run_status (u r))) \<and>
     (st = Step_wait \<longleftrightarrow> run_status r = REQUIRES_TOOL \<and> now < run_deadline_ts r)"
proof -
  have d: "\<exists>u. step_check_deadline now r = Some (Inr (Step_return, u)) \<and> refines_step r (u r) \<and> terminal (run_status (u r))"
    if "\<not> terminal (run_status r)" "run_deadline_ts r \<le> now"
  proof -
    have a: "advance (ctx_from_row r) DEADLINE_EXCEEDED now None = Inr (Run_State.plain EXPIRED (model_calls r))"
      using that(1) by (simp add: deadline_def ctx_from_row_def)
    then show ?thesis
      using that refines_stepI [OF a, of "emit ''expired'' (persist_transition now r (Run_State.plain EXPIRED (model_calls r)) r)"]
      by (auto simp: step_check_deadline_def persist_own_row) (auto simp: persist_transition_def)
  qed
  have no_turn: "refines_step r r" by (simp add: refines_step_def)
  show ?thesis
  proof (cases "\<not> terminal (run_status r) \<and> run_deadline_ts r \<le> now")
    case True
    with d show ?thesis by (fastforce simp: drive_turn_def)
  next
    case False
    then have c: "step_check_deadline now r = None" by (auto simp: step_check_deadline_def)
    show ?thesis
    proof (cases "run_status r")
      case QUEUED
      obtain u where "step_queued later r = Inr (Step_continue, u)" "refines_step r (u r)"
        using step_queued_worker [OF QUEUED] by blast
      with c QUEUED show ?thesis by (auto simp: drive_turn_def)
    next
      case RUNNING
      obtain st u where "step_running later r outcome = Inr (st, u)" "refines_step r (u r)"
        "st = Step_return \<longrightarrow> terminal (run_status (u r))" "st \<noteq> Step_wait"
        by (rule step_running_worker [OF RUNNING])
      with c RUNNING show ?thesis by (auto simp: drive_turn_def)
    qed (use c no_turn False in \<open>auto simp: drive_turn_def\<close>)
  qed
qed

section \<open>Rows under serial execution\<close>

definition row_core :: "run_row \<Rightarrow> bool" where
  "row_core r \<longleftrightarrow>
     0 \<le> model_calls r \<and> model_calls r \<le> run_max_turns r \<and>
     (\<not> terminal (run_status r) \<longrightarrow> model_calls r < run_max_turns r) \<and>
     (completed_at r \<noteq> None \<longleftrightarrow> terminal (run_status r)) \<and>
     (run_error_kind r \<noteq> None \<longleftrightarrow> run_status r = FAILED) \<and>
     (run_error_message r \<noteq> None \<longleftrightarrow> run_status r = FAILED)"

definition row_ok :: "run_row \<Rightarrow> bool" where
  "row_ok r \<longleftrightarrow>
     row_core r \<and> (run_status r = REQUIRES_TOOL \<longrightarrow> current_tool_use r \<noteq> None) \<and>
     (result_text r \<noteq> None \<longleftrightarrow> run_status r = COMPLETED) \<and>
     map fst (run_events r) = [1..int (length (run_events r))]"

lemma ctx_from_row_sel [simp]:
  "status (ctx_from_row r) = run_status r" "turns_used (ctx_from_row r) = model_calls r"
  "max_turns (ctx_from_row r) = run_max_turns r" "deadline_ts (ctx_from_row r) = run_deadline_ts r"
  "ctx_error_kind (ctx_from_row r) = None" "ctx_error_message (ctx_from_row r) = None"
  by (simp_all add: ctx_from_row_def)

lemma transition_errors:
  assumes "advance (ctx_from_row r) e now d = Inr t" and "\<not> terminal (run_status r)"
  shows "(new_error_kind t \<noteq> None \<longleftrightarrow> new_status t = FAILED) \<and> (new_error_message t \<noteq> None \<longleftrightarrow> new_status t = FAILED)"
  using assms by (cases e) (auto simp: handler_defs Let_def split: if_splits)

lemma transition_terminal:
  assumes "advance (ctx_from_row r) e now d = Inr t" and "terminal (run_status r)"
  shows "new_status t = run_status r \<and> new_turns t = model_calls r \<and> new_error_kind t = None"
  using assms by (cases e; cases "run_status r") (auto simp: handler_defs)

lemma transition_turns:
  assumes "advance (ctx_from_row r) e now d = Inr t" and "\<not> terminal (run_status r)" and "row_core r"
  shows "0 \<le> new_turns t \<and> new_turns t \<le> run_max_turns r \<and> (\<not> terminal (new_status t) \<longrightarrow> new_turns t < run_max_turns r)"
proof -
  have m: "0 \<le> model_calls r" "model_calls r < run_max_turns r" using assms(2,3) by (simp_all add: row_core_def)
  from step_effect [OF step.intros [OF assms(1)]] assms(2)
  have "(terminal (new_status t) \<and> model_calls r \<le> new_turns t \<and> new_turns t \<le> model_calls r + 1) \<or>
      new_turns t = model_calls r \<or> (new_turns t = model_calls r + 1 \<and> new_turns t < run_max_turns r)"
    by (simp add: apply_transition_def) blast
  with m show ?thesis by auto
qed

lemma row_core_frame [simp]:
  "row_core (emit k r) = row_core r" "row_core (append_message k x r) = row_core r"
  "row_core (r \<lparr>current_tool_use := c\<rparr>) = row_core r" "row_core (r \<lparr>result_text := y\<rparr>) = row_core r"
  "row_core (r \<lparr>tool_calls := n\<rparr>) = row_core r" "row_core (r \<lparr>owner_node_id := own, updated_at := u\<rparr>) = row_core r"
  by (simp_all add: row_core_def)

lemma persist_append:
  "persist_transition now snap t (append_message k x r) = append_message k x (persist_transition now snap t r)"
  by (simp add: persist_transition_def append_message_def)

lemma persist_core:
  assumes "advance (ctx_from_row r) e n d = Inr t" and "row_core r"
  shows "row_core (persist_transition now r t r)"
proof (cases "terminal (run_status r)")
  case True
  with transition_terminal [OF assms(1)] assms(2) show ?thesis by (auto simp: persist_transition_def row_core_def)
next
  case False
  with transition_errors [OF assms(1)] transition_turns [OF assms(1)] assms(2)
  have "run_error_kind r = None" "run_error_message r = None" "completed_at r = None"
    by (auto simp: row_core_def)
  with transition_errors [OF assms(1) False] transition_turns [OF assms(1) False assms(2)] assms(2)
  show ?thesis by (auto simp: persist_transition_def row_core_def)
qed

lemma numbered_snoc:
  assumes "map fst es = [1..int (length es)]"
  shows "map fst (es @ [(fold max (map fst es) 0 + 1, k)]) = [1..1 + int (length es)]"
proof -
  have "fold max [1..int n] 0 = int n" for n
    by (induction n) (simp_all add: upto_rec2)
  with assms show ?thesis by (simp add: upto_rec2 add.commute)
qed

lemma emit_numbered:
  assumes "map fst (run_events r) = [1..int (length (run_events r))]"
  shows "map fst (run_events (emit k r)) = [1..int (length (run_events (emit k r)))]"
  using numbered_snoc [OF assms, of k] by (simp add: emit_def next_event_seq_def)

lemma persist_frame [simp]:
  "current_tool_use (persist_transition now snap t r) = current_tool_use r"
  "result_text (persist_transition now snap t r) = result_text r"
  "run_events (persist_transition now snap t r) = run_events r"
  "run_max_turns (persist_transition now snap t r) = run_max_turns r"
  "run_deadline_ts (persist_transition now snap t r) = run_deadline_ts r"
  by (simp_all add: persist_transition_def)

lemma row_ok_emit: "row_ok r \<Longrightarrow> row_ok (emit k r)"
  using emit_numbered [of r k] by (simp add: row_ok_def)

lemma row_ok_append: "row_ok r \<Longrightarrow> row_ok (append_message k x r)"
  by (simp add: row_ok_def)

lemma persist_ok:
  assumes "advance (ctx_from_row r) e n d = Inr t" and "row_ok r"
    and "\<not> terminal (run_status r) \<Longrightarrow> new_status t \<noteq> COMPLETED \<and> new_status t \<noteq> REQUIRES_TOOL"
  shows "row_ok (persist_transition now r t r)"
proof -
  have c: "row_core (persist_transition now r t r)"
    by (rule persist_core [OF assms(1)]) (use assms(2) in \<open>simp add: row_ok_def\<close>)
  show ?thesis
  proof (cases "terminal (run_status r)")
    case True
    with transition_terminal [OF assms(1)] c assms(2) show ?thesis by (simp add: row_ok_def persist_status)
  next
    case False
    moreover have "result_text r = None" using assms(2) False by (auto simp: row_ok_def)
    ultimately show ?thesis using assms(3) c assms(2) by (simp add: row_ok_def persist_status)
  qed
qed

lemma persist_tool_ok:
  assumes "advance (ctx_from_row r) e n d = Inr t" and "row_ok r" and "\<not> terminal (run_status r)" and "new_status t = REQUIRES_TOOL"
  shows "row_ok ((persist_transition now r t r) \<lparr>current_tool_use := Some c\<rparr>)"
proof -
  have "row_core (persist_transition now r t r)"
    by (rule persist_core [OF assms(1)]) (use assms(2) in \<open>simp add: row_ok_def\<close>)
  moreover have "result_text r = None" using assms(2,3) by (auto simp: row_ok_def)
  ultimately show ?thesis using assms(2,4) by (simp add: row_ok_def persist_status)
qed

lemma persist_text_ok:
  assumes "advance (ctx_from_row r) e n d = Inr t" and "row_ok r" and "new_status t = COMPLETED"
  shows "row_ok ((persist_transition now r t r) \<lparr>result_text := Some c\<rparr>)"
proof -
  have "row_core (persist_transition now r t r)"
    by (rule persist_core [OF assms(1)]) (use assms(2) in \<open>simp add: row_ok_def\<close>)
  then show ?thesis using assms(2,3) by (simp add: row_ok_def persist_status)
qed

lemmas row_ok_intros = row_ok_emit row_ok_append persist_ok persist_tool_ok persist_text_ok

lemma append_current [simp]:
  "(append_message k x r) \<lparr>current_tool_use := c\<rparr> = append_message k x (r \<lparr>current_tool_use := c\<rparr>)"
  "(append_message k x r) \<lparr>result_text := y\<rparr> = append_message k x (r \<lparr>result_text := y\<rparr>)"
  by (simp_all add: append_message_def)

text \<open>One lemma for each handler: the row it leaves is well formed.\<close>

lemma deadline_ok:
  assumes "step_check_deadline now r = Some (Inr (st, u))" and "row_ok r"
  shows "row_ok (u r)"
proof -
  obtain t where a: "advance (ctx_from_row r) DEADLINE_EXCEEDED now None = Inr t"
    and u: "u r = emit ''expired'' (persist_transition now r t r)"
    using assms(1) by (auto simp: step_check_deadline_def map_result_Inr simp del: advance.simps split: if_splits)
  then have "new_status t = EXPIRED \<or> terminal (run_status r)" by (auto simp: deadline_def split: if_splits)
  then show ?thesis unfolding u using a assms(2) by (auto intro!: row_ok_emit persist_ok simp del: advance.simps)
qed

lemma queued_ok:
  assumes "step_queued now r = Inr (st, u)" and "row_ok r"
  shows "row_ok (u r)"
proof -
  obtain t where a: "advance (ctx_from_row r) START now None = Inr t"
    and u: "u r = emit ''run_started'' (persist_transition now r t r)"
    using assms(1) by (auto simp: step_queued_def map_result_Inr simp del: advance.simps)
  then have "new_status t = EXPIRED \<or> new_status t = RUNNING" by (auto simp: start_def split: if_splits)
  then show ?thesis unfolding u using a assms(2) by (auto intro!: row_ok_emit persist_ok simp del: advance.simps)
qed

lemma fail_ok:
  assumes "fail_run now r k d = Inr (st, u)" and "row_ok r"
  shows "row_ok (u r)"
proof -
  let ?e = "if k = PROVIDER then PROVIDER_EXHAUSTED else INTERNAL_ERROR"
  obtain t where a: "advance (ctx_from_row r) ?e now (Some d) = Inr t"
    and u: "u r = emit ''failed'' (persist_transition now r t r)"
    using assms(1) by (auto simp: fail_run_def map_result_Inr simp del: advance.simps)
  then have "new_status t = FAILED" by (auto simp: provider_exhausted_def internal_def split: if_splits)
  then show ?thesis unfolding u using a assms(2) by (auto intro!: row_ok_emit persist_ok simp del: advance.simps)
qed

lemma tool_use_ok:
  assumes "handle_tool_use now r tool = Inr (st, u)" and "row_ok r" and "run_status r = RUNNING"
  shows "row_ok (u (append_message k x r))"
proof -
  obtain t where a: "advance (ctx_from_row r) MODEL_RETURNED_TOOL now None = Inr t"
    using assms(1) by (auto simp: handle_tool_use_def map_result_Inr simp del: advance.simps)
  then have t: "new_status t = EXPIRED \<or> new_status t = FAILED \<or> new_status t = REQUIRES_TOOL"
    by (auto simp: model_tool_def Let_def split: if_splits)
  have "row_ok (persist_transition now r t r)" if "new_status t \<noteq> REQUIRES_TOOL"
    by (rule persist_ok [OF a assms(2)]) (use that t in auto)
  moreover have "row_ok ((persist_transition now r t r) \<lparr>current_tool_use := Some tool\<rparr>)" if "new_status t = REQUIRES_TOOL"
    using persist_tool_ok [OF a assms(2)] that assms(3) by simp
  ultimately show ?thesis
    using t assms(1) a by (auto simp: handle_tool_use_def persist_append row_ok_emit row_ok_append simp del: advance.simps)
qed

lemma terminal_text_ok:
  assumes "handle_terminal_text now r bs = Inr (st, u)" and "row_ok r" and "run_status r = RUNNING"
  shows "row_ok (u (append_message k x r))"
proof -
  obtain t where a: "advance (ctx_from_row r) MODEL_RETURNED_TEXT now None = Inr t"
    using assms(1) by (auto simp: handle_terminal_text_def map_result_Inr simp del: advance.simps)
  then have t: "new_status t = EXPIRED \<or> new_status t = COMPLETED"
    by (auto simp: model_text_def split: if_splits)
  have "row_ok (persist_transition now r t r)" if "new_status t = EXPIRED"
    by (rule persist_ok [OF a assms(2)]) (use that in auto)
  moreover have "row_ok ((persist_transition now r t r) \<lparr>result_text := Some (terminal_text bs)\<rparr>)" if "new_status t = COMPLETED"
    by (rule persist_text_ok [OF a assms(2) that])
  ultimately show ?thesis
    using t assms(1) a
    by (auto simp: handle_terminal_text_def persist_append row_ok_emit row_ok_append Let_def simp del: advance.simps)
qed

lemma running_ok:
  assumes "step_running now r outcome = Inr (st, u)" and "row_ok r" and "run_status r = RUNNING"
  shows "row_ok (u r)"
  using assms fail_ok tool_use_ok terminal_text_ok
  by (auto simp: step_running_def map_result_Inr split: model_outcome.splits option.splits)

lemma drive_turn_ok:
  assumes "drive_turn now later r outcome = Inr (st, u)" and "row_ok r"
  shows "row_ok (u r)"
proof (cases "step_check_deadline now r")
  case (Some s)
  with assms deadline_ok show ?thesis by (simp add: drive_turn_def)
next
  case None
  with assms queued_ok running_ok show ?thesis by (cases "run_status r") (auto simp: drive_turn_def)
qed

lemma cancel_run_ok:
  assumes "cancel_run own peer_urls key now (Some r) = Inr u" and "row_ok r"
  shows "row_ok (u r) \<and> refines_step r (u r)"
proof -
  obtain t where a: "advance (ctx_from_row r) CANCEL now None = Inr t"
    and u: "u r = emit ''cancelled'' (persist_transition now r t r) \<or> u r = persist_transition now r t r"
    using assms(1)
    by (auto simp: cancel_run_def Let_def simp del: advance.simps split: if_splits option.splits sum.splits)
  have "row_ok (persist_transition now r t r)"
    by (rule persist_ok [OF a assms(2)]) (use a in \<open>auto simp: cancel_def split: if_splits\<close>)
  moreover have "refines_step r (persist_transition now r t r)" by (rule refines_persist(1) [OF a])
  ultimately show ?thesis using u row_ok_emit by auto
qed

lemma tool_result_ok:
  assumes "post_tool_result own peer_urls key now body (Some r) = Inr u" and "row_ok r"
  shows "row_ok (u r) \<and> refines_step r (u r)"
proof -
  obtain t k x where a: "advance (ctx_from_row r) TOOL_RESULT now None = Inr t" and q: "run_status r = REQUIRES_TOOL"
    and u: "u r = emit ''tool_use_received''
      ((persist_transition now r t (append_message k x r)) \<lparr>tool_calls := tool_calls r + 1, current_tool_use := None\<rparr>)"
    using assms(1)
    by (auto simp: post_tool_result_def Let_def simp del: advance.simps split: if_splits option.splits sum.splits json.splits)
  have t: "new_status t = EXPIRED \<or> new_status t = RUNNING"
    using a by (auto simp: tool_result_def split: if_splits)
  have "row_ok (persist_transition now r t r)"
    by (rule persist_ok [OF a assms(2)]) (use t in auto)
  then have "row_ok ((persist_transition now r t (append_message k x r)) \<lparr>tool_calls := tool_calls r + 1, current_tool_use := None\<rparr>)"
    using t by (auto simp: row_ok_def persist_append persist_status)
  then show ?thesis unfolding u using refines_persist(2) [OF a] row_ok_emit by simp
qed

lemma adopt_run_ok:
  assumes "adopt_run own registry key now (Some r) = Inr u" and "row_ok r"
  shows "row_ok (u r) \<and> refines_step r (u r)"
proof -
  have "u r = r \<or> u r = emit ''run_recovered'' (r \<lparr>owner_node_id := own, updated_at := now\<rparr>)"
    using assms(1) by (auto simp: adopt_run_def Let_def split: if_splits option.splits)
  moreover have "row_ok (r \<lparr>owner_node_id := own, updated_at := now\<rparr>)" using assms(2) by (simp add: row_ok_def)
  moreover have "ctx_from_row (r \<lparr>owner_node_id := own, updated_at := now\<rparr>) = ctx_from_row r" by (simp add: ctx_from_row_def)
  ultimately show ?thesis using assms(2) row_ok_emit by (auto simp: refines_step_def)
qed

text \<open>Serial execution: each operation runs on the row as the one before it left it.\<close>

inductive serial_step :: "run_row \<Rightarrow> run_row \<Rightarrow> bool" where
  turn: "drive_turn now later r outcome = Inr (st, u) \<Longrightarrow> serial_step r (u r)"
| cancel: "cancel_run own peer_urls key now (Some r) = Inr u \<Longrightarrow> serial_step r (u r)"
| result: "post_tool_result own peer_urls key now body (Some r) = Inr u \<Longrightarrow> serial_step r (u r)"
| adopt: "adopt_run own registry key now (Some r) = Inr u \<Longrightarrow> serial_step r (u r)"

lemma serial_step_ok:
  assumes "serial_step r r'" and "row_ok r"
  shows "row_ok r' \<and> refines_step r r'"
  using assms
proof cases
  case (turn now later outcome st u)
  then show ?thesis using drive_turn_refines [of now later r outcome] drive_turn_ok assms(2) by auto
qed (use assms(2) cancel_run_ok tool_result_ok adopt_run_ok in blast)+

text \<open>C6. The worker follows the state machine. On the row it loaded, a turn of the loop never fails with
  an invalid transition; what it writes is one accepted step of the state machine or no step at
  all; when it stops driving the run, the run is finished; and it waits exactly when a tool result
  is due and the deadline has not passed.\<close>

theorem worker_refines:
  "\<exists>st u. drive_turn now later r outcome = Inr (st, u) \<and> refines_step r (u r) \<and>
     (st = Step_return \<longrightarrow> terminal (run_status (u r))) \<and>
     (st = Step_wait \<longleftrightarrow> run_status r = REQUIRES_TOOL \<and> now < run_deadline_ts r)"
  by (rule drive_turn_refines)

text \<open>The row \<open>create_run\<close> inserts.\<close>

definition new_run_row :: "ident \<Rightarrow> ident \<Rightarrow> string \<Rightarrow> clock \<Rightarrow> int \<Rightarrow> bool \<Rightarrow> clock \<Rightarrow> (json \<times> json) list \<Rightarrow> run_row" where
  "new_run_row rid key own d n tools now msgs =
     \<lparr>run_id = rid, run_api_key_id = key, owner_node_id = own, run_status = QUEUED, run_deadline_ts = d,
      run_max_turns = n, has_tools_spec = tools, model_calls = 0, tool_calls = 0, last_provider_id = None,
      current_tool_use = None, result_text = None, run_error_kind = None, run_error_message = None,
      created_at = now, updated_at = now, completed_at = None, run_messages = msgs, run_events = []\<rparr>"

lemma new_run_row_ok: "1 \<le> n \<Longrightarrow> row_ok (new_run_row rid key own d n tools now msgs)"
  by (simp add: new_run_row_def row_ok_def row_core_def)

lemma refines_terminal:
  assumes "refines_step r r'" and "terminal (run_status r)"
  shows "run_status r' = run_status r"
proof -
  have s: "run_status x = status (ctx_from_row x)" for x by simp
  from assms(1) show ?thesis unfolding refines_step_def
  proof (elim disjE exE conjE)
    fix e c assume "step (ctx_from_row r) e c" and c: "ctx_from_row r' = erase_error c"
    then have "status c = run_status r" using step_effect assms(2) by fastforce
    then show ?thesis unfolding s [of r'] c by (simp add: erase_error_def)
  qed (metis s)
qed

text \<open>C7. Under serial execution of worker turns, cancellations, tool results and adoptions, every row
  a run reaches is well formed: the turn budget holds, the completion time, the error and the
  result are set exactly in the states they belong to, a run waiting for a tool names the tool, and
  the events are numbered 1, 2, 3 and so on. A finished run keeps its status.\<close>

theorem serial_run_ok:
  assumes "serial_step\<^sup>*\<^sup>* (new_run_row rid key own d n tools now msgs) r" and "1 \<le> n"
  shows "row_ok r \<and> (terminal (run_status r) \<longrightarrow> (\<forall>r'. serial_step r r' \<longrightarrow> run_status r' = run_status r))"
proof -
  have "row_ok r" using assms(1)
    by (induction rule: rtranclp_induct) (use new_run_row_ok [OF assms(2)] serial_step_ok in blast)+
  then show ?thesis using serial_step_ok refines_terminal by blast
qed

definition demo_row :: run_row where
  "demo_row = new_run_row ''run_1'' ''k'' ''n1'' 100 2 True 1 []"

definition demo_running :: run_row where
  "demo_running = (case step_queued 5 demo_row of Inr (st, u) \<Rightarrow> u demo_row | Inl _ \<Rightarrow> demo_row)"

lemma demo_started: "serial_step demo_row demo_running"
proof -
  obtain u where u: "drive_turn 5 5 demo_row (Reply []) = Inr (Step_continue, u)" "step_queued 5 demo_row = Inr (Step_continue, u)"
    by (simp add: demo_row_def new_run_row_def drive_turn_def step_check_deadline_def step_queued_def start_def ctx_from_row_def)
  from serial_step.turn [OF u(1)] show ?thesis by (simp add: demo_running_def u(2))
qed

theorem serial_run_ok_witness: "row_ok demo_running"
  using serial_run_ok [of "''run_1''" "''k''" "''n1''" 100 2 True 1 "[]" demo_running] demo_started
  by (simp add: demo_row_def r_into_rtranclp)

theorem worker_refines_witness:
  "\<exists>st u. drive_turn 5 5 demo_running (Reply [Text_block ''done'']) = Inr (st, u) \<and> refines_step demo_running (u demo_running)"
  using worker_refines [of 5 5 demo_running "Reply [Text_block ''done'']"] by blast

section \<open>Cancellation\<close>

definition may_change :: "string \<Rightarrow> (string \<rightharpoonup> string) \<Rightarrow> ident \<Rightarrow> run_row \<Rightarrow> bool" where
  "may_change own peer_urls key r \<longleftrightarrow> run_api_key_id r = key \<and> maybe_redirect_to_owner own peer_urls r = None"

lemma cancel_run_cases:
  assumes "may_change own peer_urls key r"
  shows "cancel_run own peer_urls key now (Some r) =
    Inr (\<lambda>x. if terminal (run_status r)
             then persist_transition now r \<lparr>new_status = run_status r, new_turns = model_calls r,
                    new_error_kind = None, new_error_message = None\<rparr> x
             else emit ''cancelled'' (persist_transition now r (Run_State.plain CANCELLED (model_calls r)) x))"
proof (cases "run_status r = CANCELLED")
  case True
  with assms show ?thesis by (simp add: cancel_run_def may_change_def cancel_def)
next
  case False
  with assms show ?thesis
    by (cases "terminal (run_status r)") (auto simp: cancel_run_def may_change_def cancel_def)
qed

lemma persist_keys [simp]:
  "run_api_key_id (persist_transition now snap t r) = run_api_key_id r"
  "owner_node_id (persist_transition now snap t r) = owner_node_id r"
  by (simp_all add: persist_transition_def)

text \<open>Cancelling is idempotent for the caller's view: after one accepted cancellation the run is
  finished, and cancelling again is accepted and changes neither its status nor its events. The
  completion time is not kept: every cancellation of a finished run moves it.\<close>

theorem cancel_idempotent:
  assumes "cancel_run own peer_urls key now (Some r) = Inr u"
  shows "terminal (run_status (u r)) \<and>
    (\<exists>u'. cancel_run own peer_urls key later (Some (u r)) = Inr u' \<and>
       run_status (u' (u r)) = run_status (u r) \<and> run_events (u' (u r)) = run_events (u r) \<and>
       completed_at (u' (u r)) = Some later)"
proof -
  have m: "may_change own peer_urls key r"
    using assms by (auto simp: cancel_run_def may_change_def split: if_splits option.splits)
  have u: "u r = (if terminal (run_status r)
      then persist_transition now r (Run_State.plain (run_status r) (model_calls r)) r
      else emit ''cancelled'' (persist_transition now r (Run_State.plain CANCELLED (model_calls r)) r))"
    using assms unfolding cancel_run_cases [OF m] by auto
  then have t: "terminal (run_status (u r))" and "owner_node_id (u r) = owner_node_id r" "run_api_key_id (u r) = run_api_key_id r"
    by (simp_all add: persist_status)
  with m have m': "may_change own peer_urls key (u r)"
    unfolding may_change_def maybe_redirect_to_owner_def by metis
  from t show ?thesis
    unfolding cancel_run_cases [OF m'] by (auto simp: persist_transition_def)
qed

theorem cancel_idempotent_witness:
  "\<exists>u. cancel_run ''n1'' (\<lambda>_. None) ''k'' 7 (Some demo_row) = Inr u \<and> terminal (run_status (u demo_row))"
proof -
  have "may_change ''n1'' (\<lambda>_. None) ''k'' demo_row"
    by (simp add: may_change_def maybe_redirect_to_owner_def demo_row_def new_run_row_def)
  from cancel_run_cases [OF this] obtain u where u: "cancel_run ''n1'' (\<lambda>_. None) ''k'' 7 (Some demo_row) = Inr u" by blast
  with cancel_idempotent [OF u] show ?thesis by blast
qed

text \<open>A cancellation can be lost. When a run is cancelled while the worker waits for the model, and the
  model then answers with text before the deadline, the worker, still holding the row it loaded,
  overwrites the cancelled status: the run ends completed, and its event log has both a
  cancelled and a completed event.\<close>

theorem cancel_lost:
  assumes "run_status r = RUNNING" and "may_change own peer_urls key r"
    and "now < run_deadline_ts r" and "later < run_deadline_ts r" and "first_tool_use bs = None"
  shows "\<exists>uc uw. cancel_run own peer_urls key t (Some r) = Inr uc \<and>
    drive_turn now later r (Reply bs) = Inr (Step_return, uw) \<and>
    run_status (uc r) = CANCELLED \<and> run_status (uw (uc r)) = COMPLETED \<and>
    map snd (run_events (uw (uc r))) = map snd (run_events r) @ [''cancelled'', ''completed'']"
proof -
  have "advance (ctx_from_row r) MODEL_RETURNED_TEXT later None = Inr (Run_State.plain COMPLETED (model_calls r + 1))"
    using assms(1,4) by (simp add: model_text_def)
  moreover have "step_check_deadline now r = None" using assms(3) by (simp add: step_check_deadline_def)
  ultimately show ?thesis
    using assms(1,5) unfolding cancel_run_cases [OF assms(2)]
    by (simp add: drive_turn_def step_running_def handle_terminal_text_def del: advance.simps)
       (simp add: persist_transition_def emit_def append_message_def)
qed

theorem cancel_lost_witness:
  "\<exists>uc uw. cancel_run ''n1'' (\<lambda>_. None) ''k'' 6 (Some demo_running) = Inr uc \<and>
     drive_turn 5 7 demo_running (Reply [Text_block ''done'']) = Inr (Step_return, uw) \<and>
     run_status (uc demo_running) = CANCELLED \<and> run_status (uw (uc demo_running)) = COMPLETED"
proof -
  have "run_status demo_running = RUNNING" "may_change ''n1'' (\<lambda>_. None) ''k'' demo_running" "run_deadline_ts demo_running = 100"
    by (simp_all add: demo_running_def demo_row_def new_run_row_def step_queued_def start_def may_change_def
        maybe_redirect_to_owner_def persist_transition_def)
  from cancel_lost [OF this(1,2), of 5 7 "[Text_block ''done'']" 6] this(3) show ?thesis by fastforce
qed

section \<open>Tool results\<close>

text \<open>A tool result is consumed at most once and only by the call it answers: when it is accepted,
  the run was waiting for exactly this tool call and the poster holds the run's key, and posting the
  same result again, by anyone and at any time, is refused and changes nothing.\<close>

theorem tool_result_once:
  assumes "post_tool_result own peer_urls key now body (Some r) = Inr u"
  shows "run_status r = REQUIRES_TOOL \<and> run_api_key_id r = key \<and>
    map_option (\<lambda>c. JStr (fst c)) (current_tool_use r) = Some (body_tool_use_id body) \<and>
    current_tool_use (u r) = None \<and> tool_calls (u r) = tool_calls r + 1 \<and>
    (\<exists>e. post_tool_result own' peer_urls' key' later body (Some (u r)) = Inl e)"
proof -
  obtain i where i: "body_tool_use_id body = JStr i" "i \<noteq> []"
    using assms by (auto simp: post_tool_result_def split: json.splits if_splits)
  obtain t k x where a: "advance (ctx_from_row r) TOOL_RESULT now None = Inr t" and q: "run_status r = REQUIRES_TOOL"
    "run_api_key_id r = key" "map_option fst (current_tool_use r) = Some i"
    and u: "u r = emit ''tool_use_received''
      ((persist_transition now r t (append_message k x r)) \<lparr>tool_calls := tool_calls r + 1, current_tool_use := None\<rparr>)"
    using assms i
    by (auto simp: post_tool_result_def Let_def simp del: advance.simps split: if_splits option.splits sum.splits)
  have "new_status t = EXPIRED \<or> new_status t = RUNNING"
    using a by (auto simp: tool_result_def split: if_splits)
  then have s: "run_status (u r) \<noteq> REQUIRES_TOOL" unfolding u by (auto simp: persist_status_append)
  then have "\<exists>e. post_tool_result own' peer_urls' key' later body (Some (u r)) = Inl e"
    by (auto simp: post_tool_result_def simp del: advance.simps split: json.splits option.splits)
  moreover have "current_tool_use (u r) = None" "tool_calls (u r) = tool_calls r + 1" unfolding u by (simp_all add: emit_def)
  ultimately show ?thesis using q i by auto
qed

definition demo_waiting :: run_row where
  "demo_waiting = demo_row \<lparr>run_status := REQUIRES_TOOL, model_calls := 1, current_tool_use := Some (''t1'', ''ls'', JObj [])\<rparr>"

theorem tool_result_once_witness:
  "\<exists>u e. post_tool_result ''n1'' (\<lambda>_. None) ''k'' 7 \<lparr>body_tool_use_id = JStr ''t1'', output_text = JStr ''a'', is_error = False\<rparr>
      (Some demo_waiting) = Inr u \<and>
    post_tool_result ''n1'' (\<lambda>_. None) ''k'' 8 \<lparr>body_tool_use_id = JStr ''t1'', output_text = JStr ''a'', is_error = False\<rparr>
      (Some (u demo_waiting)) = Inl e"
proof -
  let ?b = "\<lparr>body_tool_use_id = JStr ''t1'', output_text = JStr ''a'', is_error = False\<rparr>"
  obtain u where u: "post_tool_result ''n1'' (\<lambda>_. None) ''k'' 7 ?b (Some demo_waiting) = Inr u"
    by (simp add: post_tool_result_def demo_waiting_def demo_row_def new_run_row_def maybe_redirect_to_owner_def tool_result_def)
  from tool_result_once [OF u, of "''n1''" "\<lambda>_. None" "''k''" 8] u show ?thesis by blast
qed

text \<open>A result posted after the deadline expires the run, but the event it leaves is the receipt of the
  result; the worker finds the run finished and adds nothing, so no expired event is ever emitted.\<close>

lemma late_result_no_expired_event:
  assumes "post_tool_result own peer_urls key now body (Some r) = Inr u" and "run_deadline_ts r \<le> now"
  shows "run_status (u r) = EXPIRED \<and> map snd (run_events (u r)) = map snd (run_events r) @ [''tool_use_received''] \<and>
    drive_turn now' later' (u r) outcome = Inr (Step_return, id)"
proof -
  obtain t k x where a: "advance (ctx_from_row r) TOOL_RESULT now None = Inr t" and q: "run_status r = REQUIRES_TOOL"
    and u: "u r = emit ''tool_use_received''
      ((persist_transition now r t (append_message k x r)) \<lparr>tool_calls := tool_calls r + 1, current_tool_use := None\<rparr>)"
    using assms(1)
    by (auto simp: post_tool_result_def Let_def simp del: advance.simps split: if_splits option.splits sum.splits json.splits)
  from a q assms(2) have "new_status t = EXPIRED" by (auto simp: tool_result_def split: if_splits)
  then have s: "run_status (u r) = EXPIRED" unfolding u by (simp add: persist_status_append)
  then show ?thesis by (simp add: drive_turn_def step_check_deadline_def) (simp add: u emit_def)
qed

text \<open>The start-up sweep restarts no run that is still queued.\<close>

lemma queued_not_recovered:
  assumes "run_status r = QUEUED" and "distinct (map run_id rows)" and "r \<in> set rows"
  shows "run_id r \<notin> set (snd (recover_orphans own rows))"
proof
  assume "run_id r \<in> set (snd (recover_orphans own rows))"
  then obtain r' where r': "r' \<in> set rows" "run_id r' = run_id r" "run_status r' \<in> {RUNNING, REQUIRES_TOOL}"
    by (auto simp: recover_orphans_def Let_def)
  with assms(2,3) have "r' = r" by (meson inj_onD distinct_map)
  with r'(3) assms(1) show False by simp
qed

end
