(* ===== verification/Run_Create.thy ===== *)
theory Run_Create
  imports Run_Worker
begin

text \<open>
  Creating a run (\<^verbatim>\<open>create_run\<close> of \<^verbatim>\<open>app/api/runs.py\<close>) and the idempotency cache in front of the
  \<^verbatim>\<open>run_idempotency\<close> table (\<^verbatim>\<open>app/runs/idempotency.py\<close>). The cache is an ordered dictionary, an
  association list with the least recently used entry first. The tables and the cache are one
  state record; a failed commit leaves the tables as they were but not the cache.
\<close>

section \<open>The idempotency cache\<close>

type_synonym idem_key = "ident \<times> string"
type_synonym idem_entries = "(idem_key \<times> ident \<times> clock) list"

definition IDEMPOTENCY_TTL_SEC :: rat where "IDEMPOTENCY_TTL_SEC = 24 * 60 * 60"

definition DEFAULT_MAX_SIZE :: nat where "DEFAULT_MAX_SIZE = 10000"

definition pop_key :: "'k \<Rightarrow> ('k \<times> 'v) list \<Rightarrow> ('k \<times> 'v) list" where
  "pop_key k c = filter (\<lambda>e. fst e \<noteq> k) c"

definition move_to_end :: "'k \<Rightarrow> 'v \<Rightarrow> ('k \<times> 'v) list \<Rightarrow> ('k \<times> 'v) list" where
  "move_to_end k v c = pop_key k c @ [(k, v)]"

fun evict :: "nat \<Rightarrow> 'e list \<Rightarrow> 'e list" where
  "evict n [] = []"
| "evict n (e # es) = (if n < length (e # es) then evict n es else e # es)"

definition cache_get :: "clock \<Rightarrow> idem_key \<Rightarrow> idem_entries \<Rightarrow> ident option \<times> idem_entries" where
  "cache_get now k c =
     (case map_of c k of
        None \<Rightarrow> (None, c)
      | Some (rid, ts) \<Rightarrow>
          if now - ts \<ge> IDEMPOTENCY_TTL_SEC then (None, pop_key k c)
          else (Some rid, move_to_end k (rid, ts) c))"

definition cache_put :: "nat \<Rightarrow> idem_key \<Rightarrow> ident \<Rightarrow> clock \<Rightarrow> idem_entries \<Rightarrow> idem_entries" where
  "cache_put n k rid ts c = evict n (move_to_end k (rid, ts) c)"

definition invalidate :: "idem_key \<Rightarrow> idem_entries \<Rightarrow> idem_entries" where
  "invalidate k c = pop_key k c"

text \<open>The interface of a bounded cache with expiry, in front of a store: what it holds of a key is what
  was last put there or nothing, a hit is fresh, and its size stays within the bound. A client
  whose puts agree with the store finds every hit in the store.\<close>

locale replay_cache =
  fixes held :: "'c \<Rightarrow> 'k \<Rightarrow> ('v \<times> rat) option"
    and get :: "rat \<Rightarrow> 'k \<Rightarrow> 'c \<Rightarrow> 'v option \<times> 'c"
    and put :: "'k \<Rightarrow> 'v \<Rightarrow> rat \<Rightarrow> 'c \<Rightarrow> 'c"
    and drop_key :: "'k \<Rightarrow> 'c \<Rightarrow> 'c"
    and invar :: "'c \<Rightarrow> bool"
    and ttl :: rat
  assumes get_hit: "fst (get now k c) = Some v \<Longrightarrow> \<exists>ts. held c k = Some (v, ts) \<and> now - ts < ttl"
    and get_held: "invar c \<Longrightarrow> held (snd (get now k c)) k' = None \<or> held (snd (get now k c)) k' = held c k'"
    and put_held: "invar c \<Longrightarrow> held (put k v ts c) k' = None \<or>
      held (put k v ts c) k' = (if k' = k then Some (v, ts) else held c k')"
    and drop_held: "invar c \<Longrightarrow> held (drop_key k c) k' = (if k' = k then None else held c k')"
    and get_invar: "invar c \<Longrightarrow> invar (snd (get now k c))"
    and put_invar: "invar c \<Longrightarrow> invar (put k v ts c)"
    and drop_invar: "invar c \<Longrightarrow> invar (drop_key k c)"
begin

text \<open>Agreement with a store: what the cache holds is in the store, or stands for a value gone.\<close>

definition agrees :: "('k \<rightharpoonup> 'v \<times> rat) \<Rightarrow> ('v \<Rightarrow> bool) \<Rightarrow> 'c \<Rightarrow> bool" where
  "agrees store live c \<longleftrightarrow> invar c \<and> (\<forall>k v ts. held c k = Some (v, ts) \<longrightarrow> store k = Some (v, ts) \<or> \<not> live v)"

lemma agrees_get: "agrees store live c \<Longrightarrow> agrees store live (snd (get now k c))"
  unfolding agrees_def using get_held get_invar by (metis option.distinct(1))

lemma agrees_drop: "agrees store live c \<Longrightarrow> agrees store live (drop_key k c)"
  unfolding agrees_def using drop_held drop_invar by (metis option.distinct(1))

lemma agrees_put:
  assumes "agrees store live c" and "store k = Some (v, ts) \<or> \<not> live v"
  shows "agrees store live (put k v ts c)"
  using assms unfolding agrees_def using put_held put_invar by (metis option.distinct(1) option.inject prod.inject)

lemma hit_in_store:
  assumes "agrees store live c" and "fst (get now k c) = Some v" and "live v"
  shows "\<exists>ts. store k = Some (v, ts) \<and> now - ts < ttl"
  using assms get_hit unfolding agrees_def by blast

end

definition cache_invar :: "nat \<Rightarrow> idem_entries \<Rightarrow> bool" where
  "cache_invar n c \<longleftrightarrow> distinct (map fst c) \<and> length c \<le> n"

lemma pop_key_map_of: "map_of (pop_key k c) k' = (if k' = k then None else map_of c k')"
  by (induction c) (auto simp: pop_key_def)

lemma pop_key_distinct: "distinct (map fst c) \<Longrightarrow> distinct (map fst (pop_key k c))"
  by (simp add: pop_key_def distinct_map_filter)

lemma pop_key_absent: "k \<notin> fst ` set (pop_key k c)"
  by (auto simp: pop_key_def)

lemma pop_key_length: "length (pop_key k c) \<le> length c"
  by (simp add: pop_key_def)

lemma evict_drop: "evict n c = drop (length c - n) c"
  by (induction c) (auto simp: Suc_diff_le)

lemma evict_held:
  assumes "distinct (map fst c)"
  shows "map_of (evict n c) k = None \<or> map_of (evict n c) k = map_of c k"
proof (cases "map_of (evict n c) k")
  case (Some v)
  then have "(k, v) \<in> set c" using map_of_SomeD set_drop_subset unfolding evict_drop by fastforce
  with assms Some show ?thesis by (simp add: map_of_is_SomeI)
qed simp

lemma move_to_end_distinct: "distinct (map fst c) \<Longrightarrow> distinct (map fst (move_to_end k v c))"
  by (simp add: move_to_end_def pop_key_distinct pop_key_absent)

lemma move_to_end_map_of: "map_of (move_to_end k v c) k' = (if k' = k then Some v else map_of c k')"
  by (simp add: move_to_end_def map_add_def pop_key_map_of split: option.splits)

lemma move_to_end_length: "map_of c k \<noteq> None \<Longrightarrow> length (move_to_end k v c) \<le> length c"
proof -
  assume "map_of c k \<noteq> None"
  then obtain e where "e \<in> set c" "fst e = k" by (metis map_of_eq_None_iff imageE)
  then have "length (pop_key k c) < length c" unfolding pop_key_def by (intro length_filter_less) auto
  then show ?thesis by (simp add: move_to_end_def)
qed

interpretation idem: replay_cache map_of cache_get "cache_put n" invalidate "cache_invar n" IDEMPOTENCY_TTL_SEC
  for n
proof unfold_locales
  show "\<exists>ts. map_of c k = Some (v, ts) \<and> now - ts < IDEMPOTENCY_TTL_SEC"
    if "fst (cache_get now k c) = Some v" for now k c v
    using that by (auto simp: cache_get_def split: option.splits if_splits)
  show "map_of (snd (cache_get now k c)) k' = None \<or> map_of (snd (cache_get now k c)) k' = map_of c k'"
    if "cache_invar n c" for c now k k'
    by (auto simp: cache_get_def pop_key_map_of move_to_end_map_of split: option.splits)
  show "map_of (cache_put n k v ts c) k' = None \<or>
      map_of (cache_put n k v ts c) k' = (if k' = k then Some (v, ts) else map_of c k')"
    if "cache_invar n c" for c k v ts k'
  proof -
    have "distinct (map fst (move_to_end k (v, ts) c))"
      by (rule move_to_end_distinct) (use that in \<open>simp add: cache_invar_def\<close>)
    from evict_held [OF this, of n k'] show ?thesis by (simp add: cache_put_def move_to_end_map_of)
  qed
  show "map_of (invalidate k c) k' = (if k' = k then None else map_of c k')" if "cache_invar n c" for c k k'
    by (simp add: invalidate_def pop_key_map_of)
  show "cache_invar n (snd (cache_get now k c))" if "cache_invar n c" for c now k
  proof -
    have d: "distinct (map fst c)" "length c \<le> n" using that by (simp_all add: cache_invar_def)
    show ?thesis
    proof (cases "map_of c k")
      case (Some v)
      then have "length (move_to_end k w c) \<le> n" for w using d(2) move_to_end_length [of c k w] by simp
      moreover have "length (pop_key k c) \<le> n" using d(2) pop_key_length [of k c] by simp
      ultimately show ?thesis
        using Some d(1) by (cases v) (simp add: cache_get_def cache_invar_def pop_key_distinct move_to_end_distinct)
    qed (use that in \<open>simp add: cache_get_def\<close>)
  qed
  show "cache_invar n (cache_put n k v ts c)" if "cache_invar n c" for c k v ts
    using move_to_end_distinct [of c k "(v, ts)"] that
    by (auto simp: cache_put_def cache_invar_def evict_drop drop_map [symmetric])
  show "cache_invar n (invalidate k c)" if "cache_invar n c" for c k
    using that pop_key_length [of k c] by (simp add: invalidate_def cache_invar_def pop_key_distinct)
qed

section \<open>Creating a run\<close>

definition IDEMPOTENCY_KEY_MAX_LEN :: nat where "IDEMPOTENCY_KEY_MAX_LEN = 256"
definition DEFAULT_TURNS_CEILING :: int where "DEFAULT_TURNS_CEILING = 50"
definition HARD_TURNS_CEILING :: int where "HARD_TURNS_CEILING = 200"

definition runs_max_turns_ceiling :: "int \<Rightarrow> int" where
  "runs_max_turns_ceiling setting = max 1 (min setting HARD_TURNS_CEILING)"

text \<open>\<open>int(x)\<close> of a decoded value, None where Python raises.\<close>

fun json_int :: "json \<Rightarrow> int option" where
  "json_int (JNum q) = Some (if q < 0 then - \<lfloor>- q\<rfloor> else \<lfloor>q\<rfloor>)"
| "json_int (JBool b) = Some (if b then 1 else 0)"
| "json_int (JStr s) = (case py_int s of Inr n \<Rightarrow> Some n | Inl _ \<Rightarrow> None)"
| "json_int _ = None"

text \<open>A number for \<open>isinstance(x, (int, float))\<close>; booleans are integers in Python.\<close>

fun json_number :: "json \<Rightarrow> rat option" where
  "json_number (JNum q) = Some q"
| "json_number (JBool b) = Some (if b then 1 else 0)"
| "json_number _ = None"

datatype create_error = Bad_request string | Server_error | Commit_failed

record create_args =
  ca_idempotency_key :: "string option"
  ca_deadline :: rat
  ca_max_turns :: int
  ca_clamped :: bool

definition parse_create :: "int \<Rightarrow> (string \<times> json) list \<Rightarrow> create_error + create_args" where
  "parse_create setting body =
     bind_result
       (case json_get body ''idempotency_key'' of
          JNull \<Rightarrow> Inr None
        | JStr s \<Rightarrow> if length s > IDEMPOTENCY_KEY_MAX_LEN then Inl (Bad_request ''idempotency_key exceeds 256 chars'')
                    else Inr (Some s)
        | _ \<Rightarrow> Inl (Bad_request ''idempotency_key must be a string''))
       (\<lambda>ik.
          case json_number (json_get body ''deadline_ts'') of
            None \<Rightarrow> Inl (Bad_request ''deadline_ts (unix seconds, future) is required'')
          | Some d \<Rightarrow>
              if d \<le> 0 then Inl (Bad_request ''deadline_ts (unix seconds, future) is required'')
              else (case (let m = json_get body ''max_turns'' in
                          if json_truthy m then json_int m else Some DEFAULT_TURNS_CEILING) of
                      None \<Rightarrow> Inl Server_error
                    | Some n \<Rightarrow>
                        let (turns, clamped) = clamp_max_turns n (runs_max_turns_ceiling setting) HARD_TURNS_CEILING
                        in Inr \<lparr>ca_idempotency_key = ik, ca_deadline = d, ca_max_turns = turns, ca_clamped = clamped\<rparr>))"

text \<open>The conversation seed. A message that is not an object has no \<open>get\<close>; a role is stored as it came,
  and the commit fails when SQLite cannot bind it. The columns of a run that no operation here
  reads are left out.\<close>

fun seed_messages :: "json list \<Rightarrow> (json \<times> json) list option" where
  "seed_messages [] = Some []"
| "seed_messages (JObj kvs # ms) =
     map_option (Cons (case map_of kvs ''role'' of Some x \<Rightarrow> x | None \<Rightarrow> JStr ''user'',
                       case map_of kvs ''content'' of Some x \<Rightarrow> x | None \<Rightarrow> JStr [])) (seed_messages ms)"
| "seed_messages _ = None"

text \<open>What SQLite takes as the value of a text column.\<close>

fun bindable :: "json \<Rightarrow> bool" where
  "bindable (JList _) = False"
| "bindable (JObj _) = False"
| "bindable _ = True"

definition seed :: "(string \<times> json) list \<Rightarrow> (json \<times> json) list option" where
  "seed body =
     (let sys = json_get body ''system''; ms = json_get body ''messages'' in
      map_option (\<lambda>msgs. (if json_truthy sys then [(JStr ''system'', sys)] else []) @ msgs)
        (if \<not> json_truthy ms then Some []
         else case ms of JList xs \<Rightarrow> seed_messages xs | _ \<Rightarrow> None))"

definition text_columns_ok :: "(string \<times> json) list \<Rightarrow> (json \<times> json) list \<Rightarrow> bool" where
  "text_columns_ok body msgs \<longleftrightarrow>
     bindable (json_get body ''system'') \<and> list_all (\<lambda>(r, _). bindable r \<and> r \<noteq> JNull) msgs"

record run_store =
  runs :: "run_row list"
  idem_rows :: idem_entries
  idem_cache :: idem_entries

datatype create_response = Created ident | Replayed ident

definition find_run :: "ident \<Rightarrow> run_row list \<Rightarrow> run_row option" where
  "find_run rid rs = find (\<lambda>r. run_id r = rid) rs"

text \<open>The replay lookup: the cache first, then the table; \<open>None\<close> lets the creation go on.\<close>

definition replay_table :: "nat \<Rightarrow> clock \<Rightarrow> idem_key \<Rightarrow> run_store \<Rightarrow> ident option \<times> run_store" where
  "replay_table n now k st =
     (case map_of (idem_rows st) k of
        Some (rid, ts) \<Rightarrow>
          if now - ts < IDEMPOTENCY_TTL_SEC \<and> find_run rid (runs st) \<noteq> None
          then (Some rid, st \<lparr>idem_cache := cache_put n k rid ts (idem_cache st)\<rparr>)
          else (None, st)
      | None \<Rightarrow> (None, st))"

definition replay :: "nat \<Rightarrow> clock \<Rightarrow> idem_key \<Rightarrow> run_store \<Rightarrow> ident option \<times> run_store" where
  "replay n now k st =
     (let (hit, c) = cache_get now k (idem_cache st); st' = st \<lparr>idem_cache := c\<rparr> in
      case hit of
        Some rid \<Rightarrow>
          if find_run rid (runs st) \<noteq> None then (Some rid, st')
          else replay_table n now k (st' \<lparr>idem_cache := invalidate k c\<rparr>)
      | None \<Rightarrow> replay_table n now k st')"

definition created_row ::
  "string \<Rightarrow> ident \<Rightarrow> clock \<Rightarrow> ident \<Rightarrow> (string \<times> json) list \<Rightarrow> create_args \<Rightarrow> (json \<times> json) list \<Rightarrow> run_row" where
  "created_row own key now rid body a msgs =
     (let row = new_run_row rid key own (ca_deadline a) (ca_max_turns a) (json_truthy (json_get body ''tools'')) now msgs
      in if ca_clamped a then emit ''max_turns_clamped'' row else row)"

definition insert_run ::
  "nat \<Rightarrow> string \<Rightarrow> ident \<Rightarrow> clock \<Rightarrow> ident \<Rightarrow> (string \<times> json) list \<Rightarrow> create_args \<Rightarrow> run_store \<Rightarrow>
   (create_error + create_response) \<times> run_store" where
  "insert_run n own key now rid body a st =
     (case seed body of
        None \<Rightarrow> (Inl Server_error, st)
      | Some msgs \<Rightarrow>
          let st' = (case ca_idempotency_key a of
                       Some ik \<Rightarrow> st \<lparr>idem_cache := cache_put n (key, ik) rid now (idem_cache st)\<rparr>
                     | None \<Rightarrow> st);
              clash = (\<not> text_columns_ok body msgs \<or> find_run rid (runs st) \<noteq> None \<or>
                       (\<exists>ik \<in> set_option (ca_idempotency_key a). map_of (idem_rows st) (key, ik) \<noteq> None))
          in if clash then (Inl Commit_failed, st')
             else (Inr (Created rid),
                   st' \<lparr>runs := runs st @ [created_row own key now rid body a msgs],
                        idem_rows := idem_rows st @
                          (case ca_idempotency_key a of Some ik \<Rightarrow> [((key, ik), (rid, now))] | None \<Rightarrow> [])\<rparr>))"

definition create_run ::
  "nat \<Rightarrow> int \<Rightarrow> string \<Rightarrow> ident \<Rightarrow> clock \<Rightarrow> ident \<Rightarrow> (string \<times> json) list \<Rightarrow> run_store \<Rightarrow>
   (create_error + create_response) \<times> run_store" where
  "create_run n setting own key now rid body st =
     (case parse_create setting body of
        Inl e \<Rightarrow> (Inl e, st)
      | Inr a \<Rightarrow>
          (case ca_idempotency_key a of
             None \<Rightarrow> insert_run n own key now rid body a st
           | Some ik \<Rightarrow>
               (case replay n now (key, ik) st of
                  (Some old, st') \<Rightarrow> (Inr (Replayed old), st')
                | (None, st') \<Rightarrow> insert_run n own key now rid body a st')))"

section \<open>Idempotency\<close>

definition live_run :: "run_store \<Rightarrow> ident \<Rightarrow> bool" where
  "live_run st rid \<longleftrightarrow> rid \<in> run_id ` set (runs st)"

lemma find_run_live [simp]:
  "find_run rid (runs st) = None \<longleftrightarrow> \<not> live_run st rid" "(\<exists>r. find_run rid (runs st) = Some r) \<longleftrightarrow> live_run st rid"
proof -
  show n: "find_run rid (runs st) = None \<longleftrightarrow> \<not> live_run st rid"
    by (auto simp: find_run_def find_None_iff live_run_def)
  then show "(\<exists>r. find_run rid (runs st) = Some r) \<longleftrightarrow> live_run st rid" by fastforce
qed

lemma live_run_frame [simp]:
  "live_run (st \<lparr>idem_cache := c\<rparr>) = live_run st" "live_run (st \<lparr>idem_rows := x\<rparr>) = live_run st"
  "live_run (st \<lparr>runs := runs st @ [r]\<rparr>) rid \<longleftrightarrow> live_run st rid \<or> rid = run_id r"
  by (auto simp: live_run_def fun_eq_iff)

definition store_ok :: "nat \<Rightarrow> run_store \<Rightarrow> bool" where
  "store_ok n st \<longleftrightarrow>
     distinct (map run_id (runs st)) \<and> distinct (map fst (idem_rows st)) \<and> cache_invar n (idem_cache st) \<and>
     (\<forall>k rid ts. map_of (idem_cache st) k = Some (rid, ts) \<longrightarrow>
        map_of (idem_rows st) k = Some (rid, ts) \<or> \<not> live_run st rid)"

lemma store_ok_agrees:
  "store_ok n st \<longleftrightarrow> distinct (map run_id (runs st)) \<and> distinct (map fst (idem_rows st)) \<and>
     idem.agrees n (map_of (idem_rows st)) (live_run st) (idem_cache st)"
  by (auto simp: store_ok_def idem.agrees_def)

lemma replay_frame: "runs (snd (replay n now k st)) = runs st \<and> idem_rows (snd (replay n now k st)) = idem_rows st"
  by (auto simp: replay_def replay_table_def Let_def split: prod.splits option.splits)

lemma replay_table_ok: "store_ok n st \<Longrightarrow> store_ok n (snd (replay_table n now k st))"
  using idem.agrees_put [of n "map_of (idem_rows st)" "live_run st" "idem_cache st" k]
  by (auto simp: replay_table_def store_ok_agrees simp del: map_of_eq_Some_iff split: option.splits)

lemma replay_ok:
  assumes "store_ok n st"
  shows "store_ok n (snd (replay n now k st))"
proof -
  obtain hit c where c: "cache_get now k (idem_cache st) = (hit, c)" by fastforce
  have a: "idem.agrees n (map_of (idem_rows st)) (live_run st) c"
    using idem.agrees_get [of n _ _ "idem_cache st" now k] assms by (simp add: c store_ok_agrees)
  with assms have o: "store_ok n (st \<lparr>idem_cache := c\<rparr>)" "store_ok n (st \<lparr>idem_cache := invalidate k c\<rparr>)"
    using idem.agrees_drop by (simp_all add: store_ok_agrees)
  show ?thesis
    using o(1) replay_table_ok [OF o(1)] replay_table_ok [OF o(2)] by (auto simp: replay_def c Let_def split: option.splits)
qed

lemma hit_live:
  assumes "store_ok n st" and "cache_get now k (idem_cache st) = (Some rid, c)" and "live_run st rid"
  shows "\<exists>ts. map_of (idem_rows st) k = Some (rid, ts) \<and> now - ts < IDEMPOTENCY_TTL_SEC"
proof (rule idem.hit_in_store [where live = "live_run st"])
  show "idem.agrees n (map_of (idem_rows st)) (live_run st) (idem_cache st)" using assms(1) by (simp add: store_ok_agrees)
qed (simp_all add: assms(2,3))

text \<open>A key of the table that is fresh and whose run exists is found, whatever the cache holds.\<close>

lemma replay_found:
  assumes "store_ok n st" and "map_of (idem_rows st) k = Some (old, ts)"
  shows "fst (replay n now k st) = (if now - ts < IDEMPOTENCY_TTL_SEC \<and> live_run st old then Some old else None)"
proof -
  obtain hit c where c: "cache_get now k (idem_cache st) = (hit, c)" by fastforce
  have t: "fst (replay_table n now k (st \<lparr>idem_cache := x\<rparr>)) =
      (if now - ts < IDEMPOTENCY_TTL_SEC \<and> live_run st old then Some old else None)" for x
    using assms(2) by (simp add: replay_table_def)
  show ?thesis
  proof (cases hit)
    case (Some rid)
    show ?thesis
    proof (cases "live_run st rid")
      case True
      with hit_live [OF assms(1), of now k rid c] c Some assms(2) have "rid = old" "now - ts < IDEMPOTENCY_TTL_SEC" by auto
      with c Some True show ?thesis by (simp add: replay_def)
    qed (use c Some t [of "invalidate k c"] in \<open>simp add: replay_def\<close>)
  qed (use c t [of c] in \<open>simp add: replay_def\<close>)
qed

lemma replay_unknown:
  assumes "store_ok n st" and "map_of (idem_rows st) k = None"
  shows "fst (replay n now k st) = None"
proof -
  obtain hit c where c: "cache_get now k (idem_cache st) = (hit, c)" by fastforce
  have t: "fst (replay_table n now k (st \<lparr>idem_cache := x\<rparr>)) = None" for x
    using assms(2) by (simp add: replay_table_def)
  show ?thesis
  proof (cases hit)
    case (Some rid)
    have "\<not> live_run st rid" using hit_live [OF assms(1), of now k rid c] c Some assms(2) by auto
    with c Some t [of "invalidate k c"] show ?thesis by (simp add: replay_def)
  qed (use c t [of c] in \<open>simp add: replay_def\<close>)
qed

definition fresh_id :: "ident \<Rightarrow> run_store \<Rightarrow> bool" where
  "fresh_id rid st \<longleftrightarrow> \<not> live_run st rid \<and> rid \<notin> (fst \<circ> snd) ` set (idem_cache st)"

lemma emit_id [simp]: "run_id (emit k r) = run_id r"
  by (simp add: emit_def)

lemma created_row_id [simp]: "run_id (created_row own key now rid body a msgs) = rid"
  by (simp add: created_row_def new_run_row_def Let_def)

lemma insert_run_created:
  assumes "fst (insert_run n own key now rid body a st) = Inr resp"
  shows "resp = Created rid \<and> \<not> live_run st rid \<and> live_run (snd (insert_run n own key now rid body a st)) rid \<and>
    (\<forall>ik. ca_idempotency_key a = Some ik \<longrightarrow>
       map_of (idem_rows st) (key, ik) = None \<and>
       map_of (idem_rows (snd (insert_run n own key now rid body a st))) (key, ik) = Some (rid, now))"
  using assms
  by (auto simp: insert_run_def Let_def live_run_def new_run_row_def map_add_def split: option.splits if_splits)

lemma agrees_cong:
  assumes "idem.agrees n store live c"
    and "\<And>k v ts. map_of c k = Some (v, ts) \<Longrightarrow> store k = Some (v, ts) \<or> \<not> live v \<Longrightarrow> store' k = Some (v, ts) \<or> \<not> live' v"
  shows "idem.agrees n store' live' c"
  using assms by (auto simp: idem.agrees_def)

lemma insert_run_ok:
  assumes "store_ok n st" and "fresh_id rid st"
  shows "store_ok n (snd (insert_run n own key now rid body a st))"
proof -
  let ?c = "idem_cache st" and ?store = "map_of (idem_rows st)"
  have base: "distinct (map run_id (runs st))" "distinct (map fst (idem_rows st))" "idem.agrees n ?store (live_run st) ?c"
    using assms(1) by (simp_all add: store_ok_agrees)
  have dead: "\<not> live_run st rid" and nc: "map_of ?c k \<noteq> Some (rid, ts)" for k ts
    using assms(2) by (force simp: fresh_id_def dest!: map_of_SomeD)+
  have put: "idem.agrees n ?store (live_run st) (cache_put n (key, ik) rid now ?c)" for ik
    by (rule idem.agrees_put [OF base(3)]) (use dead in simp)
  show ?thesis
  proof (cases "fst (insert_run n own key now rid body a st)")
    case (Inl e)
    with put base show ?thesis
      by (auto simp: insert_run_def store_ok_agrees Let_def split: option.splits if_splits)
  next
    case (Inr resp)
    then obtain msgs where m: "seed body = Some msgs" by (auto simp: insert_run_def split: option.splits)
    let ?row = "created_row own key now rid body a msgs"
    have new: "\<forall>ik. ca_idempotency_key a = Some ik \<longrightarrow> ?store (key, ik) = None"
      using insert_run_created [OF Inr] by simp
    have st': "snd (insert_run n own key now rid body a st) =
        st \<lparr>idem_cache := (case ca_idempotency_key a of Some ik \<Rightarrow> cache_put n (key, ik) rid now ?c | None \<Rightarrow> ?c),
            runs := runs st @ [?row],
            idem_rows := idem_rows st @ (case ca_idempotency_key a of Some ik \<Rightarrow> [((key, ik), (rid, now))] | None \<Rightarrow> [])\<rparr>"
      using Inr m by (cases "ca_idempotency_key a") (simp_all add: insert_run_def Let_def split: if_splits)
    let ?rows = "idem_rows (snd (insert_run n own key now rid body a st))"
    let ?live = "live_run (snd (insert_run n own key now rid body a st))"
    have rows: "map_of ?rows k = (if (\<exists>ik. ca_idempotency_key a = Some ik \<and> k = (key, ik)) then Some (rid, now) else ?store k)" for k
      using new by (auto simp: st' map_add_def split: option.splits)
    have live: "?live v \<longleftrightarrow> live_run st v \<or> v = rid" for v
      by (auto simp: st' live_run_def)
    have keep: "idem.agrees n (map_of ?rows) ?live ?c"
      by (rule agrees_cong [OF base(3)]) (use new nc in \<open>auto simp: rows live\<close>)
    have "idem.agrees n (map_of ?rows) ?live (idem_cache (snd (insert_run n own key now rid body a st)))"
    proof (cases "ca_idempotency_key a")
      case (Some ik)
      then have "map_of ?rows (key, ik) = Some (rid, now)" by (simp add: rows)
      with idem.agrees_put [OF keep] Some show ?thesis by (simp add: st')
    qed (use keep in \<open>simp add: st'\<close>)
    moreover have "distinct (map run_id (runs st @ [?row]))" using base(1) dead by (simp add: live_run_def)
    moreover have "distinct (map fst ?rows)"
      using base(2) new by (auto simp: st' map_of_eq_None_iff split: option.splits)
    ultimately show ?thesis by (simp add: store_ok_agrees st')
  qed
qed

text \<open>The lookup adds no run id to the cache but those of the table, so a fresh id stays fresh.\<close>

lemma cache_get_ids: "(fst \<circ> snd) ` set (snd (cache_get now k c)) \<subseteq> (fst \<circ> snd) ` set c"
proof -
  have "(fst \<circ> snd) ` set (pop_key k c) \<subseteq> (fst \<circ> snd) ` set c" by (auto simp: pop_key_def)
  then show ?thesis
    by (auto simp: cache_get_def move_to_end_def dest!: map_of_SomeD split: option.splits) force
qed

lemma replay_fresh:
  assumes "store_ok n st" and "fresh_id rid st" and "fst (replay n now k st) = None"
  shows "fresh_id rid (snd (replay n now k st))"
proof -
  obtain hit c where c: "cache_get now k (idem_cache st) = (hit, c)" by fastforce
  have s: "(fst \<circ> snd) ` set c \<subseteq> (fst \<circ> snd) ` set (idem_cache st)"
    using cache_get_ids [of now k "idem_cache st"] by (simp add: c)
  have "(fst \<circ> snd) ` set (invalidate k c) \<subseteq> (fst \<circ> snd) ` set c" by (auto simp: invalidate_def pop_key_def)
  with s have f: "fresh_id rid (st \<lparr>idem_cache := c\<rparr>)" "fresh_id rid (st \<lparr>idem_cache := invalidate k c\<rparr>)"
    using assms(2) unfolding fresh_id_def by (simp_all add: subset_iff) blast+
  have t: "snd (replay_table n now k s') = s'" if "fst (replay_table n now k s') = None" for s'
    using that by (auto simp: replay_table_def split: option.splits if_splits)
  show ?thesis
    using f t [of "st \<lparr>idem_cache := c\<rparr>"] t [of "st \<lparr>idem_cache := invalidate k c\<rparr>"] assms(3)
    by (auto simp: replay_def c Let_def split: option.splits if_splits)
qed

lemma store_ok_bound: "store_ok n st \<Longrightarrow> length (idem_cache st) \<le> n"
  by (simp add: store_ok_def cache_invar_def)

lemma create_ok:
  assumes "store_ok n st" and "fresh_id rid st"
  shows "store_ok n (snd (create_run n setting own key now rid body st))"
proof (cases "parse_create setting body")
  case (Inr a)
  show ?thesis
  proof (cases "ca_idempotency_key a")
    case None
    with Inr insert_run_ok [OF assms] show ?thesis by (simp add: create_run_def)
  next
    case (Some ik)
    obtain hit st' where r: "replay n now (key, ik) st = (hit, st')" by fastforce
    have o: "store_ok n st'" using replay_ok [OF assms(1), of now "(key, ik)"] by (simp add: r)
    show ?thesis
    proof (cases hit)
      case None
      have "fst (replay n now (key, ik) st) = None" by (simp add: r None)
      then have "fresh_id rid st'" using replay_fresh [OF assms] r by (metis snd_conv)
      with insert_run_ok [OF o] Inr Some r None show ?thesis by (simp add: create_run_def)
    qed (use Inr Some r o in \<open>simp add: create_run_def\<close>)
  qed
qed (use assms(1) in \<open>simp add: create_run_def\<close>)

text \<open>C32. The idempotency state stays consistent: run ids and idempotency keys stay unique, the cache
  stays within its size, and an entry of the cache is the entry of the table or points to no run,
  after any request to create a run, accepted or not, also when the commit fails.\<close>

theorem create_keeps_store:
  assumes "store_ok n st" and "fresh_id rid st"
  shows "store_ok n (snd (create_run n setting own key now rid body st)) \<and>
    length (idem_cache (snd (create_run n setting own key now rid body st))) \<le> n"
  using create_ok [OF assms] store_ok_bound by blast

lemma replayed_create:
  assumes "store_ok n st" and "map_of (idem_rows st) (key, ik) = Some (old, ts)" and "live_run st old"
    and "now - ts < IDEMPOTENCY_TTL_SEC" and "parse_create setting body = Inr a" and "ca_idempotency_key a = Some ik"
  shows "fst (create_run n setting own key now rid body st) = Inr (Replayed old) \<and>
    runs (snd (create_run n setting own key now rid body st)) = runs st"
proof -
  have "fst (replay n now (key, ik) st) = Some old"
    using replay_found [OF assms(1,2), of now] assms(3,4) by simp
  with replay_frame [of n now "(key, ik)" st] assms(5,6) show ?thesis
    by (auto simp: create_run_def split: prod.splits option.splits)
qed

text \<open>C33. A duplicate creates nothing: when a request with an idempotency key created a run, any later
  well-formed request of the same key with it, within 24 hours and whatever else its body says,
  returns that run and adds none.\<close>

theorem duplicate_returns_run:
  assumes "store_ok n st" and "fresh_id rid st"
    and "parse_create setting body = Inr a" "ca_idempotency_key a = Some ik"
    and "create_run n setting own key now rid body st = (Inr (Created rid), st')"
    and "parse_create setting body' = Inr a'" "ca_idempotency_key a' = Some ik"
    and "later - now < IDEMPOTENCY_TTL_SEC"
  shows "fst (create_run n setting own' key later rid' body' st') = Inr (Replayed rid) \<and>
    runs (snd (create_run n setting own' key later rid' body' st')) = runs st'"
proof -
  have o: "store_ok n st'" using create_ok [OF assms(1,2), of setting own key now body] by (simp add: assms(5))
  obtain hit s where r: "replay n now (key, ik) st = (hit, s)" by fastforce
  with assms(3,4,5) have i: "insert_run n own key now rid body a s = (Inr (Created rid), st')"
    by (auto simp: create_run_def split: option.splits)
  have "map_of (idem_rows st') (key, ik) = Some (rid, now)" "live_run st' rid"
    using insert_run_created [of n own key now rid body a s "Created rid"] i assms(4) by simp_all
  from replayed_create [OF o this assms(8,6,7)] show ?thesis .
qed

text \<open>An idempotency key is dead after 24 hours. Once the table holds a run for a key, a well-formed
  request with it made 24 hours later or more creates no run: its insertion collides with the row
  of the table, which is never removed, and the request fails.\<close>

theorem stale_key_blocked:
  assumes "store_ok n st" and "map_of (idem_rows st) (key, ik) = Some (old, ts)" and "IDEMPOTENCY_TTL_SEC \<le> now - ts"
    and "parse_create setting body = Inr a" "ca_idempotency_key a = Some ik" and "seed body = Some msgs"
  shows "fst (create_run n setting own key now rid body st) = Inl Commit_failed \<and>
    runs (snd (create_run n setting own key now rid body st)) = runs st \<and>
    idem_rows (snd (create_run n setting own key now rid body st)) = idem_rows st"
proof -
  obtain hit s where r: "replay n now (key, ik) st = (hit, s)" by fastforce
  have "hit = None" using replay_found [OF assms(1,2), of now] assms(3) by (simp add: r)
  moreover have "runs s = runs st" "idem_rows s = idem_rows st" using replay_frame [of n now "(key, ik)" st] by (simp_all add: r)
  ultimately show ?thesis using assms(2,4,5,6) r by (auto simp: create_run_def insert_run_def Let_def)
qed

section \<open>A concrete creation\<close>

definition demo_body :: "(string \<times> json) list" where
  "demo_body = [(''idempotency_key'', JStr ''i''), (''deadline_ts'', JNum 100), (''max_turns'', JNum 500),
     (''messages'', JList [JObj [(''role'', JStr ''user''), (''content'', JStr ''hi'')]])]"

definition empty_store :: run_store where
  "empty_store = \<lparr>runs = [], idem_rows = [], idem_cache = []\<rparr>"

definition demo_args :: create_args where
  "demo_args = \<lparr>ca_idempotency_key = Some ''i'', ca_deadline = 100, ca_max_turns = 50, ca_clamped = True\<rparr>"

lemma demo_parse: "parse_create 50 demo_body = Inr demo_args"
  by code_simp

lemma empty_store_ok: "store_ok n empty_store" "fresh_id rid empty_store"
  by (simp_all add: store_ok_def empty_store_def cache_invar_def fresh_id_def live_run_def)

definition demo_store :: run_store where
  "demo_store = snd (create_run 5 50 ''n1'' ''k'' 10 ''run_1'' demo_body empty_store)"

lemma demo_created: "create_run 5 50 ''n1'' ''k'' 10 ''run_1'' demo_body empty_store = (Inr (Created ''run_1''), demo_store)"
proof -
  have "fst (create_run 5 50 ''n1'' ''k'' 10 ''run_1'' demo_body empty_store) = Inr (Created ''run_1'')" by code_simp
  then show ?thesis by (simp add: demo_store_def prod_eq_iff)
qed

theorem create_keeps_store_witness: "store_ok 5 demo_store \<and> length (idem_cache demo_store) \<le> 5"
  using create_keeps_store [OF empty_store_ok, of 5 50 "''n1''" "''k''" 10 "''run_1''" demo_body] by (simp add: demo_store_def)

theorem duplicate_returns_run_witness:
  "fst (create_run 5 50 ''n1'' ''k'' 20 ''run_2'' demo_body demo_store) = Inr (Replayed ''run_1'')"
  using duplicate_returns_run [OF empty_store_ok demo_parse _ demo_created demo_parse, of "''i''" 20 "''n1''" "''run_2''"]
  by (simp add: demo_args_def IDEMPOTENCY_TTL_SEC_def)

theorem stale_key_blocked_witness:
  "fst (create_run 5 50 ''n1'' ''k'' 100000 ''run_2'' demo_body demo_store) = Inl Commit_failed"
proof -
  have "store_ok 5 demo_store"
    using create_ok [OF empty_store_ok, of 5 50 "''n1''" "''k''" 10 "''run_1''" demo_body] by (simp add: demo_store_def)
  moreover have "map_of (idem_rows demo_store) (''k'', ''i'') = Some (''run_1'', 10)" by code_simp
  moreover have "seed demo_body = Some [(JStr ''user'', JStr ''hi'')]" by code_simp
  ultimately show ?thesis
    using stale_key_blocked [OF _ _ _ demo_parse, of 5 demo_store "''k''" "''i''" "''run_1''" 10 100000]
    by (simp add: demo_args_def IDEMPOTENCY_TTL_SEC_def)
qed

end
