(* ===== verification/Login_Throttle.thy ===== *)
theory Login_Throttle
  imports Prelude
begin

text \<open>
  The throttle of failed admin logins (\<^verbatim>\<open>app/auth/login_throttle.py\<close>). The failures are an ordered
  dictionary of deques, an association list in insertion order; the locks are a map. The bound on the
  number of tracked addresses is enforced after each failure, coldest entry first.
\<close>

definition MAX_FAILURES :: nat where "MAX_FAILURES = 10"
definition THROTTLE_WINDOW_SEC :: rat where "THROTTLE_WINDOW_SEC = 300"
definition LOCKOUT_SEC :: rat where "LOCKOUT_SEC = 900"
definition MAX_TRACKED_IPS :: nat where "MAX_TRACKED_IPS = 10000"

record throttle =
  failures :: "(string \<times> clock list) list"
  locked_until :: "string \<rightharpoonup> clock"

definition expire_locks :: "clock \<Rightarrow> throttle \<Rightarrow> throttle" where
  "expire_locks now st =
     (let expired = (\<lambda>ip. \<exists>u. locked_until st ip = Some u \<and> u \<le> now) in
      \<lparr>failures = filter (\<lambda>f. \<not> expired (fst f)) (failures st),
       locked_until = (\<lambda>ip. if expired ip then None else locked_until st ip)\<rparr>)"

definition coldness :: "string \<times> clock list \<Rightarrow> clock" where
  "coldness f = (if snd f = [] then 0 else last (snd f))"

definition enforce_size_cap :: "nat \<Rightarrow> throttle \<Rightarrow> throttle" where
  "enforce_size_cap cap st =
     (if length (failures st) \<le> cap then st
      else let gone = fst ` set (take (length (failures st) - cap) (sort_key coldness (failures st)))
           in \<lparr>failures = filter (\<lambda>f. fst f \<notin> gone) (failures st),
               locked_until = (\<lambda>ip. if ip \<in> gone then None else locked_until st ip)\<rparr>)"

definition seconds_remaining :: "string \<Rightarrow> clock \<Rightarrow> throttle \<Rightarrow> int" where
  "seconds_remaining ip now st =
     (case locked_until st ip of
        None \<Rightarrow> 0
      | Some u \<Rightarrow> if u \<le> now then 0 else \<lfloor>u - now\<rfloor> + 1)"

definition attempts_of :: "string \<Rightarrow> throttle \<Rightarrow> clock list" where
  "attempts_of ip st = (case map_of (failures st) ip of Some a \<Rightarrow> a | None \<Rightarrow> [])"

definition put_attempts :: "string \<Rightarrow> clock list \<Rightarrow> (string \<times> clock list) list \<Rightarrow> (string \<times> clock list) list" where
  "put_attempts ip a fs =
     (if ip \<in> fst ` set fs then map (\<lambda>f. if fst f = ip then (ip, a) else f) fs else fs @ [(ip, a)])"

definition record_failure_ip :: "nat \<Rightarrow> string \<Rightarrow> clock \<Rightarrow> throttle \<Rightarrow> rat \<times> throttle" where
  "record_failure_ip cap ip now st =
     (let st1 = expire_locks now st;
          a = dropWhile (\<lambda>t. t < now - THROTTLE_WINDOW_SEC) (attempts_of ip st1 @ [now]);
          st2 = enforce_size_cap cap (st1 \<lparr>failures := put_attempts ip a (failures st1)\<rparr>)
      in if MAX_FAILURES \<le> length a
         then (LOCKOUT_SEC, st2 \<lparr>locked_until := (locked_until st2)(ip \<mapsto> now + LOCKOUT_SEC)\<rparr>)
         else (0, st2))"

definition record_success_ip :: "string \<Rightarrow> throttle \<Rightarrow> throttle" where
  "record_success_ip ip st =
     st \<lparr>failures := filter (\<lambda>f. fst f \<noteq> ip) (failures st), locked_until := (locked_until st)(ip := None)\<rparr>"

definition reset_throttle :: throttle where
  "reset_throttle = \<lparr>failures = [], locked_until = Map.empty\<rparr>"

section \<open>The throttle never locks out for good\<close>

definition throttle_ok :: "nat \<Rightarrow> clock \<Rightarrow> throttle \<Rightarrow> bool" where
  "throttle_ok cap now st \<longleftrightarrow>
     distinct (map fst (failures st)) \<and> length (failures st) \<le> cap \<and>
     (\<forall>ip u. locked_until st ip = Some u \<longrightarrow> u \<le> now + LOCKOUT_SEC)"

lemma length_filter_gone:
  assumes "distinct (map fst fs)" and "set gs \<subseteq> set fs" and "distinct (map fst gs)"
  shows "length (filter (\<lambda>f. fst f \<notin> fst ` set gs) fs) = length fs - length gs"
proof -
  have i: "inj_on fst (set fs)" using assms(1) by (simp add: distinct_map)
  have "filter (\<lambda>f. fst f \<notin> fst ` set gs) fs = filter (\<lambda>f. f \<notin> set gs) fs"
    by (rule filter_cong) (use i assms(2) in \<open>auto simp: inj_on_def\<close>)
  moreover have "length (filter (\<lambda>f. f \<notin> set gs) fs) = card (set fs - set gs)"
    using assms(1) by (subst distinct_card [symmetric]) (auto simp: distinct_map intro: arg_cong [where f = card])
  moreover have "card (set fs - set gs) = length fs - length gs"
    using assms by (simp add: card_Diff_subset distinct_card distinct_map)
  ultimately show ?thesis by simp
qed

lemma enforce_bound:
  assumes "distinct (map fst (failures st))"
  shows "length (failures (enforce_size_cap cap st)) \<le> cap" and "distinct (map fst (failures (enforce_size_cap cap st)))"
proof -
  let ?fs = "failures st"
  let ?gs = "take (length ?fs - cap) (sort_key coldness ?fs)"
  have "distinct (map fst (sort_key coldness ?fs))"
    using assms by (simp add: distinct_map) 
  then have g: "distinct (map fst ?gs)" "set ?gs \<subseteq> set ?fs"
    by (auto simp: take_map [symmetric] dest: in_set_takeD)
  show "length (failures (enforce_size_cap cap st)) \<le> cap"
    using length_filter_gone [OF assms g(2,1)] by (auto simp: enforce_size_cap_def Let_def)
  show "distinct (map fst (failures (enforce_size_cap cap st)))"
    using assms by (auto simp: enforce_size_cap_def Let_def distinct_map_filter)
qed

lemma put_attempts_distinct:
  assumes "distinct (map fst fs)"
  shows "distinct (map fst (put_attempts ip a fs))"
proof (cases "ip \<in> fst ` set fs")
  case True
  have "map fst (map (\<lambda>f. if fst f = ip then (ip, a) else f) fs) = map fst fs" by simp
  with True assms show ?thesis by (simp only: put_attempts_def if_True)
qed (use assms in \<open>simp add: put_attempts_def\<close>)

lemma expire_locks_ok:
  assumes "throttle_ok cap now st"
  shows "throttle_ok cap now (expire_locks later st)"
  using assms by (auto simp: throttle_ok_def expire_locks_def Let_def distinct_map_filter intro: le_trans [OF length_filter_le])

lemma enforce_locks: "locked_until (enforce_size_cap cap st) ip = Some u \<Longrightarrow> locked_until st ip = Some u"
  by (auto simp: enforce_size_cap_def Let_def split: if_splits)

lemma login_failure_ok:
  assumes "throttle_ok cap now st" and "now \<le> later"
  shows "throttle_ok cap later (snd (record_failure_ip cap ip later st))"
proof -
  let ?s1 = "expire_locks later st"
  let ?a = "dropWhile (\<lambda>t. t < later - THROTTLE_WINDOW_SEC) (attempts_of ip ?s1 @ [later])"
  let ?s2 = "?s1 \<lparr>failures := put_attempts ip ?a (failures ?s1)\<rparr>"
  have 1: "throttle_ok cap now ?s1" by (rule expire_locks_ok [OF assms(1)])
  then have "distinct (map fst (failures ?s2))" using put_attempts_distinct by (simp add: throttle_ok_def)
  note b = enforce_bound [OF this, of cap]
  have "u \<le> later + LOCKOUT_SEC" if "locked_until (enforce_size_cap cap ?s2) i = Some u" for i u
    using enforce_locks [OF that] 1 assms(2) by (fastforce simp: throttle_ok_def)
  with b have "throttle_ok cap later (enforce_size_cap cap ?s2)" by (simp add: throttle_ok_def)
  then show ?thesis by (auto simp: record_failure_ip_def Let_def throttle_ok_def)
qed

datatype login = Failed_login string clock | Good_login string clock

fun login_time :: "login \<Rightarrow> clock" where
  "login_time (Failed_login ip t) = t"
| "login_time (Good_login ip t) = t"

fun login_step :: "nat \<Rightarrow> login \<Rightarrow> throttle \<Rightarrow> throttle" where
  "login_step cap (Failed_login ip t) st = snd (record_failure_ip cap ip t st)"
| "login_step cap (Good_login ip t) st = record_success_ip ip st"

lemma login_success_ok: "throttle_ok cap now st \<Longrightarrow> throttle_ok cap now (record_success_ip ip st)"
  by (auto simp: throttle_ok_def record_success_ip_def distinct_map_filter intro: le_trans [OF length_filter_le])

lemma throttle_ok_mono: "throttle_ok cap now st \<Longrightarrow> now \<le> later \<Longrightarrow> throttle_ok cap later st"
  by (fastforce simp: throttle_ok_def)

lemma logins_ok:
  assumes "throttle_ok cap now st" and "sorted (map login_time ls)" and "\<forall>l \<in> set ls. now \<le> login_time l"
  shows "throttle_ok cap (if ls = [] then now else login_time (last ls)) (fold (login_step cap) ls st)"
  using assms
proof (induction ls arbitrary: now st)
  case (Cons l ls)
  have "throttle_ok cap (login_time l) (login_step cap l st)"
    using Cons.prems(1,3) login_failure_ok login_success_ok throttle_ok_mono by (cases l) auto
  from Cons.IH [OF this] Cons.prems(2) show ?case by auto
qed simp

text \<open>The throttle never locks anyone out for good and never grows beyond its bound: after any logins,
  failed or good, at most the given number of addresses is tracked, no lock lasts longer than 15
  minutes from the last of them, and after that every address may try again.\<close>

theorem throttle_never_permanent:
  assumes "sorted (map login_time ls)" and "ls \<noteq> []"
    and "st = fold (login_step cap) ls reset_throttle"
  shows "length (failures st) \<le> cap \<and> seconds_remaining ip (login_time (last ls)) st \<le> 901 \<and>
    (\<forall>later \<ge> login_time (last ls) + LOCKOUT_SEC. seconds_remaining ip later st = 0)"
proof -
  have "throttle_ok cap (login_time (hd ls)) reset_throttle" by (simp add: throttle_ok_def reset_throttle_def)
  moreover have "\<forall>l \<in> set ls. login_time (hd ls) \<le> login_time l" using assms(1,2) by (cases ls) auto
  ultimately have ok: "throttle_ok cap (login_time (last ls)) st" using logins_ok [OF _ assms(1)] assms(2,3) by fastforce
  show ?thesis
  proof (cases "locked_until st ip")
    case (Some u)
    with ok have "u \<le> login_time (last ls) + 900" by (simp add: throttle_ok_def LOCKOUT_SEC_def)
    then have u: "u - login_time (last ls) \<le> 900" by linarith
    then have "\<lfloor>u - login_time (last ls)\<rfloor> \<le> 900" by linarith
    with Some ok u show ?thesis by (auto simp: throttle_ok_def seconds_remaining_def LOCKOUT_SEC_def)
  qed (use ok in \<open>simp add: throttle_ok_def seconds_remaining_def\<close>)
qed

theorem throttle_never_permanent_witness:
  "seconds_remaining ''a'' 910 (fold (login_step 5) [Failed_login ''a'' 0, Failed_login ''b'' 10] reset_throttle) = 0"
  using throttle_never_permanent [of "[Failed_login ''a'' 0, Failed_login ''b'' 10]", OF _ _ refl, of 5 "''a''"]
  by (simp add: LOCKOUT_SEC_def)

text \<open>A failed login locks its own address, and only on the tenth failure of the last five minutes: the
  address is then refused for the next 15 minutes, and no other address is locked for longer than it
  was before.\<close>

theorem lockout_exact:
  assumes "record_failure_ip cap ip now st = (res, st')"
  defines "recent \<equiv> dropWhile (\<lambda>t. t < now - THROTTLE_WINDOW_SEC) (attempts_of ip (expire_locks now st) @ [now])"
  shows "(res = LOCKOUT_SEC \<longleftrightarrow> MAX_FAILURES \<le> length recent) \<and>
    (MAX_FAILURES \<le> length recent \<longrightarrow> (\<forall>t. now \<le> t \<and> t < now + LOCKOUT_SEC \<longrightarrow> 0 < seconds_remaining ip t st')) \<and>
    (\<forall>other t. other \<noteq> ip \<and> now \<le> t \<longrightarrow> seconds_remaining other t st' \<le> seconds_remaining other t st)"
proof -
  let ?s1 = "expire_locks now st"
  let ?s2 = "enforce_size_cap cap (?s1 \<lparr>failures := put_attempts ip recent (failures ?s1)\<rparr>)"
  have lock: "locked_until st other = Some u" if "locked_until ?s2 other = Some u" for other u
    using enforce_locks [OF that] by (auto simp: expire_locks_def Let_def split: if_splits)
  have pos: "0 \<le> seconds_remaining i t s" for i t s by (auto simp: seconds_remaining_def split: option.splits)
  have other: "seconds_remaining other t st' \<le> seconds_remaining other t st" if "other \<noteq> ip" for other t
  proof (cases "locked_until ?s2 other")
    case None
    then have "locked_until st' other = None" using assms(1) that by (auto simp: record_failure_ip_def recent_def Let_def split: if_splits)
    then show ?thesis using pos by (simp add: seconds_remaining_def)
  next
    case (Some u)
    then have "locked_until st' other = Some u" using assms(1) that by (auto simp: record_failure_ip_def recent_def Let_def split: if_splits)
    with lock [OF Some] show ?thesis by (simp add: seconds_remaining_def)
  qed
  have "0 < seconds_remaining ip t st'" if "MAX_FAILURES \<le> length recent" "t < now + LOCKOUT_SEC" for t
  proof -
    have "locked_until st' ip = Some (now + LOCKOUT_SEC)"
      using assms(1) that(1) by (auto simp: record_failure_ip_def recent_def Let_def)
    then show ?thesis using that(2) by (simp add: seconds_remaining_def)
  qed
  moreover have "res = LOCKOUT_SEC \<longleftrightarrow> MAX_FAILURES \<le> length recent"
    using assms(1) by (auto simp: record_failure_ip_def recent_def Let_def LOCKOUT_SEC_def split: if_splits)
  ultimately show ?thesis using other by blast
qed

theorem lockout_exact_witness:
  "seconds_remaining ''b'' 5 (snd (record_failure_ip 5 ''a'' 1 reset_throttle)) \<le> seconds_remaining ''b'' 5 reset_throttle"
  using lockout_exact [of 5 "''a''" 1 reset_throttle, OF surjective_pairing] by fastforce

end
