(* ===== verification/Cluster_Merge.thy ===== *)
theory Cluster_Merge
  imports Prelude
begin

text \<open>
  The shape the cluster-sync handlers share: a row of a peer's payload is matched to the local row of
  its key, which it updates; without one it may be inserted. A table merged this way behaves as one
  register per key, and what holds of the update of one row lifts to the merge of a payload. A
  register with a timestamp that only a newer row overwrites converges in every order of delivery.
\<close>

section \<open>Upserts\<close>

fun upsert :: "('r \<Rightarrow> bool) \<Rightarrow> ('r \<Rightarrow> 'r) \<Rightarrow> 'r option \<Rightarrow> 'r list \<Rightarrow> 'r list" where
  "upsert m f i [] = (case i of Some r \<Rightarrow> [r] | None \<Rightarrow> [])"
| "upsert m f i (r # rs) = (if m r then f r # rs else r # upsert m f i rs)"

definition merge_row ::
  "('r \<Rightarrow> 'k) \<Rightarrow> ('w \<Rightarrow> 'k option) \<Rightarrow> ('w \<Rightarrow> 'r \<Rightarrow> 'r) \<Rightarrow> ('w \<Rightarrow> 'r option) \<Rightarrow> 'w \<Rightarrow> 'r list \<Rightarrow> 'r list" where
  "merge_row rkey wkey upd ins w t =
     (case wkey w of None \<Rightarrow> t | Some k \<Rightarrow> upsert (\<lambda>r. rkey r = k) (upd w) (ins w) t)"

definition merge_rows ::
  "('r \<Rightarrow> 'k) \<Rightarrow> ('w \<Rightarrow> 'k option) \<Rightarrow> ('w \<Rightarrow> 'r \<Rightarrow> 'r) \<Rightarrow> ('w \<Rightarrow> 'r option) \<Rightarrow> 'w list \<Rightarrow> 'r list \<Rightarrow> 'r list" where
  "merge_rows rkey wkey upd ins ws t = fold (merge_row rkey wkey upd ins) ws t"

definition row_of :: "('r \<Rightarrow> 'k) \<Rightarrow> 'k \<Rightarrow> 'r list \<Rightarrow> 'r option" where
  "row_of rkey k t = find (\<lambda>r. rkey r = k) t"

lemma row_of_simps [simp]:
  "row_of rkey k [] = None" "row_of rkey k (r # t) = (if rkey r = k then Some r else row_of rkey k t)"
  by (simp_all add: row_of_def)

lemma row_of_key: "row_of rkey k t = Some r \<Longrightarrow> rkey r = k \<and> r \<in> set t"
  by (auto simp: row_of_def find_Some_iff)

lemma row_of_unique: "distinct (map rkey t) \<Longrightarrow> r \<in> set t \<Longrightarrow> row_of rkey (rkey r) t = Some r"
  by (induction t) auto

locale register_table =
  fixes rkey :: "'r \<Rightarrow> 'k"
    and wkey :: "'w \<Rightarrow> 'k option"
    and upd :: "'w \<Rightarrow> 'r \<Rightarrow> 'r"
    and ins :: "'w \<Rightarrow> 'r option"
  assumes upd_key: "rkey (upd w r) = rkey r"
    and ins_key: "ins w = Some r \<Longrightarrow> wkey w = Some k \<Longrightarrow> rkey r = k"
begin

fun reg :: "'w \<Rightarrow> 'r option \<Rightarrow> 'r option" where
  "reg w None = ins w"
| "reg w (Some r) = Some (upd w r)"

lemma row_of_upsert:
  assumes "wkey w = Some k"
  shows "row_of rkey k' (upsert (\<lambda>r. rkey r = k) (upd w) (ins w) t) =
    (if k' = k then reg w (row_of rkey k t) else row_of rkey k' t)"
proof (induction t)
  case Nil
  then show ?case using ins_key [OF _ assms] by (cases "ins w") auto
qed (use upd_key in auto)

lemma row_of_merge:
  "row_of rkey k (merge_rows rkey wkey upd ins ws t) = fold reg (filter (\<lambda>w. wkey w = Some k) ws) (row_of rkey k t)"
proof (induction ws arbitrary: t)
  case (Cons w ws)
  then show ?case by (cases "wkey w") (auto simp: merge_rows_def merge_row_def row_of_upsert)
qed (simp add: merge_rows_def)

lemma upsert_keys:
  assumes "distinct (map rkey t)" and "wkey w = Some k"
  shows "distinct (map rkey (upsert (\<lambda>r. rkey r = k) (upd w) (ins w) t)) \<and>
    rkey ` set (upsert (\<lambda>r. rkey r = k) (upd w) (ins w) t) \<subseteq> insert k (rkey ` set t)"
  using assms(1)
proof (induction t)
  case Nil
  then show ?case using ins_key [OF _ assms(2)] by (cases "ins w") auto
next
  case (Cons r t)
  then show ?case using upd_key by (cases "rkey r = k") auto
qed

text \<open>Keys stay unique.\<close>

lemma merge_distinct: "distinct (map rkey t) \<Longrightarrow> distinct (map rkey (merge_rows rkey wkey upd ins ws t))"
proof (induction ws arbitrary: t)
  case (Cons w ws)
  have "distinct (map rkey (merge_row rkey wkey upd ins w t))"
    using upsert_keys [OF Cons.prems] Cons.prems by (cases "wkey w") (auto simp: merge_row_def)
  from Cons.IH [OF this] show ?case by (simp add: merge_rows_def)
qed (simp add: merge_rows_def)

text \<open>A property of a row that every update keeps is kept by every payload.\<close>

lemma merge_keeps:
  assumes "\<And>w r. wkey w = Some k \<Longrightarrow> w \<in> set ws \<Longrightarrow> P r \<Longrightarrow> P (upd w r)" and "row_of rkey k t = Some r" and "P r"
  shows "\<exists>r'. row_of rkey k (merge_rows rkey wkey upd ins ws t) = Some r' \<and> P r'"
proof -
  have "\<exists>r'. fold reg vs (Some r) = Some r' \<and> P r'" if "set vs \<subseteq> {w \<in> set ws. wkey w = Some k}" "P r" for vs r
    using that
  proof (induction vs arbitrary: r)
    case (Cons v vs)
    then have "P (upd v r)" using assms(1) by simp
    with Cons.IH [OF _ this] Cons.prems(1) show ?case by simp
  qed simp
  from this [of "filter (\<lambda>w. wkey w = Some k) ws" r] assms(2,3) show ?thesis by (simp add: row_of_merge)
qed

text \<open>A property that one row of a payload establishes, and every update keeps, holds of a row that exists.\<close>

lemma merge_establishes:
  assumes "w \<in> set ws" "wkey w = Some k" and "\<And>r. P (upd w r)" and "\<And>v r. P r \<Longrightarrow> P (upd v r)"
    and "row_of rkey k t = Some r"
  shows "\<exists>r'. row_of rkey k (merge_rows rkey wkey upd ins ws t) = Some r' \<and> P r'"
proof -
  obtain us vs where ws: "ws = us @ w # vs" using assms(1) by (meson split_list)
  obtain r1 where r1: "row_of rkey k (merge_rows rkey wkey upd ins us t) = Some r1"
    using merge_keeps [of k us "\<lambda>_. True", OF _ assms(5)] by auto
  have r2: "row_of rkey k (merge_row rkey wkey upd ins w (merge_rows rkey wkey upd ins us t)) = Some (upd w r1)"
    using r1 assms(2) by (simp add: merge_row_def row_of_upsert)
  have "merge_rows rkey wkey upd ins ws t = merge_rows rkey wkey upd ins vs (merge_row rkey wkey upd ins w (merge_rows rkey wkey upd ins us t))"
    by (simp add: ws merge_rows_def)
  with merge_keeps [of k vs P, OF _ r2] assms(3,4) show ?thesis by auto
qed

text \<open>Applying a payload again changes nothing, when its keys are unique and an update is idempotent.\<close>

lemma filter_one:
  assumes "distinct (map wkey (filter (\<lambda>w. wkey w \<noteq> None) ws))"
  shows "filter (\<lambda>w. wkey w = Some k) ws = [] \<or> (\<exists>w. filter (\<lambda>w. wkey w = Some k) ws = [w] \<and> wkey w = Some k)"
  using assms
proof (induction ws)
  case (Cons w ws)
  have "filter (\<lambda>v. wkey v = Some k) ws = []" if "wkey w = Some k" "Some k \<notin> wkey ` {v \<in> set ws. wkey v \<noteq> None}"
    using that by (auto simp: filter_empty_conv image_iff)
  with Cons show ?case by (cases "wkey w = Some k") (auto split: if_splits)
qed simp

lemma merge_again:
  assumes "register_table rkey wkey upd ins'" and "distinct (map wkey (filter (\<lambda>w. wkey w \<noteq> None) ws))"
    and "\<And>w r. upd w (upd w r) = upd w r" and "\<And>w r. wkey w \<noteq> None \<Longrightarrow> ins w = Some r \<Longrightarrow> upd w r = r"
    and "\<And>w. ins w = None \<Longrightarrow> ins' w = None"
  shows "row_of rkey k (merge_rows rkey wkey upd ins' ws (merge_rows rkey wkey upd ins ws t)) =
    row_of rkey k (merge_rows rkey wkey upd ins ws t)"
proof -
  let ?reg' = "register_table.reg upd ins'"
  note [simp] = register_table.reg.simps [OF assms(1)]
  have "?reg' w (reg w s) = reg w s" if "wkey w = Some k" for w s
    using assms(3,4,5) that by (cases s; cases "ins w") auto
  with filter_one [OF assms(2), of k] show ?thesis
    by (auto simp: row_of_merge register_table.row_of_merge [OF assms(1)])
qed

lemmas merge_idempotent = merge_again [OF register_table_axioms]

end

section \<open>Last writer wins\<close>

text \<open>A row is overwritten, key and local columns apart, exactly by a payload row with a newer timestamp. The
  laws are asked of payload rows that carry a timestamp; what a handler does with an unstamped row is its own.\<close>

locale lww_table = register_table rkey wkey upd ins
  for rkey :: "'r \<Rightarrow> 'k" and wkey :: "'w \<Rightarrow> 'k option" and upd :: "'w \<Rightarrow> 'r \<Rightarrow> 'r" and ins :: "'w \<Rightarrow> 'r option" +
  fixes over :: "'w \<Rightarrow> 'r \<Rightarrow> 'r"
    and blank :: "'k \<Rightarrow> 'r"
    and rts :: "'r \<Rightarrow> 't :: linorder"
    and wts :: "'w \<Rightarrow> 't"
    and stamped :: "'w \<Rightarrow> bool"
  assumes upd_over: "stamped w \<Longrightarrow> upd w r = (if rts r < wts w then over w r else r)"
    and ins_over: "stamped w \<Longrightarrow> wkey w = Some k \<Longrightarrow> ins w = Some (over w (blank k))"
    and over_over: "over w (over v r) = over w r"
    and over_ts: "rts (over w r) = wts w"
begin

lemma reg_commutes:
  assumes "wkey v = Some k" "wkey w = Some k" and "stamped v" "stamped w" and "wts v \<noteq> wts w \<or> v = w"
  shows "reg v (reg w s) = reg w (reg v s)"
  using assms ins_over [OF assms(3,1)] ins_over [OF assms(4,2)]
  by (cases s) (auto simp: upd_over over_over over_ts)

text \<open>The order in which rows arrive does not matter, as long as no two of a key have the same timestamp.\<close>

lemma merge_order:
  assumes "mset ws = mset ws'" and "\<And>w. w \<in> set ws \<Longrightarrow> stamped w"
    and "\<And>v w. v \<in> set ws \<Longrightarrow> w \<in> set ws \<Longrightarrow> wkey v = Some k \<Longrightarrow> wkey w = Some k \<Longrightarrow> wts v \<noteq> wts w \<or> v = w"
  shows "row_of rkey k (merge_rows rkey wkey upd ins ws t) = row_of rkey k (merge_rows rkey wkey upd ins ws' t)"
proof -
  let ?f = "filter (\<lambda>w. wkey w = Some k)"
  have "fold reg (?f ws) = fold reg (?f ws')"
  proof (rule fold_multiset_equiv)
    fix v w assume "v \<in> set (?f ws)" "w \<in> set (?f ws)"
    then show "reg v \<circ> reg w = reg w \<circ> reg v"
      using reg_commutes assms(2,3) by (auto simp: fun_eq_iff)
  qed (simp only: mset_filter assms(1))
  then show ?thesis by (simp add: row_of_merge)
qed

lemma upd_idem: "stamped w \<Longrightarrow> upd w (upd w r) = upd w r"
  by (simp add: upd_over over_ts over_over)

lemma ins_idem: "stamped w \<Longrightarrow> wkey w \<noteq> None \<Longrightarrow> ins w = Some r \<Longrightarrow> upd w r = r"
  using ins_over by (auto simp: upd_over over_ts)

end

end
