(* ===== verification/Rate_Limits.thy ===== *)
theory Rate_Limits
  imports Run_State
begin

text \<open>
  Sliding windows: the per-key request limit (\<^verbatim>\<open>app/auth/rate_limit_state.py\<close>), the named tiers
  (\<^verbatim>\<open>app/auth/rate_limit_tiers.py\<close>) and the per-run limit on model calls (\<^verbatim>\<open>app/runs/rate_limit.py\<close>).
  A window is the deque of the admission times, oldest first. What the two limiters share is one
  locale, with the bound on admissions proved once.
\<close>

section \<open>Windows\<close>

type_synonym window = "clock list"

definition WINDOW_SEC :: rat where "WINDOW_SEC = 60"

definition trim :: "clock \<Rightarrow> window \<Rightarrow> window" where
  "trim now w = dropWhile (\<lambda>t. t < now - WINDOW_SEC) w"

text \<open>A limiter over a window: a request is admitted when fewer than the cap remain after trimming, and
  then recorded; a refused request is not.\<close>

locale window_limiter =
  fixes attempt :: "clock \<Rightarrow> window \<Rightarrow> bool \<times> window"
    and cap :: nat
  assumes admitted_iff: "fst (attempt now w) \<longleftrightarrow> length (trim now w) < cap"
    and admitted_window: "fst (attempt now w) \<Longrightarrow> snd (attempt now w) = trim now w @ [now]"
    and refused_window: "\<not> fst (attempt now w) \<Longrightarrow> snd (attempt now w) = trim now w"
begin

text \<open>The admissions of a sequence of requests, with the window they leave.\<close>

primrec admissions :: "clock list \<Rightarrow> window \<Rightarrow> clock list \<times> window" where
  "admissions [] w = ([], w)"
| "admissions (now # ts) w =
     (let (ok, w') = attempt now w; (l, w'') = admissions ts w' in ((if ok then [now] else []) @ l, w''))"

definition window_of :: "clock \<Rightarrow> clock list \<Rightarrow> window \<Rightarrow> bool" where
  "window_of now hist w \<longleftrightarrow>
     (\<exists>old. hist = old @ w \<and> (\<forall>t \<in> set old. t < now - WINDOW_SEC)) \<and> length w \<le> cap"

definition spaced :: "clock list \<Rightarrow> bool" where
  "spaced hist \<longleftrightarrow> (\<forall>i. i + cap < length hist \<longrightarrow> hist ! i < hist ! (i + cap) - WINDOW_SEC)"

lemma window_trim:
  assumes "window_of prev hist w" and "prev \<le> now"
  shows "window_of now hist (trim now w)"
proof -
  obtain old where o: "hist = old @ w" "\<forall>t \<in> set old. t < prev - WINDOW_SEC" "length w \<le> cap"
    using assms(1) by (auto simp: window_of_def)
  let ?d = "takeWhile (\<lambda>t. t < now - WINDOW_SEC) w"
  have "hist = (old @ ?d) @ trim now w" by (simp add: o(1) trim_def)
  moreover have "\<forall>t \<in> set (old @ ?d). t < now - WINDOW_SEC"
    using o(2) assms(2) by (auto dest: set_takeWhileD)
  moreover have "length (trim now w) \<le> cap"
    using o(3) length_dropWhile_le [of "\<lambda>t. t < now - WINDOW_SEC" w] unfolding trim_def by linarith
  ultimately show ?thesis unfolding window_of_def by blast
qed

lemma spaced_snoc:
  assumes "spaced hist" and "window_of now hist w" and "length w < cap"
  shows "spaced (hist @ [now])"
  unfolding spaced_def
proof (intro allI impI)
  fix i assume i: "i + cap < length (hist @ [now])"
  obtain old where o: "hist = old @ w" "\<forall>t \<in> set old. t < now - WINDOW_SEC" using assms(2) by (auto simp: window_of_def)
  show "(hist @ [now]) ! i < (hist @ [now]) ! (i + cap) - WINDOW_SEC"
  proof (cases "i + cap < length hist")
    case True
    with assms(1) show ?thesis by (simp add: spaced_def nth_append)
  next
    case False
    with i have "i + cap = length hist" by simp
    with o(1) assms(3) have "i < length old" by simp
    with o \<open>i + cap = length hist\<close> show ?thesis by (simp add: nth_append)
  qed
qed

lemma admissions_spaced:
  assumes "window_of prev hist w" and "spaced hist" and "sorted ts" and "\<forall>t \<in> set ts. prev \<le> t"
  shows "spaced (hist @ fst (admissions ts w))"
  using assms
proof (induction ts arbitrary: prev hist w)
  case (Cons now ts)
  let ?w = "trim now w"
  have w: "window_of now hist ?w" by (rule window_trim [OF Cons.prems(1)]) (use Cons.prems(4) in simp)
  show ?case
  proof (cases "fst (attempt now w)")
    case True
    have l: "length ?w < cap" using True admitted_iff by blast
    have "window_of now (hist @ [now]) (?w @ [now])" using w l by (auto simp: window_of_def)
    moreover have "spaced (hist @ [now])" by (rule spaced_snoc [OF Cons.prems(2) w l])
    ultimately have "spaced ((hist @ [now]) @ fst (admissions ts (?w @ [now])))"
      by (rule Cons.IH) (use Cons.prems(3,4) in auto)
    then show ?thesis using True admitted_window [OF True] by (simp add: split_beta)
  next
    case False
    have "spaced (hist @ fst (admissions ts ?w))"
      by (rule Cons.IH [OF w Cons.prems(2)]) (use Cons.prems(3,4) in auto)
    then show ?thesis using False refused_window [OF False] by (simp add: split_beta)
  qed
qed simp

text \<open>Started on an empty window, a limiter never admits more than its cap in any minute.\<close>

lemma never_over_cap:
  assumes "sorted ts"
  shows "spaced (fst (admissions ts []))"
proof (cases ts)
  case (Cons t rest)
  have "window_of t [] []" "spaced []" by (simp_all add: window_of_def spaced_def)
  from admissions_spaced [OF this assms] Cons assms show ?thesis by auto
qed (simp add: spaced_def)

end

section \<open>Per-key limits\<close>

datatype rate_error = Rpm_exceeded int | Rpd_exceeded int | Burst_exceeded int

record rate_state =
  rpm_windows :: "ident \<rightharpoonup> window"
  rpd_buckets :: "ident \<rightharpoonup> int \<times> int"
  burst_counters :: "ident \<rightharpoonup> int"

definition value_or :: "'a \<Rightarrow> 'a option \<Rightarrow> 'a" where
  "value_or d x = (case x of Some y \<Rightarrow> y | None \<Rightarrow> d)"

definition per_node_limit :: "int \<Rightarrow> int \<Rightarrow> int" where
  "per_node_limit active_nodes limit = max 1 (limit div max 1 active_nodes)"

definition window_attempt :: "nat \<Rightarrow> clock \<Rightarrow> window \<Rightarrow> bool \<times> window" where
  "window_attempt limit now w =
     (let w' = trim now w in if limit \<le> length w' then (False, w') else (True, w' @ [now]))"

definition check_rate_limit :: "int \<Rightarrow> clock \<Rightarrow> ident \<Rightarrow> int \<Rightarrow> rate_state \<Rightarrow> (rate_error + unit) \<times> rate_state" where
  "check_rate_limit active_nodes now key limit_rpm st =
     (let (ok, w) = window_attempt (nat (per_node_limit active_nodes limit_rpm)) now (value_or [] (rpm_windows st key));
          st' = st \<lparr>rpm_windows := (rpm_windows st)(key \<mapsto> w)\<rparr>
      in if ok then (Inr (), st') else (Inl (Rpm_exceeded limit_rpm), st'))"

definition check_rpd :: "int \<Rightarrow> int \<Rightarrow> ident \<Rightarrow> int \<Rightarrow> rate_state \<Rightarrow> (rate_error + unit) \<times> rate_state" where
  "check_rpd active_nodes today key limit_rpd st =
     (let (day, count) = value_or (today, 0) (rpd_buckets st key);
          (day', count') = (if day \<noteq> today then (today, 0) else (day, count))
      in if count' \<ge> per_node_limit active_nodes limit_rpd then (Inl (Rpd_exceeded limit_rpd), st)
         else (Inr (), st \<lparr>rpd_buckets := (rpd_buckets st)(key \<mapsto> (day', count' + 1))\<rparr>))"

definition check_burst :: "ident \<Rightarrow> int \<Rightarrow> rate_state \<Rightarrow> rate_error + unit" where
  "check_burst key limit st =
     (if value_or 0 (burst_counters st key) \<ge> limit then Inl (Burst_exceeded limit) else Inr ())"

definition begin_in_flight :: "ident \<Rightarrow> rate_state \<Rightarrow> rate_state" where
  "begin_in_flight key st =
     st \<lparr>burst_counters := (burst_counters st)(key \<mapsto> value_or 0 (burst_counters st key) + 1)\<rparr>"

definition end_in_flight :: "ident \<Rightarrow> rate_state \<Rightarrow> rate_state" where
  "end_in_flight key st =
     (let cur = value_or 0 (burst_counters st key) in
      if cur > 0 then st \<lparr>burst_counters := (burst_counters st)(key \<mapsto> cur - 1)\<rparr> else st)"

record tier =
  rpm :: "int option"
  rpd :: "int option"
  burst :: "int option"

definition DEFAULT_TIERS :: "(string \<times> tier) list" where
  "DEFAULT_TIERS =
     [(''unlimited'', \<lparr>rpm = None, rpd = None, burst = None\<rparr>),
      (''free'', \<lparr>rpm = Some 20, rpd = Some 1000, burst = Some 2\<rparr>),
      (''starter'', \<lparr>rpm = Some 60, rpd = Some 10000, burst = Some 5\<rparr>),
      (''pro'', \<lparr>rpm = Some 300, rpd = Some 100000, burst = Some 20\<rparr>),
      (''enterprise'', \<lparr>rpm = Some 2000, rpd = Some 1000000, burst = Some 100\<rparr>)]"

definition get_tier :: "string option \<Rightarrow> tier option" where
  "get_tier name = (if truthy name then map_of DEFAULT_TIERS (lower (or_else name [])) else None)"

interpretation key_window: window_limiter "window_attempt limit" limit for limit
  by unfold_locales (auto simp: window_attempt_def Let_def split: if_splits)

fun rate_admissions :: "int \<Rightarrow> ident \<Rightarrow> int \<Rightarrow> clock list \<Rightarrow> rate_state \<Rightarrow> clock list" where
  "rate_admissions nodes key limit [] st = []"
| "rate_admissions nodes key limit (now # ts) st =
     (case check_rate_limit nodes now key limit st of
        (Inr _, st') \<Rightarrow> now # rate_admissions nodes key limit ts st'
      | (Inl _, st') \<Rightarrow> rate_admissions nodes key limit ts st')"

lemma rate_admissions_window:
  "rate_admissions nodes key limit ts st =
     fst (key_window.admissions (nat (per_node_limit nodes limit)) ts (value_or [] (rpm_windows st key)))"
proof (induction ts arbitrary: st)
  case (Cons now ts)
  obtain ok w where a: "window_attempt (nat (per_node_limit nodes limit)) now (value_or [] (rpm_windows st key)) = (ok, w)"
    by fastforce
  with Cons.IH [of "st \<lparr>rpm_windows := (rpm_windows st)(key \<mapsto> w)\<rparr>"] show ?case
    by (simp add: check_rate_limit_def value_or_def split_beta)
qed simp


definition no_requests :: rate_state where
  "no_requests = \<lparr>rpm_windows = Map.empty, rpd_buckets = Map.empty, burst_counters = Map.empty\<rparr>"


text \<open>The concurrency counter of a key is the number of its requests in flight: it never goes below
  zero, and beginning and ending a request leaves the limiter as it was.\<close>

theorem in_flight_balanced:
  assumes "0 \<le> value_or 0 (burst_counters st key)"
  shows "value_or 0 (burst_counters (end_in_flight key (begin_in_flight key st)) k) = value_or 0 (burst_counters st k) \<and>
    0 \<le> value_or 0 (burst_counters (begin_in_flight key st) key) \<and> 0 \<le> value_or 0 (burst_counters (end_in_flight key st) key) \<and>
    (check_burst key limit st = Inr () \<longrightarrow> value_or 0 (burst_counters (begin_in_flight key st) key) \<le> limit)"
  using assms by (auto simp: begin_in_flight_def end_in_flight_def check_burst_def value_or_def Let_def)

theorem in_flight_balanced_witness:
  "value_or 0 (burst_counters (begin_in_flight ''k'' no_requests) ''k'') \<le> 2"
  using in_flight_balanced [of no_requests "''k''" "''k''" 2]
  by (simp add: no_requests_def check_burst_def value_or_def)

section \<open>The per-run limit on model calls\<close>

definition DEFAULT_LIMIT_RPM :: int where "DEFAULT_LIMIT_RPM = 5"
definition MAX_BACKOFF_SEC :: rat where "MAX_BACKOFF_SEC = 30"

definition resolve_limit :: "int option \<Rightarrow> int" where
  "resolve_limit setting = (case setting of None \<Rightarrow> DEFAULT_LIMIT_RPM | Some v \<Rightarrow> if v < 1 then DEFAULT_LIMIT_RPM else v)"

definition current_rpm :: "clock \<Rightarrow> window \<Rightarrow> nat \<times> window" where
  "current_rpm now w = (let w' = trim now w in (length w', w'))"

definition time_until_slot :: "clock \<Rightarrow> nat \<Rightarrow> window \<Rightarrow> rat" where
  "time_until_slot now limit w = (if length w < limit then 0 else max 0 (hd w + WINDOW_SEC - now))"

record acquired =
  aq_attempt :: nat
  aq_wait :: rat
  aq_rpm_after :: nat
  aq_window :: window
  aq_time :: clock

text \<open>The waiting loop. \<open>sleep now w\<close> is the clock after sleeping \<open>w\<close> from \<open>now\<close>; \<open>jitter\<close> is what the
  random generator adds at each attempt. The loop has no bound of its own, so it carries fuel.\<close>

fun acquire :: "nat \<Rightarrow> (clock \<Rightarrow> rat \<Rightarrow> clock) \<Rightarrow> (nat \<Rightarrow> rat) \<Rightarrow> nat \<Rightarrow> nat \<Rightarrow> rat \<Rightarrow> clock \<Rightarrow> window \<Rightarrow> acquired option" where
  "acquire 0 sleep jitter limit attempt waited now w = None"
| "acquire (Suc fuel) sleep jitter limit attempt waited now w =
     (let (rpm, w') = current_rpm now w in
      if rpm < limit
      then Some \<lparr>aq_attempt = attempt, aq_wait = waited, aq_rpm_after = rpm + 1, aq_window = w' @ [now], aq_time = now\<rparr>
      else let wait = max (time_until_slot now limit w') (min MAX_BACKOFF_SEC (2 ^ attempt)) + jitter (Suc attempt)
           in acquire fuel sleep jitter limit (Suc attempt) (waited + wait) (sleep now wait) w')"

lemma trim_first_gone:
  assumes "w \<noteq> []" and "hd w + WINDOW_SEC < now"
  shows "length (trim now w) < length w"
  using assms by (cases w) (auto simp: trim_def intro!: le_imp_less_Suc length_dropWhile_le)

lemma trim_length: "length (trim now w) \<le> length w"
  by (simp add: trim_def length_dropWhile_le)

lemma trim_same: "length (trim now w) = length w \<Longrightarrow> trim now w = w"
  using length_dropWhile_le [of "\<lambda>t. t < now - WINDOW_SEC" "tl w"] by (cases w) (auto simp: trim_def split: if_splits)

definition wait_time :: "(nat \<Rightarrow> rat) \<Rightarrow> nat \<Rightarrow> nat \<Rightarrow> clock \<Rightarrow> window \<Rightarrow> rat" where
  "wait_time jitter limit attempt now w =
     max (time_until_slot now limit w) (min MAX_BACKOFF_SEC (2 ^ attempt)) + jitter (Suc attempt)"

lemma acquire_granted:
  assumes "length (trim now w) < limit"
  shows "\<exists>a. acquire (Suc fuel) sleep jitter limit n x now w = Some a \<and> aq_attempt a = n \<and> aq_time a = now \<and>
    aq_window a = trim now w @ [now] \<and> length (aq_window a) \<le> limit"
  using assms by (simp add: current_rpm_def Let_def)

lemma acquire_waits:
  assumes "limit \<le> length (trim now w)"
  shows "acquire (Suc fuel) sleep jitter limit n x now w =
    acquire fuel sleep jitter limit (Suc n) (x + wait_time jitter limit n now (trim now w))
      (sleep now (wait_time jitter limit n now (trim now w))) (trim now w)"
  using assms by (simp add: current_rpm_def Let_def wait_time_def)

declare acquire.simps [simp del]

lemma wait_time_enough:
  assumes "\<And>i. 0 \<le> jitter i" and "limit \<le> length w"
  shows "1 \<le> wait_time jitter limit n now w" and "hd w + WINDOW_SEC \<le> now + wait_time jitter limit n now w"
proof -
  let ?b = "min MAX_BACKOFF_SEC (2 ^ n)" and ?s = "time_until_slot now limit w" and ?j = "jitter (Suc n)"
  have "1 \<le> ?b" by (simp add: MAX_BACKOFF_SEC_def)
  moreover have "hd w + WINDOW_SEC - now \<le> ?s" using assms(2) by (simp add: time_until_slot_def)
  moreover have "0 \<le> ?j" by (rule assms(1))
  moreover have "?b \<le> max ?s ?b" "?s \<le> max ?s ?b" by simp_all
  ultimately show "1 \<le> wait_time jitter limit n now w" "hd w + WINDOW_SEC \<le> now + wait_time jitter limit n now w"
    unfolding wait_time_def by linarith+
qed

lemma trim_later: "t \<le> u \<Longrightarrow> trim u (trim t w) = trim u w"
  by (induction w) (auto simp: trim_def)

text \<open>C40. Waiting for a slot ends: when the bucket of a run holds no more calls than the limit, the loop
  returns after at most two sleeps, whatever jitter it draws, as long as a sleep lasts at least what
  was asked for; it does not sleep at all exactly when the last minute has a call to spare. The call it grants is
  recorded behind the calls of its last minute, and with it they are at most as many as the limit.\<close>

theorem acquire_terminates:
  assumes "\<And>now s. now + s \<le> sleep now s" and "\<And>i. 0 \<le> jitter i" and "1 \<le> limit" and "length w \<le> limit"
  shows "\<exists>a. acquire 3 sleep jitter limit 0 0 now w = Some a \<and> aq_attempt a \<le> 2 \<and> now \<le> aq_time a \<and>
    (aq_attempt a = 0 \<longleftrightarrow> length (trim now w) < limit) \<and>
    aq_window a = trim (aq_time a) w @ [aq_time a] \<and> length (aq_window a) \<le> limit"
proof -
  define v where "v = trim now w"
  have fuel: "(3::nat) = Suc (Suc (Suc 0))" by simp
  show ?thesis
  proof (cases "length v < limit")
    case True
    with acquire_granted [of now w limit 2 sleep jitter 0 0] show ?thesis unfolding v_def by (auto simp: numeral_3_eq_3)
  next
    case False
    with assms(4) trim_length [of now w] have full: "length v = limit" unfolding v_def by linarith
    then have ne: "v \<noteq> []" using assms(3) by auto
    define s where "s = wait_time jitter limit 0 now v"
    define t where "t = sleep now s"
    have slot: "hd v + WINDOW_SEC \<le> t" "now \<le> t"
      using wait_time_enough [where jitter = jitter and w = v and n = 0 and now = now and limit = limit, OF assms(2)] assms(1) [of now s] full unfolding s_def t_def by linarith+
    have one: "acquire 3 sleep jitter limit 0 0 now w = acquire (Suc (Suc 0)) sleep jitter limit 1 s t v"
      using acquire_waits [of limit now w "Suc (Suc 0)" sleep jitter 0 0] False by (simp add: fuel s_def t_def v_def)
    have later: "trim u v = trim u w" if "now \<le> u" for u unfolding v_def by (rule trim_later [OF that])
    show ?thesis
    proof (cases "length (trim t v) < limit")
      case True
      from acquire_granted [OF this, of "Suc 0" sleep jitter 1 s] slot(2) later False show ?thesis
        unfolding one v_def [symmetric] by fastforce
    next
      case full2: False
      with full trim_length [of t v] have same: "trim t v = v" by (intro trim_same) linarith
      define s2 where "s2 = wait_time jitter limit 1 t v"
      have late: "t + 1 \<le> sleep t s2"
        using wait_time_enough(1) [where jitter = jitter and w = v and n = 1 and now = t and limit = limit, OF assms(2)] assms(1) [of t s2] full unfolding s2_def by linarith
      have two: "acquire (Suc (Suc 0)) sleep jitter limit 1 s t v = acquire (Suc 0) sleep jitter limit 2 (s + s2) (sleep t s2) v"
        using acquire_waits [of limit t v "Suc 0" sleep jitter 1 s] full2 by (simp add: same s2_def numeral_2_eq_2)
      have "length (trim (sleep t s2) v) < limit"
        using trim_first_gone [OF ne, of "sleep t s2"] slot(1) late full by linarith
      from acquire_granted [OF this, of 0 sleep jitter 2 "s + s2"] slot(2) late later False show ?thesis
        unfolding one two v_def [symmetric] by fastforce
    qed
  qed
qed

theorem acquire_terminates_witness:
  "\<exists>a. acquire 3 (+) (\<lambda>_. 0) 2 0 0 10 [0, 5] = Some a \<and> aq_attempt a \<le> 2 \<and> aq_attempt a \<noteq> 0"
  using acquire_terminates [of "(+)" "\<lambda>_. 0" 2 "[0, 5]" 10] by (auto simp: trim_def WINDOW_SEC_def)

end
