(* ===== verification/Api_Keys.thy ===== *)
theory Api_Keys
  imports Rate_Limits
begin

text \<open>
  API-key authentication (\<^verbatim>\<open>app/auth/keys.py\<close>) with the budget buckets it enforces
  (\<^verbatim>\<open>app/budget/tracker.py\<close>). The hash function, the clock readings, the number of active nodes and
  the cost the peers reported are arguments. A rejected request rolls back its database writes but
  not the in-process rate-limit state.
\<close>

section \<open>Rows\<close>

record api_key_row =
  ak_id :: ident
  ak_name :: string
  key_hash :: string
  key_prefix :: string
  ak_key_type :: string
  ak_enabled :: bool
  total_requests :: int
  ak_total_cost_usd :: rat
  spending_cap_usd :: "rat option"
  rate_limit_rpm :: "int option"
  rate_limit_tier :: "string option"
  semantic_cache_enabled :: bool
  daily_soft_cap_usd :: "rat option"
  daily_hard_cap_usd :: "rat option"
  hourly_cap_usd :: "rat option"
  caller_memory_ttl_days :: "int option"
  ak_last_user_edit_at :: "clock option"
  day_bucket_ts :: "clock option"
  day_cost_usd :: rat
  hour_bucket_ts :: "clock option"
  hour_cost_usd :: rat
  ak_deleted_at :: "clock option"
  lmrh_polling_rpm :: "int option"
  lmrh_quotes_rpm :: "int option"
  ak_blocked_companies :: json
  ak_allowed_companies :: json
  ak_blocked_models :: json
  ak_allowed_models :: json
  ak_allowed_paths :: json
  debug_echo_enabled :: bool

datatype auth_error =
    Missing_key
  | Invalid_key
  | Spending_cap_reached rat
  | Hourly_budget_exceeded rat
  | Daily_budget_exceeded rat
  | Rate_limited_key rate_error

fun http_status :: "auth_error \<Rightarrow> int" where
  "http_status Missing_key = 401"
| "http_status Invalid_key = 401"
| "http_status (Spending_cap_reached _) = 429"
| "http_status (Hourly_budget_exceeded _) = 429"
| "http_status (Daily_budget_exceeded _) = 402"
| "http_status (Rate_limited_key _) = 429"

section \<open>Budgets\<close>

record budget_status =
  bs_day_cost :: rat
  bs_day_hard_cap :: "rat option"
  bs_day_soft_cap :: "rat option"
  bs_hour_cost :: rat
  bs_hour_cap :: "rat option"
  soft_warning :: bool

definition day_remaining :: "budget_status \<Rightarrow> rat option" where
  "day_remaining s = map_option (\<lambda>c. max 0 (c - bs_day_cost s)) (bs_day_hard_cap s)"

definition hour_remaining :: "budget_status \<Rightarrow> rat option" where
  "hour_remaining s = map_option (\<lambda>c. max 0 (c - bs_hour_cost s)) (bs_hour_cap s)"

definition floor_hour :: "clock \<Rightarrow> clock" where
  "floor_hour t = 3600 * of_int \<lfloor>t / 3600\<rfloor>"

definition floor_day :: "clock \<Rightarrow> clock" where
  "floor_day t = 86400 * of_int \<lfloor>t / 86400\<rfloor>"

definition reset_buckets :: "clock \<Rightarrow> api_key_row \<Rightarrow> api_key_row" where
  "reset_buckets now k =
     (let k' = (if hour_bucket_ts k \<noteq> Some (floor_hour now)
                then k \<lparr>hour_bucket_ts := Some (floor_hour now), hour_cost_usd := 0\<rparr> else k)
      in if day_bucket_ts k \<noteq> Some (floor_day now)
         then k' \<lparr>day_bucket_ts := Some (floor_day now), day_cost_usd := 0\<rparr> else k')"

definition reached :: "rat option \<Rightarrow> rat \<Rightarrow> bool" where
  "reached cap cost = (case cap of Some c \<Rightarrow> c \<le> cost | None \<Rightarrow> False)"

definition check_budget_pre_request :: "clock \<Rightarrow> api_key_row \<Rightarrow> auth_error + (budget_status \<times> api_key_row)" where
  "check_budget_pre_request now k =
     (let k' = reset_buckets now k in
      if reached (hourly_cap_usd k) (hour_cost_usd k') then Inl (Hourly_budget_exceeded (the (hourly_cap_usd k)))
      else if reached (daily_hard_cap_usd k) (day_cost_usd k') then Inl (Daily_budget_exceeded (the (daily_hard_cap_usd k)))
      else Inr (\<lparr>bs_day_cost = day_cost_usd k', bs_day_hard_cap = daily_hard_cap_usd k, bs_day_soft_cap = daily_soft_cap_usd k,
                 bs_hour_cost = hour_cost_usd k', bs_hour_cap = hourly_cap_usd k,
                 soft_warning = reached (daily_soft_cap_usd k) (day_cost_usd k')\<rparr>, k'))"

definition record_cost :: "ident \<Rightarrow> rat \<Rightarrow> api_key_row list \<Rightarrow> api_key_row list" where
  "record_cost key cost keys =
     (if cost \<le> 0 then keys
      else map (\<lambda>k. if ak_id k = key
                    then k \<lparr>hour_cost_usd := hour_cost_usd k + cost, day_cost_usd := day_cost_usd k + cost\<rparr> else k) keys)"

section \<open>Authentication\<close>

record auth_env =
  hash_key :: "string \<Rightarrow> string"
  active_nodes :: int
  peer_total_cost :: "ident \<Rightarrow> rat"
  wall_clock :: clock
  monotonic :: clock

definition today :: "auth_env \<Rightarrow> int" where
  "today e = \<lfloor>wall_clock e / 86400\<rfloor>"

definition valid_row :: "auth_env \<Rightarrow> string \<Rightarrow> api_key_row \<Rightarrow> bool" where
  "valid_row e raw k \<longleftrightarrow> key_hash k = hash_key e raw \<and> ak_enabled k \<and> ak_deleted_at k = None"

definition over_spending_cap :: "auth_env \<Rightarrow> api_key_row \<Rightarrow> bool" where
  "over_spending_cap e k =
     (case spending_cap_usd k of
        Some cap \<Rightarrow> 0 \<le> cap \<and> cap \<le> ak_total_cost_usd k + peer_total_cost e (ak_id k)
      | None \<Rightarrow> False)"

text \<open>A check that runs only when its limit is set, in a sequence that stops at the first refusal.\<close>

definition then_check ::
  "(rate_error + unit) \<times> rate_state \<Rightarrow> 'a option \<Rightarrow> ('a \<Rightarrow> rate_state \<Rightarrow> (rate_error + unit) \<times> rate_state) \<Rightarrow>
   (rate_error + unit) \<times> rate_state" where
  "then_check res limit check =
     (case res of
        (Inl e, st) \<Rightarrow> (Inl e, st)
      | (Inr _, st) \<Rightarrow> (case limit of None \<Rightarrow> (Inr (), st) | Some l \<Rightarrow> check l st))"

definition tier_checks :: "auth_env \<Rightarrow> api_key_row \<Rightarrow> rate_state \<Rightarrow> (rate_error + unit) \<times> rate_state" where
  "tier_checks e k st =
     (case get_tier (rate_limit_tier k) of
        None \<Rightarrow> (Inr (), st)
      | Some t \<Rightarrow>
          then_check
            (then_check
               (then_check (Inr (), st) (rpm t) (check_rate_limit (active_nodes e) (monotonic e) (ak_id k)))
               (rpd t) (check_rpd (active_nodes e) (today e) (ak_id k)))
            (burst t) (\<lambda>l st. (check_burst (ak_id k) l st, st)))"

definition rate_checks :: "auth_env \<Rightarrow> api_key_row \<Rightarrow> rate_state \<Rightarrow> (rate_error + unit) \<times> rate_state" where
  "rate_checks e k st =
     then_check (tier_checks e k st) (rate_limit_rpm k) (check_rate_limit (active_nodes e) (monotonic e) (ak_id k))"

record key_record =
  kr_id :: ident
  kr_name :: string
  kr_key_type :: string
  kr_semantic_cache :: bool
  kr_budget :: budget_status
  kr_tier :: "string option"

definition verify_api_key ::
  "auth_env \<Rightarrow> string option \<Rightarrow> api_key_row list \<times> rate_state \<Rightarrow>
   (auth_error + key_record) \<times> api_key_row list \<times> rate_state" where
  "verify_api_key e raw w =
     (let (keys, st) = w in
      if \<not> truthy raw then (Inl Missing_key, w)
      else case find (valid_row e (the raw)) keys of
        None \<Rightarrow> (Inl Invalid_key, w)
      | Some k \<Rightarrow>
          if over_spending_cap e k then (Inl (Spending_cap_reached (the (spending_cap_usd k))), w)
          else case check_budget_pre_request (wall_clock e) k of
            Inl err \<Rightarrow> (Inl err, w)
          | Inr (budget, k') \<Rightarrow>
              (case rate_checks e k st of
                 (Inl err, st') \<Rightarrow> (Inl (Rate_limited_key err), (keys, st'))
               | (Inr _, st') \<Rightarrow>
                   (Inr \<lparr>kr_id = ak_id k, kr_name = ak_name k, kr_key_type = ak_key_type k,
                         kr_semantic_cache = semantic_cache_enabled k, kr_budget = budget, kr_tier = rate_limit_tier k\<rparr>,
                    (map (\<lambda>x. if ak_id x = ak_id k then k' \<lparr>total_requests := total_requests k + 1\<rparr> else x) keys, st'))))"

text \<open>The two places a key may come from.\<close>

definition get_api_key_record ::
  "auth_env \<Rightarrow> string option \<Rightarrow> string option \<Rightarrow> api_key_row list \<times> rate_state \<Rightarrow>
   (auth_error + key_record) \<times> api_key_row list \<times> rate_state" where
  "get_api_key_record e x_api_key authorization w =
     (let raw = (if truthy x_api_key then x_api_key
                 else case authorization of
                        Some a \<Rightarrow> if prefix ''bearer '' (lower a) then Some (strip (drop 7 a)) else x_api_key
                      | None \<Rightarrow> x_api_key)
      in if \<not> truthy raw then (Inl Missing_key, w) else verify_api_key e raw w)"

section \<open>Deleting and restoring keys\<close>

datatype key_admin_error = Key_not_found | Key_not_deleted | Retention_expired

definition update_key :: "ident \<Rightarrow> (api_key_row \<Rightarrow> api_key_row) \<Rightarrow> api_key_row list \<Rightarrow> api_key_row list" where
  "update_key i f keys = map (\<lambda>k. if ak_id k = i then f k else k) keys"

definition delete_key :: "clock \<Rightarrow> ident \<Rightarrow> api_key_row list \<Rightarrow> key_admin_error + api_key_row list" where
  "delete_key now i keys =
     (if find (\<lambda>k. ak_id k = i) keys = None then Inl Key_not_found
      else Inr (update_key i (\<lambda>k. k \<lparr>ak_deleted_at := Some now, ak_enabled := False\<rparr>) keys))"

definition bulk_delete_keys :: "clock \<Rightarrow> ident list \<Rightarrow> api_key_row list \<Rightarrow> nat \<times> api_key_row list" where
  "bulk_delete_keys now ids keys =
     (let hit = (\<lambda>k. ak_id k \<in> set ids \<and> ak_deleted_at k = None)
      in (length (filter hit keys),
          map (\<lambda>k. if hit k then k \<lparr>ak_deleted_at := Some now, ak_enabled := False\<rparr> else k) keys))"

definition DAY_SEC :: clock where "DAY_SEC = 86400"

definition restore_key :: "int \<Rightarrow> clock \<Rightarrow> ident \<Rightarrow> api_key_row list \<Rightarrow> key_admin_error + api_key_row list" where
  "restore_key retention_days now i keys =
     (case find (\<lambda>k. ak_id k = i) keys of
        None \<Rightarrow> Inl Key_not_found
      | Some k \<Rightarrow>
          (case ak_deleted_at k of
             None \<Rightarrow> Inl Key_not_deleted
           | Some d \<Rightarrow>
               let days = (if retention_days = 0 then 90 else retention_days) in
               if d < now - of_int days * DAY_SEC then Inl Retention_expired
               else Inr (update_key i
                      (\<lambda>k. k \<lparr>ak_deleted_at := None, ak_enabled := True, ak_last_user_edit_at := Some now\<rparr>) keys)))"

section \<open>What authentication guarantees\<close>

lemma find_valid:
  assumes "find P xs = Some x"
  shows "x \<in> set xs" and "P x"
  using assms by (auto simp: find_Some_iff)

lemma verify_api_key_Inr:
  assumes "verify_api_key e raw (keys, st) = (Inr rec, keys', st')"
  obtains k budget k' where "truthy raw" "find (valid_row e (the raw)) keys = Some k" "\<not> over_spending_cap e k"
    "check_budget_pre_request (wall_clock e) k = Inr (budget, k')" "rate_checks e k st = (Inr (), st')"
    "kr_id rec = ak_id k" "kr_budget rec = budget"
    "keys' = map (\<lambda>x. if ak_id x = ak_id k then k' \<lparr>total_requests := total_requests k + 1\<rparr> else x) keys"
  using assms by (auto simp: verify_api_key_def split: if_splits option.splits sum.splits prod.splits)

lemma hour_spent:
  "hour_cost_usd (reset_buckets now k) = (if hour_bucket_ts k = Some (floor_hour now) then hour_cost_usd k else 0)"
  by (simp add: reset_buckets_def Let_def)

lemma day_spent:
  "day_cost_usd (reset_buckets now k) = (if day_bucket_ts k = Some (floor_day now) then day_cost_usd k else 0)"
  by (simp add: reset_buckets_def Let_def)

text \<open>C8. Whoever is let in is entitled to it: the request carries the key of an enabled row that is not
  deleted, whose spending, the peers' reports included, is below its cap, and whose hourly and daily
  budgets have room left in the current hour and day. The request is counted on that row, and every
  other row is left alone.\<close>

theorem verify_admits_only:
  assumes "verify_api_key e raw (keys, st) = (Inr rec, keys', st')" and "distinct (map ak_id keys)"
  shows "\<exists>k \<in> set keys. raw \<noteq> None \<and> key_hash k = hash_key e (the raw) \<and> ak_enabled k \<and> ak_deleted_at k = None \<and>
    kr_id rec = ak_id k \<and>
    (\<forall>c. spending_cap_usd k = Some c \<and> 0 \<le> c \<longrightarrow> ak_total_cost_usd k + peer_total_cost e (ak_id k) < c) \<and>
    (\<forall>c. hourly_cap_usd k = Some c \<longrightarrow>
       (if hour_bucket_ts k = Some (floor_hour (wall_clock e)) then hour_cost_usd k else 0) < c) \<and>
    (\<forall>c. daily_hard_cap_usd k = Some c \<longrightarrow>
       (if day_bucket_ts k = Some (floor_day (wall_clock e)) then day_cost_usd k else 0) < c) \<and>
    keys' = map (\<lambda>x. if x = k then (reset_buckets (wall_clock e) k) \<lparr>total_requests := total_requests k + 1\<rparr> else x) keys"
proof -
  obtain k budget k' where k: "truthy raw" "find (valid_row e (the raw)) keys = Some k" "\<not> over_spending_cap e k"
    "check_budget_pre_request (wall_clock e) k = Inr (budget, k')" "kr_id rec = ak_id k"
    "keys' = map (\<lambda>x. if ak_id x = ak_id k then k' \<lparr>total_requests := total_requests k + 1\<rparr> else x) keys"
    by (rule verify_api_key_Inr [OF assms(1)])
  have in_keys: "k \<in> set keys" "valid_row e (the raw) k" using find_valid [OF k(2)] by blast+
  have k': "k' = reset_buckets (wall_clock e) k" "\<not> reached (hourly_cap_usd k) (hour_cost_usd k')"
    "\<not> reached (daily_hard_cap_usd k) (day_cost_usd k')"
    using k(4) by (auto simp: check_budget_pre_request_def Let_def split: if_splits)
  have "ak_id x = ak_id k \<longleftrightarrow> x = k" if "x \<in> set keys" for x
    using that in_keys(1) assms(2) by (meson inj_onD distinct_map)
  then have "keys' = map (\<lambda>x. if x = k then k' \<lparr>total_requests := total_requests k + 1\<rparr> else x) keys"
    unfolding k(6) by (intro map_cong) auto
  with in_keys k(1,3,5) k' show ?thesis
    by (intro bexI [of _ k]) (auto simp: valid_row_def over_spending_cap_def reached_def hour_spent day_spent truthy_iff)
qed

text \<open>A bucket is reset exactly when its hour or day is over, so a budget counts what was spent in the
  current hour and day only.\<close>

lemma reset_buckets_current:
  "hour_bucket_ts (reset_buckets now k) = Some (floor_hour now)" "day_bucket_ts (reset_buckets now k) = Some (floor_day now)"
  "reset_buckets now (reset_buckets now k) = reset_buckets now k"
  by (auto simp: reset_buckets_def Let_def)

lemma trim_snoc: "trim now (trim now w @ [now]) = trim now w @ [now]"
  by (induction w) (auto simp: trim_def WINDOW_SEC_def)

lemma check_rate_limit_cases:
  "check_rate_limit nodes now key limit st =
     (let w = trim now (value_or [] (rpm_windows st key)) in
      if nat (per_node_limit nodes limit) \<le> length w
      then (Inl (Rpm_exceeded limit), st \<lparr>rpm_windows := (rpm_windows st)(key \<mapsto> w)\<rparr>)
      else (Inr (), st \<lparr>rpm_windows := (rpm_windows st)(key \<mapsto> w @ [now])\<rparr>))"
  by (simp add: check_rate_limit_def window_attempt_def Let_def)

lemma check_rpd_windows: "rpm_windows (snd (check_rpd nodes d key l st)) = rpm_windows st"
  by (auto simp: check_rpd_def Let_def split: prod.splits)

lemma tier_checks_window:
  assumes "get_tier (rate_limit_tier k) = Some t" and "rpm t = Some a" and "tier_checks e k st = (Inr (), st')"
  shows "rpm_windows st' (ak_id k) = Some (trim (monotonic e) (value_or [] (rpm_windows st (ak_id k))) @ [monotonic e])"
proof -
  obtain st1 where 1: "check_rate_limit (active_nodes e) (monotonic e) (ak_id k) a st = (Inr (), st1)"
    and 2: "then_check (then_check (Inr (), st1) (rpd t) (check_rpd (active_nodes e) (today e) (ak_id k)))
        (burst t) (\<lambda>l st. (check_burst (ak_id k) l st, st)) = (Inr (), st')"
    using assms by (auto simp: tier_checks_def then_check_def split: prod.splits sum.splits option.splits)
  have "rpm_windows st' = rpm_windows st1"
    using 2 check_rpd_windows by (auto simp: then_check_def split: prod.splits sum.splits option.splits) (metis snd_conv)+
  with 1 show ?thesis by (auto simp: check_rate_limit_cases Let_def split: if_splits)
qed

text \<open>A key with both a tier limit and an override is counted twice: every request it is granted takes
  two places of its window. With an override whose share is one request a minute, no request of the
  key is ever let in.\<close>

theorem override_counts_twice:
  assumes "get_tier (rate_limit_tier k) = Some t" and "rpm t = Some a" and "rate_limit_rpm k = Some b"
    and "rate_checks e k st = (res, st')"
  shows "(res = Inr () \<longrightarrow> rpm_windows st' (ak_id k) =
      Some (trim (monotonic e) (value_or [] (rpm_windows st (ak_id k))) @ [monotonic e, monotonic e])) \<and>
    (per_node_limit (active_nodes e) b = 1 \<longrightarrow> res \<noteq> Inr ())"
proof -
  let ?now = "monotonic e"
  obtain r1 st1 where r1: "tier_checks e k st = (r1, st1)" by fastforce
  show ?thesis
  proof (cases r1)
    case (Inr u)
    with r1 tier_checks_window [OF assms(1,2)]
    have w: "rpm_windows st1 (ak_id k) = Some (trim ?now (value_or [] (rpm_windows st (ak_id k))) @ [?now])" by simp
    have "(res, st') = check_rate_limit (active_nodes e) ?now (ak_id k) b st1"
      using assms(3,4) r1 Inr by (simp add: rate_checks_def then_check_def)
    then show ?thesis
      by (auto simp: check_rate_limit_cases w value_or_def trim_snoc Let_def split: if_splits)
  qed (use assms(3,4) r1 in \<open>auto simp: rate_checks_def then_check_def\<close>)
qed

section \<open>A concrete key\<close>

definition demo_key :: api_key_row where
  "demo_key =
     \<lparr>ak_id = ''k'', ak_name = ''demo'', key_hash = ''h'', key_prefix = ''llmp-'', ak_key_type = ''standard'', ak_enabled = True,
      total_requests = 0, ak_total_cost_usd = 1, spending_cap_usd = Some 5, rate_limit_rpm = Some 1, rate_limit_tier = Some ''Free'',
      semantic_cache_enabled = False, daily_soft_cap_usd = None, daily_hard_cap_usd = Some 2, hourly_cap_usd = Some 1,
      caller_memory_ttl_days = None, ak_last_user_edit_at = Some 10, day_bucket_ts = None, day_cost_usd = 7, hour_bucket_ts = None,
      hour_cost_usd = 7, ak_deleted_at = None, lmrh_polling_rpm = None, lmrh_quotes_rpm = None, ak_blocked_companies = JNull,
      ak_allowed_companies = JNull, ak_blocked_models = JNull, ak_allowed_models = JNull, ak_allowed_paths = JNull,
      debug_echo_enabled = False\<rparr>"

definition demo_auth :: auth_env where
  "demo_auth = \<lparr>hash_key = (\<lambda>_. ''h''), active_nodes = 1, peer_total_cost = (\<lambda>_. 1), wall_clock = 90000, monotonic = 50\<rparr>"

lemma demo_admitted:
  obtains rec keys st where
    "verify_api_key demo_auth (Some ''llmp-x'') ([demo_key \<lparr>rate_limit_rpm := None\<rparr>], no_requests) = (Inr rec, keys, st)"
proof -
  have "is_ok (fst (verify_api_key demo_auth (Some ''llmp-x'') ([demo_key \<lparr>rate_limit_rpm := None\<rparr>], no_requests)))"
    by code_simp
  then show thesis
    using that by (cases "verify_api_key demo_auth (Some ''llmp-x'') ([demo_key \<lparr>rate_limit_rpm := None\<rparr>], no_requests)")
      (auto simp: is_ok_iff)
qed

theorem verify_admits_only_witness:
  "\<exists>rec keys st. verify_api_key demo_auth (Some ''llmp-x'') ([demo_key \<lparr>rate_limit_rpm := None\<rparr>], no_requests) = (Inr rec, keys, st) \<and>
     kr_id rec = ''k''"
proof -
  obtain rec keys st where
    v: "verify_api_key demo_auth (Some ''llmp-x'') ([demo_key \<lparr>rate_limit_rpm := None\<rparr>], no_requests) = (Inr rec, keys, st)"
    by (rule demo_admitted)
  have "kr_id rec = ''k''" using verify_admits_only [OF v] by (auto simp: demo_key_def)
  with v show ?thesis by blast
qed

theorem override_counts_twice_witness:
  "fst (rate_checks demo_auth demo_key no_requests) \<noteq> Inr ()"
proof -
  have "get_tier (rate_limit_tier demo_key) = Some \<lparr>rpm = Some 20, rpd = Some 1000, burst = Some 2\<rparr>" by code_simp
  moreover obtain res st' where r: "rate_checks demo_auth demo_key no_requests = (res, st')" by fastforce
  ultimately show ?thesis
    using override_counts_twice [of demo_key "\<lparr>rpm = Some 20, rpd = Some 1000, burst = Some 2\<rparr>" 20 1 demo_auth no_requests res st']
    by (simp add: demo_key_def demo_auth_def per_node_limit_def)
qed

end
