(* ===== verification/Cluster_Sync.thy ===== *)
theory Cluster_Sync
  imports Cluster_Merge Api_Keys Bool_Setting Run_Worker "HOL-Library.List_Lexorder" "HOL-Library.Option_ord"
begin

text \<open>
  Merging a peer's payload into the local tables (\<^verbatim>\<open>app/cluster/sync.py\<close> and
  \<^verbatim>\<open>app/cluster/sync_handlers.py\<close>). A payload row is a record whose timestamps are parsed; a column the
  sender may omit is an option, \<open>None\<close> when its key is absent. Columns no modelled component reads
  are left out.
\<close>

section \<open>Blocked addresses\<close>

record blocked_ip =
  bi_ip :: string
  bi_reason :: "string option"
  bi_added_by :: "string option"
  bi_added_at :: "clock option"
  bi_deleted_at :: "clock option"

definition newer :: "clock option \<Rightarrow> clock option \<Rightarrow> bool" where
  "newer incoming local = (case (incoming, local) of
     (None, _) \<Rightarrow> False | (Some _, None) \<Rightarrow> True | (Some a, Some b) \<Rightarrow> b < a)"

definition ip_key :: "blocked_ip \<Rightarrow> string option" where
  "ip_key w = (if strip (bi_ip w) = [] then None else Some (strip (bi_ip w)))"

definition ip_insert :: "blocked_ip \<Rightarrow> blocked_ip option" where
  "ip_insert w = Some (w \<lparr>bi_ip := strip (bi_ip w)\<rparr>)"

definition ip_update :: "blocked_ip \<Rightarrow> blocked_ip \<Rightarrow> blocked_ip" where
  "ip_update w r =
     (if newer (bi_deleted_at w) (bi_deleted_at r) then r \<lparr>bi_deleted_at := bi_deleted_at w\<rparr>
      else if bi_deleted_at w = None \<and> newer (bi_added_at w) (bi_added_at r)
      then r \<lparr>bi_deleted_at := None, bi_reason := bi_reason w, bi_added_by := bi_added_by w\<rparr>
      else r)"

definition apply_blocked_ips :: "blocked_ip list \<Rightarrow> blocked_ip list \<Rightarrow> blocked_ip list" where
  "apply_blocked_ips = merge_rows bi_ip ip_key ip_update ip_insert"

section \<open>Reviews, snapshots and audit rows\<close>

text \<open>Reviews of API keys and of providers have the same lifecycle columns and one merge.\<close>

record review =
  rv_subject :: ident
  rv_captured_at :: clock
  rv_verdict :: string
  rv_applied_at :: "clock option"
  rv_applied_action :: "string option"
  rv_reverted_at :: "clock option"
  rv_dismissed_at :: "clock option"

definition fill :: "'a option \<Rightarrow> 'a option \<Rightarrow> 'a option" where
  "fill incoming local = (case local of None \<Rightarrow> incoming | Some x \<Rightarrow> Some x)"

definition review_key :: "review \<Rightarrow> (ident \<times> clock) option" where
  "review_key w = (if rv_subject w = [] then None else Some (rv_subject w, rv_captured_at w))"

definition review_insert :: "review \<Rightarrow> review option" where
  "review_insert w = Some (if rv_verdict w = [] then w \<lparr>rv_verdict := ''watch''\<rparr> else w)"

definition review_update :: "review \<Rightarrow> review \<Rightarrow> review" where
  "review_update w r =
     r \<lparr>rv_applied_at := fill (rv_applied_at w) (rv_applied_at r),
        rv_reverted_at := fill (rv_reverted_at w) (rv_reverted_at r),
        rv_dismissed_at := fill (rv_dismissed_at w) (rv_dismissed_at r),
        rv_applied_action := (if truthy (rv_applied_action w) \<and> \<not> truthy (rv_applied_action r)
                              then rv_applied_action w else rv_applied_action r)\<rparr>"

definition apply_ai_reviews :: "review list \<Rightarrow> review list \<Rightarrow> review list" where
  "apply_ai_reviews = merge_rows (\<lambda>r. (rv_subject r, rv_captured_at r)) review_key review_update review_insert"

text \<open>Append-only tables: usage snapshots by provider and time, audit rows by their id.\<close>

definition snapshot_key :: "usage_snapshot \<Rightarrow> (ident \<times> clock) option" where
  "snapshot_key w = (if snap_provider_id w = [] then None else Some (snap_provider_id w, captured_at w))"

definition apply_external_usage_snapshots :: "usage_snapshot list \<Rightarrow> usage_snapshot list \<Rightarrow> usage_snapshot list" where
  "apply_external_usage_snapshots =
     merge_rows (\<lambda>r. (snap_provider_id r, captured_at r)) snapshot_key (\<lambda>w r. r) Some"

record audit_row =
  audit_id :: string
  audit_columns :: "(string \<times> json) list"

definition audit_key :: "audit_row \<Rightarrow> string option" where
  "audit_key w = (if audit_id w = [] then None else Some (audit_id w))"

definition row_to_kwargs :: "string list \<Rightarrow> audit_row \<Rightarrow> audit_row" where
  "row_to_kwargs allowed w = w \<lparr>audit_columns := filter (\<lambda>kv. fst kv \<in> set allowed) (audit_columns w)\<rparr>"

definition apply_compliance_events :: "string list \<Rightarrow> audit_row list \<Rightarrow> audit_row list \<Rightarrow> audit_row list" where
  "apply_compliance_events allowed =
     merge_rows audit_id audit_key (\<lambda>w r. r) (\<lambda>w. Some (row_to_kwargs allowed w))"

section \<open>Caller memory\<close>

record caller_memory =
  cm_api_key_id :: ident
  cm_conversation_id :: "string option"
  cm_memory_tag :: string
  cm_content :: string
  cm_content_format :: string
  cm_updated_at :: clock
  cm_updated_by_node :: "string option"
  cm_source_provider_id :: "ident option"
  cm_source_request_id :: "string option"
  cm_deleted_at :: "clock option"

definition tag_of :: "string \<Rightarrow> string" where
  "tag_of t = (if t = [] then ''default'' else t)"

definition memory_key :: "caller_memory \<Rightarrow> (ident \<times> string option \<times> string) option" where
  "memory_key w = (if cm_api_key_id w = [] then None else Some (cm_api_key_id w, cm_conversation_id w, tag_of (cm_memory_tag w)))"

definition memory_over :: "caller_memory \<Rightarrow> caller_memory \<Rightarrow> caller_memory" where
  "memory_over w r =
     r \<lparr>cm_content := cm_content w, cm_content_format := (if cm_content_format w = [] then ''text'' else cm_content_format w),
        cm_updated_at := cm_updated_at w, cm_updated_by_node := cm_updated_by_node w,
        cm_source_provider_id := cm_source_provider_id w, cm_source_request_id := cm_source_request_id w,
        cm_deleted_at := cm_deleted_at w\<rparr>"

definition blank_memory :: "ident \<times> string option \<times> string \<Rightarrow> caller_memory" where
  "blank_memory k =
     \<lparr>cm_api_key_id = fst k, cm_conversation_id = fst (snd k), cm_memory_tag = snd (snd k), cm_content = [],
      cm_content_format = ''text'', cm_updated_at = 0, cm_updated_by_node = None, cm_source_provider_id = None,
      cm_source_request_id = None, cm_deleted_at = None\<rparr>"

definition memory_update :: "caller_memory \<Rightarrow> caller_memory \<Rightarrow> caller_memory" where
  "memory_update w r = (if cm_updated_at r < cm_updated_at w then memory_over w r else r)"

definition memory_insert :: "caller_memory \<Rightarrow> caller_memory option" where
  "memory_insert w = map_option (\<lambda>k. memory_over w (blank_memory k)) (memory_key w)"

definition memory_row_key :: "caller_memory \<Rightarrow> ident \<times> string option \<times> string" where
  "memory_row_key r = (cm_api_key_id r, cm_conversation_id r, cm_memory_tag r)"

definition apply_caller_memory :: "caller_memory list \<Rightarrow> caller_memory list \<Rightarrow> caller_memory list" where
  "apply_caller_memory = merge_rows memory_row_key memory_key memory_update memory_insert"

record memory_marker =
  mm_api_key_id :: ident
  mm_conversation_id :: "string option"
  mm_memory_tag :: string
  mm_first_seen_at :: clock
  mm_last_known_provider_id :: "ident option"
  mm_last_known_external_ref :: "string option"
  mm_recovered_at :: "clock option"

definition marker_key :: "memory_marker \<Rightarrow> (ident \<times> string option \<times> string) option" where
  "marker_key w = (if mm_api_key_id w = [] then None else Some (mm_api_key_id w, mm_conversation_id w, tag_of (mm_memory_tag w)))"

definition marker_insert :: "memory_marker \<Rightarrow> memory_marker option" where
  "marker_insert w = Some (w \<lparr>mm_memory_tag := tag_of (mm_memory_tag w)\<rparr>)"

definition keep_text :: "'a list option \<Rightarrow> 'a list option \<Rightarrow> 'a list option" where
  "keep_text incoming local = (if truthy incoming \<and> \<not> truthy local then incoming else local)"

definition marker_update :: "memory_marker \<Rightarrow> memory_marker \<Rightarrow> memory_marker" where
  "marker_update w r =
     r \<lparr>mm_first_seen_at := (if mm_first_seen_at w \<noteq> 0 \<and> mm_first_seen_at w < mm_first_seen_at r
                             then mm_first_seen_at w else mm_first_seen_at r),
        mm_last_known_provider_id := keep_text (mm_last_known_provider_id w) (mm_last_known_provider_id r),
        mm_last_known_external_ref := keep_text (mm_last_known_external_ref w) (mm_last_known_external_ref r),
        mm_recovered_at := fill (mm_recovered_at w) (mm_recovered_at r)\<rparr>"

definition apply_caller_memory_markers :: "memory_marker list \<Rightarrow> memory_marker list \<Rightarrow> memory_marker list" where
  "apply_caller_memory_markers =
     merge_rows (\<lambda>r. (mm_api_key_id r, mm_conversation_id r, mm_memory_tag r)) marker_key marker_update marker_insert"

section \<open>Settings, node login states and runs\<close>

text \<open>The keys of the runtime settings; a row of another key is not merged.\<close>

definition SCHEMA :: "string list" where
  "SCHEMA =
    [''lmrh_v2_enabled'', ''cot_enabled'', ''cot_max_iterations'', ''cot_quality_threshold'',
     ''cot_critique_max_tokens'', ''cot_plan_max_tokens'', ''cot_min_tokens_skip'', ''cot_verify_enabled'',
     ''cot_verify_max_tokens'', ''cot_verify_auto_detect'', ''cot_cross_provider_critique'', ''cot_verify_execute'',
     ''cot_verify_step_timeout_sec'', ''cot_plan_compact'', ''fallback_enabled'', ''fallback_max_providers'',
     ''task_auto_detect_enabled'', ''shadow_traffic_rate'', ''shadow_candidate_provider_id'',
     ''structured_output_enabled'', ''structured_output_max_repairs'', ''vision_route_enabled'',
     ''semantic_cache_enabled'', ''semantic_cache_threshold'', ''semantic_cache_ttl_sec'',
     ''semantic_cache_min_response_chars'', ''semantic_cache_embedding_model'', ''semantic_cache_provider_id'',
     ''hedge_enabled'', ''hedge_max_per_sec'', ''native_thinking_budget_tokens'', ''native_reasoning_effort'',
     ''activity_log_capture_previews'', ''activity_log_capture_bodies'', ''activity_log_max_body_chars'',
     ''activity_log_body_sample_rate_4xx'', ''circuit_breaker_threshold'', ''circuit_breaker_timeout_sec'',
     ''circuit_breaker_halfopen_sec'', ''circuit_breaker_success_needed'', ''hold_down_sec'',
     ''runs_max_turns_ceiling'', ''runs_max_model_calls_per_minute'', ''keepalive_probe_interval_sec'',
     ''activity_log_retention_days'', ''smtp_enabled'', ''smtp_host'', ''smtp_port'', ''smtp_from'', ''smtp_to'',
     ''smtp_user'', ''smtp_pass'', ''smtp_helo'', ''sso_enabled'', ''sso_issuer'', ''sso_client_id'',
     ''sso_client_secret'', ''sso_redirect_uri'', ''sso_default_role'', ''sso_allowed_domains'',
     ''sso_auto_provision'', ''audit_export_s3_bucket'', ''audit_export_s3_endpoint'', ''audit_export_s3_region'',
     ''audit_export_s3_access_key'', ''audit_export_s3_secret_key'', ''audit_export_retention_days'',
     ''integration_enabled'', ''integration_passphrase'', ''integration_default_daily_budget_usd'',
     ''integration_max_daily_budget_usd'', ''integration_max_messages_per_session'', ''integration_model'',
     ''pii_masking_enabled'', ''prompt_guard_enabled'', ''prompt_guard_denylist'', ''sso_entity_id'',
     ''sso_idp_metadata_url'', ''sso_acs_url'', ''ai_rate_limiter_enabled'', ''ai_rate_limiter_auto_apply'',
     ''ai_rate_limiter_interval_sec'', ''ai_rate_limiter_window_min'', ''ai_rate_limiter_model'',
     ''ai_rate_limiter_internal_api_key'', ''ai_rate_limiter_throttle_floor_rpm'',
     ''ai_provider_supervisor_enabled'', ''ai_provider_supervisor_auto_apply'',
     ''ai_provider_supervisor_interval_sec'', ''ai_provider_supervisor_short_window_min'',
     ''ai_provider_supervisor_trend_window_days'', ''ai_provider_supervisor_model'',
     ''ai_provider_supervisor_internal_api_key'', ''ai_provider_supervisor_max_priority_delta'',
     ''ai_provider_supervisor_max_auto_skip_hours'', ''anthropic_billing_scrape_interval_sec'',
     ''anthropic_billing_min_scrape_gap_sec'', ''codex_billing_scrape_interval_sec'',
     ''codex_billing_min_scrape_gap_sec'', ''ai_tool_prober_enabled'', ''ai_tool_prober_interval_sec'',
     ''ai_tool_prober_internal_api_key'', ''ai_tool_prober_native_threshold'', ''ai_tool_prober_emulate_threshold'',
     ''ai_tool_prober_success_window'', ''caller_memory_enabled'', ''caller_memory_active_flush_enabled'',
     ''caller_memory_recovery_enabled'', ''compliance_enabled'', ''compliance_system_blocked_companies'',
     ''compliance_audit_retention_days'', ''compliance_ua_block_enabled'', ''compliance_custom_companies'',
     ''compliance_backfill_applied'']"

definition setting_wkey :: "string list \<Rightarrow> setting_row \<Rightarrow> string option" where
  "setting_wkey schema w = (if sr_key w \<in> set schema then Some (sr_key w) else None)"

definition setting_over :: "setting_row \<Rightarrow> setting_row \<Rightarrow> setting_row" where
  "setting_over w r = r \<lparr>sr_value := sr_value w, sr_updated_at := sr_updated_at w\<rparr>"

definition blank_setting :: "string \<Rightarrow> setting_row" where
  "blank_setting k = \<lparr>sr_key = k, sr_value = None, sr_updated_at = 0\<rparr>"

definition setting_update :: "setting_row \<Rightarrow> setting_row \<Rightarrow> setting_row" where
  "setting_update w r = (if sr_updated_at w \<le> sr_updated_at r then r else setting_over w r)"

definition setting_insert :: "setting_row \<Rightarrow> setting_row option" where
  "setting_insert w = Some (setting_over w (blank_setting (sr_key w)))"

definition apply_settings :: "string list \<Rightarrow> setting_row list \<Rightarrow> setting_row list \<Rightarrow> setting_row list" where
  "apply_settings schema = merge_rows sr_key (setting_wkey schema) setting_update setting_insert"

text \<open>An empty error text counts as none.\<close>

definition auth_wkey :: "node_auth_row \<Rightarrow> (ident \<times> ident) option" where
  "auth_wkey w = (if na_provider_id w = [] \<or> na_node_id w = [] then None else Some (na_provider_id w, na_node_id w))"

definition auth_over :: "node_auth_row \<Rightarrow> node_auth_row \<Rightarrow> node_auth_row" where
  "auth_over w r =
     r \<lparr>auth_state := (if auth_state w = [] then ''never_authed'' else auth_state w), last_ok_at := last_ok_at w,
        last_check_at := last_check_at w, reauth_url := reauth_url w, last_error := last_error w\<rparr>"

definition blank_auth :: "ident \<times> ident \<Rightarrow> node_auth_row" where
  "blank_auth k = \<lparr>na_provider_id = fst k, na_node_id = snd k, auth_state = ''never_authed'', last_ok_at = None,
     last_check_at = None, reauth_url = None, last_error = None\<rparr>"

definition auth_update :: "node_auth_row \<Rightarrow> node_auth_row \<Rightarrow> node_auth_row" where
  "auth_update w r =
     (if (case (last_check_at r, last_check_at w) of (Some local, Some incoming) \<Rightarrow> incoming \<le> local | _ \<Rightarrow> False) then r
      else auth_over w r)"

definition auth_insert :: "node_auth_row \<Rightarrow> node_auth_row option" where
  "auth_insert w = Some (auth_over w (blank_auth (na_provider_id w, na_node_id w)))"

definition apply_provider_node_auth_states :: "node_auth_row list \<Rightarrow> node_auth_row list \<Rightarrow> node_auth_row list" where
  "apply_provider_node_auth_states =
     merge_rows (\<lambda>r. (na_provider_id r, na_node_id r)) auth_wkey auth_update auth_insert"

text \<open>A run's messages and events are tables of their own and are not part of its row.\<close>

definition run_wkey :: "run_row \<Rightarrow> ident option" where
  "run_wkey w = (if run_id w = [] then None else Some (run_id w))"

definition run_over :: "run_row \<Rightarrow> run_row \<Rightarrow> run_row" where
  "run_over w r = w \<lparr>run_id := run_id r, run_messages := run_messages r, run_events := run_events r\<rparr>"

definition blank_run :: "ident \<Rightarrow> run_row" where
  "blank_run i = (new_run_row i [] [] 0 30 False 0 [])"

definition run_update :: "run_row \<Rightarrow> run_row \<Rightarrow> run_row" where
  "run_update w r = (if updated_at w \<le> updated_at r then r else run_over w r)"

definition run_insert :: "clock \<Rightarrow> run_row \<Rightarrow> run_row option" where
  "run_insert now w =
     Some ((run_over w (blank_run (run_id w))) \<lparr>updated_at := (if updated_at w = 0 then now else updated_at w)\<rparr>)"

definition apply_runs :: "clock \<Rightarrow> run_row list \<Rightarrow> run_row list \<Rightarrow> run_row list" where
  "apply_runs now = merge_rows run_id run_wkey run_update (run_insert now)"

section \<open>The merges as registers\<close>

interpretation ips: register_table bi_ip ip_key ip_update ip_insert
  by unfold_locales (auto simp: ip_update_def ip_insert_def ip_key_def split: if_splits)

interpretation reviews: register_table "\<lambda>r. (rv_subject r, rv_captured_at r)" review_key review_update review_insert
  by unfold_locales (auto simp: review_update_def review_insert_def review_key_def split: if_splits)

interpretation usage: register_table "\<lambda>r. (snap_provider_id r, captured_at r)" snapshot_key "\<lambda>w r. r" Some
  by unfold_locales (auto simp: snapshot_key_def split: if_splits)

interpretation audits: register_table audit_id audit_key "\<lambda>w r. r" "\<lambda>w. Some (row_to_kwargs allowed w)" for allowed
  by unfold_locales (auto simp: audit_key_def row_to_kwargs_def split: if_splits)

interpretation markers: register_table "\<lambda>r. (mm_api_key_id r, mm_conversation_id r, mm_memory_tag r)" marker_key marker_update marker_insert
  by unfold_locales (auto simp: marker_update_def marker_insert_def marker_key_def split: if_splits)

interpretation memory: lww_table memory_row_key memory_key memory_update memory_insert memory_over blank_memory cm_updated_at cm_updated_at "\<lambda>_. True"
  by unfold_locales
    (auto simp: memory_row_key_def memory_key_def memory_update_def memory_insert_def memory_over_def blank_memory_def split: if_splits)

interpretation settings: lww_table sr_key "setting_wkey schema" setting_update setting_insert setting_over blank_setting sr_updated_at sr_updated_at "\<lambda>_. True"
  for schema
  by unfold_locales
    (auto simp: setting_wkey_def setting_update_def setting_insert_def setting_over_def blank_setting_def split: if_splits)

interpretation auths: lww_table "\<lambda>r. (na_provider_id r, na_node_id r)" auth_wkey auth_update auth_insert auth_over blank_auth
    last_check_at last_check_at "\<lambda>w. last_check_at w \<noteq> None"
  by unfold_locales
    (auto simp: auth_wkey_def auth_update_def auth_insert_def auth_over_def blank_auth_def split: if_splits option.splits)

interpretation run_rows: lww_table run_id run_wkey run_update "run_insert now" run_over blank_run updated_at updated_at "\<lambda>w. updated_at w \<noteq> 0"
  for now
  by unfold_locales (auto simp: run_wkey_def run_update_def run_insert_def run_over_def blank_run_def new_run_row_def split: if_splits)

section \<open>API keys\<close>

record key_wire =
  kw_id :: ident
  kw_name :: string
  kw_key_hash :: string
  kw_key_prefix :: string
  kw_key_type :: "string option"
  kw_enabled :: "bool option"
  kw_spending_cap_usd :: "rat option option"
  kw_rate_limit_rpm :: "int option option"
  kw_rate_limit_tier :: "string option option"
  kw_semantic_cache_enabled :: "bool option"
  kw_daily_soft_cap_usd :: "rat option option"
  kw_daily_hard_cap_usd :: "rat option option"
  kw_hourly_cap_usd :: "rat option option"
  kw_caller_memory_ttl_days :: "int option option"
  kw_lmrh_polling_rpm :: "int option option"
  kw_lmrh_quotes_rpm :: "int option option"
  kw_blocked_companies :: "json option"
  kw_allowed_companies :: "json option"
  kw_blocked_models :: "json option"
  kw_allowed_models :: "json option"
  kw_allowed_paths :: "json option"
  kw_debug_echo_enabled :: "bool option"
  kw_total_cost_usd :: "rat option"
  kw_deleted_at :: "clock option"
  kw_last_user_edit_at :: "clock option"

definition set_if :: "'a option \<Rightarrow> ('a \<Rightarrow> 'r \<Rightarrow> 'r) \<Rightarrow> 'r \<Rightarrow> 'r" where
  "set_if x f r = (case x of None \<Rightarrow> r | Some v \<Rightarrow> f v r)"

definition not_older :: "clock option \<Rightarrow> clock option \<Rightarrow> bool" where
  "not_older incoming local = (case (incoming, local) of
     (None, _) \<Rightarrow> False | (Some _, None) \<Rightarrow> True | (Some a, Some b) \<Rightarrow> b \<le> a)"

text \<open>The gate on operator edits: a tie keeps the local row, an unstamped peer never beats a stamped row,
  and without a local stamp the peer is accepted.\<close>

definition edit_accepts :: "clock option \<Rightarrow> clock option \<Rightarrow> bool" where
  "edit_accepts peer local = (case (peer, local) of
     (Some p, Some l) \<Rightarrow> l < p | (None, Some _) \<Rightarrow> False | (_, None) \<Rightarrow> True)"

definition key_tombstone :: "key_wire \<Rightarrow> api_key_row \<Rightarrow> bool" where
  "key_tombstone w r = not_older (kw_deleted_at w) (ak_deleted_at r)"

definition key_accepts :: "key_wire \<Rightarrow> api_key_row \<Rightarrow> bool" where
  "key_accepts w r \<longleftrightarrow>
     \<not> key_tombstone w r \<and> \<not> (ak_deleted_at r \<noteq> None \<and> kw_deleted_at w = None) \<and>
     edit_accepts (kw_last_user_edit_at w) (ak_last_user_edit_at r)"

definition key_fields :: "key_wire \<Rightarrow> api_key_row \<Rightarrow> api_key_row" where
  "key_fields w =
     set_if (kw_spending_cap_usd w) (\<lambda>v r. r \<lparr>spending_cap_usd := v\<rparr>) \<circ>
     set_if (kw_rate_limit_rpm w) (\<lambda>v r. r \<lparr>rate_limit_rpm := v\<rparr>) \<circ>
     set_if (kw_enabled w) (\<lambda>v r. r \<lparr>ak_enabled := v\<rparr>) \<circ>
     set_if (kw_semantic_cache_enabled w) (\<lambda>v r. r \<lparr>semantic_cache_enabled := v\<rparr>) \<circ>
     set_if (kw_daily_soft_cap_usd w) (\<lambda>v r. r \<lparr>daily_soft_cap_usd := v\<rparr>) \<circ>
     set_if (kw_daily_hard_cap_usd w) (\<lambda>v r. r \<lparr>daily_hard_cap_usd := v\<rparr>) \<circ>
     set_if (kw_hourly_cap_usd w) (\<lambda>v r. r \<lparr>hourly_cap_usd := v\<rparr>) \<circ>
     set_if (kw_rate_limit_tier w) (\<lambda>v r. r \<lparr>rate_limit_tier := v\<rparr>) \<circ>
     set_if (kw_caller_memory_ttl_days w) (\<lambda>v r. r \<lparr>caller_memory_ttl_days := v\<rparr>) \<circ>
     set_if (kw_lmrh_polling_rpm w) (\<lambda>v r. r \<lparr>lmrh_polling_rpm := v\<rparr>) \<circ>
     set_if (kw_lmrh_quotes_rpm w) (\<lambda>v r. r \<lparr>lmrh_quotes_rpm := v\<rparr>) \<circ>
     set_if (kw_blocked_companies w) (\<lambda>v r. r \<lparr>ak_blocked_companies := v\<rparr>) \<circ>
     set_if (kw_allowed_companies w) (\<lambda>v r. r \<lparr>ak_allowed_companies := v\<rparr>) \<circ>
     set_if (kw_blocked_models w) (\<lambda>v r. r \<lparr>ak_blocked_models := v\<rparr>) \<circ>
     set_if (kw_allowed_models w) (\<lambda>v r. r \<lparr>ak_allowed_models := v\<rparr>) \<circ>
     set_if (kw_allowed_paths w) (\<lambda>v r. r \<lparr>ak_allowed_paths := v\<rparr>) \<circ>
     set_if (kw_debug_echo_enabled w) (\<lambda>v r. r \<lparr>debug_echo_enabled := v\<rparr>) \<circ>
     set_if (kw_last_user_edit_at w) (\<lambda>v r. r \<lparr>ak_last_user_edit_at := Some v\<rparr>)"

definition key_update :: "key_wire \<Rightarrow> api_key_row \<Rightarrow> api_key_row" where
  "key_update w r =
     (if key_tombstone w r then r \<lparr>ak_deleted_at := kw_deleted_at w, ak_enabled := False\<rparr>
      else if key_accepts w r then key_fields w r else r)"

definition blank_key :: "key_wire \<Rightarrow> api_key_row" where
  "blank_key w =
     \<lparr>ak_id = kw_id w, ak_name = kw_name w, key_hash = kw_key_hash w, key_prefix = kw_key_prefix w,
      ak_key_type = value_or ''standard'' (kw_key_type w), ak_enabled = True, total_requests = 0, ak_total_cost_usd = 0,
      spending_cap_usd = None, rate_limit_rpm = None, rate_limit_tier = None, semantic_cache_enabled = False,
      daily_soft_cap_usd = None, daily_hard_cap_usd = None, hourly_cap_usd = None, caller_memory_ttl_days = None,
      ak_last_user_edit_at = None, day_bucket_ts = None, day_cost_usd = 0, hour_bucket_ts = None, hour_cost_usd = 0,
      ak_deleted_at = None, lmrh_polling_rpm = None, lmrh_quotes_rpm = None, ak_blocked_companies = JNull,
      ak_allowed_companies = JNull, ak_blocked_models = JNull, ak_allowed_models = JNull, ak_allowed_paths = JNull,
      debug_echo_enabled = False\<rparr>"

definition key_insert :: "key_wire \<Rightarrow> api_key_row option" where
  "key_insert w = (if kw_deleted_at w \<noteq> None then None else Some (key_fields w (blank_key w)))"

text \<open>The cost a peer reports is read at the end of the loop body, which a row that is skipped does not
  reach.\<close>

definition key_cost :: "key_wire \<Rightarrow> api_key_row list \<Rightarrow> (ident \<times> rat) list" where
  "key_cost w t =
     (let merged = (case row_of key_hash (kw_key_hash w) t of
                      Some r \<Rightarrow> key_accepts w r
                    | None \<Rightarrow> kw_deleted_at w = None)
      in if merged \<and> kw_id w \<noteq> [] then (case kw_total_cost_usd w of Some c \<Rightarrow> [(kw_id w, c)] | None \<Rightarrow> []) else [])"

definition apply_api_keys :: "key_wire list \<Rightarrow> api_key_row list \<Rightarrow> (ident \<times> rat) list \<times> api_key_row list" where
  "apply_api_keys ws t =
     fold (\<lambda>w (costs, t).
        (key_cost w t @ costs, merge_row key_hash (\<lambda>w. Some (kw_key_hash w)) key_update key_insert w t)) ws ([], t)"

lemma set_if_simps [simp]: "set_if None f r = r" "set_if (Some v) f r = f v r"
  by (simp_all add: set_if_def)

text \<open>A column that no membership test touches is left alone by all of them.\<close>

lemma set_if_keeps: "(\<And>v r. g (f v r) = g r) \<Longrightarrow> g (set_if x f r) = g r"
  by (cases x) auto

lemma key_fields_frame [simp]:
  "key_hash (key_fields w r) = key_hash r" "ak_id (key_fields w r) = ak_id r" "ak_deleted_at (key_fields w r) = ak_deleted_at r"
  "ak_total_cost_usd (key_fields w r) = ak_total_cost_usd r"
  by (simp_all add: key_fields_def set_if_keeps)

interpretation keys: register_table key_hash "\<lambda>w. Some (kw_key_hash w)" key_update key_insert
  by unfold_locales (auto simp: key_update_def key_insert_def blank_key_def split: if_splits)

lemma apply_api_keys_table:
  "snd (apply_api_keys ws t) = merge_rows key_hash (\<lambda>w. Some (kw_key_hash w)) key_update key_insert ws t"
proof -
  have "snd (fold (\<lambda>w (costs, t).
        (key_cost w t @ costs, merge_row key_hash (\<lambda>w. Some (kw_key_hash w)) key_update key_insert w t)) ws (c, t)) =
      fold (merge_row key_hash (\<lambda>w. Some (kw_key_hash w)) key_update key_insert) ws t" for c
    by (induction ws arbitrary: c t) auto
  then show ?thesis by (simp add: apply_api_keys_def merge_rows_def)
qed

section \<open>Users\<close>

record user_row =
  us_id :: ident
  us_username :: string
  us_password_hash :: string
  us_role :: string
  us_email :: "string option"
  us_deleted_at :: "clock option"
  us_last_user_edit_at :: clock

record user_wire =
  uw_id :: ident
  uw_username :: string
  uw_password_hash :: string
  uw_role :: "string option"
  uw_email :: "string option option"
  uw_deleted_at :: "clock option"
  uw_last_user_edit_at :: clock

definition user_update :: "user_wire \<Rightarrow> user_row \<Rightarrow> user_row" where
  "user_update w r =
     (if us_last_user_edit_at r < uw_last_user_edit_at w
      then (if uw_deleted_at w \<noteq> None then r \<lparr>us_deleted_at := uw_deleted_at w\<rparr>
            else set_if (uw_email w) (\<lambda>v r. r \<lparr>us_email := v\<rparr>)
                   (r \<lparr>us_deleted_at := None, us_password_hash := uw_password_hash w,
                       us_role := value_or (us_role r) (uw_role w)\<rparr>))
             \<lparr>us_last_user_edit_at := uw_last_user_edit_at w\<rparr>
      else r)"

definition user_insert :: "user_wire \<Rightarrow> user_row option" where
  "user_insert w =
     (if uw_deleted_at w \<noteq> None then None
      else Some \<lparr>us_id = uw_id w, us_username = uw_username w, us_password_hash = uw_password_hash w,
                 us_role = value_or ''user'' (uw_role w), us_email = value_or None (uw_email w), us_deleted_at = None,
                 us_last_user_edit_at = uw_last_user_edit_at w\<rparr>)"

text \<open>A row is matched by its id, and by its name when no row has the id.\<close>

definition match_then :: "('r \<Rightarrow> bool) \<Rightarrow> ('r \<Rightarrow> bool) \<Rightarrow> ('r \<Rightarrow> 'r) \<Rightarrow> 'r option \<Rightarrow> 'r list \<Rightarrow> 'r list" where
  "match_then by_id by_name f i t = (if find by_id t \<noteq> None then upsert by_id f i t else upsert by_name f i t)"

definition apply_user :: "user_wire \<Rightarrow> user_row list \<Rightarrow> user_row list" where
  "apply_user w =
     match_then (\<lambda>r. us_id r = uw_id w) (\<lambda>r. us_username r = uw_username w) (user_update w) (user_insert w)"

definition apply_users :: "user_wire list \<Rightarrow> user_row list \<Rightarrow> user_row list" where
  "apply_users ws t = fold apply_user ws t"

section \<open>Providers\<close>

record synced_provider = provider +
  sp_hold_down_sec :: "int option"
  sp_failure_threshold :: "int option"
  oauth_refresh_token :: "string option"
  sp_created_at :: clock
  sp_updated_at :: "clock option"
  sp_last_user_edit_at :: "clock option"

record provider_wire =
  pw_id :: ident
  pw_name :: string
  pw_provider_type :: string
  pw_api_key :: "string option option"
  pw_base_url :: "string option option"
  pw_default_model :: "string option option"
  pw_priority :: "int option"
  pw_enabled :: "bool option"
  pw_timeout_sec :: "int option"
  pw_exclude_from_tool_requests :: "bool option"
  pw_hold_down_sec :: "int option option"
  pw_failure_threshold :: "int option option"
  pw_extra_config :: "(string \<times> json) list option"
  pw_owned_by_key_id :: "ident option option"
  pw_daily_budget_usd :: "rat option option"
  pw_oauth_refresh_token :: "string option option"
  pw_oauth_expires_at :: "clock option option"
  pw_auto_skip_until :: "clock option option"
  pw_auto_skip_reason :: "string option option"
  pw_owner_company :: "string option option"
  pw_deleted_at :: "clock option"
  pw_updated_at :: "clock option"
  pw_last_user_edit_at :: "clock option"

text \<open>The columns of an accepted row; those of an inserted row are the same on top of the defaults.\<close>

definition provider_fields :: "provider_wire \<Rightarrow> synced_provider \<Rightarrow> synced_provider" where
  "provider_fields w =
     set_if (pw_api_key w) (\<lambda>v r. r \<lparr>api_key := v\<rparr>) \<circ>
     set_if (pw_base_url w) (\<lambda>v r. r \<lparr>base_url := v\<rparr>) \<circ>
     set_if (pw_default_model w) (\<lambda>v r. r \<lparr>default_model := v\<rparr>) \<circ>
     set_if (pw_priority w) (\<lambda>v r. r \<lparr>priority := v\<rparr>) \<circ>
     set_if (pw_enabled w) (\<lambda>v r. r \<lparr>enabled := v\<rparr>) \<circ>
     set_if (pw_timeout_sec w) (\<lambda>v r. r \<lparr>timeout_sec := v\<rparr>) \<circ>
     set_if (pw_exclude_from_tool_requests w) (\<lambda>v r. r \<lparr>exclude_from_tool_requests := v\<rparr>) \<circ>
     set_if (pw_hold_down_sec w) (\<lambda>v r. r \<lparr>sp_hold_down_sec := v\<rparr>) \<circ>
     set_if (pw_failure_threshold w) (\<lambda>v r. r \<lparr>sp_failure_threshold := v\<rparr>) \<circ>
     set_if (pw_extra_config w) (\<lambda>v r. r \<lparr>extra_config := v\<rparr>) \<circ>
     set_if (pw_owned_by_key_id w) (\<lambda>v r. r \<lparr>owned_by_key_id := v\<rparr>) \<circ>
     set_if (pw_daily_budget_usd w) (\<lambda>v r. r \<lparr>daily_budget_usd := v\<rparr>) \<circ>
     set_if (pw_oauth_refresh_token w) (\<lambda>v r. r \<lparr>oauth_refresh_token := v\<rparr>) \<circ>
     set_if (pw_oauth_expires_at w) (\<lambda>v r. r \<lparr>oauth_expires_at := v\<rparr>) \<circ>
     set_if (pw_auto_skip_until w) (\<lambda>v r. r \<lparr>auto_skip_until := v\<rparr>) \<circ>
     set_if (pw_auto_skip_reason w) (\<lambda>v r. r \<lparr>auto_skip_reason := v\<rparr>) \<circ>
     set_if (pw_owner_company w) (\<lambda>v r. r \<lparr>owner_company := v\<rparr>)"

definition provider_accepts :: "provider_wire \<Rightarrow> synced_provider \<Rightarrow> bool" where
  "provider_accepts w r =
     (case (pw_last_user_edit_at w, sp_last_user_edit_at r) of
        (Some p, Some l) \<Rightarrow>
          if p \<noteq> l then l < p
          else (case (pw_updated_at w, sp_updated_at r) of (Some a, Some b) \<Rightarrow> b < a | _ \<Rightarrow> False)
      | (None, Some _) \<Rightarrow> False
      | (_, None) \<Rightarrow> (case (pw_updated_at w, sp_updated_at r) of (Some a, Some b) \<Rightarrow> b \<le> a | _ \<Rightarrow> True))"

text \<open>The column default that stamps an updated row unless the statement sets the column itself.\<close>

definition onupdate :: "clock \<Rightarrow> synced_provider \<Rightarrow> synced_provider \<Rightarrow> synced_provider" where
  "onupdate now r r' =
     (if r' = r then r else if sp_updated_at r' = sp_updated_at r then r' \<lparr>sp_updated_at := Some now\<rparr> else r')"

definition provider_update :: "clock \<Rightarrow> provider_wire \<Rightarrow> synced_provider \<Rightarrow> synced_provider" where
  "provider_update now w r = onupdate now r
     (if pw_deleted_at w \<noteq> None \<and> deleted_at r = None
      then (if newer (pw_updated_at w) (sp_updated_at r) then r \<lparr>sp_updated_at := pw_updated_at w\<rparr> else r)
             \<lparr>deleted_at := pw_deleted_at w, enabled := False\<rparr>
      else if deleted_at r \<noteq> None \<and> \<not> newer (pw_updated_at w) (deleted_at r) then r
      else if provider_accepts w r
      then set_if (pw_last_user_edit_at w) (\<lambda>v r. r \<lparr>sp_last_user_edit_at := Some v\<rparr>)
             (set_if (pw_updated_at w) (\<lambda>v r. r \<lparr>sp_updated_at := Some v\<rparr>)
               (provider_fields w (r \<lparr>pname := pw_name w, provider_type := pw_provider_type w\<rparr>)))
      else r)"

definition blank_provider :: "clock \<Rightarrow> provider_wire \<Rightarrow> synced_provider" where
  "blank_provider now w =
     \<lparr>pid = pw_id w, pname = pw_name w, provider_type = pw_provider_type w, api_key = None, base_url = None,
      default_model = None, priority = 10, enabled = True, timeout_sec = 60, exclude_from_tool_requests = False,
      daily_budget_usd = None, extra_config = [], oauth_expires_at = None, deleted_at = None, owned_by_key_id = None,
      auto_skip_until = None, auto_skip_reason = None, owner_company = None, sp_hold_down_sec = None,
      sp_failure_threshold = None, oauth_refresh_token = None, sp_created_at = now, sp_updated_at = Some now,
      sp_last_user_edit_at = pw_last_user_edit_at w\<rparr>"

definition provider_insert :: "clock \<Rightarrow> provider_wire \<Rightarrow> synced_provider option" where
  "provider_insert now w =
     (if pw_deleted_at w \<noteq> None then None else Some (provider_fields w (blank_provider now w)))"

definition apply_provider :: "clock \<Rightarrow> provider_wire \<Rightarrow> synced_provider list \<Rightarrow> synced_provider list" where
  "apply_provider now w =
     match_then (\<lambda>r. pid r = pw_id w) (\<lambda>r. pname r = pw_name w) (provider_update now w) (provider_insert now w)"

definition apply_providers :: "clock \<Rightarrow> provider_wire list \<Rightarrow> synced_provider list \<Rightarrow> synced_provider list" where
  "apply_providers now ws t = fold (apply_provider now) ws t"

text \<open>The circuit-breaker entries of a provider whose tombstone arrives are dropped.\<close>

definition tombstoned_ids :: "provider_wire \<Rightarrow> synced_provider list \<Rightarrow> ident list" where
  "tombstoned_ids w t =
     (let hit = (case find (\<lambda>r. pid r = pw_id w) t of Some r \<Rightarrow> Some r | None \<Rightarrow> find (\<lambda>r. pname r = pw_name w) t)
      in case hit of
           Some r \<Rightarrow> if pw_deleted_at w \<noteq> None \<and> deleted_at r = None then [pid r] else []
         | None \<Rightarrow> [])"

section \<open>Peers\<close>

record cluster_peer =
  cp_id :: ident
  cp_url :: string
  cp_name :: "string option"
  cp_added_at :: "clock option"
  cp_removed_at :: "clock option"
  cp_last_user_edit_at :: "clock option"

record peer_wire =
  qw_id :: ident
  qw_url :: "string option"
  qw_name :: "string option option"
  qw_added_at :: "clock option"
  qw_removed_at :: "clock option"
  qw_last_user_edit_at :: "clock option"

definition peer_key :: "ident \<Rightarrow> peer_wire \<Rightarrow> ident option" where
  "peer_key self w = (if qw_id w = [] \<or> qw_id w = self then None else Some (qw_id w))"

definition peer_insert :: "peer_wire \<Rightarrow> cluster_peer option" where
  "peer_insert w =
     Some \<lparr>cp_id = qw_id w, cp_url = or_else (qw_url w) [], cp_name = value_or None (qw_name w),
           cp_added_at = qw_added_at w, cp_removed_at = qw_removed_at w, cp_last_user_edit_at = qw_last_user_edit_at w\<rparr>"

definition peer_update :: "peer_wire \<Rightarrow> cluster_peer \<Rightarrow> cluster_peer" where
  "peer_update w r =
     (if not_older (qw_removed_at w) (cp_removed_at r) then r \<lparr>cp_removed_at := qw_removed_at w\<rparr>
      else if cp_removed_at r \<noteq> None \<and> qw_removed_at w = None then r
      else if (case (qw_last_user_edit_at w, cp_last_user_edit_at r) of (Some a, Some b) \<Rightarrow> a \<le> b | _ \<Rightarrow> False) then r
      else set_if (qw_last_user_edit_at w) (\<lambda>v r. r \<lparr>cp_last_user_edit_at := Some v\<rparr>)
             (set_if (qw_name w) (\<lambda>v r. r \<lparr>cp_name := v\<rparr>)
               (if truthy (qw_url w) then r \<lparr>cp_url := the (qw_url w)\<rparr> else r)))"

definition apply_cluster_peers :: "ident \<Rightarrow> peer_wire list \<Rightarrow> cluster_peer list \<Rightarrow> cluster_peer list" where
  "apply_cluster_peers self = merge_rows cp_id (peer_key self) peer_update peer_insert"

interpretation peer_rows: register_table cp_id "peer_key self" peer_update peer_insert for self
  by unfold_locales (auto simp: peer_update_def peer_insert_def peer_key_def set_if_keeps split: if_splits)

section \<open>Priority ties\<close>

text \<open>Priority ties are resolved after the merge of the providers: the younger of two enabled rows with
  one priority moves to the next free one.\<close>

function next_free :: "int set \<Rightarrow> int \<Rightarrow> int" where
  "next_free seen p = (if finite seen \<and> p \<in> seen then next_free seen (p + 1) else p)"
  by pat_completeness auto
termination
proof (relation "measure (\<lambda>(seen, p). card {q \<in> seen. p \<le> q})", goal_cases)
  case (2 seen p)
  then have "{q \<in> seen. p + 1 \<le> q} \<subset> {q \<in> seen. p \<le> q}" by force
  with 2 show ?case by (simp add: psubset_card_mono)
qed simp

lemma next_free_code [code]: "next_free (set xs) p = (if p \<in> set xs then next_free (set xs) (p + 1) else p)"
  by (subst next_free.simps) simp

declare next_free.simps [simp del]

fun bump_ties :: "int set \<Rightarrow> synced_provider list \<Rightarrow> (ident \<times> int) list" where
  "bump_ties seen [] = []"
| "bump_ties seen (r # rs) =
     (if priority r \<notin> seen then bump_ties (insert (priority r) seen) rs
      else let p = next_free seen (priority r) in (pid r, p) # bump_ties (insert p seen) rs)"

definition tie_order :: "synced_provider list \<Rightarrow> synced_provider list" where
  "tie_order t =
     sort_key priority (sort_key sp_created_at (sort_key (\<lambda>r. map (of_char :: char \<Rightarrow> nat) (pid r))
       (filter (\<lambda>r. deleted_at r = None \<and> enabled r) t)))"

definition normalize_priority_ties :: "clock \<Rightarrow> synced_provider list \<Rightarrow> synced_provider list" where
  "normalize_priority_ties now t =
     (let bumps = bump_ties {} (tie_order t)
      in map (\<lambda>r. case map_of bumps (pid r) of Some p \<Rightarrow> onupdate now r (r \<lparr>priority := p\<rparr>) | None \<Rightarrow> r) t)"

end
