(* ===== verification/Catalog_Sync.thy ===== *)
theory Catalog_Sync
  imports Cluster_Sync Router
begin

text \<open>
  The catalog tables of a cluster-sync payload (the middle part of \<open>apply_sync\<close> in
  \<^verbatim>\<open>app/cluster/sync.py\<close>): registered LMRH dimensions, their proposals, model capabilities, model aliases
  and OAuth capture profiles, with the part of \<open>_build_sync_payload\<close>
  (\<^verbatim>\<open>app/cluster/manager.py\<close>) that serialises them. A payload row carries every column the sender
  writes; a column it does not write is absent from the payload types.
\<close>

section \<open>LMRH dimensions and proposals\<close>

record lmrh_dim =
  ld_name :: string
  ld_owner_app :: "string option"
  ld_owner_key_id :: "ident option"
  ld_semantics :: "string option"
  ld_value_type :: "string option"
  ld_kind :: string
  ld_examples :: "string list"
  ld_requested_name :: "string option"
  ld_registered_at :: clock
  ld_registered_by_node :: "string option"
  ld_deleted_at :: "clock option"

definition dim_wkey :: "lmrh_dim \<Rightarrow> string option" where
  "dim_wkey w = (if ld_name w = [] then None else Some (ld_name w))"

definition dim_insert :: "clock \<Rightarrow> lmrh_dim \<Rightarrow> lmrh_dim option" where
  "dim_insert now w =
     (if ld_deleted_at w \<noteq> None then None
      else Some (w \<lparr>ld_registered_at := (if ld_registered_at w = 0 then now else ld_registered_at w)\<rparr>))"

definition dim_update :: "lmrh_dim \<Rightarrow> lmrh_dim \<Rightarrow> lmrh_dim" where
  "dim_update w r =
     (if not_older (ld_deleted_at w) (ld_deleted_at r) then r \<lparr>ld_deleted_at := ld_deleted_at w\<rparr>
      else if ld_deleted_at r \<noteq> None \<and> ld_deleted_at w = None then r
      else if ld_registered_at w \<noteq> 0 \<and> ld_registered_at r \<noteq> 0 \<and> ld_registered_at w < ld_registered_at r
      then w \<lparr>ld_name := ld_name r, ld_deleted_at := ld_deleted_at r\<rparr>
      else r)"

definition apply_lmrh_dims :: "clock \<Rightarrow> lmrh_dim list \<Rightarrow> lmrh_dim list \<Rightarrow> lmrh_dim list" where
  "apply_lmrh_dims now = merge_rows ld_name dim_wkey dim_update (dim_insert now)"

record lmrh_proposal =
  lp_proposed_name :: string
  lp_proposed_at :: clock
  lp_rationale :: "string option"
  lp_proposer_app :: "string option"
  lp_proposer_key_id :: "ident option"
  lp_status :: string
  lp_review_note :: "string option"
  lp_deleted_at :: "clock option"

definition proposal_key :: "lmrh_proposal \<Rightarrow> string \<times> clock" where
  "proposal_key r = (lp_proposed_name r, lp_proposed_at r)"

definition proposal_wkey :: "lmrh_proposal \<Rightarrow> (string \<times> clock) option" where
  "proposal_wkey w = (if lp_proposed_name w = [] then None else Some (proposal_key w))"

definition proposal_insert :: "lmrh_proposal \<Rightarrow> lmrh_proposal option" where
  "proposal_insert w = (if lp_deleted_at w \<noteq> None then None else Some w)"

definition proposal_update :: "lmrh_proposal \<Rightarrow> lmrh_proposal \<Rightarrow> lmrh_proposal" where
  "proposal_update w r =
     (if not_older (lp_deleted_at w) (lp_deleted_at r) then r \<lparr>lp_deleted_at := lp_deleted_at w\<rparr>
      else if lp_deleted_at r \<noteq> None \<and> lp_deleted_at w = None then r
      else r \<lparr>lp_status := lp_status w, lp_review_note := lp_review_note w\<rparr>)"

definition apply_lmrh_proposals :: "lmrh_proposal list \<Rightarrow> lmrh_proposal list \<Rightarrow> lmrh_proposal list" where
  "apply_lmrh_proposals = merge_rows proposal_key proposal_wkey proposal_update proposal_insert"

section \<open>Model capabilities\<close>

record synced_capability = capability_row +
  sc_source :: string
  sc_model_family :: "string option"
  sc_model_variant :: "string option"
  sc_updated_at :: "clock option"
  sc_deleted_at :: "clock option"

record capability_wire =
  wc_provider_id :: ident
  wc_model_id :: string
  wc_tasks :: "string list"
  wc_latency :: string
  wc_cost_tier :: string
  wc_safety :: int
  wc_context_length :: int
  wc_regions :: "string list"
  wc_modalities :: "string list"
  wc_native_reasoning :: bool
  wc_native_tools :: bool
  wc_native_vision :: bool
  wc_source :: string
  wc_aliases :: "string list"
  wc_model_family :: "string option"
  wc_model_variant :: "string option"
  wc_updated_at :: "clock option"

definition capability_export :: "synced_capability \<Rightarrow> capability_wire" where
  "capability_export c =
     \<lparr>wc_provider_id = cap_provider_id c, wc_model_id = cap_model_id c, wc_tasks = cap_tasks c,
      wc_latency = or_else (cap_latency c) ''medium'', wc_cost_tier = or_else (cap_cost_tier c) ''standard'',
      wc_safety = (case cap_safety c of None \<Rightarrow> 3 | Some n \<Rightarrow> if n = 0 then 3 else n),
      wc_context_length = (case cap_context_length c of None \<Rightarrow> 128000 | Some n \<Rightarrow> if n = 0 then 128000 else n),
      wc_regions = cap_regions c, wc_modalities = cap_modalities c,
      wc_native_reasoning = value_or False (cap_native_reasoning c), wc_native_tools = value_or True (cap_native_tools c),
      wc_native_vision = value_or False (cap_native_vision c),
      wc_source = (if sc_source c = [] then ''inferred'' else sc_source c), wc_aliases = cap_aliases c,
      wc_model_family = sc_model_family c, wc_model_variant = sc_model_variant c, wc_updated_at = sc_updated_at c\<rparr>"

text \<open>A row without a provider, or of a provider this node does not know yet, is skipped. The rows that exist
  are looked up before the loop, so the row of a new key is inserted even when the loop has inserted
  that key before; of several rows of a key the last is the one updated.\<close>

definition capability_wkey :: "ident list \<Rightarrow> capability_wire \<Rightarrow> (ident \<times> string) option" where
  "capability_wkey known w =
     (if wc_provider_id w = [] \<or> wc_model_id w = [] \<or> wc_provider_id w \<notin> set known then None
      else Some (wc_provider_id w, wc_model_id w))"

definition capability_insert :: "clock \<Rightarrow> capability_wire \<Rightarrow> synced_capability" where
  "capability_insert now w =
     \<lparr>cap_provider_id = wc_provider_id w, cap_model_id = wc_model_id w, cap_aliases = wc_aliases w, cap_tasks = wc_tasks w,
      cap_latency = Some (if wc_latency w = [] then ''medium'' else wc_latency w),
      cap_cost_tier = Some (if wc_cost_tier w = [] then ''standard'' else wc_cost_tier w),
      cap_safety = Some (if wc_safety w = 0 then 3 else wc_safety w),
      cap_context_length = Some (if wc_context_length w = 0 then 128000 else wc_context_length w),
      cap_regions = wc_regions w, cap_modalities = wc_modalities w, cap_native_reasoning = Some (wc_native_reasoning w),
      cap_native_tools = Some (wc_native_tools w), cap_native_vision = Some (wc_native_vision w),
      cap_tool_call_success_rate = None, sc_source = (if wc_source w = [] then ''inferred'' else wc_source w),
      sc_model_family = wc_model_family w, sc_model_variant = wc_model_variant w, sc_updated_at = Some now, sc_deleted_at = None\<rparr>"

definition capability_update :: "clock \<Rightarrow> capability_wire \<Rightarrow> synced_capability \<Rightarrow> synced_capability" where
  "capability_update now w r =
     (if (case (wc_updated_at w, sc_updated_at r) of (Some a, Some b) \<Rightarrow> a \<le> b | _ \<Rightarrow> False) then r
      else let r' = r \<lparr>cap_tasks := or_list (wc_tasks w) (cap_tasks r),
              cap_latency := (if wc_latency w = [] then cap_latency r else Some (wc_latency w)),
              cap_cost_tier := (if wc_cost_tier w = [] then cap_cost_tier r else Some (wc_cost_tier w)),
              cap_safety := Some (wc_safety w), cap_context_length := Some (wc_context_length w),
              cap_regions := or_list (wc_regions w) (cap_regions r), cap_modalities := or_list (wc_modalities w) (cap_modalities r),
              cap_native_reasoning := Some (wc_native_reasoning w), cap_native_tools := Some (wc_native_tools w),
              cap_native_vision := Some (wc_native_vision w),
              sc_source := (if wc_source w = [] then sc_source r else wc_source w),
              cap_aliases := wc_aliases w, sc_model_family := wc_model_family w, sc_model_variant := wc_model_variant w\<rparr>
           in case wc_updated_at w of
                Some a \<Rightarrow> r' \<lparr>sc_updated_at := Some a\<rparr>
              | None \<Rightarrow> if r' = r then r else r' \<lparr>sc_updated_at := Some now\<rparr>)"

definition capability_key :: "synced_capability \<Rightarrow> ident \<times> string" where
  "capability_key r = (cap_provider_id r, cap_model_id r)"

definition apply_capability ::
  "clock \<Rightarrow> ident list \<Rightarrow> (ident \<times> string) set \<Rightarrow> capability_wire \<Rightarrow> synced_capability list \<Rightarrow> synced_capability list" where
  "apply_capability now known existing w t =
     (case capability_wkey known w of
        None \<Rightarrow> t
      | Some k \<Rightarrow> if k \<in> existing then rev (upsert (\<lambda>r. capability_key r = k) (capability_update now w) None (rev t))
                  else t @ [capability_insert now w])"

definition apply_model_capabilities ::
  "clock \<Rightarrow> ident list \<Rightarrow> capability_wire list \<Rightarrow> synced_capability list \<Rightarrow> synced_capability list" where
  "apply_model_capabilities now known ws t = fold (apply_capability now known (capability_key ` set t)) ws t"

section \<open>Aliases and capture profiles\<close>

record model_alias_row =
  ma_alias :: string
  ma_provider_id :: "ident option"
  ma_model_id :: string
  ma_description :: "string option"
  ma_deleted_at :: "clock option"

text \<open>The tombstone is not part of the payload.\<close>

record alias_wire =
  wa_alias :: string
  wa_provider_id :: "ident option"
  wa_model_id :: string
  wa_description :: "string option"

definition alias_export :: "model_alias_row \<Rightarrow> alias_wire" where
  "alias_export r =
     \<lparr>wa_alias = ma_alias r, wa_provider_id = ma_provider_id r, wa_model_id = ma_model_id r, wa_description = ma_description r\<rparr>"

definition alias_wkey :: "ident list \<Rightarrow> alias_wire \<Rightarrow> string option" where
  "alias_wkey known w =
     (if wa_alias w = [] \<or> truthy (wa_provider_id w) \<and> the (wa_provider_id w) \<notin> set known then None else Some (wa_alias w))"

definition alias_insert :: "alias_wire \<Rightarrow> model_alias_row option" where
  "alias_insert w =
     Some \<lparr>ma_alias = wa_alias w, ma_provider_id = wa_provider_id w, ma_model_id = wa_model_id w,
           ma_description = wa_description w, ma_deleted_at = None\<rparr>"

definition alias_update :: "alias_wire \<Rightarrow> model_alias_row \<Rightarrow> model_alias_row" where
  "alias_update w r =
     r \<lparr>ma_provider_id := wa_provider_id w, ma_model_id := (if wa_model_id w = [] then ma_model_id r else wa_model_id w),
        ma_description := wa_description w\<rparr>"

definition apply_model_aliases :: "ident list \<Rightarrow> alias_wire list \<Rightarrow> model_alias_row list \<Rightarrow> model_alias_row list" where
  "apply_model_aliases known = merge_rows ma_alias (alias_wkey known) alias_update alias_insert"

record capture_profile =
  op_name :: string
  op_preset :: "string option"
  op_upstream_urls :: "string list"
  op_secret :: "string option"
  op_enabled :: bool
  op_notes :: "string option"

definition profile_wkey :: "capture_profile \<Rightarrow> string option" where
  "profile_wkey w = (if op_name w = [] then None else Some (op_name w))"

definition profile_update :: "capture_profile \<Rightarrow> capture_profile \<Rightarrow> capture_profile" where
  "profile_update w r =
     w \<lparr>op_name := op_name r, op_secret := (if truthy (op_secret w) then op_secret w else op_secret r)\<rparr>"

definition apply_oauth_capture_profiles :: "capture_profile list \<Rightarrow> capture_profile list \<Rightarrow> capture_profile list" where
  "apply_oauth_capture_profiles = merge_rows op_name profile_wkey profile_update Some"

section \<open>The merges as registers\<close>

interpretation dims: register_table ld_name dim_wkey dim_update "dim_insert now" for now
  by unfold_locales (auto simp: dim_update_def dim_insert_def dim_wkey_def split: if_splits)

interpretation proposals: register_table proposal_key proposal_wkey proposal_update proposal_insert
  by unfold_locales (auto simp: proposal_update_def proposal_insert_def proposal_wkey_def proposal_key_def split: if_splits)

interpretation aliases: register_table ma_alias "alias_wkey known" alias_update alias_insert for known
  by unfold_locales (auto simp: alias_update_def alias_insert_def alias_wkey_def split: if_splits)

interpretation profiles: register_table op_name profile_wkey profile_update Some
  by unfold_locales (auto simp: profile_update_def profile_wkey_def split: if_splits)

section \<open>References\<close>

text \<open>A capability or an alias names a provider this node knows.\<close>

definition capabilities_refer :: "ident list \<Rightarrow> synced_capability list \<Rightarrow> bool" where
  "capabilities_refer known t = list_all (\<lambda>r. cap_provider_id r \<in> set known) t"

definition aliases_refer :: "ident list \<Rightarrow> model_alias_row list \<Rightarrow> bool" where
  "aliases_refer known t = list_all (\<lambda>r. truthy (ma_provider_id r) \<longrightarrow> the (ma_provider_id r) \<in> set known) t"

lemma list_all_upsert:
  assumes "list_all P t" and "\<And>r. P r \<Longrightarrow> P (f r)" and "\<And>r. i = Some r \<Longrightarrow> P r"
  shows "list_all P (upsert m f i t)"
  using assms(1) by (induction t) (auto simp: assms(2,3) split: option.split)

lemma capability_update_provider: "cap_provider_id (capability_update now w r) = cap_provider_id r"
  by (auto simp: capability_update_def Let_def split: option.splits)

lemma apply_capability_refers:
  "capabilities_refer known t \<Longrightarrow> capabilities_refer known (apply_capability now known ks w t)"
  using list_all_upsert [of "\<lambda>r. cap_provider_id r \<in> set known" "rev t" "capability_update now w" None]
  by (auto simp: capabilities_refer_def apply_capability_def capability_update_provider capability_insert_def capability_wkey_def
      split: option.split if_splits)

lemma alias_row_refers:
  "aliases_refer known t \<Longrightarrow> aliases_refer known (merge_row ma_alias (alias_wkey known) alias_update alias_insert w t)"
proof (cases "alias_wkey known w")
  case (Some k)
  then have ok: "truthy (wa_provider_id w) \<longrightarrow> the (wa_provider_id w) \<in> set known" by (auto simp: alias_wkey_def split: if_splits)
  assume "aliases_refer known t"
  then show ?thesis unfolding aliases_refer_def merge_row_def Some option.case
    by (rule list_all_upsert) (use ok in \<open>auto simp: alias_update_def alias_insert_def\<close>)
qed (simp add: merge_row_def)

text \<open>A payload never introduces a dangling reference: rows of providers this node does not know are left
  for a later round, so every capability and every alias still names a known provider.\<close>

theorem catalog_references_known:
  assumes "capabilities_refer known caps" and "aliases_refer known als"
  shows "capabilities_refer known (apply_model_capabilities now known cws caps) \<and>
    aliases_refer known (apply_model_aliases known aws als)"
proof -
  have "capabilities_refer known (fold (apply_capability now known ks) cws t)" if "capabilities_refer known t" for ks t
    using that by (induction cws arbitrary: t) (auto simp: apply_capability_refers)
  moreover have "aliases_refer known (fold (merge_row ma_alias (alias_wkey known) alias_update alias_insert) aws t)"
    if "aliases_refer known t" for t
    using that by (induction aws arbitrary: t) (auto simp: alias_row_refers)
  ultimately show ?thesis using assms by (simp add: apply_model_capabilities_def apply_model_aliases_def merge_rows_def)
qed

section \<open>Peer-wins merges do not converge\<close>

text \<open>Two nodes push to each other in the same round.\<close>

definition exchange_aliases :: "ident list \<Rightarrow> model_alias_row list \<times> model_alias_row list \<Rightarrow> model_alias_row list \<times> model_alias_row list" where
  "exchange_aliases known s =
     (apply_model_aliases known (map alias_export (snd s)) (fst s), apply_model_aliases known (map alias_export (fst s)) (snd s))"

definition exchange_proposals :: "lmrh_proposal list \<times> lmrh_proposal list \<Rightarrow> lmrh_proposal list \<times> lmrh_proposal list" where
  "exchange_proposals s = (apply_lmrh_proposals (snd s) (fst s), apply_lmrh_proposals (fst s) (snd s))"

lemma swap_rounds:
  assumes "f (x, y) = (y, x)" "f (y, x) = (x, y)"
  shows "(f ^^ n) (x, y) = (if even n then (x, y) else (y, x))"
  by (induction n) (auto simp: assms)

text \<open>Aliases and reviews of proposals edited differently on two nodes never converge: the nodes swap
  their versions in every round, so after any number of rounds they still disagree.\<close>

theorem peer_wins_swaps:
  assumes "ma_alias b = ma_alias a" "ma_alias a \<noteq> []" "ma_model_id a \<noteq> []" "ma_model_id b \<noteq> []" "ma_deleted_at a = ma_deleted_at b"
    and "\<forall>r \<in> {a, b}. truthy (ma_provider_id r) \<longrightarrow> the (ma_provider_id r) \<in> set known"
    and "proposal_key q = proposal_key p" "lp_proposed_name p \<noteq> []" "lp_deleted_at p = None" "lp_deleted_at q = None"
    and "q = p \<lparr>lp_status := lp_status q, lp_review_note := lp_review_note q\<rparr>"
  shows "(exchange_aliases known ^^ n) ([a], [b]) = (if even n then ([a], [b]) else ([b], [a])) \<and>
    (exchange_proposals ^^ n) ([p], [q]) = (if even n then ([p], [q]) else ([q], [p]))"
proof
  have key: "alias_wkey known (alias_export r) = Some (ma_alias a)" if "r \<in> {a, b}" for r
    using that assms(1,2,6) by (auto simp: alias_wkey_def alias_export_def)
  have "alias_update (alias_export b) a = b" "alias_update (alias_export a) b = a"
    using assms(1-5) by (auto simp: alias_update_def alias_export_def)
  then have "exchange_aliases known ([a], [b]) = ([b], [a])" "exchange_aliases known ([b], [a]) = ([a], [b])"
    using key assms(1) by (simp_all add: exchange_aliases_def apply_model_aliases_def merge_rows_def merge_row_def)
  then show "(exchange_aliases known ^^ n) ([a], [b]) = (if even n then ([a], [b]) else ([b], [a]))" by (rule swap_rounds)
  have pkey: "proposal_wkey p = Some (proposal_key p)" "proposal_wkey q = Some (proposal_key p)"
    using assms(7,8) by (auto simp: proposal_wkey_def proposal_key_def)
  have "proposal_update q p = p \<lparr>lp_status := lp_status q, lp_review_note := lp_review_note q\<rparr>"
    using assms(9,10) by (simp add: proposal_update_def not_older_def)
  then have "proposal_update q p = q" by (simp only: assms(11) [symmetric])
  moreover have "proposal_update p q = p"
    using assms(9,10) by (subst assms(11)) (simp add: proposal_update_def not_older_def)
  ultimately have "exchange_proposals ([p], [q]) = ([q], [p])" "exchange_proposals ([q], [p]) = ([p], [q])"
    using pkey assms(7) by (simp_all add: exchange_proposals_def apply_lmrh_proposals_def merge_rows_def merge_row_def)
  then show "(exchange_proposals ^^ n) ([p], [q]) = (if even n then ([p], [q]) else ([q], [p]))" by (rule swap_rounds)
qed

text \<open>An alias deleted on one node reaches a node that does not have it as a live alias: the payload does
  not carry the tombstone.\<close>

theorem deleted_alias_spreads:
  assumes "r \<in> set t" "ma_alias r \<noteq> []" "truthy (ma_provider_id r) \<longrightarrow> the (ma_provider_id r) \<in> set known"
  shows "\<exists>r'. row_of ma_alias (ma_alias r) (apply_model_aliases known (map alias_export t) []) = Some r' \<and> ma_deleted_at r' = None"
proof -
  let ?k = "ma_alias r" and ?ws = "filter (\<lambda>w. alias_wkey known w = Some (ma_alias r)) (map alias_export t)"
  have live: "\<exists>r'. fold (aliases.reg) ws (Some x) = Some r' \<and> ma_deleted_at r' = None" if "ma_deleted_at x = None" for ws x
    using that by (induction ws arbitrary: x) (auto simp: alias_update_def)
  have "alias_export r \<in> set ?ws" using assms by (auto simp: alias_wkey_def alias_export_def)
  then obtain w ws where ws: "?ws = w # ws" by (cases ?ws) auto
  obtain x where "aliases.reg w None = Some x" "ma_deleted_at x = None" by (simp add: alias_insert_def)
  with live show ?thesis by (simp add: apply_model_aliases_def aliases.row_of_merge ws)
qed


section \<open>Concrete rows\<close>

definition demo_alias :: "string \<Rightarrow> model_alias_row" where
  "demo_alias m = \<lparr>ma_alias = ''fast'', ma_provider_id = Some ''p'', ma_model_id = m, ma_description = None, ma_deleted_at = None\<rparr>"

definition demo_proposal :: "string \<Rightarrow> lmrh_proposal" where
  "demo_proposal s = \<lparr>lp_proposed_name = ''tone'', lp_proposed_at = 5, lp_rationale = None, lp_proposer_app = None,
     lp_proposer_key_id = None, lp_status = s, lp_review_note = None, lp_deleted_at = None\<rparr>"

theorem catalog_references_known_witness:
  "aliases_refer [''p''] (apply_model_aliases [''p''] [alias_export (demo_alias ''x'')] [demo_alias ''m''])"
proof -
  have "capabilities_refer [''p''] []" "aliases_refer [''p''] [demo_alias ''m'']" by code_simp+
  from catalog_references_known [OF this] show ?thesis by blast
qed

theorem peer_wins_swaps_witness:
  "(exchange_aliases [''p''] ^^ 7) ([demo_alias ''m''], [demo_alias ''x'']) = ([demo_alias ''x''], [demo_alias ''m''])"
proof -
  have "\<forall>r \<in> {demo_alias ''m'', demo_alias ''x''}. truthy (ma_provider_id r) \<longrightarrow> the (ma_provider_id r) \<in> set [''p'']"
    by (simp add: demo_alias_def)
  with peer_wins_swaps [of "demo_alias ''x''" "demo_alias ''m''" "[''p'']" "demo_proposal ''accepted''" "demo_proposal ''rejected''" 7]
  show ?thesis by (simp add: demo_alias_def demo_proposal_def proposal_key_def)
qed

theorem deleted_alias_spreads_witness:
  "\<exists>r'. row_of ma_alias ''fast'' (apply_model_aliases [''p''] (map alias_export [demo_alias ''m'' \<lparr>ma_deleted_at := Some 3\<rparr>]) []) =
     Some r' \<and> ma_deleted_at r' = None"
  using deleted_alias_spreads [of "demo_alias ''m'' \<lparr>ma_deleted_at := Some 3\<rparr>" "[demo_alias ''m'' \<lparr>ma_deleted_at := Some 3\<rparr>]" "[''p'']"]
  by (simp add: demo_alias_def)


end
