(* ===== verification/Apply_Sync.thy ===== *)
theory Apply_Sync
  imports Catalog_Sync
begin

text \<open>
  A whole payload (\<open>apply_sync\<close> in \<^verbatim>\<open>app/cluster/sync.py\<close>): the tables of a node, the sections of a
  payload and their merges, in the order of the code. A capability or an alias is admitted when its provider
  is known after the providers of the same payload are merged. Each section commits on its own; the
  merges read no table but their own and the ids of the providers.
\<close>

section \<open>A whole payload\<close>

record payload =
  pl_source_node :: string
  pl_users :: "user_wire list"
  pl_api_keys :: "key_wire list"
  pl_providers :: "provider_wire list"
  pl_settings :: "setting_row list"
  pl_runs :: "run_row list"
  pl_lmrh_dims :: "lmrh_dim list"
  pl_lmrh_proposals :: "lmrh_proposal list"
  pl_capabilities :: "capability_wire list"
  pl_aliases :: "alias_wire list"
  pl_profiles :: "capture_profile list"
  pl_blocked_ips :: "blocked_ip list"
  pl_key_reviews :: "review list"
  pl_snapshots :: "usage_snapshot list"
  pl_auth_states :: "node_auth_row list"
  pl_provider_reviews :: "review list"
  pl_memory :: "caller_memory list"
  pl_markers :: "memory_marker list"
  pl_events :: "audit_row list"
  pl_policy_changes :: "audit_row list"
  pl_peers :: "peer_wire list"

record cluster_db =
  db_users :: "user_row list"
  db_api_keys :: "api_key_row list"
  db_providers :: "synced_provider list"
  db_settings :: "setting_row list"
  db_runs :: "run_row list"
  db_lmrh_dims :: "lmrh_dim list"
  db_lmrh_proposals :: "lmrh_proposal list"
  db_capabilities :: "synced_capability list"
  db_aliases :: "model_alias_row list"
  db_profiles :: "capture_profile list"
  db_blocked_ips :: "blocked_ip list"
  db_key_reviews :: "review list"
  db_snapshots :: "usage_snapshot list"
  db_auth_states :: "node_auth_row list"
  db_provider_reviews :: "review list"
  db_memory :: "caller_memory list"
  db_markers :: "memory_marker list"
  db_events :: "audit_row list"
  db_policy_changes :: "audit_row list"
  db_peers :: "cluster_peer list"
  peer_key_costs :: "(string \<times> (ident \<times> rat) list) list"

definition get_peer_total_cost :: "cluster_db \<Rightarrow> ident \<Rightarrow> rat" where
  "get_peer_total_cost db key =
     sum_list (map (\<lambda>(_, costs). value_or 0 (map_of costs key)) (peer_key_costs db))"

definition set_peer_costs :: "string \<Rightarrow> (ident \<times> rat) list \<Rightarrow> (string \<times> (ident \<times> rat) list) list \<Rightarrow> (string \<times> (ident \<times> rat) list) list" where
  "set_peer_costs node costs t = upsert (\<lambda>e. fst e = node) (\<lambda>_. (node, costs)) (Some (node, costs)) t"

definition apply_sync ::
  "string list \<Rightarrow> string list \<Rightarrow> string list \<Rightarrow> ident \<Rightarrow> clock \<Rightarrow> payload \<Rightarrow> cluster_db \<Rightarrow> cluster_db" where
  "apply_sync schema event_columns change_columns self now p db =
     (let (costs, keys) = apply_api_keys (pl_api_keys p) (db_api_keys db);
          provs = normalize_priority_ties now (apply_providers now (pl_providers p) (db_providers db));
          known = map pid provs in
      db \<lparr>db_users := apply_users (pl_users p) (db_users db),
          db_api_keys := keys,
          peer_key_costs := set_peer_costs (pl_source_node p) costs (peer_key_costs db),
          db_providers := provs,
          db_settings := apply_settings schema (pl_settings p) (db_settings db),
          db_runs := apply_runs now (pl_runs p) (db_runs db),
          db_lmrh_dims := apply_lmrh_dims now (pl_lmrh_dims p) (db_lmrh_dims db),
          db_lmrh_proposals := apply_lmrh_proposals (pl_lmrh_proposals p) (db_lmrh_proposals db),
          db_capabilities := apply_model_capabilities now known (pl_capabilities p) (db_capabilities db),
          db_aliases := apply_model_aliases known (pl_aliases p) (db_aliases db),
          db_profiles := apply_oauth_capture_profiles (pl_profiles p) (db_profiles db),
          db_blocked_ips := apply_blocked_ips (pl_blocked_ips p) (db_blocked_ips db),
          db_key_reviews := apply_ai_reviews (pl_key_reviews p) (db_key_reviews db),
          db_snapshots := apply_external_usage_snapshots (pl_snapshots p) (db_snapshots db),
          db_auth_states := apply_provider_node_auth_states (pl_auth_states p) (db_auth_states db),
          db_provider_reviews := apply_ai_reviews (pl_provider_reviews p) (db_provider_reviews db),
          db_memory := apply_caller_memory (pl_memory p) (db_memory db),
          db_markers := apply_caller_memory_markers (pl_markers p) (db_markers db),
          db_events := apply_compliance_events event_columns (pl_events p) (db_events db),
          db_policy_changes := apply_compliance_events change_columns (pl_policy_changes p) (db_policy_changes db),
          db_peers := apply_cluster_peers self (pl_peers p) (db_peers db)\<rparr>)"

end
