(* ===== verification/Cluster_Convergence.thy ===== *)
theory Cluster_Convergence
  imports Apply_Sync Routing
begin

text \<open>
  What the cluster-sync merges guarantee: convergence of the tables with timestamps, idempotence of a
  payload, deletions that stick, distinct priorities; and what they do not: a switch that is not
  replicated, costs that are not counted, deletions that are undone.
\<close>

section \<open>Convergence\<close>

definition distinct_stamps :: "('w \<Rightarrow> 'k option) \<Rightarrow> ('w \<Rightarrow> 't) \<Rightarrow> 'w list \<Rightarrow> bool" where
  "distinct_stamps key ts ws \<longleftrightarrow>
     (\<forall>v \<in> set ws. \<forall>w \<in> set ws. key v = key w \<and> key v \<noteq> None \<longrightarrow> ts v \<noteq> ts w \<or> v = w)"

lemma distinct_stamps_at:
  assumes "distinct_stamps key ts ws"
    and "v \<in> set ws" "w \<in> set ws" "key v = Some k" "key w = Some k"
  shows "ts v \<noteq> ts w \<or> v = w"
  using assms by (auto simp: distinct_stamps_def)

text \<open>C18. Settings, caller memory, login states and runs converge: two nodes that start alike and receive
  the same rows in any two orders hold the same row of every key, provided no two different rows of
  one key carry the same timestamp and every login state and run carries one.\<close>

theorem sync_order_irrelevant:
  assumes "mset settings = mset settings'" "distinct_stamps (setting_wkey schema) sr_updated_at settings"
    and "mset memory = mset memory'" "distinct_stamps memory_key cm_updated_at memory"
    and "mset auths = mset auths'" "distinct_stamps auth_wkey last_check_at auths"
    and "\<And>w. w \<in> set auths \<Longrightarrow> last_check_at w \<noteq> None"
    and "mset rs = mset rs'" "distinct_stamps run_wkey updated_at rs" "\<And>w. w \<in> set rs \<Longrightarrow> updated_at w \<noteq> 0"
  shows "row_of sr_key k (apply_settings schema settings t1) = row_of sr_key k (apply_settings schema settings' t1) \<and>
    row_of memory_row_key m (apply_caller_memory memory t2) = row_of memory_row_key m (apply_caller_memory memory' t2) \<and>
    row_of (\<lambda>r. (na_provider_id r, na_node_id r)) a (apply_provider_node_auth_states auths t3) =
      row_of (\<lambda>r. (na_provider_id r, na_node_id r)) a (apply_provider_node_auth_states auths' t3) \<and>
    row_of run_id i (apply_runs now rs t4) = row_of run_id i (apply_runs now rs' t4)"
  unfolding apply_settings_def apply_caller_memory_def apply_provider_node_auth_states_def apply_runs_def
proof (intro conjI)
  show "row_of sr_key k (merge_rows sr_key (setting_wkey schema) setting_update setting_insert settings t1) =
      row_of sr_key k (merge_rows sr_key (setting_wkey schema) setting_update setting_insert settings' t1)"
    by (rule settings.merge_order [OF assms(1) TrueI]) (rule distinct_stamps_at [OF assms(2)])
  show "row_of memory_row_key m (merge_rows memory_row_key memory_key memory_update memory_insert memory t2) =
      row_of memory_row_key m (merge_rows memory_row_key memory_key memory_update memory_insert memory' t2)"
    by (rule memory.merge_order [OF assms(3) TrueI]) (rule distinct_stamps_at [OF assms(4)])
  show "row_of (\<lambda>r. (na_provider_id r, na_node_id r)) a
        (merge_rows (\<lambda>r. (na_provider_id r, na_node_id r)) auth_wkey auth_update auth_insert auths t3) =
      row_of (\<lambda>r. (na_provider_id r, na_node_id r)) a
        (merge_rows (\<lambda>r. (na_provider_id r, na_node_id r)) auth_wkey auth_update auth_insert auths' t3)"
    by (rule auths.merge_order [OF assms(5)], erule assms(7), rule distinct_stamps_at [OF assms(6)])
  show "row_of run_id i (merge_rows run_id run_wkey run_update (run_insert now) rs t4) =
      row_of run_id i (merge_rows run_id run_wkey run_update (run_insert now) rs' t4)"
    by (rule run_rows.merge_order [OF assms(8)], erule assms(10), rule distinct_stamps_at [OF assms(9)])
qed

theorem sync_order_irrelevant_witness:
  "row_of sr_key ''cot_enabled''
     (apply_settings SCHEMA [\<lparr>sr_key = ''cot_enabled'', sr_value = Some ''1'', sr_updated_at = 5\<rparr>,
        \<lparr>sr_key = ''cot_enabled'', sr_value = Some ''0'', sr_updated_at = 7\<rparr>] []) =
   row_of sr_key ''cot_enabled''
     (apply_settings SCHEMA [\<lparr>sr_key = ''cot_enabled'', sr_value = Some ''0'', sr_updated_at = 7\<rparr>,
        \<lparr>sr_key = ''cot_enabled'', sr_value = Some ''1'', sr_updated_at = 5\<rparr>] [])"
  using sync_order_irrelevant
    [of "[\<lparr>sr_key = ''cot_enabled'', sr_value = Some ''1'', sr_updated_at = 5\<rparr>,
          \<lparr>sr_key = ''cot_enabled'', sr_value = Some ''0'', sr_updated_at = 7\<rparr>]"
        "[\<lparr>sr_key = ''cot_enabled'', sr_value = Some ''0'', sr_updated_at = 7\<rparr>,
          \<lparr>sr_key = ''cot_enabled'', sr_value = Some ''1'', sr_updated_at = 5\<rparr>]" SCHEMA "[]" "[]" "[]" "[]" "[]" "[]"]
  by (simp add: distinct_stamps_def add_mset_commute)

section \<open>The emergency stop stays on its node\<close>

lemma unlisted_setting_kept:
  assumes "k \<notin> set schema"
  shows "row_of sr_key k (apply_settings schema ws t) = row_of sr_key k t"
proof -
  have "filter (\<lambda>w. setting_wkey schema w = Some k) ws = []"
    using assms by (auto simp: filter_empty_conv setting_wkey_def split: if_splits)
  then show ?thesis by (simp add: apply_settings_def settings.row_of_merge)
qed

text \<open>The emergency stop does not replicate: its key is not among the runtime settings, so whatever a
  peer sends, the stored state of the switch on this node is what it was.\<close>

theorem stop_not_replicated:
  "read_from_db llm_emergency_stop (apply_settings SCHEMA ws t) = read_from_db llm_emergency_stop t"
proof -
  have "setting_key llm_emergency_stop \<notin> set SCHEMA" by code_simp
  from unlisted_setting_kept [OF this, of ws t] show ?thesis by (simp add: read_from_db_def row_of_def)
qed

section \<open>Idempotence\<close>

text \<open>The operators of the merges, applied twice, are the operators applied once.\<close>

lemma set_if_sets: "(\<And>v r. g (f v r) = v) \<Longrightarrow> g (set_if x f r) = value_or (g r) x"
  by (cases x) (auto simp: value_or_def)

lemma value_or_twice [simp]: "value_or (value_or d x) x = value_or d x"
  by (cases x) (auto simp: value_or_def)

lemma key_fields_columns:
  "spending_cap_usd (key_fields w r) = value_or (spending_cap_usd r) (kw_spending_cap_usd w)"
  "rate_limit_rpm (key_fields w r) = value_or (rate_limit_rpm r) (kw_rate_limit_rpm w)"
  "ak_enabled (key_fields w r) = value_or (ak_enabled r) (kw_enabled w)"
  "semantic_cache_enabled (key_fields w r) = value_or (semantic_cache_enabled r) (kw_semantic_cache_enabled w)"
  "daily_soft_cap_usd (key_fields w r) = value_or (daily_soft_cap_usd r) (kw_daily_soft_cap_usd w)"
  "daily_hard_cap_usd (key_fields w r) = value_or (daily_hard_cap_usd r) (kw_daily_hard_cap_usd w)"
  "hourly_cap_usd (key_fields w r) = value_or (hourly_cap_usd r) (kw_hourly_cap_usd w)"
  "rate_limit_tier (key_fields w r) = value_or (rate_limit_tier r) (kw_rate_limit_tier w)"
  "caller_memory_ttl_days (key_fields w r) = value_or (caller_memory_ttl_days r) (kw_caller_memory_ttl_days w)"
  "lmrh_polling_rpm (key_fields w r) = value_or (lmrh_polling_rpm r) (kw_lmrh_polling_rpm w)"
  "lmrh_quotes_rpm (key_fields w r) = value_or (lmrh_quotes_rpm r) (kw_lmrh_quotes_rpm w)"
  "ak_blocked_companies (key_fields w r) = value_or (ak_blocked_companies r) (kw_blocked_companies w)"
  "ak_allowed_companies (key_fields w r) = value_or (ak_allowed_companies r) (kw_allowed_companies w)"
  "ak_blocked_models (key_fields w r) = value_or (ak_blocked_models r) (kw_blocked_models w)"
  "ak_allowed_models (key_fields w r) = value_or (ak_allowed_models r) (kw_allowed_models w)"
  "ak_allowed_paths (key_fields w r) = value_or (ak_allowed_paths r) (kw_allowed_paths w)"
  "debug_echo_enabled (key_fields w r) = value_or (debug_echo_enabled r) (kw_debug_echo_enabled w)"
  "ak_last_user_edit_at (key_fields w r) =
     (case kw_last_user_edit_at w of Some v \<Rightarrow> Some v | None \<Rightarrow> ak_last_user_edit_at r)"
  by (simp_all add: key_fields_def set_if_keeps set_if_sets) (simp add: set_if_def split: option.split)

lemma key_fields_rest:
  "ak_name (key_fields w r) = ak_name r" "key_prefix (key_fields w r) = key_prefix r" "ak_key_type (key_fields w r) = ak_key_type r"
  "total_requests (key_fields w r) = total_requests r" "day_bucket_ts (key_fields w r) = day_bucket_ts r"
  "day_cost_usd (key_fields w r) = day_cost_usd r" "hour_bucket_ts (key_fields w r) = hour_bucket_ts r"
  "hour_cost_usd (key_fields w r) = hour_cost_usd r"
  "api_key_row.more (key_fields w r) = api_key_row.more r"
  by (simp_all add: key_fields_def set_if_keeps)

lemma key_fields_twice: "key_fields w (key_fields w r) = key_fields w r"
  by (rule api_key_row.equality) (simp_all add: key_fields_columns key_fields_rest split: option.split)

lemma key_update_twice: "key_update w (key_update w r) = key_update w r"
proof (cases "key_tombstone w r")
  case True
  then show ?thesis by (auto simp: key_update_def key_tombstone_def not_older_def split: option.splits)
next
  case False
  then show ?thesis by (simp add: key_update_def key_tombstone_def key_fields_twice)
qed

lemma key_insert_update: "key_insert w = Some r \<Longrightarrow> key_update w r = r"
  by (auto simp: key_insert_def key_update_def key_tombstone_def not_older_def key_fields_twice split: if_splits)

lemma ip_update_twice: "ip_update w (ip_update w r) = ip_update w r"
  by (auto simp: ip_update_def newer_def split: option.splits)

lemma ip_insert_update: "ip_insert w = Some r \<Longrightarrow> ip_update w r = r"
  by (auto simp: ip_insert_def ip_update_def newer_def split: option.splits)

lemma fill_twice [simp]: "fill x (fill x y) = fill x y" "fill x x = x"
  by (auto simp: fill_def split: option.splits)

lemma keep_text_twice [simp]: "keep_text x (keep_text x y) = keep_text x y" "keep_text x x = x"
  by (auto simp: keep_text_def)

lemma review_update_twice: "review_update w (review_update w r) = review_update w r"
  by (simp add: review_update_def)

lemma review_insert_update: "review_insert w = Some r \<Longrightarrow> review_update w r = r"
  by (auto simp: review_insert_def review_update_def)

lemma marker_update_twice: "marker_update w (marker_update w r) = marker_update w r"
  by (simp add: marker_update_def)

lemma marker_insert_update: "marker_insert w = Some r \<Longrightarrow> marker_update w r = r"
  by (auto simp: marker_insert_def marker_update_def)

lemma peer_update_twice: "peer_update w (peer_update w r) = peer_update w r"
proof (cases "qw_removed_at w")
  case None
  then show ?thesis
    by (cases "qw_last_user_edit_at w"; cases "qw_name w"; cases "truthy (qw_url w)"; cases "cp_last_user_edit_at r")
      (simp_all add: peer_update_def not_older_def)
next
  case (Some t)
  then show ?thesis
    by (cases "cp_removed_at r"; cases "qw_last_user_edit_at w"; cases "qw_name w"; cases "truthy (qw_url w)"; cases "cp_last_user_edit_at r")
      (simp_all add: peer_update_def not_older_def)
qed

lemma peer_insert_update: "peer_insert w = Some r \<Longrightarrow> peer_update w r = r"
  by (auto simp: peer_insert_def peer_update_def not_older_def set_if_def value_or_def or_else_def split: option.splits if_splits)


lemma auth_update_twice: "auth_update w (auth_update w r) = auth_update w r"
  by (auto simp: auth_update_def auth_over_def split: option.splits)

lemma auth_insert_update: "auth_insert w = Some r \<Longrightarrow> auth_update w r = r"
  by (auto simp: auth_insert_def auth_update_def auth_over_def split: option.splits)

lemma run_update_twice: "run_update w (run_update w r) = run_update w r"
  by (auto simp: run_update_def run_over_def)

lemma run_insert_update: "run_insert now w = Some r \<Longrightarrow> 0 \<le> now \<Longrightarrow> run_update w r = r"
  by (auto simp: run_insert_def run_update_def run_over_def)

lemma dim_update_twice: "dim_update w (dim_update w r) = dim_update w r"
  by (auto simp: dim_update_def not_older_def split: option.splits)

lemma dim_insert_update: "dim_insert now w = Some r \<Longrightarrow> dim_update w r = r"
  by (auto simp: dim_insert_def dim_update_def not_older_def split: if_splits)

lemma proposal_update_twice: "proposal_update w (proposal_update w r) = proposal_update w r"
  by (auto simp: proposal_update_def not_older_def split: option.splits)

lemma proposal_insert_update: "proposal_insert w = Some r \<Longrightarrow> proposal_update w r = r"
  by (auto simp: proposal_insert_def proposal_update_def not_older_def split: if_splits)

lemma profile_update_twice: "profile_update w (profile_update w r) = profile_update w r"
  by (simp add: profile_update_def)

lemma profile_insert_update: "profile_update w w = w"
  by (simp add: profile_update_def)

lemma alias_update_twice: "alias_update w (alias_update w r) = alias_update w r"
  by (simp add: alias_update_def)

lemma alias_insert_update: "alias_insert w = Some r \<Longrightarrow> alias_update w r = r"
  by (auto simp: alias_insert_def alias_update_def)

subsection \<open>Users\<close>

text \<open>A payload row is settled in a table when merging it would change nothing: the row it matches, by id or else
  by name, is at least as new, or it matches none and is a tombstone.\<close>

definition matched_user :: "user_wire \<Rightarrow> user_row list \<Rightarrow> user_row option" where
  "matched_user w t = (case find (\<lambda>r. us_id r = uw_id w) t of Some r \<Rightarrow> Some r | None \<Rightarrow> find (\<lambda>r. us_username r = uw_username w) t)"

definition user_settled :: "user_wire \<Rightarrow> user_row list \<Rightarrow> bool" where
  "user_settled w t =
     (case matched_user w t of
        Some r \<Rightarrow> uw_last_user_edit_at w \<le> us_last_user_edit_at r
      | None \<Rightarrow> uw_deleted_at w \<noteq> None)"

lemma user_update_frame:
  "us_id (user_update w r) = us_id r" "us_username (user_update w r) = us_username r"
  "us_last_user_edit_at (user_update w r) = max (us_last_user_edit_at r) (uw_last_user_edit_at w)"
  by (auto simp: user_update_def set_if_def split: option.split)

lemma find_upsert_other:
  assumes "\<And>r. P (f r) = P r" and "\<And>x. find m t = None \<Longrightarrow> i = Some x \<Longrightarrow> \<not> P x"
  shows "find P (upsert m f i t) \<in> {find P t, map_option f (find P t)}"
  using assms(2) by (induction t) (auto simp: assms(1) split: option.split)

lemma find_upsert_same:
  assumes "\<And>r. P (f r) = P r" and "\<And>x. i = Some x \<Longrightarrow> P x"
  shows "find P (upsert P f i t) = (case find P t of Some r \<Rightarrow> Some (f r) | None \<Rightarrow> i)"
  using assms(2) by (induction t) (auto simp: assms(1) split: option.split)

lemma upsert_unchanged: "find m t = Some r \<Longrightarrow> f r = r \<Longrightarrow> upsert m f i t = t" "find m t = None \<Longrightarrow> upsert m f None t = t"
  by (induction t) (auto split: if_splits)

lemma upsert_appends: "find m t = None \<Longrightarrow> upsert m f (Some x) t = t @ [x]"
  by (induction t) (auto split: if_splits)

lemma user_insert_None: "user_insert w = None \<longleftrightarrow> uw_deleted_at w \<noteq> None"
  by (simp add: user_insert_def)

lemma user_insert_frame:
  "user_insert w = Some x \<Longrightarrow> us_id x = uw_id w \<and> us_username x = uw_username w \<and> us_last_user_edit_at x = uw_last_user_edit_at w"
  by (auto simp: user_insert_def split: if_splits)

lemma user_settled_same: "user_settled w t \<Longrightarrow> apply_user w t = t"
proof -
  assume s: "user_settled w t"
  have "user_update w r = r" if "matched_user w t = Some r" for r
    using s that by (simp add: user_settled_def user_update_def)
  moreover have "user_insert w = None" if "matched_user w t = None" using s that by (simp add: user_settled_def user_insert_None)
  ultimately show ?thesis
    by (cases "find (\<lambda>r. us_id r = uw_id w) t"; cases "find (\<lambda>r. us_username r = uw_username w) t")
      (auto simp: apply_user_def match_then_def matched_user_def upsert_unchanged)
qed

lemma user_settles: "user_settled w (apply_user w t)"
proof (cases "find (\<lambda>r. us_id r = uw_id w) t")
  case (Some r)
  then have "find (\<lambda>r. us_id r = uw_id w) (apply_user w t) = Some (user_update w r)"
    by (simp add: apply_user_def match_then_def find_upsert_same user_update_frame user_insert_frame)
  then show ?thesis by (simp add: user_settled_def matched_user_def user_update_frame)
next
  case no_id: None
  show ?thesis
  proof (cases "find (\<lambda>r. us_username r = uw_username w) t")
    case (Some r)
    then have "find (\<lambda>r. us_username r = uw_username w) (apply_user w t) = Some (user_update w r)"
      using no_id by (simp add: apply_user_def match_then_def find_upsert_same user_update_frame user_insert_frame)
    moreover have "find (\<lambda>r. us_id r = uw_id w) (apply_user w t) = None"
      using find_upsert_other [of "\<lambda>r. us_id r = uw_id w" "user_update w" "\<lambda>r. us_username r = uw_username w" t "user_insert w"]
      by (simp add: apply_user_def match_then_def no_id Some user_update_frame)
    ultimately show ?thesis by (simp add: user_settled_def matched_user_def user_update_frame)
  next
    case None
    show ?thesis
    proof (cases "user_insert w")
      case ins: None
      then have "uw_deleted_at w \<noteq> None" by (simp add: user_insert_None)
      then show ?thesis using None no_id
        by (simp add: ins apply_user_def match_then_def upsert_unchanged user_settled_def matched_user_def)
    next
      case (Some x)
      then have t: "apply_user w t = t @ [x]" using None no_id by (simp add: apply_user_def match_then_def upsert_appends)
      have "find (\<lambda>r. us_id r = uw_id w) (t @ [x]) = Some x" using no_id user_insert_frame [OF Some] by (intro find_snoc) auto
      then show ?thesis using user_insert_frame [OF Some] by (simp add: t user_settled_def matched_user_def)
    qed
  qed
qed

lemma user_stays_settled:
  assumes "user_settled w t" and "uw_id v \<noteq> uw_id w" and "uw_username v \<noteq> uw_username w"
  shows "user_settled w (apply_user v t)"
proof -
  have "find P (apply_user v t) \<in> {find P t, map_option (user_update v) (find P t)}"
    if "\<And>r. P (user_update v r) = P r" "\<And>x. user_insert v = Some x \<Longrightarrow> \<not> P x" for P
    using find_upsert_other [of P "user_update v" _ t "user_insert v"] that unfolding apply_user_def match_then_def by presburger
  from this [of "\<lambda>r. us_id r = uw_id w"] this [of "\<lambda>r. us_username r = uw_username w"]
  have "find (\<lambda>r. us_id r = uw_id w) (apply_user v t) \<in>
      {find (\<lambda>r. us_id r = uw_id w) t, map_option (user_update v) (find (\<lambda>r. us_id r = uw_id w) t)}"
    "find (\<lambda>r. us_username r = uw_username w) (apply_user v t) \<in>
      {find (\<lambda>r. us_username r = uw_username w) t, map_option (user_update v) (find (\<lambda>r. us_username r = uw_username w) t)}"
    using assms(2,3) user_insert_frame [of v] by (simp_all add: user_update_frame)
  then show ?thesis using assms(1)
    by (auto simp: user_settled_def matched_user_def user_update_frame le_max_iff_disj split: option.splits)
qed

lemma users_idempotent:
  assumes "distinct (map uw_id ws)" and "distinct (map uw_username ws)"
  shows "apply_users ws (apply_users ws t) = apply_users ws t"
proof -
  have keep: "user_settled w (fold apply_user vs t)"
    if "user_settled w t" "\<forall>v \<in> set vs. uw_id v \<noteq> uw_id w \<and> uw_username v \<noteq> uw_username w" for w vs t
    using that by (induction vs arbitrary: t) (auto simp: user_stays_settled)
  have "\<forall>w \<in> set ws. user_settled w (fold apply_user ws t)"
    using assms
  proof (induction ws arbitrary: t)
    case (Cons v ws)
    have "user_settled v (fold apply_user ws (apply_user v t))"
      by (intro keep user_settles) (use Cons.prems in \<open>force simp: image_iff\<close>)
    with Cons show ?case by auto
  qed simp
  moreover have "fold apply_user vs t = t" if "\<forall>w \<in> set vs. user_settled w t" for vs t
    using that by (induction vs) (auto simp: user_settled_same)
  ultimately show ?thesis by (simp add: apply_users_def)
qed

subsection \<open>Capabilities\<close>

definition wire_key :: "capability_wire \<Rightarrow> ident \<times> string" where
  "wire_key w = (wc_provider_id w, wc_model_id w)"

definition stamped_by :: "clock \<Rightarrow> capability_wire \<Rightarrow> bool" where
  "stamped_by now w = (case wc_updated_at w of Some a \<Rightarrow> a \<le> now | None \<Rightarrow> False)"

text \<open>A payload row is settled when the row it would update is stamped and not older.\<close>

definition capability_settled :: "capability_wire \<Rightarrow> synced_capability list \<Rightarrow> bool" where
  "capability_settled w t =
     (case (find (\<lambda>r. capability_key r = wire_key w) (rev t), wc_updated_at w) of
        (Some r, Some a) \<Rightarrow> (case sc_updated_at r of Some b \<Rightarrow> a \<le> b | None \<Rightarrow> False)
      | _ \<Rightarrow> False)"

lemma capability_wkey_wire: "capability_wkey known w = Some k \<Longrightarrow> k = wire_key w"
  by (auto simp: capability_wkey_def wire_key_def split: if_splits)

lemma capability_update_key: "capability_key (capability_update now w r) = capability_key r"
  by (auto simp: capability_key_def capability_update_def Let_def split: option.splits)

lemma capability_insert_key: "capability_key (capability_insert now w) = wire_key w"
  by (simp add: capability_key_def capability_insert_def wire_key_def)

lemma find_upsert_disjoint: "(\<And>r. m r \<Longrightarrow> \<not> P r \<and> \<not> P (f r)) \<Longrightarrow> find P (upsert m f None t) = find P t"
  by (induction t) auto

lemma upsert_keeps_keys: "(\<And>r. key (f r) = key r) \<Longrightarrow> map key (upsert m f None t) = map key t"
  by (induction t) auto

lemma apply_capability_keys: "capability_key ` set t \<subseteq> capability_key ` set (apply_capability now known ks w t)"
proof -
  have "set (map capability_key (upsert m (capability_update now w) None (rev t))) = set (map capability_key t)" for m
    by (subst upsert_keeps_keys) (simp_all add: capability_update_key rev_map)
  then show ?thesis by (auto simp: apply_capability_def split: option.split)
qed

lemma find_key_exists: "k \<in> key ` set t \<Longrightarrow> \<exists>r. find (\<lambda>r. key r = k) (rev t) = Some r"
  by (metis (mono_tags, lifting) find_None_iff image_iff not_None_eq set_rev)

lemma capability_settles:
  assumes "capability_wkey known w = Some k" "stamped_by now w" "ks \<subseteq> capability_key ` set t"
  shows "capability_settled w (apply_capability now known ks w t)"
proof -
  have k: "k = wire_key w" using assms(1) by (rule capability_wkey_wire)
  obtain a where a: "wc_updated_at w = Some a" "a \<le> now" using assms(2) by (auto simp: stamped_by_def split: option.splits)
  show ?thesis
  proof (cases "k \<in> ks")
    case True
    with assms(3) find_key_exists [of k capability_key t] obtain r where
      r: "find (\<lambda>r. capability_key r = wire_key w) (rev t) = Some r" unfolding k by blast
    have "find (\<lambda>r. capability_key r = wire_key w) (rev (apply_capability now known ks w t)) = Some (capability_update now w r)"
      using find_upsert_same [of "\<lambda>r. capability_key r = wire_key w" "capability_update now w" None "rev t"] True assms(1) r
      by (simp add: apply_capability_def k capability_update_key)
    moreover have "\<exists>b. sc_updated_at (capability_update now w r) = Some b \<and> a \<le> b"
      using a by (auto simp: capability_update_def Let_def split: option.split)
    ultimately show ?thesis using a by (auto simp: capability_settled_def)
  next
    case False
    then show ?thesis using assms(1) a
      by (simp add: apply_capability_def capability_settled_def capability_insert_key, simp add: capability_insert_def)
  qed
qed

lemma capability_stays:
  assumes "capability_settled w t" "wire_key v \<noteq> wire_key w"
  shows "capability_settled w (apply_capability now known ks v t)"
proof (cases "capability_wkey known v")
  case (Some k)
  then have k: "k = wire_key v" by (rule capability_wkey_wire)
  have "find (\<lambda>r. capability_key r = wire_key w) (upsert (\<lambda>r. capability_key r = k) (capability_update now v) None (rev t)) =
      find (\<lambda>r. capability_key r = wire_key w) (rev t)"
    by (rule find_upsert_disjoint) (use assms(2) k in \<open>simp add: capability_update_key\<close>)
  then have "find (\<lambda>r. capability_key r = wire_key w) (rev (apply_capability now known ks v t)) =
      find (\<lambda>r. capability_key r = wire_key w) (rev t)"
    using assms(2) by (simp add: apply_capability_def Some capability_insert_key)
  with assms(1) show ?thesis by (simp add: capability_settled_def)
qed (use assms(1) in \<open>simp add: apply_capability_def\<close>)

lemma capability_settled_same:
  assumes "capability_settled w t" and "ks = capability_key ` set t"
  shows "apply_capability now known ks w t = t"
proof (cases "capability_wkey known w")
  case (Some k)
  obtain r where r: "find (\<lambda>r. capability_key r = wire_key w) (rev t) = Some r" and u: "capability_update now w r = r"
    using assms(1) by (auto simp: capability_settled_def capability_update_def split: option.splits)
  have "wire_key w \<in> ks" using r assms(2) by (auto simp: find_Some_iff) (metis image_eqI nth_mem set_rev length_rev)
  then show ?thesis
    using upsert_unchanged(1) [of _ _ _ "capability_update now w", OF r u] capability_wkey_wire [OF Some] Some by (simp add: apply_capability_def)
qed (simp add: apply_capability_def)

lemma capabilities_settle:
  assumes "distinct (map wire_key ws)" "\<forall>w \<in> set ws. stamped_by now w" "ks \<subseteq> capability_key ` set t"
  shows "\<forall>w \<in> set ws. capability_wkey known w \<noteq> None \<longrightarrow> capability_settled w (fold (apply_capability now known ks) ws t)"
  using assms
proof (induction ws arbitrary: t)
  case (Cons v ws)
  let ?t = "apply_capability now known ks v t"
  have keep: "capability_settled w (fold (apply_capability now known ks) vs t)"
    if "capability_settled w t" "\<forall>v \<in> set vs. wire_key v \<noteq> wire_key w" for w vs t
    using that by (induction vs arbitrary: t) (auto simp: capability_stays)
  have "ks \<subseteq> capability_key ` set ?t" by (rule subset_trans [OF Cons.prems(3) apply_capability_keys])
  then have "\<forall>w \<in> set ws. capability_wkey known w \<noteq> None \<longrightarrow> capability_settled w (fold (apply_capability now known ks) ws ?t)"
    using Cons by simp
  moreover have "capability_settled v (fold (apply_capability now known ks) ws ?t)" if "capability_wkey known v \<noteq> None"
    using that Cons.prems by (intro keep) (force simp: capability_settles, force simp: image_iff)
  ultimately show ?case by simp
qed simp

lemma capabilities_idempotent:
  assumes "distinct (map wire_key ws)" "\<forall>w \<in> set ws. stamped_by now w" "set known' = set known"
  shows "apply_model_capabilities now' known' ws (apply_model_capabilities now known ws t) = apply_model_capabilities now known ws t"
proof -
  let ?t = "apply_model_capabilities now known ws t"
  have key: "capability_wkey known' = capability_wkey known" using assms(3) by (simp add: capability_wkey_def fun_eq_iff)
  have "\<forall>w \<in> set ws. capability_wkey known w \<noteq> None \<longrightarrow> capability_settled w ?t"
    unfolding apply_model_capabilities_def by (rule capabilities_settle [OF assms(1,2)]) simp
  then have "apply_capability now' known' (capability_key ` set ?t) w ?t = ?t" if "w \<in> set ws" for w
    using that capability_settled_same [of w ?t, OF _ refl] apply_capability_def [of now' known' _ w ?t]
    by (cases "capability_wkey known w") (simp_all add: key)
  moreover have "fold f vs x = x" if "\<And>v. v \<in> set vs \<Longrightarrow> f v x = x" for f :: "capability_wire \<Rightarrow> synced_capability list \<Rightarrow> _" and vs x
    using that by (induction vs) auto
  ultimately show ?thesis unfolding apply_model_capabilities_def by simp
qed

subsection \<open>Whole payloads\<close>

text \<open>A payload names each row once: a peer reads each of its tables once to build it.\<close>

definition one_row_per_key :: "('w \<Rightarrow> 'k option) \<Rightarrow> 'w list \<Rightarrow> bool" where
  "one_row_per_key key ws = distinct (map key (filter (\<lambda>w. key w \<noteq> None) ws))"

definition well_formed :: "string list \<Rightarrow> ident \<Rightarrow> payload \<Rightarrow> bool" where
  "well_formed schema self p \<longleftrightarrow>
     distinct (map uw_id (pl_users p)) \<and> distinct (map uw_username (pl_users p)) \<and>
     distinct (map kw_key_hash (pl_api_keys p)) \<and> one_row_per_key (setting_wkey schema) (pl_settings p) \<and>
     one_row_per_key run_wkey (pl_runs p) \<and> one_row_per_key dim_wkey (pl_lmrh_dims p) \<and>
     one_row_per_key proposal_wkey (pl_lmrh_proposals p) \<and> distinct (map wire_key (pl_capabilities p)) \<and>
     distinct (map wa_alias (pl_aliases p)) \<and>
     one_row_per_key profile_wkey (pl_profiles p) \<and> one_row_per_key ip_key (pl_blocked_ips p) \<and>
     one_row_per_key review_key (pl_key_reviews p) \<and> one_row_per_key review_key (pl_provider_reviews p) \<and>
     one_row_per_key snapshot_key (pl_snapshots p) \<and> one_row_per_key auth_wkey (pl_auth_states p) \<and>
     one_row_per_key memory_key (pl_memory p) \<and> one_row_per_key marker_key (pl_markers p) \<and>
     one_row_per_key audit_key (pl_events p) \<and> one_row_per_key audit_key (pl_policy_changes p) \<and>
     one_row_per_key (peer_key self) (pl_peers p)"

text \<open>Two databases agree on the rows of a table; and on every table but those of the providers, their
  capabilities and the aliases of their models.\<close>

definition same_rows :: "('r \<Rightarrow> 'k) \<Rightarrow> 'r list \<Rightarrow> 'r list \<Rightarrow> bool" where
  "same_rows key t t' \<longleftrightarrow> (\<forall>k. row_of key k t = row_of key k t')"

definition agree :: "cluster_db \<Rightarrow> cluster_db \<Rightarrow> bool" where
  "agree d d' \<longleftrightarrow>
     db_users d = db_users d' \<and>
     same_rows key_hash (db_api_keys d) (db_api_keys d') \<and> same_rows sr_key (db_settings d) (db_settings d') \<and>
     same_rows run_id (db_runs d) (db_runs d') \<and> same_rows ld_name (db_lmrh_dims d) (db_lmrh_dims d') \<and>
     same_rows proposal_key (db_lmrh_proposals d) (db_lmrh_proposals d') \<and>
     same_rows op_name (db_profiles d) (db_profiles d') \<and> same_rows bi_ip (db_blocked_ips d) (db_blocked_ips d') \<and>
     same_rows (\<lambda>r. (rv_subject r, rv_captured_at r)) (db_key_reviews d) (db_key_reviews d') \<and>
     same_rows (\<lambda>r. (rv_subject r, rv_captured_at r)) (db_provider_reviews d) (db_provider_reviews d') \<and>
     same_rows (\<lambda>r. (snap_provider_id r, captured_at r)) (db_snapshots d) (db_snapshots d') \<and>
     same_rows (\<lambda>r. (na_provider_id r, na_node_id r)) (db_auth_states d) (db_auth_states d') \<and>
     same_rows memory_row_key (db_memory d) (db_memory d') \<and>
     same_rows (\<lambda>r. (mm_api_key_id r, mm_conversation_id r, mm_memory_tag r)) (db_markers d) (db_markers d') \<and>
     same_rows audit_id (db_events d) (db_events d') \<and> same_rows audit_id (db_policy_changes d) (db_policy_changes d') \<and>
     same_rows cp_id (db_peers d) (db_peers d')"

lemma apply_sync_tables:
  fixes schema ec cc self now db p
  defines "d \<equiv> apply_sync schema ec cc self now p db"
  shows "db_users d = apply_users (pl_users p) (db_users db)"
    "db_api_keys d = merge_rows key_hash (\<lambda>w. Some (kw_key_hash w)) key_update key_insert (pl_api_keys p) (db_api_keys db)"
    "db_settings d = apply_settings schema (pl_settings p) (db_settings db)"
    "db_runs d = apply_runs now (pl_runs p) (db_runs db)"
    "db_lmrh_dims d = apply_lmrh_dims now (pl_lmrh_dims p) (db_lmrh_dims db)"
    "db_lmrh_proposals d = apply_lmrh_proposals (pl_lmrh_proposals p) (db_lmrh_proposals db)"
    "db_aliases d = apply_model_aliases (map pid (db_providers d)) (pl_aliases p) (db_aliases db)"
    "db_capabilities d = apply_model_capabilities now (map pid (db_providers d)) (pl_capabilities p) (db_capabilities db)"
    "db_profiles d = apply_oauth_capture_profiles (pl_profiles p) (db_profiles db)"
    "db_blocked_ips d = apply_blocked_ips (pl_blocked_ips p) (db_blocked_ips db)"
    "db_key_reviews d = apply_ai_reviews (pl_key_reviews p) (db_key_reviews db)"
    "db_provider_reviews d = apply_ai_reviews (pl_provider_reviews p) (db_provider_reviews db)"
    "db_snapshots d = apply_external_usage_snapshots (pl_snapshots p) (db_snapshots db)"
    "db_auth_states d = apply_provider_node_auth_states (pl_auth_states p) (db_auth_states db)"
    "db_memory d = apply_caller_memory (pl_memory p) (db_memory db)"
    "db_markers d = apply_caller_memory_markers (pl_markers p) (db_markers db)"
    "db_events d = apply_compliance_events ec (pl_events p) (db_events db)"
    "db_policy_changes d = apply_compliance_events cc (pl_policy_changes p) (db_policy_changes db)"
    "db_peers d = apply_cluster_peers self (pl_peers p) (db_peers db)"
  using apply_api_keys_table [of "pl_api_keys p" "db_api_keys db"]
  by (auto simp: d_def apply_sync_def Let_def split: prod.splits)

text \<open>A table merged by key is idempotent when the payload names each row once.\<close>

lemmas merges_idempotent =
  keys.merge_idempotent settings.merge_idempotent ips.merge_idempotent reviews.merge_idempotent usage.merge_idempotent
  auths.merge_idempotent memory.merge_idempotent markers.merge_idempotent audits.merge_idempotent peer_rows.merge_idempotent
  proposals.merge_idempotent profiles.merge_idempotent aliases.merge_idempotent
  run_rows.merge_again [OF run_rows.register_table_axioms] dims.merge_again [OF dims.register_table_axioms]

lemmas rows_twice =
  key_update_twice settings.upd_idem [OF TrueI] run_update_twice ip_update_twice review_update_twice auth_update_twice
  memory.upd_idem [OF TrueI] marker_update_twice peer_update_twice dim_update_twice proposal_update_twice profile_update_twice
  alias_update_twice

lemmas rows_inserted =
  key_insert_update settings.ins_idem [OF TrueI] ip_insert_update review_insert_update auth_insert_update
  memory.ins_idem [OF TrueI] marker_insert_update peer_insert_update dim_insert_update proposal_insert_update alias_insert_update

lemma dim_insert_again: "dim_insert now w = None \<Longrightarrow> dim_insert now' w = None"
  by (simp add: dim_insert_def split: if_splits)

lemma run_insert_again: "run_insert now w = None \<Longrightarrow> run_insert now' w = None"
  by (simp add: run_insert_def)

lemma one_key: "distinct (map f xs) \<Longrightarrow> distinct (map (\<lambda>w. Some (f w)) xs)"
  by (simp add: distinct_map inj_on_def)

lemma aliases_once:
  assumes "distinct (map wa_alias ws)"
  shows "distinct (map (alias_wkey known) (filter (\<lambda>w. alias_wkey known w \<noteq> None) ws))"
  using assms by (induction ws) (auto simp: alias_wkey_def split: if_splits)



section \<open>Deleted keys\<close>

type_synonym round = "clock \<times> payload"

definition sync_rounds ::
  "string list \<Rightarrow> string list \<Rightarrow> string list \<Rightarrow> ident \<Rightarrow> round list \<Rightarrow> cluster_db \<Rightarrow> cluster_db" where
  "sync_rounds schema ec cc self rounds db = fold (\<lambda>(now, p). apply_sync schema ec cc self now p) rounds db"

definition key_deleted :: "string \<Rightarrow> api_key_row list \<Rightarrow> bool" where
  "key_deleted h keys \<longleftrightarrow>
     distinct (map key_hash keys) \<and> (case row_of key_hash h keys of Some r \<Rightarrow> ak_deleted_at r \<noteq> None | None \<Rightarrow> False)"

definition carries_tombstone :: "string \<Rightarrow> payload \<Rightarrow> bool" where
  "carries_tombstone h p = list_ex (\<lambda>w. kw_key_hash w = h \<and> kw_deleted_at w \<noteq> None) (pl_api_keys p)"

lemma key_update_deleted: "ak_deleted_at r \<noteq> None \<Longrightarrow> ak_deleted_at (key_update w r) \<noteq> None"
  by (auto simp: key_update_def key_tombstone_def not_older_def split: option.splits)

lemma key_update_tombstone: "kw_deleted_at w \<noteq> None \<Longrightarrow> ak_deleted_at (key_update w r) \<noteq> None"
  by (auto simp: key_update_def key_tombstone_def not_older_def split: option.splits)

lemma key_deletedI:
  "distinct (map key_hash keys) \<Longrightarrow> \<exists>r. row_of key_hash h keys = Some r \<and> ak_deleted_at r \<noteq> None \<Longrightarrow> key_deleted h keys"
  by (auto simp: key_deleted_def)

lemma key_deleted_round:
  assumes "key_deleted h (db_api_keys db)"
  shows "key_deleted h (db_api_keys (apply_sync schema ec cc self now p db))"
proof -
  obtain r where r: "row_of key_hash h (db_api_keys db) = Some r" "ak_deleted_at r \<noteq> None"
    and d: "distinct (map key_hash (db_api_keys db))"
    using assms by (auto simp: key_deleted_def split: option.splits)
  show ?thesis unfolding apply_sync_tables
    by (rule key_deletedI [OF keys.merge_distinct [OF d]],
        rule keys.merge_keeps [where P = "\<lambda>r. ak_deleted_at r \<noteq> None", OF key_update_deleted r])
qed

lemma tombstone_deletes:
  assumes "distinct (map key_hash (db_api_keys db))" and "row_of key_hash h (db_api_keys db) = Some r"
    and "carries_tombstone h p"
  shows "key_deleted h (db_api_keys (apply_sync schema ec cc self now p db))"
proof -
  obtain w where w: "w \<in> set (pl_api_keys p)" "Some (kw_key_hash w) = Some h" "kw_deleted_at w \<noteq> None"
    using assms(3) by (auto simp: carries_tombstone_def list_ex_iff)
  show ?thesis unfolding apply_sync_tables
    by (rule key_deletedI [OF keys.merge_distinct [OF assms(1)]],
        rule keys.merge_establishes [where P = "\<lambda>r. ak_deleted_at r \<noteq> None",
          OF w(1,2) key_update_tombstone [OF w(3)] key_update_deleted assms(2)])
qed

lemma deleted_key_refused:
  assumes "key_deleted (hash_key e secret) keys" and "secret \<noteq> []"
  shows "verify_api_key e (Some secret) (keys, st) = (Inl Invalid_key, keys, st)"
proof -
  have "find (valid_row e secret) keys = None"
    using assms(1) row_of_unique [of key_hash keys]
    by (fastforce simp: key_deleted_def find_None_iff valid_row_def split: option.splits)
  with assms(2) show ?thesis by (simp add: verify_api_key_def truthy_def)
qed

lemma rounds_keep_deleted:
  "key_deleted h (db_api_keys db) \<Longrightarrow> key_deleted h (db_api_keys (sync_rounds schema ec cc self rounds db))"
  unfolding sync_rounds_def by (induction rounds arbitrary: db) (auto simp: key_deleted_round)

text \<open>C10. Deleting a key is final on a node that holds its row: once the row is deleted there, or a payload
  brings the tombstone, no sequence of payloads makes the node accept the key again. (A node that does not
  hold the row skips the tombstone, see \<open>tombstone_forgotten\<close>.)\<close>

theorem key_deletion_sticks:
  assumes "distinct (map key_hash (db_api_keys db))" and "row_of key_hash (hash_key e secret) (db_api_keys db) = Some r"
    and "ak_deleted_at r \<noteq> None \<or> carries_tombstone (hash_key e secret) p" and "secret \<noteq> []"
  shows "verify_api_key e (Some secret)
      (db_api_keys (sync_rounds schema ec cc self ((now, p) # rounds) db), st) =
    (Inl Invalid_key, db_api_keys (sync_rounds schema ec cc self ((now, p) # rounds) db), st)"
proof -
  let ?h = "hash_key e secret"
  have "key_deleted ?h (db_api_keys (apply_sync schema ec cc self now p db))"
  proof (cases "ak_deleted_at r = None")
    case True
    with tombstone_deletes [OF assms(1,2)] assms(3) show ?thesis by blast
  next
    case False
    then show ?thesis using assms(1,2) by (intro key_deleted_round key_deletedI) auto
  qed
  then have "key_deleted ?h (db_api_keys (sync_rounds schema ec cc self rounds (apply_sync schema ec cc self now p db)))"
    by (rule rounds_keep_deleted)
  from deleted_key_refused [OF this assms(4)] show ?thesis by (simp add: sync_rounds_def)
qed

text \<open>A node that does not hold the row does not remember a tombstone: it skips it, and a later payload from a peer
  that still has the key alive inserts the key.\<close>

lemma tombstone_forgotten:
  assumes "row_of key_hash h (db_api_keys db) = None" and "\<forall>w \<in> set (pl_api_keys p). kw_key_hash w = h \<longrightarrow> kw_deleted_at w \<noteq> None"
    and "filter (\<lambda>w. kw_key_hash w = h) (pl_api_keys q) = [w]" and "kw_deleted_at w = None"
  shows "row_of key_hash h (db_api_keys (sync_rounds schema ec cc self [(now, p), (now', q)] db)) = Some (key_fields w (blank_key w))"
proof -
  have skip: "fold keys.reg vs None = None" if "\<forall>w \<in> set vs. kw_deleted_at w \<noteq> None" for vs
    using that by (induction vs) (auto simp: key_insert_def)
  have "row_of key_hash h (db_api_keys (apply_sync schema ec cc self now p db)) = None"
    unfolding apply_sync_tables keys.row_of_merge assms(1) by (rule skip) (use assms(2) in simp)
  then show ?thesis
    by (simp add: sync_rounds_def apply_sync_tables(2) keys.row_of_merge assms(3,4) key_insert_def)
qed

text \<open>Restoring a key on one node is undone by the next payload of a peer that still has the tombstone,
  however recent the restoration is: the key is refused again.\<close>

theorem restore_undone:
  assumes "restore_key days now i (db_api_keys db) = Inr keys" and "distinct (map key_hash (db_api_keys db))"
    and "r \<in> set (db_api_keys db)" "ak_id r = i" "key_hash r = hash_key e secret"
    and "carries_tombstone (hash_key e secret) p" and "secret \<noteq> []"
  shows "fst (verify_api_key e (Some secret)
    (db_api_keys (apply_sync schema ec cc self now' p (db \<lparr>db_api_keys := keys\<rparr>)), st)) = Inl Invalid_key"
proof -
  obtain f where keys: "keys = map f (db_api_keys db)" and f: "\<And>k. key_hash (f k) = key_hash k"
  proof -
    define f :: "api_key_row \<Rightarrow> api_key_row" where "f = (\<lambda>k. if ak_id k = i then k \<lparr>ak_deleted_at := None, ak_enabled := True, ak_last_user_edit_at := Some now\<rparr> else k)"
    have "keys = map f (db_api_keys db)" "\<And>k. key_hash (f k) = key_hash k"
      using assms(1) by (auto simp: restore_key_def update_key_def f_def Let_def split: option.splits if_splits)
    then show thesis by (rule that)
  qed
  have d: "distinct (map key_hash keys)" using assms(2) by (simp add: keys f comp_def)
  have "f r \<in> set keys" using assms(3) by (simp add: keys)
  from row_of_unique [of key_hash, OF d this] have row: "row_of key_hash (hash_key e secret) keys = Some (f r)"
    by (simp add: f assms(5))
  have "key_deleted (hash_key e secret) (db_api_keys (apply_sync schema ec cc self now' p (db \<lparr>db_api_keys := keys\<rparr>)))"
    by (rule tombstone_deletes) (use d row assms(6) in simp_all)
  from deleted_key_refused [OF this assms(7)] show ?thesis by simp
qed


section \<open>Costs of the peers\<close>

text \<open>A key is in step with a peer when both hold it, undeleted, with the same edit stamp: the state the
  merge itself establishes.\<close>

definition in_step :: "api_key_row list \<Rightarrow> key_wire \<Rightarrow> bool" where
  "in_step t w =
     (case row_of key_hash (kw_key_hash w) t of
        Some r \<Rightarrow> kw_deleted_at w = None \<and> ak_deleted_at r = None \<and>
          kw_last_user_edit_at w = ak_last_user_edit_at r \<and> ak_last_user_edit_at r \<noteq> None
      | None \<Rightarrow> False)"

lemma in_step_rejected: "in_step t w \<Longrightarrow> key_cost w t = [] \<and>
    merge_row key_hash (\<lambda>w. Some (kw_key_hash w)) key_update key_insert w t = t"
proof -
  assume step: "in_step t w"
  then obtain r where r: "row_of key_hash (kw_key_hash w) t = Some r" by (auto simp: in_step_def split: option.splits)
  have no: "\<not> key_accepts w r" "\<not> key_tombstone w r"
    using step r by (auto simp: in_step_def key_accepts_def key_tombstone_def edit_accepts_def not_older_def split: option.splits)
  then have "key_update w r = r" by (simp add: key_update_def)
  moreover have "upsert (\<lambda>r. key_hash r = h) f i t = t" if "row_of key_hash h t = Some r" "f r = r" for h and f :: "api_key_row \<Rightarrow> api_key_row" and i t
    using that by (induction t) (auto split: if_splits)
  ultimately show ?thesis using r no by (simp add: key_cost_def merge_row_def)
qed

lemma in_step_ignored: "\<forall>w \<in> set ws. in_step t w \<Longrightarrow> apply_api_keys ws t = ([], t)"
proof -
  assume "\<forall>w \<in> set ws. in_step t w"
  then have "fold (\<lambda>w (costs, t). (key_cost w t @ costs,
      merge_row key_hash (\<lambda>w. Some (kw_key_hash w)) key_update key_insert w t)) ws ([], t) = ([], t)"
    by (induction ws) (auto simp: in_step_rejected)
  then show ?thesis by (simp add: apply_api_keys_def)
qed

lemma sum_upsert:
  fixes g :: "string \<times> (ident \<times> rat) list \<Rightarrow> rat"
  assumes "distinct (map fst t)"
  shows "sum_list (map g (set_peer_costs n c t)) = g (n, c) + sum_list (map g (filter (\<lambda>e. fst e \<noteq> n) t))"
  using assms unfolding set_peer_costs_def
proof (induction t)
  case (Cons e t)
  have "filter (\<lambda>e. fst e \<noteq> n) t = t" if "n \<notin> fst ` set t" using that by (induction t) auto
  with Cons show ?case by (auto simp: algebra_simps)
qed simp

text \<open>A spending cap does not see what a peer has spent: when the keys of a payload are in step, the cost
  the peer reports is not recorded, and what it reported before is forgotten.\<close>

theorem peer_cost_dropped:
  assumes "\<forall>w \<in> set (pl_api_keys p). in_step (db_api_keys db) w" and "distinct (map fst (peer_key_costs db))"
  shows "get_peer_total_cost (apply_sync schema ec cc self now p db) key =
    sum_list (map (\<lambda>(_, costs). value_or 0 (map_of costs key))
      (filter (\<lambda>e. fst e \<noteq> pl_source_node p) (peer_key_costs db)))"
proof -
  have "peer_key_costs (apply_sync schema ec cc self now p db) = set_peer_costs (pl_source_node p) [] (peer_key_costs db)"
    by (simp add: apply_sync_def Let_def in_step_ignored [OF assms(1)])
  then show ?thesis by (simp add: get_peer_total_cost_def sum_upsert [OF assms(2)] value_or_def)
qed

section \<open>Deleted providers\<close>

lemma provider_fields_frame:
  "pid (provider_fields w r) = pid r" "deleted_at (provider_fields w r) = deleted_at r"
  "enabled (provider_fields w r) = value_or (enabled r) (pw_enabled w)"
  by (simp_all add: provider_fields_def set_if_keeps set_if_sets)

lemma onupdate_frame [simp]:
  "pid (onupdate now r r') = pid r'" "deleted_at (onupdate now r r') = deleted_at r'" "enabled (onupdate now r r') = enabled r'"
  "priority (onupdate now r r') = priority r'" "pname (onupdate now r r') = pname r'"
  by (auto simp: onupdate_def)

text \<open>A tombstone on a provider row is never cleared by a payload.\<close>

lemma provider_stays_deleted: "deleted_at r \<noteq> None \<Longrightarrow> deleted_at (provider_update now w r) = deleted_at r"
  by (auto simp: provider_update_def set_if_keeps provider_fields_frame)

lemma provider_update_pid: "pid (provider_update now w r) = pid r"
  by (auto simp: provider_update_def set_if_keeps provider_fields_frame)

lemma upsert_hit:
  assumes "find m t = Some r"
  shows "f r \<in> set (upsert m f i t)"
  using assms by (induction t) (auto split: if_splits)

text \<open>A deleted provider comes back into rotation: a payload row changed after the deletion, which the
  edit gate accepts, enables the deleted row again and leaves its tombstone; the router selects on the
  enabled flag alone, so the row is among its candidates.\<close>

theorem deleted_provider_routed:
  assumes "find (\<lambda>r. pid r = pw_id w) t = Some r" and "deleted_at r = Some d" and "pw_deleted_at w = None"
    and "pw_enabled w = Some True" and "pw_updated_at w = Some u" "d < u" and "provider_accepts w r"
    and "providers env = map provider.truncate (apply_providers now [w] t)"
  shows "\<exists>q \<in> set (apply_providers now [w] t). pid q = pw_id w \<and> deleted_at q = Some d \<and>
    provider.truncate q \<in> set (enabled_providers env)"
proof -
  let ?q = "provider_update now w r"
  have "?q \<in> set (apply_providers now [w] t)"
    using upsert_hit [OF assms(1)] assms(1) by (simp add: apply_providers_def apply_provider_def match_then_def)
  moreover have "deleted_at ?q = Some d" using provider_stays_deleted [of r now w] assms(2) by simp
  moreover have "enabled ?q"
    using assms(2-7) by (simp add: provider_update_def newer_def set_if_keeps provider_fields_frame value_or_def)
  moreover have "pid ?q = pw_id w" using find_valid [OF assms(1)] by (simp add: provider_update_pid)
  moreover have "enabled (provider.truncate ?q) = enabled ?q" by (simp add: provider.defs)
  ultimately show ?thesis
    using assms(8) by (intro bexI [of _ ?q]) (auto simp: enabled_providers_def)
qed


section \<open>Distinct priorities\<close>

definition routable_row :: "synced_provider \<Rightarrow> bool" where
  "routable_row r \<longleftrightarrow> deleted_at r = None \<and> enabled r"

text \<open>What the tie resolution is meant to compute: in routing order each row takes the least priority that is
  not below its own and above its predecessor's.\<close>

fun spread :: "int \<Rightarrow> int list \<Rightarrow> int list" where
  "spread m [] = []"
| "spread m (p # ps) = (let q = max p (m + 1) in q # spread q ps)"

definition spread_from :: "int list \<Rightarrow> int list" where
  "spread_from ps = (case ps of [] \<Rightarrow> [] | p # ps \<Rightarrow> p # spread p ps)"

lemma spread_increasing: "sorted_wrt (<) (m # spread m ps)"
proof (induction ps arbitrary: m)
  case (Cons p ps)
  from Cons.IH [of "max p (m + 1)"] show ?case by (auto simp: Let_def)
qed simp

lemma spread_from_increasing: "sorted_wrt (<) (spread_from ps)"
  using spread_increasing by (simp add: spread_from_def split: list.split)

lemma spread_above: "list_all2 (\<le>) ps (spread m ps)"
  by (induction ps arbitrary: m) (auto simp: Let_def)

lemma next_free_max:
  assumes "finite seen" and "{q..m} \<subseteq> seen" and "\<forall>s \<in> seen. s \<le> m" and "q \<le> p"
  shows "next_free seen p = max p (m + 1)"
  using assms(4)
proof (induction "nat (m + 1 - p)" arbitrary: p)
  case 0
  then have "p \<notin> seen" using assms(3) by force
  with 0 show ?case by (simp add: next_free.simps [of seen p])
next
  case (Suc n)
  then have "p \<in> {q..m}" by simp
  with assms(2) have "p \<in> seen" by blast
  moreover have "next_free seen (p + 1) = max (p + 1) (m + 1)" using Suc by (intro Suc.hyps(1)) auto
  ultimately show ?case using Suc.hyps(2) by (simp add: next_free.simps [of seen p] assms(1))
qed

definition final_priority :: "(ident \<times> int) list \<Rightarrow> synced_provider \<Rightarrow> int" where
  "final_priority bumps r = value_or (priority r) (map_of bumps (pid r))"

lemma bump_ties_dom: "fst ` set (bump_ties seen rs) \<subseteq> pid ` set rs"
  by (induction seen rs rule: bump_ties.induct) (auto simp: Let_def image_subset_iff)

lemma bump_ties_fresh: "i \<notin> pid ` set rs \<Longrightarrow> map_of (bump_ties seen rs) i = None"
  using bump_ties_dom [of seen rs] by (auto simp: map_of_eq_None_iff)

lemma final_priority_Cons:
  assumes "distinct (map pid (r # rs))" and "finite seen"
  shows "map (final_priority (bump_ties seen (r # rs))) (r # rs) =
    next_free seen (priority r) #
      map (final_priority (bump_ties (insert (next_free seen (priority r)) seen) rs)) rs"
proof -
  have fresh: "map_of (bump_ties s rs) (pid r) = None" for s using assms(1) by (intro bump_ties_fresh) auto
  have rest: "map (final_priority ((pid r, p) # b)) rs = map (final_priority b) rs" for p b
    using assms(1) by (intro map_cong) (auto simp: final_priority_def image_iff)
  have "next_free seen (priority r) = priority r" if "priority r \<notin> seen"
    using that by (simp add: next_free.simps [of seen])
  then show ?thesis
    by (cases "priority r \<in> seen") (simp_all add: Let_def rest, simp_all add: final_priority_def fresh value_or_def)
qed

lemma bump_ties_spread:
  assumes "distinct (map pid rs)" "sorted (map priority rs)" "\<forall>r \<in> set rs. q \<le> priority r"
    and "finite seen" "{q..m} \<subseteq> seen" "\<forall>s \<in> seen. s \<le> m"
  shows "map (final_priority (bump_ties seen rs)) rs = spread m (map priority rs)"
  using assms
proof (induction rs arbitrary: q m seen)
  case (Cons r rs)
  let ?p = "max (priority r) (m + 1)"
  have p: "next_free seen (priority r) = ?p"
    using Cons.prems by (intro next_free_max) auto
  have "{priority r..?p} \<subseteq> insert ?p seen"
  proof
    fix s assume s: "s \<in> {priority r..?p}"
    show "s \<in> insert ?p seen"
    proof (cases "s \<le> m")
      case True
      with s Cons.prems(3) have "s \<in> {q..m}" by simp
      with Cons.prems(5) show ?thesis by blast
    next
      case False
      with s have "s = ?p" by (auto simp: max_def split: if_splits)
      then show ?thesis by simp
    qed
  qed
  then have "map (final_priority (bump_ties (insert ?p seen) rs)) rs = spread ?p (map priority rs)"
    using Cons.prems by (intro Cons.IH [of "priority r"]) (simp_all, force)
  with final_priority_Cons [OF Cons.prems(1,4)] p show ?case by (simp add: Let_def)
qed simp

lemma ties_spread:
  assumes "distinct (map pid rs)" "sorted (map priority rs)"
  shows "map (final_priority (bump_ties {} rs)) rs = spread_from (map priority rs)"
proof (cases rs)
  case (Cons r rs')
  have "map (final_priority (bump_ties {priority r} rs')) rs' = spread (priority r) (map priority rs')"
    using assms Cons by (intro bump_ties_spread [of _ "priority r"]) auto
  with final_priority_Cons [of r rs' "{}"] assms(1) Cons show ?thesis
    by (simp add: spread_from_def next_free.simps [of "{}"])
qed (simp add: spread_from_def)


definition retied :: "clock \<Rightarrow> synced_provider list \<Rightarrow> synced_provider \<Rightarrow> synced_provider" where
  "retied now t r = (case map_of (bump_ties {} (tie_order t)) (pid r) of
     Some p \<Rightarrow> onupdate now r (r \<lparr>priority := p\<rparr>) | None \<Rightarrow> r)"

lemma normalize_retied: "normalize_priority_ties now t = map (retied now t) t"
  by (simp add: normalize_priority_ties_def retied_def Let_def cong: option.case_cong)

lemma retied_frame [simp]:
  "pid (retied now t r) = pid r" "routable_row (retied now t r) = routable_row r"
  "priority (retied now t r) = final_priority (bump_ties {} (tie_order t)) r"
  by (auto simp: retied_def routable_row_def final_priority_def value_or_def split: option.split)

lemma tie_order_simps:
  "mset (tie_order t) = mset (filter routable_row t)" "set (tie_order t) = {r \<in> set t. routable_row r}"
  "sorted (map priority (tie_order t))"
  by (auto simp: tie_order_def routable_row_def)

lemma tie_order_distinct: "distinct (map pid t) \<Longrightarrow> distinct (map pid (tie_order t))"
proof -
  assume "distinct (map pid t)"
  then have "distinct (map pid (filter routable_row t))" by (rule distinct_map_filter)
  moreover have "mset (map pid (tie_order t)) = mset (map pid (filter routable_row t))"
    by (simp only: mset_map tie_order_simps)
  ultimately show ?thesis by (metis mset_eq_imp_distinct_iff)
qed

lemma retied_order:
  assumes "distinct (map pid t)"
  shows "tie_order (normalize_priority_ties now t) = map (retied now t) (tie_order t)"
    and "map priority (tie_order (normalize_priority_ties now t)) = spread_from (map priority (tie_order t))"
proof -
  let ?n = "normalize_priority_ties now t" and ?rs = "map (retied now t) (tie_order t)"
  have prio: "map priority ?rs = spread_from (map priority (tie_order t))"
    using ties_spread [OF tie_order_distinct [OF assms] tie_order_simps(3)] by (simp add: comp_def)
  then have inc: "sorted_wrt (<) (map priority ?rs)" by (simp only: spread_from_increasing)
  have filt: "filter routable_row ?n = map (retied now t) (filter routable_row t)"
    by (simp add: normalize_retied filter_map comp_def)
  have mset: "mset (tie_order ?n) = mset ?rs" by (simp only: tie_order_simps filt mset_map)
  have set: "set (tie_order ?n) = set ?rs" by (rule mset_eq_setD [OF mset])
  have "mset (map priority (tie_order ?n)) = mset (map priority ?rs)"
    by (subst mset_map, subst mset, rule mset_map [symmetric])
  have d: "distinct (map priority ?rs)" "sorted (map priority ?rs)" using inc by (auto simp: strict_sorted_iff)
  then have "distinct (map priority (tie_order ?n))"
    using \<open>mset (map priority (tie_order ?n)) = _\<close> by (metis mset_eq_imp_distinct_iff)
  moreover have "inj_on priority (set (tie_order ?n) \<union> set ?rs)" using d(1) unfolding set by (simp only: distinct_map Un_absorb)
  ultimately show "tie_order ?n = ?rs"
    using map_sorted_distinct_set_unique [of priority "tie_order ?n" ?rs] tie_order_simps(3) [of ?n] d set by blast
  with prio show "map priority (tie_order ?n) = spread_from (map priority (tie_order t))" by simp
qed

lemma no_ties_kept:
  "distinct (map priority rs) \<Longrightarrow> \<forall>r \<in> set rs. priority r \<notin> seen \<Longrightarrow> bump_ties seen rs = []"
proof (induction rs arbitrary: seen)
  case (Cons r rs)
  have "distinct (map priority rs)" "\<forall>s \<in> set rs. priority s \<notin> insert (priority r) seen"
    using Cons.prems by (simp_all add: image_iff) metis
  then have "bump_ties (insert (priority r) seen) rs = []" by (rule Cons.IH)
  with Cons.prems show ?case by simp
qed simp

text \<open>C17. Resolving the ties leaves the routing order as it is and makes it strict: the enabled, undeleted
  rows keep their order by priority, age and id, their priorities become the least strictly
  increasing sequence that lowers none of them, the other rows are untouched, and a second
  resolution changes nothing.\<close>

theorem ties_resolved:
  fixes t now
  assumes "distinct (map pid t)"
  defines "t' \<equiv> normalize_priority_ties now t"
  shows "map pid (tie_order t') = map pid (tie_order t) \<and>
    map priority (tie_order t') = spread_from (map priority (tie_order t)) \<and>
    sorted_wrt (<) (map priority (tie_order t')) \<and>
    list_all2 (\<le>) (map priority (tie_order t)) (map priority (tie_order t')) \<and>
    (\<forall>r \<in> set t. \<not> routable_row r \<longrightarrow> r \<in> set t') \<and> normalize_priority_ties now' t' = t'"
proof (intro conjI)
  show "map pid (tie_order t') = map pid (tie_order t)" by (simp add: t'_def retied_order(1) [OF assms(1)])
  show prio: "map priority (tie_order t') = spread_from (map priority (tie_order t))"
    by (simp only: t'_def retied_order(2) [OF assms(1)])
  then show inc: "sorted_wrt (<) (map priority (tie_order t'))" by (simp only: spread_from_increasing)
  show "list_all2 (\<le>) (map priority (tie_order t)) (map priority (tie_order t'))"
    unfolding prio by (simp add: spread_from_def spread_above split: list.split)
  show "\<forall>r \<in> set t. \<not> routable_row r \<longrightarrow> r \<in> set t'"
  proof (intro ballI impI)
    fix r assume r: "r \<in> set t" "\<not> routable_row r"
    have "pid r \<notin> pid ` set (tie_order t)"
      using r assms(1) by (auto simp: tie_order_simps distinct_map dest: inj_onD)
    then have "retied now t r = r" by (simp add: retied_def bump_ties_fresh)
    with r(1) show "r \<in> set t'" by (force simp: t'_def normalize_retied)
  qed
  have "bump_ties {} (tie_order t') = []" using inc by (intro no_ties_kept) (auto simp: strict_sorted_iff)
  then show "normalize_priority_ties now' t' = t'" by (simp add: normalize_priority_ties_def)
qed


section \<open>Blocked addresses\<close>

text \<open>Unblocking and blocking again do not converge. Merging a re-armed row clears the tombstone but leaves
  the local time of addition, so the tombstone it superseded, still offered by a third node, deletes
  the row again; a node that hears the two in the other order keeps the address blocked.\<close>

definition rearmed_ip :: blocked_ip where
  "rearmed_ip = \<lparr>bi_ip = ''10.0.0.1'', bi_reason = None, bi_added_by = None, bi_added_at = Some 3, bi_deleted_at = None\<rparr>"

definition unblocked_ip :: blocked_ip where
  "unblocked_ip = rearmed_ip \<lparr>bi_added_at := Some 1, bi_deleted_at := Some 2\<rparr>"

text \<open>The order of delivery decides whether an address stays blocked: of an address blocked at time 1,
  unblocked at 2 and blocked again at 3, a node that receives the re-arming before the unblocking has
  the address unblocked, one that receives them in order has it blocked.\<close>

theorem blocked_order_matters:
  "map bi_deleted_at (apply_blocked_ips [rearmed_ip, unblocked_ip] [unblocked_ip \<lparr>bi_deleted_at := None\<rparr>]) = [Some 2] \<and>
   map bi_deleted_at (apply_blocked_ips [unblocked_ip, rearmed_ip] [unblocked_ip \<lparr>bi_deleted_at := None\<rparr>]) = [None]"
  by code_simp

section \<open>Concrete payloads\<close>

definition demo_wire :: key_wire where
  "demo_wire =
     \<lparr>kw_id = ''k'', kw_name = ''demo'', kw_key_hash = ''h'', kw_key_prefix = ''llmp-'', kw_key_type = None, kw_enabled = Some True,
      kw_spending_cap_usd = Some (Some 5), kw_rate_limit_rpm = None, kw_rate_limit_tier = None, kw_semantic_cache_enabled = None,
      kw_daily_soft_cap_usd = None, kw_daily_hard_cap_usd = None, kw_hourly_cap_usd = None, kw_caller_memory_ttl_days = None,
      kw_lmrh_polling_rpm = None, kw_lmrh_quotes_rpm = None, kw_blocked_companies = None, kw_allowed_companies = None,
      kw_blocked_models = None, kw_allowed_models = None, kw_allowed_paths = None, kw_debug_echo_enabled = None,
      kw_total_cost_usd = Some 9, kw_deleted_at = None, kw_last_user_edit_at = Some 10\<rparr>"

definition demo_payload :: payload where
  "demo_payload =
     \<lparr>pl_source_node = ''n2'', pl_users = [], pl_api_keys = [demo_wire], pl_providers = [],
      pl_settings = [\<lparr>sr_key = ''cot_enabled'', sr_value = Some ''0'', sr_updated_at = 7\<rparr>], pl_runs = [],
      pl_lmrh_dims = [], pl_lmrh_proposals = [demo_proposal ''accepted''], pl_capabilities = [],
      pl_aliases = [\<lparr>wa_alias = ''fast'', wa_provider_id = None, wa_model_id = ''m'', wa_description = None\<rparr>], pl_profiles = [],
      pl_blocked_ips = [rearmed_ip], pl_key_reviews = [], pl_snapshots = [], pl_auth_states = [], pl_provider_reviews = [],
      pl_memory = [], pl_markers = [], pl_events = [], pl_policy_changes = [], pl_peers = []\<rparr>"

definition demo_db :: cluster_db where
  "demo_db =
     \<lparr>db_users = [], db_api_keys = [demo_key], db_providers = [], db_settings = [], db_runs = [], db_lmrh_dims = [], db_lmrh_proposals = [demo_proposal ''pending''],
      db_capabilities = [], db_aliases = [], db_profiles = [], db_blocked_ips = [],
      db_key_reviews = [], db_snapshots = [], db_auth_states = [], db_provider_reviews = [], db_memory = [], db_markers = [],
      db_events = [], db_policy_changes = [], db_peers = [], peer_key_costs = [(''n2'', [(''k'', 8)])]\<rparr>"


definition deleted_wire :: key_wire where
  "deleted_wire = demo_wire \<lparr>kw_deleted_at := Some 20\<rparr>"

theorem key_deletion_sticks_witness:
  "fst (verify_api_key demo_auth (Some ''llmp-x'')
     (db_api_keys (sync_rounds SCHEMA [] [] ''n1''
        [(1, demo_payload \<lparr>pl_api_keys := [deleted_wire]\<rparr>), (2, demo_payload)] demo_db), no_requests)) = Inl Invalid_key"
proof -
  have "row_of key_hash (hash_key demo_auth ''llmp-x'') (db_api_keys demo_db) = Some demo_key"
    "carries_tombstone (hash_key demo_auth ''llmp-x'') (demo_payload \<lparr>pl_api_keys := [deleted_wire]\<rparr>)"
    "distinct (map key_hash (db_api_keys demo_db))" by code_simp+
  with key_deletion_sticks [of demo_db demo_auth "''llmp-x''" demo_key "demo_payload \<lparr>pl_api_keys := [deleted_wire]\<rparr>"]
  show ?thesis by simp
qed

text \<open>The deleted key is accepted on a node that heard of the deletion before it heard of the key.\<close>

lemma deleted_key_readmitted:
  "is_ok (fst (verify_api_key demo_auth (Some ''llmp-x'')
     (db_api_keys (sync_rounds SCHEMA [] [] ''n1''
        [(1, demo_payload \<lparr>pl_api_keys := [deleted_wire]\<rparr>), (2, demo_payload)] (demo_db \<lparr>db_api_keys := []\<rparr>)), no_requests)))"
  by code_simp

theorem restore_undone_witness:
  "\<exists>keys. restore_key 90 30 ''k'' [demo_key \<lparr>ak_deleted_at := Some 20\<rparr>] = Inr keys \<and>
     fst (verify_api_key demo_auth (Some ''llmp-x'')
       (db_api_keys (apply_sync SCHEMA [] [] ''n1'' 40 (demo_payload \<lparr>pl_api_keys := [deleted_wire]\<rparr>)
          (demo_db \<lparr>db_api_keys := keys\<rparr>)), no_requests)) = Inl Invalid_key"
proof -
  let ?d = "demo_key \<lparr>ak_deleted_at := Some 20\<rparr>" and ?p = "demo_payload \<lparr>pl_api_keys := [deleted_wire]\<rparr>"
  let ?db = "demo_db \<lparr>db_api_keys := [?d]\<rparr>"
  have "is_ok (restore_key 90 30 ''k'' (db_api_keys ?db))" by code_simp
  then obtain keys where keys: "restore_key 90 30 ''k'' (db_api_keys ?db) = Inr keys" by (auto simp: is_ok_iff)
  have "distinct (map key_hash (db_api_keys ?db))" "ak_id ?d = ''k''" "key_hash ?d = hash_key demo_auth ''llmp-x''"
    "carries_tombstone (hash_key demo_auth ''llmp-x'') ?p" by code_simp+
  with restore_undone [OF keys, of ?d demo_auth "''llmp-x''" ?p] keys show ?thesis by simp
qed

theorem peer_cost_dropped_witness:
  "get_peer_total_cost demo_db ''k'' = 8 \<and>
   get_peer_total_cost (apply_sync SCHEMA [] [] ''n1'' 1 demo_payload demo_db) ''k'' = 0"
proof -
  have "\<forall>w \<in> set (pl_api_keys demo_payload). in_step (db_api_keys demo_db) w" "distinct (map fst (peer_key_costs demo_db))"
    "get_peer_total_cost demo_db ''k'' = 8" by code_simp+
  moreover have "filter (\<lambda>e. fst e \<noteq> pl_source_node demo_payload) (peer_key_costs demo_db) = []" by code_simp
  ultimately show ?thesis using peer_cost_dropped [of demo_payload demo_db SCHEMA "[]" "[]" "''n1''" 1 "''k''"] by simp
qed


text \<open>A provider deleted at time 20 elsewhere; a third node, whose background work touched its live copy at
  time 30, sends that copy.\<close>

definition live_wire :: provider_wire where
  "live_wire =
     \<lparr>pw_id = ''p'', pw_name = ''P'', pw_provider_type = ''openai'', pw_api_key = None, pw_base_url = None,
      pw_default_model = Some (Some ''gpt-4o''), pw_priority = Some 1, pw_enabled = Some True, pw_timeout_sec = None,
      pw_exclude_from_tool_requests = None, pw_hold_down_sec = None, pw_failure_threshold = None, pw_extra_config = None,
      pw_owned_by_key_id = None, pw_daily_budget_usd = None, pw_oauth_refresh_token = None, pw_oauth_expires_at = None,
      pw_auto_skip_until = None, pw_auto_skip_reason = None, pw_owner_company = None, pw_deleted_at = None,
      pw_updated_at = Some 30, pw_last_user_edit_at = Some 10\<rparr>"

definition deleted_row :: synced_provider where
  "deleted_row = (provider_fields live_wire (blank_provider 5 live_wire))
     \<lparr>enabled := False, deleted_at := Some 20, sp_updated_at := Some 20\<rparr>"

definition after_live :: router_env where
  "after_live = demo_env \<lparr>providers := map provider.truncate (apply_providers 40 [live_wire] [deleted_row])\<rparr>"

theorem deleted_provider_routed_witness:
  "(\<exists>q \<in> set (apply_providers 40 [live_wire] [deleted_row]). pid q = ''p'' \<and> deleted_at q = Some 20 \<and>
      provider.truncate q \<in> set (enabled_providers after_live)) \<and>
   (case fst (select_provider after_live new_request) of
      Inr (Route r) \<Rightarrow> pid (rt_provider r) = ''p'' \<and> deleted_at (rt_provider r) = Some 20 | _ \<Rightarrow> False)"
proof
  have hyps: "find (\<lambda>r. pid r = pw_id live_wire) [deleted_row] = Some deleted_row" "deleted_at deleted_row = Some 20"
    "pw_deleted_at live_wire = None" "pw_enabled live_wire = Some True" "pw_updated_at live_wire = Some 30" "(20::rat) < 30"
    "provider_accepts live_wire deleted_row" by code_simp+
  have "providers after_live = map provider.truncate (apply_providers 40 [live_wire] [deleted_row])"
    by (simp add: after_live_def)
  from deleted_provider_routed [OF hyps this]
  show "\<exists>q \<in> set (apply_providers 40 [live_wire] [deleted_row]). pid q = ''p'' \<and> deleted_at q = Some 20 \<and>
      provider.truncate q \<in> set (enabled_providers after_live)" by (simp add: live_wire_def)
  show "case fst (select_provider after_live new_request) of
      Inr (Route r) \<Rightarrow> pid (rt_provider r) = ''p'' \<and> deleted_at (rt_provider r) = Some 20 | _ \<Rightarrow> False" by code_simp
qed

text \<open>The example of the source: priorities 1, 2, 2, 3, 3 become 1 to 5.\<close>

definition tied :: "string \<Rightarrow> int \<Rightarrow> clock \<Rightarrow> synced_provider" where
  "tied i p created = (blank_provider 0 live_wire) \<lparr>pid := i, pname := i, priority := p, sp_created_at := created\<rparr>"

definition tied_rows :: "synced_provider list" where
  "tied_rows = [tied ''e'' 3 5, tied ''b'' 2 2, tied ''a'' 1 1, tied ''c'' 2 3, tied ''d'' 3 4]"

theorem ties_resolved_witness:
  "map (\<lambda>r. (pid r, priority r)) (tie_order (normalize_priority_ties 9 tied_rows)) =
     [(''a'', 1), (''b'', 2), (''c'', 3), (''d'', 4), (''e'', 5)]"
proof -
  have "distinct (map pid tied_rows)" by code_simp
  from ties_resolved [OF this, of 9]
  have n: "map pid (tie_order (normalize_priority_ties 9 tied_rows)) = map pid (tie_order tied_rows)"
    "map priority (tie_order (normalize_priority_ties 9 tied_rows)) = spread_from (map priority (tie_order tied_rows))" by blast+
  have "map pid (tie_order tied_rows) = [''a'', ''b'', ''c'', ''d'', ''e'']"
    "spread_from (map priority (tie_order tied_rows)) = [1, 2, 3, 4, 5]" by code_simp+
  with n have "zip (map pid (tie_order (normalize_priority_ties 9 tied_rows)))
      (map priority (tie_order (normalize_priority_ties 9 tied_rows))) =
    [(''a'', 1), (''b'', 2), (''c'', 3), (''d'', 4), (''e'', 5)]" by simp
  then show ?thesis by (simp add: zip_map_map zip_same_conv_map comp_def)
qed


end
