(* ===== verification/Audit_Chain.thy ===== *)
theory Audit_Chain
  imports Bool_Setting
begin

text \<open>
  The compliance audit trail (\<^verbatim>\<open>app/compliance/audit.py\<close>) and its daily worker
  (\<^verbatim>\<open>app/monitoring/compliance_audit_worker.py\<close>): events, policy changes, the hash chain over closed
  days, the retention purge and the warning about empty days. The hash function, random identifiers
  and the clock are arguments; a day is its number since the epoch. What the chain commits to is
  stated for a hash function that has no collision among the inputs of the two histories compared.
\<close>

section \<open>Rows\<close>

record compliance_event =
  ev_id :: int
  ev_audit_id :: string
  ev_api_key_id :: ident
  ev_event_type :: string
  ev_requested_at :: clock
  ev_requested_model :: "string option"
  ev_served_model :: "string option"
  ev_served_provider_id :: "ident option"
  ev_blocked_company :: "string option"
  ev_reason_code :: string
  ev_client_user_agent :: "string option"
  ev_http_status :: int
  ev_matched_pattern :: "string option"
  ev_client_identity :: "string option"
  ev_policy_active_since :: "clock option"
  ev_created_at :: clock

record compliance_change =
  pc_id :: string
  pc_changed_by :: "ident option"
  pc_scope :: string
  pc_target_id :: "ident option"
  pc_before :: string
  pc_after :: string
  pc_reason :: string
  pc_applied :: string
  pc_pending :: "string option"
  pc_sync_status :: string

record chain_row =
  cr_day :: int
  cr_row_count :: nat
  cr_prior :: "string option"
  cr_hash :: string

record audit_db =
  events :: "compliance_event list"
  changes :: "compliance_change list"
  chain :: "chain_row list"
  last_event_id :: int

definition DAY :: clock where "DAY = 86400"

definition day_of :: "clock \<Rightarrow> int" where
  "day_of t = \<lfloor>t / DAY\<rfloor>"

section \<open>Writing\<close>

text \<open>A row gets the next id of its table, the largest ever used plus one.\<close>

definition add_event :: "compliance_event \<Rightarrow> audit_db \<Rightarrow> audit_db" where
  "add_event e db =
     db \<lparr>events := events db @ [e \<lparr>ev_id := last_event_id db + 1\<rparr>], last_event_id := last_event_id db + 1\<rparr>"

definition emit_event :: "clock \<Rightarrow> compliance_event \<Rightarrow> audit_db \<Rightarrow> audit_db" where
  "emit_event now e db =
     add_event (e \<lparr>ev_requested_at := now, ev_created_at := now,
       ev_client_user_agent := (if truthy (ev_client_user_agent e) then map_option (take 200) (ev_client_user_agent e) else None)\<rparr>) db"

text \<open>An event of a peer is stored once, with the time the peer gave it.\<close>

definition receive_event :: "compliance_event \<Rightarrow> audit_db \<Rightarrow> audit_db" where
  "receive_event e db =
     (if ev_audit_id e = [] \<or> ev_audit_id e \<in> ev_audit_id ` set (events db) then db else add_event e db)"

definition emit_policy_change ::
  "(json \<Rightarrow> string) \<Rightarrow> string \<Rightarrow> string \<Rightarrow> ident option \<Rightarrow> json \<Rightarrow> json \<Rightarrow> string \<Rightarrow> ident option \<Rightarrow> json list \<Rightarrow> json list \<Rightarrow>
   audit_db \<Rightarrow> string \<times> audit_db" where
  "emit_policy_change dumps pcid scope target before after reason user applied pending db =
     (pcid, db \<lparr>changes := changes db @
        [\<lparr>pc_id = pcid, pc_changed_by = user, pc_scope = scope, pc_target_id = target, pc_before = dumps before,
          pc_after = dumps after, pc_reason = reason, pc_applied = dumps (JList applied),
          pc_pending = (if pending = [] then None else Some (dumps (JList pending))),
          pc_sync_status = (if pending = [] then ''fully-acked''
            else ''quorum-reached-'' @ str_int (int (length pending)) @ ''-pending'')\<rparr>]\<rparr>)"

section \<open>The hash chain\<close>

definition event_text :: "compliance_event \<Rightarrow> string" where
  "event_text e =
     str_int (ev_id e) @ ''|'' @ ev_audit_id e @ ''|'' @ ev_api_key_id e @ ''|'' @ ev_event_type e @ ''|'' @
     str_int (ev_http_status e)"

definition day_events :: "compliance_event list \<Rightarrow> int \<Rightarrow> compliance_event list" where
  "day_events evs d = sort_key ev_id (filter (\<lambda>e. day_of (ev_created_at e) = d) evs)"

definition day_content :: "compliance_event list \<Rightarrow> int \<Rightarrow> string" where
  "day_content evs d = concat (map event_text (day_events evs d))"

definition chain_of :: "audit_db \<Rightarrow> int \<Rightarrow> chain_row option" where
  "chain_of db d = find (\<lambda>r. cr_day r = d) (chain db)"

definition compute_daily_integrity_hash :: "(string \<Rightarrow> string) \<Rightarrow> int \<Rightarrow> audit_db \<Rightarrow> string \<times> audit_db" where
  "compute_daily_integrity_hash sha256 d db =
     (case chain_of db d of
        Some r \<Rightarrow> (cr_hash r, db)
      | None \<Rightarrow>
          let prior = (case chain_of db (d - 1) of Some r \<Rightarrow> cr_hash r | None \<Rightarrow> []);
              h = sha256 (prior @ day_content (events db) d)
          in (h, db \<lparr>chain := chain db @
                  [\<lparr>cr_day = d, cr_row_count = length (day_events (events db) d),
                    cr_prior = (if prior = [] then None else Some prior), cr_hash = h\<rparr>]\<rparr>))"

definition purge_expired_events :: "clock \<Rightarrow> int \<Rightarrow> audit_db \<Rightarrow> nat \<times> audit_db" where
  "purge_expired_events now retention_days db =
     (if retention_days \<le> 0 then (0, db)
      else let old = (\<lambda>e. ev_created_at e < now - of_int retention_days * DAY)
           in (length (filter old (events db)), db \<lparr>events := filter (\<lambda>e. \<not> old e) (events db)\<rparr>))"

section \<open>The daily worker\<close>

definition DEFAULT_RETENTION_DAYS :: int where "DEFAULT_RETENTION_DAYS = 2555"
definition ZERO_ROW_WARN_THRESHOLD :: nat where "ZERO_ROW_WARN_THRESHOLD = 3"

text \<open>A warning names the first day of the streak; one per streak and day.\<close>

definition zero_row_warning :: "bool \<Rightarrow> clock \<Rightarrow> chain_row list \<Rightarrow> (clock \<times> int) list \<Rightarrow> (clock \<times> int) list" where
  "zero_row_warning opted_in now rows warned =
     (let recent = take ZERO_ROW_WARN_THRESHOLD (rev (sort_key cr_day rows)) in
      if \<not> opted_in \<or> length recent < ZERO_ROW_WARN_THRESHOLD \<or> list_ex (\<lambda>r. cr_row_count r \<noteq> 0) recent then warned
      else let start = cr_day (last recent)
           in if list_ex (\<lambda>(t, s). now - DAY \<le> t \<and> s = start) warned then warned else warned @ [(now, start)])"

text \<open>Each step is skipped when its transaction fails.\<close>

definition run_one_sweep ::
  "(string \<Rightarrow> string) \<Rightarrow> bool \<Rightarrow> bool \<Rightarrow> int option \<Rightarrow> clock \<Rightarrow> audit_db \<Rightarrow> audit_db" where
  "run_one_sweep sha256 hash_ok purge_ok configured now db =
     (let days = (case configured of Some n \<Rightarrow> if n < 1 then DEFAULT_RETENTION_DAYS else n | None \<Rightarrow> DEFAULT_RETENTION_DAYS);
          db1 = (if hash_ok then snd (compute_daily_integrity_hash sha256 (day_of (now - DAY)) db) else db)
      in if purge_ok then snd (purge_expired_events now days db1) else db1)"

section \<open>What the chain commits to\<close>

text \<open>The hash after \<open>n\<close> consecutive days from day \<open>d\<close>, the first without a predecessor.\<close>

fun chain_at :: "(string \<Rightarrow> string) \<Rightarrow> (int \<Rightarrow> string) \<Rightarrow> int \<Rightarrow> nat \<Rightarrow> string" where
  "chain_at sha256 content d 0 = []"
| "chain_at sha256 content d (Suc n) = sha256 (chain_at sha256 content d n @ content (d + int n))"

definition chain_inputs :: "(string \<Rightarrow> string) \<Rightarrow> (int \<Rightarrow> string) \<Rightarrow> int \<Rightarrow> nat \<Rightarrow> string set" where
  "chain_inputs sha256 content d n = (\<lambda>i. chain_at sha256 content d i @ content (d + int i)) ` {..<n}"

lemma chain_inputs_Suc: "chain_inputs h c d n \<subseteq> chain_inputs h c d (Suc n)"
  by (auto simp: chain_inputs_def)

lemma chain_commits:
  assumes "\<And>x. length (h x) = 64" and "inj_on h (chain_inputs h c d n \<union> chain_inputs h c' d n)"
    and "chain_at h c d n = chain_at h c' d n" and "i < n"
  shows "c (d + int i) = c' (d + int i)"
  using assms(2-4)
proof (induction n)
  case (Suc n)
  have ins: "chain_at h a d n @ a (d + int n) \<in> chain_inputs h a d (Suc n)" for a by (auto simp: chain_inputs_def)
  have "chain_at h c d n @ c (d + int n) = chain_at h c' d n @ c' (d + int n)"
    using inj_onD [OF Suc.prems(1)] Suc.prems(2) ins by simp
  moreover have "length (chain_at h c d n) = length (chain_at h c' d n)" by (cases n) (simp_all add: assms(1))
  ultimately have eq: "chain_at h c d n = chain_at h c' d n" "c (d + int n) = c' (d + int n)" by simp_all
  have "inj_on h (chain_inputs h c d n \<union> chain_inputs h c' d n)"
    by (rule inj_on_subset [OF Suc.prems(1)]) (use chain_inputs_Suc in blast)
  from Suc.IH [OF this eq(1)] eq(2) Suc.prems(3) show ?case by (cases "i = n") auto
qed simp

text \<open>The text of a day can be taken apart again when no identifier contains the separator and a status has
  three digits.\<close>

lemma str_nat_digits: "c \<in> set (str_nat n) \<Longrightarrow> \<exists>k::nat. k < 10 \<and> c = char_of (48 + k)"
proof (induction n rule: str_nat.induct)
  case (1 n)
  then show ?case
    by (subst (asm) (2) str_nat.simps) (auto split: if_splits intro: exI [of _ n] exI [of _ "n mod 10"])
qed

lemma str_nat_length: "n < 10 \<longleftrightarrow> length (str_nat n) = 1" "str_nat n \<noteq> []"
proof -
  show "str_nat n \<noteq> []" for n by (subst str_nat.simps) simp
  then show "n < 10 \<longleftrightarrow> length (str_nat n) = 1" by (subst str_nat.simps) simp
qed

lemma char_of_digit:
  fixes k k' :: nat
  assumes "char_of (48 + k) = (char_of (48 + k') :: char)" and "k < 10" "k' < 10"
  shows "k = k'"
proof -
  have "of_char (char_of (48 + k) :: char) = (of_char (char_of (48 + k') :: char) :: nat)" by (simp only: assms(1))
  with assms(2,3) show ?thesis by simp
qed

lemma str_nat_inj: "str_nat n = str_nat m \<Longrightarrow> n = m"
proof (induction n arbitrary: m rule: str_nat.induct)
  case (1 n)
  have "n < 10 \<longleftrightarrow> m < 10" using 1(2) str_nat_length(1) by metis
  then consider "n < 10" "m < 10" | "\<not> n < 10" "\<not> m < 10" by blast
  then show ?case
  proof cases
    case 1
    then have "char_of (48 + n) = (char_of (48 + m) :: char)"
      using \<open>str_nat n = str_nat m\<close> by (simp add: str_nat.simps [of n] str_nat.simps [of m])
    then show ?thesis using 1 by (rule char_of_digit)
  next
    case 2
    then have eqs: "str_nat (n div 10) = str_nat (m div 10)" "char_of (48 + n mod 10) = (char_of (48 + m mod 10) :: char)"
      using \<open>str_nat n = str_nat m\<close> by (simp_all add: str_nat.simps [of n] str_nat.simps [of m])
    have "n div 10 = m div 10" by (rule 1(1) [OF 2(1) eqs(1)])
    moreover have "n mod 10 = m mod 10" by (rule char_of_digit [OF eqs(2)]) simp_all
    ultimately show ?thesis by (metis div_mult_mod_eq)
  qed
qed


definition event_ok :: "compliance_event \<Rightarrow> bool" where
  "event_ok e \<longleftrightarrow>
     0 \<le> ev_id e \<and> CHR ''|'' \<notin> set (ev_audit_id e) \<and> CHR ''|'' \<notin> set (ev_api_key_id e) \<and>
     CHR ''|'' \<notin> set (ev_event_type e) \<and> 100 \<le> ev_http_status e \<and> ev_http_status e < 1000"

text \<open>The columns that enter the hash.\<close>

definition hashed :: "compliance_event \<Rightarrow> int \<times> string \<times> ident \<times> string \<times> int" where
  "hashed e = (ev_id e, ev_audit_id e, ev_api_key_id e, ev_event_type e, ev_http_status e)"

lemma split_at_sep: "c \<notin> set a \<Longrightarrow> c \<notin> set b \<Longrightarrow> a @ c # x = b @ c # y \<Longrightarrow> a = b \<and> x = y"
  by (induction a arbitrary: b) (case_tac b; auto)+

lemma str_int_no_sep: "0 \<le> n \<Longrightarrow> CHR ''|'' \<notin> set (str_int n)"
proof
  assume "0 \<le> n" "CHR ''|'' \<in> set (str_int n)"
  then obtain k :: nat where "k < 10" "CHR ''|'' = char_of (48 + k)" using str_nat_digits by (auto simp: str_int_def)
  then have "of_char (CHR ''|'') = (of_char (char_of (48 + k) :: char) :: nat)" by simp
  with \<open>k < 10\<close> show False by (simp only: of_char_of) (simp add: of_char_def)
qed

lemma str_int_inj: "0 \<le> n \<Longrightarrow> 0 \<le> m \<Longrightarrow> str_int n = str_int m \<Longrightarrow> n = m"
  using str_nat_inj [of "nat n" "nat m"] by (simp add: str_int_def)

lemma status_length:
  assumes "100 \<le> n" "n < 1000"
  shows "length (str_int n) = 3"
proof -
  have "\<not> nat n < 10" "\<not> nat n div 10 < 10" "nat n div 10 div 10 < 10" using assms by simp_all
  then show ?thesis using assms by (simp add: str_int_def str_nat.simps [of "nat n"] str_nat.simps [of "nat n div 10"] str_nat.simps [of "nat n div 10 div 10"])
qed

lemma event_text_split:
  assumes "event_ok e" "event_ok e'" and "event_text e @ x = event_text e' @ y"
  shows "hashed e = hashed e' \<and> x = y"
proof -
  have ok: "0 \<le> ev_id e" "0 \<le> ev_id e'" "length (str_int (ev_http_status e)) = length (str_int (ev_http_status e'))"
    using assms(1,2) status_length by (simp_all add: event_ok_def)
  note seps = str_int_no_sep [OF ok(1)] str_int_no_sep [OF ok(2)]
  have 1: "str_int (ev_id e) = str_int (ev_id e')"
    "ev_audit_id e @ CHR ''|'' # ev_api_key_id e @ CHR ''|'' # ev_event_type e @ CHR ''|'' # str_int (ev_http_status e) @ x =
     ev_audit_id e' @ CHR ''|'' # ev_api_key_id e' @ CHR ''|'' # ev_event_type e' @ CHR ''|'' # str_int (ev_http_status e') @ y"
    using split_at_sep [OF seps] assms(3) by (simp_all add: event_text_def)
  have 2: "ev_audit_id e = ev_audit_id e'"
    "ev_api_key_id e @ CHR ''|'' # ev_event_type e @ CHR ''|'' # str_int (ev_http_status e) @ x =
     ev_api_key_id e' @ CHR ''|'' # ev_event_type e' @ CHR ''|'' # str_int (ev_http_status e') @ y"
    using split_at_sep [OF _ _ 1(2)] assms(1,2) by (simp_all add: event_ok_def)
  have 3: "ev_api_key_id e = ev_api_key_id e'"
    "ev_event_type e @ CHR ''|'' # str_int (ev_http_status e) @ x = ev_event_type e' @ CHR ''|'' # str_int (ev_http_status e') @ y"
    using split_at_sep [OF _ _ 2(2)] assms(1,2) by (simp_all add: event_ok_def)
  have 4: "ev_event_type e = ev_event_type e'" "str_int (ev_http_status e) @ x = str_int (ev_http_status e') @ y"
    using split_at_sep [OF _ _ 3(2)] assms(1,2) by (simp_all add: event_ok_def)
  have 5: "str_int (ev_http_status e) = str_int (ev_http_status e')" "x = y" using 4(2) ok(3) by simp_all
  show ?thesis
    using str_int_inj [OF ok(1,2) 1(1)] str_int_inj [OF _ _ 5(1)] 2(1) 3(1) 4(1) 5(2) assms(1,2)
    by (simp add: hashed_def event_ok_def)
qed

lemma day_text_inj:
  assumes "\<forall>e \<in> set es. event_ok e" "\<forall>e \<in> set es'. event_ok e"
    and "concat (map event_text es) = concat (map event_text es')"
  shows "map hashed es = map hashed es'"
  using assms
proof (induction es arbitrary: es')
  case Nil
  then show ?case by (cases es') (auto simp: event_text_def)
next
  case (Cons e es)
  then obtain e' es'' where es': "es' = e' # es''" by (cases es') (auto simp: event_text_def)
  have "hashed e = hashed e' \<and> concat (map event_text es) = concat (map event_text es'')"
    using Cons.prems es' by (intro event_text_split) auto
  with Cons.IH [of es''] Cons.prems es' show ?case by simp
qed


section \<open>Closing days\<close>

definition hash_days :: "(string \<Rightarrow> string) \<Rightarrow> int \<Rightarrow> nat \<Rightarrow> audit_db \<Rightarrow> audit_db" where
  "hash_days sha256 d n db = fold (\<lambda>i. snd \<circ> compute_daily_integrity_hash sha256 (d + int i)) [0..<n] db"

lemma chain_of_add:
  "chain_of (db \<lparr>chain := chain db @ [r]\<rparr>) k =
     (case chain_of db k of Some x \<Rightarrow> Some x | None \<Rightarrow> if cr_day r = k then Some r else None)"
proof -
  have "find P (xs @ [r]) = (case find P xs of Some x \<Rightarrow> Some x | None \<Rightarrow> if P r then Some r else None)" for P xs
    by (induction xs) auto
  then show ?thesis by (simp add: chain_of_def)
qed

lemma compute_fresh:
  assumes "chain_of db d = None"
  shows "events (snd (compute_daily_integrity_hash h d db)) = events db"
    and "chain_of (snd (compute_daily_integrity_hash h d db)) k =
      (if k = d then Some \<lparr>cr_day = d, cr_row_count = length (day_events (events db) d),
         cr_prior = (case chain_of db (d - 1) of Some r \<Rightarrow> if cr_hash r = [] then None else Some (cr_hash r) | None \<Rightarrow> None),
         cr_hash = h ((case chain_of db (d - 1) of Some r \<Rightarrow> cr_hash r | None \<Rightarrow> []) @ day_content (events db) d)\<rparr>
       else chain_of db k)"
  using assms
  by (auto simp: compute_daily_integrity_hash_def Let_def chain_of_add split: option.splits)

lemma hash_days_chain:
  assumes "\<forall>i \<le> n. chain_of db (d + int i - 1) = None"
  shows "events (hash_days h d n db) = events db \<and>
    (\<forall>i < n. \<exists>r. chain_of (hash_days h d n db) (d + int i) = Some r \<and>
       cr_hash r = chain_at h (day_content (events db)) d (Suc i)) \<and>
    (\<forall>k. k < d \<or> d + int n \<le> k \<longrightarrow> chain_of (hash_days h d n db) k = chain_of db k)"
  using assms
proof (induction n)
  case 0
  then show ?case by (simp add: hash_days_def)
next
  case (Suc n)
  let ?db = "hash_days h d n db" and ?k = "d + int n"
  have fresh: "chain_of db (d - 1) = None" "chain_of db ?k = None"
    using Suc.prems [rule_format, of 0] Suc.prems [rule_format, of "Suc n"] by simp_all
  have IH: "events ?db = events db" "\<forall>i < n. \<exists>r. chain_of ?db (d + int i) = Some r \<and>
       cr_hash r = chain_at h (day_content (events db)) d (Suc i)"
    "\<forall>k. k < d \<or> ?k \<le> k \<longrightarrow> chain_of ?db k = chain_of db k" using Suc by simp_all
  have none: "chain_of ?db ?k = None" using IH(3) fresh(2) by simp
  have step: "hash_days h d (Suc n) db = snd (compute_daily_integrity_hash h ?k ?db)" by (simp add: hash_days_def)
  have prior: "(case chain_of ?db (?k - 1) of Some r \<Rightarrow> cr_hash r | None \<Rightarrow> []) = chain_at h (day_content (events db)) d n"
  proof (cases n)
    case 0
    with IH(3) fresh(1) show ?thesis by simp
  next
    case (Suc m)
    with IH(2) show ?thesis by (auto simp: algebra_simps)
  qed
  show ?case
    unfolding step compute_fresh [OF none] prior IH(1) using IH
    by (auto simp: less_Suc_eq)
qed


text \<open>A day whose predecessor was never closed starts a new chain: the hashes from that day on are the same
  whatever happened before.\<close>

lemma gap_forgets:
  assumes "\<forall>i \<le> n. chain_of db (d + int i - 1) = None" "\<forall>i \<le> n. chain_of db' (d + int i - 1) = None"
    and "\<forall>i < n. day_content (events db) (d + int i) = day_content (events db') (d + int i)" and "i < n"
  shows "map_option cr_hash (chain_of (hash_days h d n db) (d + int i)) = map_option cr_hash (chain_of (hash_days h d n db') (d + int i))"
proof -
  have "chain_at h (day_content (events db)) d j = chain_at h (day_content (events db')) d j" if "j \<le> n" for j
    using that assms(3) by (induction j) auto
  from this [of "Suc i"] hash_days_chain [OF assms(1), of h] hash_days_chain [OF assms(2), of h] assms(4)
  show ?thesis by fastforce
qed

lemma sort_key_map: "sort_key k (map f xs) = map f (sort_key (k \<circ> f) xs)"
proof -
  have "insort_key k (f x) (map f ys) = map f (insort_key (k \<circ> f) x ys)" for x ys by (induction ys) auto
  then show ?thesis by (induction xs) auto
qed

text \<open>The other columns are not protected: rewriting the models, the provider, the company, the reason,
  the client and the policy time of every event leaves the hash of every day as it is.\<close>

theorem rewritten_columns_unseen:
  "fst (compute_daily_integrity_hash sha256 d (db \<lparr>events := map (\<lambda>e. e \<lparr>ev_requested_at := t, ev_requested_model := m,
       ev_served_model := m', ev_served_provider_id := p, ev_blocked_company := c, ev_reason_code := r,
       ev_client_user_agent := u, ev_matched_pattern := pat, ev_client_identity := i, ev_policy_active_since := s\<rparr>) (events db)\<rparr>)) =
   fst (compute_daily_integrity_hash sha256 d db)"
proof -
  define f where "f = (\<lambda>e::compliance_event. e \<lparr>ev_requested_at := t, ev_requested_model := m,
       ev_served_model := m', ev_served_provider_id := p, ev_blocked_company := c, ev_reason_code := r,
       ev_client_user_agent := u, ev_matched_pattern := pat, ev_client_identity := i, ev_policy_active_since := s\<rparr>)"
  have f: "event_text \<circ> f = event_text" "ev_id \<circ> f = ev_id" "(\<lambda>e. day_of (ev_created_at e) = d) \<circ> f = (\<lambda>e. day_of (ev_created_at e) = d)"
    by (auto simp: f_def event_text_def fun_eq_iff)
  have "day_content (map f (events db)) d = day_content (events db) d"
    by (simp add: day_content_def day_events_def filter_map f sort_key_map)
  then show ?thesis
    unfolding f_def [symmetric] by (simp add: compute_daily_integrity_hash_def chain_of_def Let_def split: option.split)
qed


text \<open>An event of a peer that arrives after its day was closed makes the day unverifiable: the stored
  hash stays, recomputing it from the table gives another one, and closing the day again changes
  nothing.\<close>

theorem late_event_unverifiable:
  fixes sha256 d db e
  assumes "chain_of db d = None" and "day_of (ev_created_at e) = d"
    and "ev_audit_id e \<noteq> []" "ev_audit_id e \<notin> ev_audit_id ` set (events db)"
  defines "db1 \<equiv> snd (compute_daily_integrity_hash sha256 d db)"
  defines "db2 \<equiv> receive_event e db1"
  defines "prior \<equiv> (case chain_of db (d - 1) of Some r \<Rightarrow> cr_hash r | None \<Rightarrow> [])"
  assumes "inj_on sha256 {prior @ day_content (events db) d, prior @ day_content (events db2) d}"
  shows "fst (compute_daily_integrity_hash sha256 d db2) \<noteq> sha256 (prior @ day_content (events db2) d) \<and>
    snd (compute_daily_integrity_hash sha256 d db2) = db2"
proof -
  have ev1: "events db1 = events db" and row: "chain_of db1 d \<noteq> None"
    "cr_hash (the (chain_of db1 d)) = sha256 (prior @ day_content (events db) d)"
    unfolding db1_def compute_fresh [OF assms(1)] prior_def by simp_all
  have db2: "db2 = add_event e db1" using assms(3,4) by (auto simp: db2_def receive_event_def ev1)
  have chain2: "chain_of db2 = chain_of db1" by (rule ext) (simp add: db2 add_event_def chain_of_def)
  have len: "length (concat (map event_text (day_events evs d))) =
      sum_list (map (length \<circ> event_text) (filter (\<lambda>e. day_of (ev_created_at e) = d) evs))" for evs
  proof -
    have "mset (map (length \<circ> event_text) (day_events evs d)) =
        mset (map (length \<circ> event_text) (filter (\<lambda>e. day_of (ev_created_at e) = d) evs))" by (simp add: day_events_def)
    then have "sum_list (map (length \<circ> event_text) (day_events evs d)) =
        sum_list (map (length \<circ> event_text) (filter (\<lambda>e. day_of (ev_created_at e) = d) evs))" by (metis sum_mset_sum_list)
    then show ?thesis by (simp add: length_concat)
  qed
  have "length (day_content (events db) d) < length (day_content (events db2) d)"
    unfolding day_content_def len using assms(2) by (simp add: db2 add_event_def ev1 event_text_def)
  then have "sha256 (prior @ day_content (events db) d) \<noteq> sha256 (prior @ day_content (events db2) d)"
    using inj_onD [OF assms(8), of "prior @ day_content (events db) d" "prior @ day_content (events db2) d"] by auto
  then show ?thesis using row by (auto simp: compute_daily_integrity_hash_def chain2)
qed

section \<open>A concrete trail\<close>

definition demo_event :: compliance_event where
  "demo_event =
     \<lparr>ev_id = 1, ev_audit_id = ''comp_1'', ev_api_key_id = ''k'', ev_event_type = ''cache_filtered'', ev_requested_at = 10,
      ev_requested_model = Some ''m'', ev_served_model = None, ev_served_provider_id = None, ev_blocked_company = None,
      ev_reason_code = ''policy'', ev_client_user_agent = None, ev_http_status = 200, ev_matched_pattern = None,
      ev_client_identity = None, ev_policy_active_since = None, ev_created_at = 10\<rparr>"

definition demo_trail :: audit_db where
  "demo_trail = \<lparr>events = [demo_event], changes = [], chain = [], last_event_id = 1\<rparr>"

text \<open>A function without collisions on the short inputs of the example.\<close>

definition demo_sha :: "string \<Rightarrow> string" where
  "demo_sha s = take 64 (s @ replicate 64 CHR ''.'')"


theorem late_event_unverifiable_witness:
  "fst (compute_daily_integrity_hash demo_sha 0
       (receive_event (demo_event \<lparr>ev_audit_id := ''comp_2''\<rparr>) (snd (compute_daily_integrity_hash demo_sha 0 demo_trail)))) \<noteq>
     demo_sha (day_content (events (receive_event (demo_event \<lparr>ev_audit_id := ''comp_2''\<rparr>)
       (snd (compute_daily_integrity_hash demo_sha 0 demo_trail)))) 0)"
proof -
  let ?e = "demo_event \<lparr>ev_audit_id := ''comp_2''\<rparr>"
  let ?db2 = "receive_event ?e (snd (compute_daily_integrity_hash demo_sha 0 demo_trail))"
  have none: "chain_of demo_trail 0 = None" "chain_of demo_trail (0 - 1) = None" by (simp_all add: chain_of_def demo_trail_def)
  have day: "day_of (ev_created_at ?e) = 0" "ev_audit_id ?e \<noteq> []" "ev_audit_id ?e \<notin> ev_audit_id ` set (events demo_trail)"
    by code_simp+
  have "demo_sha (day_content (events demo_trail) 0) \<noteq> demo_sha (day_content (events ?db2) 0)" by code_simp
  then have "inj_on demo_sha {[] @ day_content (events demo_trail) 0, [] @ day_content (events ?db2) 0}" by (auto simp: inj_on_def)
  with late_event_unverifiable [OF none(1) day, of demo_sha] none(2) show ?thesis by simp
qed


end
