(* ===== verification/Json_Access.thy ===== *)
theory Json_Access
  imports Compliance Lmrh_Types
begin

text \<open>
  How the translators read decoded JSON: \<open>d.get(k)\<close> is \<open>json_get\<close>, \<open>d.get(k, x)\<close> is
  \<open>json_field\<close>, \<open>a or b\<close> is \<open>json_or\<close>. Python's exceptions on values of an unexpected type are
  values of \<open>shape_error\<close>; \<open>as_dict\<close>, \<open>as_strings\<close> and \<open>hashable\<close> stand for the operations that raise them.
\<close>

datatype shape_error = Attribute_error | Type_error | Value_error

type_synonym jdict = "(string \<times> json) list"

definition json_field :: "jdict \<Rightarrow> string \<Rightarrow> json \<Rightarrow> json" where
  "json_field obj k d = (case map_of obj k of None \<Rightarrow> d | Some v \<Rightarrow> v)"

definition json_or :: "json \<Rightarrow> json \<Rightarrow> json" where
  "json_or a b = (if json_truthy a then a else b)"

text \<open>Calling \<open>.get\<close> on a value that is no dictionary.\<close>

definition as_dict :: "json \<Rightarrow> shape_error + jdict" where
  "as_dict j = (case j of JObj d \<Rightarrow> Inr d | _ \<Rightarrow> Inl Attribute_error)"

text \<open>\<open>for x in (j or [])\<close>: a string yields its characters, a dictionary its keys.\<close>

definition json_items :: "json \<Rightarrow> shape_error + json list" where
  "json_items j =
     (if \<not> json_truthy j then Inr []
      else case j of JList xs \<Rightarrow> Inr xs | JStr s \<Rightarrow> Inr (map (\<lambda>c. JStr [c]) s) | JObj d \<Rightarrow> Inr (map (JStr \<circ> fst) d)
           | _ \<Rightarrow> Inl Type_error)"

text \<open>\<open>int(j or 0)\<close>: a number is truncated towards zero, a string parsed.\<close>

definition json_int :: "json \<Rightarrow> shape_error + int" where
  "json_int j =
     (if \<not> json_truthy j then Inr 0
      else case j of
             JNum q \<Rightarrow> Inr (if 0 \<le> q then \<lfloor>q\<rfloor> else \<lceil>q\<rceil>)
           | JBool b \<Rightarrow> Inr 1
           | JStr s \<Rightarrow> (case py_int s of Inr n \<Rightarrow> Inr n | Inl _ \<Rightarrow> Inl Value_error)
           | _ \<Rightarrow> Inl Type_error)"

text \<open>The items of a list that are dictionaries.\<close>

definition dict_items :: "json list \<Rightarrow> jdict list" where
  "dict_items js = concat (map (\<lambda>j. case j of JObj d \<Rightarrow> [d] | _ \<Rightarrow> []) js)"

text \<open>Joining values needs strings.\<close>

definition json_string :: "json \<Rightarrow> shape_error + string" where
  "json_string j = (case j of JStr s \<Rightarrow> Inr s | _ \<Rightarrow> Inl Type_error)"

fun map_m :: "('a \<Rightarrow> 'e + 'b) \<Rightarrow> 'a list \<Rightarrow> 'e + 'b list" where
  "map_m f [] = Inr []"
| "map_m f (x # xs) = bind_result (f x) (\<lambda>y. map_result ((#) y) (map_m f xs))"

definition as_strings :: "json list \<Rightarrow> shape_error + string list" where
  "as_strings = map_m json_string"

text \<open>Set members and dictionary keys: lists and dictionaries have no hash, a boolean is a number.\<close>

definition hashable :: "json \<Rightarrow> shape_error + json" where
  "hashable j =
     (case j of JList _ \<Rightarrow> Inl Type_error | JObj _ \<Rightarrow> Inl Type_error
      | JBool b \<Rightarrow> Inr (JNum (if b then 1 else 0)) | _ \<Rightarrow> Inr j)"

text \<open>\<open>d[k] = v\<close>: an existing key keeps its place.\<close>

fun json_set :: "string \<Rightarrow> json \<Rightarrow> jdict \<Rightarrow> jdict" where
  "json_set k v [] = [(k, v)]"
| "json_set k v ((k', v') # d) = (if k' = k then (k, v) # d else (k', v') # json_set k v d)"

text \<open>Copying a key that is present.\<close>

definition copy_key :: "string \<Rightarrow> string \<Rightarrow> jdict \<Rightarrow> jdict" where
  "copy_key k k' d = (case map_of d k of None \<Rightarrow> [] | Some v \<Rightarrow> [(k', v)])"

section \<open>Laws\<close>

lemma json_get_Cons [simp]: "json_get ((k', v) # d) k = (if k = k' then v else json_get d k)"
  by (simp add: json_get_def)

lemma json_get_Nil [simp]: "json_get [] k = JNull"
  by (simp add: json_get_def)

lemma json_field_Cons [simp]: "json_field ((k', v) # d) k x = (if k = k' then v else json_field d k x)"
  by (simp add: json_field_def)

lemma json_field_Nil [simp]: "json_field [] k x = x"
  by (simp add: json_field_def)

lemma json_or_simps [simp]: "json_truthy a \<Longrightarrow> json_or a b = a" "\<not> json_truthy a \<Longrightarrow> json_or a b = b"
  by (simp_all add: json_or_def)

lemma as_dict_simps [simp]: "as_dict (JObj d) = Inr d" "as_dict (JStr s) = Inl Attribute_error" "as_dict JNull = Inl Attribute_error"
  by (simp_all add: as_dict_def)

lemma json_items_simps [simp]: "json_items (JList xs) = Inr xs" "json_items JNull = Inr []"
  by (simp_all add: json_items_def)

lemma json_string_simps [simp]: "json_string (JStr s) = Inr s"
  by (simp add: json_string_def)

lemma json_string_Inr [result_iff]: "json_string j = Inr s \<longleftrightarrow> j = JStr s"
  by (cases j) (simp_all add: json_string_def)

lemma dict_items_simps [simp]: "dict_items [] = []" "dict_items (JObj d # js) = d # dict_items js"
  "dict_items (js @ ks) = dict_items js @ dict_items ks"
  by (simp_all add: dict_items_def)

lemma map_m_Inr_iff: "map_m f xs = Inr ys \<longleftrightarrow> list_all2 (\<lambda>x y. f x = Inr y) xs ys"
proof (induction xs arbitrary: ys)
  case (Cons x xs)
  then show ?case by (cases ys) (auto simp: result_iff)
qed auto

lemma map_m_member: "map_m f xs = Inr ys \<Longrightarrow> y \<in> set ys \<Longrightarrow> \<exists>x \<in> set xs. f x = Inr y"
  by (fastforce simp: map_m_Inr_iff list_all2_conv_all_nth in_set_conv_nth)

lemma map_m_total: "(\<And>x. x \<in> set xs \<Longrightarrow> f x = Inr (g x)) \<Longrightarrow> map_m f xs = Inr (map g xs)"
  by (induction xs) auto

lemma as_strings_map [simp]: "as_strings (map JStr ss) = Inr ss"
  by (simp add: as_strings_def map_m_Inr_iff list_all2_conv_all_nth)

lemma as_strings_Inr [result_iff]: "as_strings js = Inr ss \<longleftrightarrow> js = map JStr ss"
  by (auto simp: as_strings_def map_m_Inr_iff result_iff list_all2_conv_all_nth intro: nth_equalityI)

lemma hashable_simps [simp]: "hashable (JStr s) = Inr (JStr s)"
  by (simp add: hashable_def)

end
