(* ===== verification/Run_Calls.thy ===== *)
theory Run_Calls
  imports Run_Worker Fallback Rate_Limits Json_Access
begin

text \<open>
  The model call of a run (\<open>_call_model_once\<close> of \<^verbatim>\<open>app/runs/worker.py\<close>) with the adaptation of its tools
  (\<^verbatim>\<open>app/runs/tools.py\<close>) and the reading of the response. The upstream call under its timeout is a
  parameter, as are the text of the emulation prompt, the JSON decoder and the clock reading of each
  attempt; the payloads of the events are left out.
\<close>

section \<open>Deadlines and tools\<close>

definition per_call_deadline_sec :: "int option \<Rightarrow> clock \<Rightarrow> clock \<Rightarrow> rat" where
  "per_call_deadline_sec provider_timeout run_deadline now =
     (let base = (case provider_timeout of Some t \<Rightarrow> if 0 < t then of_int t else 60 | None \<Rightarrow> 60)
      in min base (max 1 (run_deadline - now)))"

fun to_openai_tools :: "json list \<Rightarrow> json list" where
  "to_openai_tools [] = []"
| "to_openai_tools (JObj obj # ts) =
     JObj [(''type'', JStr ''function''),
           (''function'', JObj [(''name'', json_field obj ''name'' (JStr [])),
              (''description'', json_field obj ''description'' (JStr [])),
              (''parameters'', json_field obj ''input_schema'' (JObj [(''type'', JStr ''object'')]))])] # to_openai_tools ts"
| "to_openai_tools (_ # ts) = to_openai_tools ts"

definition adapt_tools_for_route :: "(json list \<Rightarrow> string) \<Rightarrow> json list \<Rightarrow> string \<Rightarrow> bool \<Rightarrow> json list option \<times> string option" where
  "adapt_tools_for_route prompt tools model native =
     (if tools = [] then (None, None)
      else if \<not> native then (None, Some (prompt tools))
      else if prefix ''anthropic/'' model \<or> prefix ''claude-'' model then (Some tools, None)
      else (Some (to_openai_tools tools), None))"

section \<open>One model call\<close>

text \<open>What the upstream call is given.\<close>

record model_request =
  mr_route :: route_result
  mr_messages :: "(json \<times> json) list"
  mr_tools :: "json list option"
  mr_api_base :: "string option"
  mr_timeout :: rat

datatype 'resp call_outcome = Answer 'resp | Timed_out | Failed string string

datatype call_error =
    Exhausted string
  | No_candidate route_error
  | Billing string
  | Selection_failed route_error
  | No_route

definition run_request :: "json list \<Rightarrow> ident option \<Rightarrow> request" where
  "run_request tools_spec seed =
     new_request \<lparr>has_tools := (tools_spec \<noteq> []), exclude_provider_id := seed, excluded_provider_types := [''claude-oauth'']\<rparr>"

definition build_call ::
  "(json list \<Rightarrow> string) \<Rightarrow> json list \<Rightarrow> clock \<Rightarrow> clock \<Rightarrow> (json \<times> json) list \<Rightarrow> route_result \<Rightarrow> model_request" where
  "build_call prompt tools_spec run_deadline now messages r =
     (let (tools, emulation) = adapt_tools_for_route prompt tools_spec (litellm_model r) (native_tools (rt_profile r));
          base = base_url (rt_provider r)
      in \<lparr>mr_route = r,
          mr_messages = (case emulation of
             Some s \<Rightarrow> if s = [] then messages else (JStr ''system'', JStr s) # messages | None \<Rightarrow> messages),
          mr_tools = tools, mr_api_base = (if truthy base then base else None),
          mr_timeout = per_call_deadline_sec (Some (timeout_sec (rt_provider r))) run_deadline now\<rparr>)"

type_synonym ('resp, 'w) upstream = "model_request \<Rightarrow> router_env \<times> 'w \<Rightarrow> 'resp call_outcome \<times> router_env \<times> 'w"

text \<open>The result carries the events in order and the ids of the providers called.\<close>

record call_log =
  cl_events :: "string list"
  cl_called :: "ident list"

fun call_attempts ::
  "('resp, 'w) upstream \<Rightarrow> (json list \<Rightarrow> string) \<Rightarrow> json list \<Rightarrow> clock \<Rightarrow> (json \<times> json) list \<Rightarrow> clock list \<Rightarrow>
   ident list \<Rightarrow> ident option \<Rightarrow> bool \<Rightarrow> call_log \<Rightarrow> router_env \<times> 'w \<Rightarrow>
   (call_error + 'resp \<times> route_result) \<times> call_log \<times> router_env \<times> 'w" where
  "call_attempts call prompt tools_spec run_deadline messages [] excluded seed failed l world =
     (Inl (Exhausted (if failed then ''all providers timed out or failed'' else ''no provider could be selected'')), l, world)"
| "call_attempts call prompt tools_spec run_deadline messages (now # clocks) excluded seed failed l (env, w) =
     (case select_provider env (run_request tools_spec seed) of
        (Inl e, env') \<Rightarrow> (Inl (if is_runtime_error e then No_candidate e else Selection_failed e), l, (env', w))
      | (Inr (Quotes _), env') \<Rightarrow> (Inl No_route, l, (env', w))
      | (Inr (Route r), env') \<Rightarrow>
          let i = pid (rt_provider r) in
          if i \<in> set excluded
          then call_attempts call prompt tools_spec run_deadline messages clocks excluded (Some i) failed l (env', w)
          else
            let l = \<lparr>cl_events = cl_events l @ [''model_call_start''], cl_called = cl_called l @ [i]\<rparr>;
                ended = l \<lparr>cl_events := cl_events l @ [''model_call_end'']\<rparr>;
                again = l \<lparr>cl_events := cl_events l @ [''model_call_end'', ''provider_failed'']\<rparr>
            in case call (build_call prompt tools_spec run_deadline now messages r) (env', w) of
                 (Answer x, world') \<Rightarrow> (Inr (x, r), ended, world')
               | (Timed_out, world') \<Rightarrow>
                   call_attempts call prompt tools_spec run_deadline messages clocks (excluded @ [i]) (Some i) True again world'
               | (Failed ty e, world') \<Rightarrow>
                   if is_billing_error e then (Inl (Billing e), ended, world')
                   else call_attempts call prompt tools_spec run_deadline messages clocks (excluded @ [i]) (Some i) True again world')"

definition MAX_ATTEMPTS :: nat where "MAX_ATTEMPTS = 8"

text \<open>The seed is the first of the providers excluded so far; the clock is read once per attempt.\<close>

definition call_model_once ::
  "('resp, 'w) upstream \<Rightarrow> (json list \<Rightarrow> string) \<Rightarrow> json list \<Rightarrow> clock \<Rightarrow> (json \<times> json) list \<Rightarrow> (nat \<Rightarrow> clock) \<Rightarrow>
   ident list \<Rightarrow> router_env \<times> 'w \<Rightarrow> (call_error + 'resp \<times> route_result) \<times> call_log \<times> router_env \<times> 'w" where
  "call_model_once call prompt tools_spec run_deadline messages clock_at excluded world =
     call_attempts call prompt tools_spec run_deadline messages (map clock_at [0..<MAX_ATTEMPTS]) excluded
       (case excluded of [] \<Rightarrow> None | i # _ \<Rightarrow> Some i) False \<lparr>cl_events = [], cl_called = []\<rparr> world"

section \<open>Reading the response\<close>

record tool_call =
  tc_id :: "string option"
  tc_function :: "(string option \<times> string option) option"

record response_message =
  rm_content :: "string option"
  rm_tool_calls :: "tool_call list"

definition extract_assistant_content ::
  "json_lib \<Rightarrow> string \<Rightarrow> response_message option \<Rightarrow> block list" where
  "extract_assistant_content lib fresh_id resp =
     (case resp of
        None \<Rightarrow> [Text_block []]
      | Some m \<Rightarrow>
          let text = (if truthy (rm_content m) then [Text_block (the (rm_content m))] else []);
              calls = concat (map (\<lambda>tc.
                case tc_function tc of
                  None \<Rightarrow> []
                | Some (name, args) \<Rightarrow>
                    [Tool_use (or_else (tc_id tc) fresh_id) (or_else name [])
                       (value_or (JObj []) (loads lib (or_else args ''{}'')))]) (rm_tool_calls m))
          in if text @ calls = [] then [Text_block []] else text @ calls)"

text \<open>How the worker takes the result of the call; an exception is described by its class and its text.\<close>

definition outcome_of ::
  "(route_error \<Rightarrow> string \<times> string) \<Rightarrow> json_lib \<Rightarrow> string \<Rightarrow> call_error + response_message option \<times> route_result \<Rightarrow> model_outcome" where
  "outcome_of describe lib fresh_id res =
     (case res of
        Inl (Exhausted e) \<Rightarrow> Provider_exhausted e
      | Inl (No_candidate e) \<Rightarrow> Provider_exhausted (snd (describe e))
      | Inl (Billing e) \<Rightarrow> Billing_hard_stop e
      | Inl (Selection_failed e) \<Rightarrow> Crashed (fst (describe e)) (snd (describe e))
      | Inl No_route \<Rightarrow> Crashed ''AttributeError'' []
      | Inr (x, r) \<Rightarrow> Reply (extract_assistant_content lib fresh_id x))"

section \<open>Bounds of a model call\<close>

text \<open>A call may outlive the run's deadline by at most a second.\<close>

lemma per_call_deadline_bounds:
  assumes "\<And>t. provider_timeout = Some t \<Longrightarrow> 0 < t \<Longrightarrow> 1 \<le> t"
  shows "1 \<le> per_call_deadline_sec provider_timeout run_deadline now \<and>
    now + per_call_deadline_sec provider_timeout run_deadline now \<le> max run_deadline (now + 1) \<and>
    (\<forall>t. provider_timeout = Some t \<and> 0 < t \<longrightarrow> per_call_deadline_sec provider_timeout run_deadline now \<le> of_int t)"
  by (auto simp: per_call_deadline_sec_def min_def max_def Let_def split: option.splits)

definition log_ok :: "ident set \<Rightarrow> call_log \<Rightarrow> bool" where
  "log_ok before l \<longleftrightarrow>
     distinct (cl_called l) \<and> set (cl_called l) \<inter> before = {} \<and>
     count_list (cl_events l) ''model_call_start'' = length (cl_called l) \<and>
     count_list (cl_events l) ''model_call_end'' = length (cl_called l)"

lemma call_attempts_ok:
  assumes "call_attempts call prompt ts dl ms clocks excluded seed failed l world = (res, l', world')"
    and "log_ok before l" "set (cl_called l) \<subseteq> set excluded" "before \<subseteq> set excluded"
  shows "log_ok before l' \<and> length (cl_called l') \<le> length (cl_called l) + length clocks \<and>
    (\<forall>x r. res = Inr (x, r) \<longrightarrow> cl_called l' \<noteq> [] \<and> last (cl_called l') = pid (rt_provider r))"
  using assms
proof (induction call prompt ts dl ms clocks excluded seed failed l world rule: call_attempts.induct)
  case (2 call prompt ts dl ms now clocks excluded seed failed l env w)
  obtain sel env' where s: "select_provider env (run_request ts seed) = (sel, env')" by fastforce
  show ?case
  proof (cases "\<exists>r. sel = Inr (Route r)")
    case False
    with 2(4-) s show ?thesis by (auto split: sum.splits selection.splits)
  next
    case True
    then obtain r where r: "sel = Inr (Route r)" by blast
    let ?i = "pid (rt_provider r)"
    show ?thesis
    proof (cases "?i \<in> set excluded")
      case True
      with 2(1) [OF s [symmetric] r refl refl True] 2(4-) s r show ?thesis by auto
    next
      case False
      let ?l = "\<lparr>cl_events = cl_events l @ [''model_call_start''], cl_called = cl_called l @ [?i]\<rparr>"
      let ?again = "?l \<lparr>cl_events := cl_events ?l @ [''model_call_end'', ''provider_failed'']\<rparr>"
      obtain out world1 where c: "call (build_call prompt ts dl now ms r) (env', w) = (out, world1)"
        by (cases "call (build_call prompt ts dl now ms r) (env', w)") blast
      have fresh: "?i \<notin> set (cl_called l)" "?i \<notin> before" using False 2(6,7) by auto
      have ok: "log_ok before ?again" "log_ok before (?l \<lparr>cl_events := cl_events ?l @ [''model_call_end'']\<rparr>)"
        using 2(5) fresh by (auto simp: log_ok_def)
      show ?thesis
      proof (cases out)
        case (Answer x)
        with 2(4) s r c False ok show ?thesis by (auto simp: Let_def)
      next
        case Timed_out
        with 2(2) [OF s [symmetric] r refl refl False refl refl refl c [symmetric]] 2(4-) s r c False ok
        show ?thesis by (auto simp: Let_def)
      next
        case (Failed ty e)
        with 2(3) [OF s [symmetric] r refl refl False refl refl refl c [symmetric]] 2(4-) s r c False ok
        show ?thesis by (auto simp: Let_def split: if_splits)
      qed
    qed
  qed
qed auto


text \<open>C29. A model call of a run is bounded: at most eight providers are called, none twice and none of those
  excluded before; each call that starts has its end reported, and the answer comes from the last
  provider called.\<close>

theorem model_calls_bounded:
  assumes "call_model_once call prompt ts dl ms clock_at excluded (env, w) = (res, l, world')"
  shows "distinct (cl_called l) \<and> set (cl_called l) \<inter> set excluded = {} \<and> length (cl_called l) \<le> 8 \<and>
    count_list (cl_events l) ''model_call_start'' = length (cl_called l) \<and>
    count_list (cl_events l) ''model_call_end'' = length (cl_called l) \<and>
    (\<forall>x r. res = Inr (x, r) \<longrightarrow> cl_called l \<noteq> [] \<and> last (cl_called l) = pid (rt_provider r))"
proof -
  have "log_ok (set excluded) \<lparr>cl_events = [], cl_called = []\<rparr>" by (simp add: log_ok_def)
  from call_attempts_ok [OF assms [unfolded call_model_once_def] this]
  show ?thesis by (simp add: log_ok_def MAX_ATTEMPTS_def)
qed

section \<open>The third provider\<close>

text \<open>The providers the router answers with when it is asked again and again, each time excluding one.\<close>

fun route_trace :: "json list \<Rightarrow> router_env \<Rightarrow> ident option list \<Rightarrow> ident option list" where
  "route_trace ts env [] = []"
| "route_trace ts env (s # ss) =
     (let (sel, env') = select_provider env (run_request ts s)
      in (case sel of Inr (Route r) \<Rightarrow> Some (pid (rt_provider r)) | _ \<Rightarrow> None) # route_trace ts env' ss)"

definition alternate :: "ident \<Rightarrow> ident \<Rightarrow> nat \<Rightarrow> ident" where
  "alternate a b k = (if even k then a else b)"

definition attempt_seed :: "ident \<Rightarrow> ident \<Rightarrow> nat \<Rightarrow> ident option" where
  "attempt_seed a b k = (if k = 0 then None else Some (alternate a b (k - 1)))"

lemma route_trace_Cons:
  assumes "route_trace ts env (s # ss) = Some i # is"
  obtains r env' where "select_provider env (run_request ts s) = (Inr (Route r), env')" "pid (rt_provider r) = i"
    "route_trace ts env' ss = is"
  using assms
  by (cases "select_provider env (run_request ts s)") (auto simp: Let_def split: sum.splits selection.splits)

lemma back_and_forth:
  assumes "route_trace ts env (map (attempt_seed a b) [k..<k + length clocks]) = map (Some \<circ> alternate a b) [k..<k + length clocks]"
    and "0 < k"
  shows "\<exists>env'. call_attempts call prompt ts dl ms clocks [a, b] (attempt_seed a b k) True l (env, w) =
    (Inl (Exhausted ''all providers timed out or failed''), l, env', w)"
  using assms
proof (induction clocks arbitrary: k env)
  case (Cons c clocks)
  have upt: "[k..<k + length (c # clocks)] = k # [Suc k..<Suc k + length clocks]" by (simp add: upt_rec)
  have "route_trace ts env (attempt_seed a b k # map (attempt_seed a b) [Suc k..<Suc k + length clocks]) =
      Some (alternate a b k) # map (Some \<circ> alternate a b) [Suc k..<Suc k + length clocks]"
    using Cons.prems(1) unfolding upt list.map o_apply [of Some "alternate a b" k] .
  then obtain r env' where r: "select_provider env (run_request ts (attempt_seed a b k)) = (Inr (Route r), env')"
    "pid (rt_provider r) = alternate a b k"
    "route_trace ts env' (map (attempt_seed a b) [Suc k..<Suc k + length clocks]) = map (Some \<circ> alternate a b) [Suc k..<Suc k + length clocks]"
    by (rule route_trace_Cons)
  have "Some (pid (rt_provider r)) = attempt_seed a b (Suc k)" "pid (rt_provider r) \<in> set [a, b]"
    by (simp_all add: attempt_seed_def r(2) alternate_def)
  with Cons.IH [OF r(3)] r(1) show ?case by (simp add: Let_def)
qed simp

text \<open>Two failing providers hide every other one: each attempt excludes only the provider tried last, so
  when the router answers with the two in turn, the remaining attempts go back and forth between them
  and the call fails without a third provider having been asked.\<close>

theorem two_failures_hide_the_rest:
  fixes call :: "('resp, 'w) upstream"
  assumes "route_trace ts env (map (attempt_seed a b) [0..<8]) = map (Some \<circ> alternate a b) [0..<8]" and "a \<noteq> b"
    and "\<And>q env'. pid (rt_provider (mr_route q)) \<in> {a, b} \<Longrightarrow> call q (env', w) = (Timed_out, env', w)"
  shows "fst (call_model_once call prompt ts dl ms clock_at [] (env, w)) = Inl (Exhausted ''all providers timed out or failed'') \<and>
    cl_called (fst (snd (call_model_once call prompt ts dl ms clock_at [] (env, w)))) = [a, b]"
proof -
  have fails: "call (build_call prompt ts dl now ms r) (env', w) = (Timed_out, env', w)" if "pid (rt_provider r) \<in> {a, b}" for now r env'
    using assms(3) [of "build_call prompt ts dl now ms r"] that by (simp add: build_call_def split_beta Let_def)
  let ?l = "\<lparr>cl_events = [''model_call_start'', ''model_call_end'', ''provider_failed'', ''model_call_start'', ''model_call_end'', ''provider_failed''],
      cl_called = [a, b]\<rparr>"
  define cs where "cs = map clock_at [2..<8]"
  have upt: "[0..<8] = 0 # 1 # [2..<2 + length cs]" "map clock_at [0..<8] = clock_at 0 # clock_at 1 # cs"
    by (simp_all add: cs_def upt_rec numeral_eq_Suc)
  have seeds: "attempt_seed a b 0 = None" "attempt_seed a b 1 = Some a" "attempt_seed a b 2 = Some b" "alternate a b 0 = a" "alternate a b 1 = b"
    by (simp_all add: attempt_seed_def alternate_def)
  let ?seeds = "map (attempt_seed a b) [2..<2 + length cs]" and ?answers = "map (Some \<circ> alternate a b) [2..<2 + length cs]"
  have "route_trace ts env (None # Some a # ?seeds) = Some a # Some b # ?answers"
    using assms(1) unfolding upt(1) list.map seeds comp_apply .
  then obtain r0 env0 where r0: "select_provider env (run_request ts None) = (Inr (Route r0), env0)" "pid (rt_provider r0) = a"
    and "route_trace ts env0 (Some a # ?seeds) = Some b # ?answers" by (rule route_trace_Cons)
  from this(3) obtain r1 env1 where r1: "select_provider env0 (run_request ts (Some a)) = (Inr (Route r1), env1)" "pid (rt_provider r1) = b"
    and rest: "route_trace ts env1 ?seeds = ?answers" by (rule route_trace_Cons)
  obtain env2 where "call_attempts call prompt ts dl ms cs [a, b] (Some b) True ?l (env1, w) =
      (Inl (Exhausted ''all providers timed out or failed''), ?l, env2, w)"
    using back_and_forth [OF rest, of call prompt dl ms ?l w] unfolding seeds by auto
  then show ?thesis
    using r0 r1 assms(2) by (simp add: call_model_once_def MAX_ATTEMPTS_def upt(2) fails Let_def del: upt_rec_numeral upt_conv_Cons)
qed

section \<open>Policies\<close>

lemma policy_frame:
  fixes env kp sp
  defines "env' \<equiv> env \<lparr>key_policies := kp, sys_policy := sp\<rparr>"
  shows "enabled_providers env' = enabled_providers env" "env_utilization env' = env_utilization env"
    "initial_candidates env' = initial_candidates env" "tenant_stage env' = tenant_stage env"
    "capability_stage env' = capability_stage env" "load_profile env' = load_profile env"
    "pick env' = pick env" "cheapest_route env' = cheapest_route env" "finish_route env' = finish_route env"
    "env_settings env' = env_settings env" "env_now env' = env_now env" "env_breaker env' = env_breaker env"
proof -
  have local: "enabled_providers env' = enabled_providers env" "env_utilization env' = env_utilization env"
    "node_may_route env' = node_may_route env" "tenant_ok env' = tenant_ok env" "spent_today env' = spent_today env"
    "needs_reasoning env' = needs_reasoning env"
    by (auto simp: env'_def fun_eq_iff enabled_providers_def env_utilization_def node_may_route_def tenant_ok_def effective_key_def
        spent_today_def needs_reasoning_def)
  have over: "over_budget env' = over_budget env" unfolding fun_eq_iff over_budget_def local by simp
  have stored: "stored_profile env' = stored_profile env" unfolding fun_eq_iff stored_profile_def by (simp add: env'_def)
  have fields: "env_settings env' = env_settings env" "env_now env' = env_now env" "env_breaker env' = env_breaker env"
    "capabilities env' = capabilities env" "metrics env' = metrics env" "latency_samples env' = latency_samples env"
    "max_output_for env' = max_output_for env" "set_order env' = set_order env" "sample2 env' = sample2 env" by (simp_all add: env'_def)
  show "initial_candidates env' = initial_candidates env"
    unfolding initial_candidates_def routable_now_def local fields ..
  show "tenant_stage env' = tenant_stage env" unfolding fun_eq_iff tenant_stage_def local by simp
  show "capability_stage env' = capability_stage env" unfolding fun_eq_iff capability_stage_def fields by simp
  have base: "base_profile env' = base_profile env" unfolding fun_eq_iff base_profile_def fields over stored by simp
  show "load_profile env' = load_profile env" unfolding fun_eq_iff load_profile_def base over fields by simp
  have "pick_default env' = pick_default env" unfolding fun_eq_iff pick_default_def fields by simp
  then show "pick env' = pick env" unfolding fun_eq_iff pick_def local fields by simp
  show "cheapest_route env' = cheapest_route env" unfolding fun_eq_iff cheapest_route_def local fields by simp
  show "finish_route env' = finish_route env" unfolding fun_eq_iff finish_route_def local fields by simp
qed (simp_all add: env'_def enabled_providers_def env_utilization_def)

lemma select_from_frame: "select_from (env \<lparr>key_policies := kp, sys_policy := sp\<rparr>) = select_from env"
proof -
  have choose: "choose_route (env \<lparr>key_policies := kp, sys_policy := sp\<rparr>) = choose_route env"
    unfolding fun_eq_iff choose_route_def policy_frame by simp
  show ?thesis unfolding fun_eq_iff select_from_def policy_frame choose by simp
qed

text \<open>C38. Runs are routed outside the compliance policy: the worker passes no key and no blocklist, so
  whatever policy is in force, the provider selected for a run is the same.\<close>

theorem run_ignores_policy:
  "fst (select_provider (env \<lparr>key_policies := kp, sys_policy := sp\<rparr>) (run_request ts seed)) =
   fst (select_provider env (run_request ts seed))"
proof -
  have gate: "compliance_stage (env \<lparr>key_policies := kp, sys_policy := sp\<rparr>) (run_request ts seed) = compliance_stage env (run_request ts seed)"
    by (simp add: fun_eq_iff compliance_stage_def run_request_def new_request_def)
  have "candidate_pipeline (env \<lparr>key_policies := kp, sys_policy := sp\<rparr>) (run_request ts seed) = candidate_pipeline env (run_request ts seed)"
    unfolding candidate_pipeline_def policy_frame gate by simp
  then show ?thesis unfolding select_provider_def policy_frame select_from_frame by (simp add: split_beta)
qed


section \<open>A concrete run\<close>

definition three_providers :: router_env where
  "three_providers = demo_env
     \<lparr>providers := [new_provider ''a'' ''A'' ''openai'' (Some ''gpt-4o'') 1, new_provider ''b'' ''B'' ''openai'' (Some ''gpt-4o'') 20,
        new_provider ''c'' ''C'' ''openai'' (Some ''gpt-4o'') 40]\<rparr>"

text \<open>Providers \<open>a\<close> and \<open>b\<close> time out, \<open>c\<close> answers.\<close>

definition only_c :: "(nat, unit) upstream" where
  "only_c q world = (if pid (rt_provider (mr_route q)) = ''c'' then Answer 1 else Timed_out, world)"

theorem two_failures_hide_the_rest_witness:
  "fst (call_model_once only_c (\<lambda>_. []) [] 100 [] of_nat [] (three_providers, ())) =
     Inl (Exhausted ''all providers timed out or failed'')"
proof -
  have "route_trace [] three_providers (map (attempt_seed ''a'' ''b'') [0..<8]) = map (Some \<circ> alternate ''a'' ''b'') [0..<8]" by code_simp
  moreover have "only_c q (env', ()) = (Timed_out, env', ())" if "pid (rt_provider (mr_route q)) \<in> {''a'', ''b''}" for q env'
    using that by (auto simp: only_c_def)
  ultimately show ?thesis
    using two_failures_hide_the_rest [of "[]" three_providers "''a''" "''b''" only_c "()"] by simp
qed

theorem model_calls_bounded_witness:
  "length (cl_called (fst (snd (call_model_once only_c (\<lambda>_. []) [] 100 [] of_nat [] (three_providers, ()))))) \<le> 8"
proof -
  obtain res l w where "call_model_once only_c (\<lambda>_. []) [] 100 [] of_nat [] (three_providers, ()) = (res, l, w)"
    by (cases "call_model_once only_c (\<lambda>_. []) [] 100 [] of_nat [] (three_providers, ())")
  with model_calls_bounded [OF this] show ?thesis by simp
qed

end
