(* ===== verification/Run_Compaction.thy ===== *)
theory Run_Compaction
  imports Run_Calls Retry
begin

text \<open>
  Compaction of long runs (\<^verbatim>\<open>app/runs/compaction.py\<close>, \<^verbatim>\<open>app/runs/tokens.py\<close> and \<open>_maybe_compact_run\<close> of
  \<^verbatim>\<open>app/runs/worker.py\<close>): when the conversation fills four fifths of the model's context, everything but the
  system messages and the last eight messages is replaced by a summary. The token counter of litellm, the
  summarising call and Python's \<open>str()\<close>, \<open>repr()\<close> and \<open>json.dumps\<close> are parameters; each of the calls may
  raise.
\<close>

section \<open>Counting tokens\<close>

type_synonym message = "json \<times> json"

record text_env =
  te_str :: "json \<Rightarrow> string"
  te_repr :: "json \<Rightarrow> string"
  te_dumps :: "json \<Rightarrow> string"
  te_counter :: "string \<Rightarrow> json \<Rightarrow> string \<Rightarrow> int option"

text \<open>\<open>blk.get("text", "")\<close> among strings to be joined: a value that is no string raises.\<close>

definition token_part :: "text_env \<Rightarrow> json \<Rightarrow> json" where
  "token_part te blk =
     (case blk of
        JObj d \<Rightarrow>
          if json_get d ''type'' = JStr ''text'' then json_field d ''text'' (JStr [])
          else if json_get d ''type'' = JStr ''tool_use''
          then JStr (''<tool_use name='' @ te_str te (json_field d ''name'' (JStr [])) @ '' input='' @ te_repr te (json_field d ''input'' (JObj [])) @ ''>'')
          else if json_get d ''type'' = JStr ''tool_result''
          then JStr (''<tool_result '' @ te_repr te (json_field d ''content'' (JStr [])) @ ''>'')
          else JStr (te_str te blk)
      | _ \<Rightarrow> JStr (te_str te blk))"

definition token_text :: "text_env \<Rightarrow> json \<Rightarrow> shape_error + string" where
  "token_text te content =
     (case content of
        JList bs \<Rightarrow> map_result (join_with newline) (as_strings (map (token_part te) bs))
      | JStr s \<Rightarrow> Inr s
      | _ \<Rightarrow> Inr (if json_truthy content then te_str te content else []))"

definition estimate_message_tokens :: "text_env \<Rightarrow> string \<Rightarrow> json \<Rightarrow> json \<Rightarrow> shape_error + int" where
  "estimate_message_tokens te model role content =
     map_result (\<lambda>text. case te_counter te (if model = [] then ''gpt-4o'' else model) role text of
         Some n \<Rightarrow> n | None \<Rightarrow> max 1 (int (length text) div 4)) (token_text te content)"

definition estimate_messages_tokens :: "text_env \<Rightarrow> string \<Rightarrow> message list \<Rightarrow> shape_error + int" where
  "estimate_messages_tokens te model ms =
     map_result sum_list (map_m (\<lambda>(role, content). estimate_message_tokens te model role content) ms)"

definition DEFAULT_CONTEXT_LENGTH :: int where "DEFAULT_CONTEXT_LENGTH = 128000"

definition model_context_length :: "capability_row list \<Rightarrow> string \<Rightarrow> int" where
  "model_context_length caps model =
     (if model = [] then DEFAULT_CONTEXT_LENGTH
      else case find (\<lambda>c. cap_model_id c = model) caps of
             Some c \<Rightarrow> (case cap_context_length c of Some n \<Rightarrow> if 0 < n then n else DEFAULT_CONTEXT_LENGTH | None \<Rightarrow> DEFAULT_CONTEXT_LENGTH)
           | None \<Rightarrow> DEFAULT_CONTEXT_LENGTH)"

definition should_compact :: "int \<Rightarrow> int \<Rightarrow> bool" where
  "should_compact used max_ctx \<longleftrightarrow> 0 < max_ctx \<and> max_ctx * 4 div 5 \<le> used"

definition compaction_target :: "int \<Rightarrow> int" where
  "compaction_target max_ctx = max_ctx div 2"

section \<open>The summary\<close>

text \<open>Rows of a capability with its provider, enabled and not deleted.\<close>

definition usable_rows :: "provider_table \<Rightarrow> capability_row list \<Rightarrow> (capability_row \<times> provider) list" where
  "usable_rows ps caps =
     concat (map (\<lambda>c. map (Pair c) (filter (\<lambda>p. pid p = cap_provider_id c \<and> enabled p \<and> deleted_at p = None) ps)) caps)"

definition tier_rank :: "string option \<Rightarrow> nat" where
  "tier_rank t = (if t = Some ''economy'' then 0 else if t = Some ''premium'' then 2 else 1)"

definition pick_compaction_model ::
  "provider_table \<Rightarrow> capability_row list \<Rightarrow> string option \<Rightarrow> string \<times> provider option" where
  "pick_compaction_model ps caps override =
     (if truthy override
      then (the override, case filter (\<lambda>(c, p). cap_model_id c = the override) (usable_rows ps caps) of (c, p) # _ \<Rightarrow> Some p | [] \<Rightarrow> None)
      else case sort_key (\<lambda>(c, p). tier_rank (cap_cost_tier c)) (filter (\<lambda>(c, p). sublist ''haiku'' (lower (cap_model_id c))) (usable_rows ps caps)) of
             (c, p) # _ \<Rightarrow> (cap_model_id c, Some p)
           | [] \<Rightarrow>
               (case filter (\<lambda>(c, p). cap_cost_tier c = Some ''economy'') (usable_rows ps caps) of
                  (c, p) # _ \<Rightarrow> (cap_model_id c, Some p)
                | [] \<Rightarrow> (''claude-haiku-4-5'', None)))"

definition PRESERVED_TAIL_MESSAGES :: nat where "PRESERVED_TAIL_MESSAGES = 8"

definition is_system :: "message \<Rightarrow> bool" where
  "is_system m \<longleftrightarrow> fst m = JStr ''system''"

definition split_for_compaction :: "message list \<Rightarrow> message list \<times> message list \<times> message list" where
  "split_for_compaction ms =
     (let sys = filter is_system ms; rest = filter (\<lambda>m. \<not> is_system m) ms; n = length rest - PRESERVED_TAIL_MESSAGES
      in if length rest \<le> PRESERVED_TAIL_MESSAGES then (sys, [], rest) else (sys, take n rest, drop n rest))"

definition summary_part :: "text_env \<Rightarrow> jdict \<Rightarrow> json list" where
  "summary_part te d =
     (if json_get d ''type'' = JStr ''text'' then [json_field d ''text'' (JStr [])]
      else if json_get d ''type'' = JStr ''tool_use''
      then [JStr (''[tool_use '' @ te_str te (json_field d ''name'' (JStr [])) @ '' input='' @ take 300 (te_dumps te (json_field d ''input'' (JObj []))) @ '']'')]
      else if json_get d ''type'' = JStr ''tool_result''
      then [JStr (''[tool_result '' @ take 300 (case json_field d ''content'' (JStr []) of
               JStr s \<Rightarrow> s | c \<Rightarrow> take 500 (te_dumps te c)) @ '']'')]
      else [])"

definition summary_lines :: "text_env \<Rightarrow> message \<Rightarrow> shape_error + string" where
  "summary_lines te m =
     map_result (\<lambda>text. ''--- '' @ te_str te (fst m) @ '' ---'' @ newline @ text)
       (case snd m of
          JList bs \<Rightarrow> map_result (join_with newline)
            (as_strings (filter json_truthy (concat (map (summary_part te) (dict_items bs)))))
        | c \<Rightarrow> Inr (te_str te c))"

definition serialise_body :: "text_env \<Rightarrow> message list \<Rightarrow> shape_error + string" where
  "serialise_body te body = map_result (join_with newline) (map_m (summary_lines te) body)"

text \<open>The call that writes the summary: its text and the tokens it used, or \<open>None\<close> when it raises.\<close>

type_synonym summariser = "string \<Rightarrow> provider option \<Rightarrow> string \<Rightarrow> (string \<times> int \<times> int) option"

record compaction =
  cp_messages_summarized :: nat
  cp_original_tokens :: int
  cp_summary_tokens :: int
  cp_model_used :: string
  cp_tokens_in :: int
  cp_tokens_out :: int
  cp_max_context :: int
  cp_target :: int
  cp_new_messages :: "message list"

text \<open>\<open>Inl\<close> is an exception, which the worker turns into no compaction.\<close>

definition maybe_compact ::
  "text_env \<Rightarrow> summariser \<Rightarrow> provider_table \<Rightarrow> capability_row list \<Rightarrow> string option \<Rightarrow> string \<Rightarrow> message list \<Rightarrow> unit + compaction option" where
  "maybe_compact te summarise ps caps override model ms =
     (let max_ctx = model_context_length caps model; (sys, body, tail) = split_for_compaction ms in
      case estimate_messages_tokens te model ms of
        Inl _ \<Rightarrow> Inl ()
      | Inr used \<Rightarrow>
          if \<not> should_compact used max_ctx \<or> body = [] then Inr None
          else let (m, p) = pick_compaction_model ps caps override in
               case serialise_body te body of
                 Inl _ \<Rightarrow> Inl ()
               | Inr text \<Rightarrow>
                   (case summarise m p text of
                      None \<Rightarrow> Inl ()
                    | Some (s, tin, tout) \<Rightarrow>
                        (case (estimate_message_tokens te model (JStr ''assistant'') (JStr s), estimate_messages_tokens te model body) of
                           (Inr st, Inr ot) \<Rightarrow>
                             Inr (Some \<lparr>cp_messages_summarized = length body, cp_original_tokens = ot, cp_summary_tokens = st,
                                   cp_model_used = m, cp_tokens_in = tin, cp_tokens_out = tout, cp_max_context = max_ctx, cp_target = compaction_target max_ctx,
                                   cp_new_messages = sys @ [(JStr ''assistant'', JStr s)] @ tail\<rparr>)
                         | _ \<Rightarrow> Inl ())))"

section \<open>In the worker\<close>

definition peek_request :: "run_row \<Rightarrow> request" where
  "peek_request run = new_request \<lparr>has_tools := has_tools_spec run, excluded_provider_types := [''claude-oauth'']\<rparr>"

definition peek_next_model :: "router_env \<Rightarrow> run_row \<Rightarrow> string \<times> router_env" where
  "peek_next_model env run =
     (case select_provider env (peek_request run) of
        (Inr (Route r), env') \<Rightarrow> (litellm_model r, env')
      | (_, env') \<Rightarrow> (''gpt-4o'', env'))"

definition apply_compaction_to_db :: "message list \<Rightarrow> row_update" where
  "apply_compaction_to_db ms r = r \<lparr>run_messages := ms\<rparr>"

text \<open>The row, whether it was compacted, the column \<open>context_summarized_at_turn\<close> when it is written, the router.\<close>

definition maybe_compact_run ::
  "text_env \<Rightarrow> summariser \<Rightarrow> string option \<Rightarrow> router_env \<Rightarrow> run_row \<Rightarrow> run_row \<times> bool \<times> int option \<times> router_env" where
  "maybe_compact_run te summarise override env run =
     (let (model, env') = peek_next_model env run in
      case maybe_compact te summarise (providers env) (capabilities env) override model (run_messages run) of
        Inr (Some c) \<Rightarrow> (emit ''context_compacted'' (apply_compaction_to_db (cp_new_messages c) run), True, Some (model_calls run), env')
      | _ \<Rightarrow> (run, False, None, env'))"

section \<open>What a compaction keeps\<close>

abbreviation dialogue :: "message list \<Rightarrow> message list" where
  "dialogue ms \<equiv> filter (\<lambda>m. \<not> is_system m) ms"

lemma split_parts:
  assumes "split_for_compaction ms = (sys, body, tail)"
  shows "sys = filter is_system ms" and "body @ tail = dialogue ms"
    and "body \<noteq> [] \<Longrightarrow> length tail = 8" and "body \<noteq> [] \<Longrightarrow> tail = drop (length (dialogue ms) - 8) (dialogue ms)"
  using assms by (auto simp: split_for_compaction_def Let_def PRESERVED_TAIL_MESSAGES_def split: if_splits)

lemma maybe_compact_Some:
  assumes "maybe_compact te f ps caps ov model ms = Inr (Some c)"
  obtains sys body tail s used where "split_for_compaction ms = (sys, body, tail)" "body \<noteq> []"
    "cp_new_messages c = sys @ [(JStr ''assistant'', JStr s)] @ tail" "cp_messages_summarized c = length body"
    "estimate_messages_tokens te model ms = Inr used" "should_compact used (model_context_length caps model)"
  using assms by (auto simp: maybe_compact_def Let_def split: sum.splits if_splits prod.splits option.splits)

lemma filters_partition_length: "length (filter P xs) + length (filter (\<lambda>x. \<not> P x) xs) = length xs"
  by (induction xs) auto

text \<open>C31. Compaction loses nothing but what it summarises. When a compaction takes place the conversation had
  reached four fifths of the context, and the new one is the system messages in their order, one assistant
  message holding the summary, and the last eight other messages verbatim; the messages counted as
  summarised are exactly the missing ones, and the conversation never grows. It is done in one go: nothing makes sure that
  what is left is below the target of half the context (\<open>target_missed\<close>).
\<close>

theorem compaction_keeps:
  assumes "maybe_compact te f ps caps ov model ms = Inr (Some c)"
  shows "\<exists>s used. estimate_messages_tokens te model ms = Inr used \<and> model_context_length caps model * 4 div 5 \<le> used \<and>
      cp_new_messages c = filter is_system ms @ [(JStr ''assistant'', JStr s)] @ drop (length (dialogue ms) - 8) (dialogue ms) \<and>
      8 < length (dialogue ms) \<and> cp_messages_summarized c + length (cp_new_messages c) = length ms + 1 \<and> 0 < cp_messages_summarized c"
proof -
  from assms obtain sys body tail s used where c: "split_for_compaction ms = (sys, body, tail)" "body \<noteq> []"
    "cp_new_messages c = sys @ [(JStr ''assistant'', JStr s)] @ tail" "cp_messages_summarized c = length body"
    "estimate_messages_tokens te model ms = Inr used" "should_compact used (model_context_length caps model)"
    by (rule maybe_compact_Some)
  note parts = split_parts [OF c(1)]
  have "length (dialogue ms) = length body + 8" using arg_cong [OF parts(2), of length] parts(3) c(2) by simp
  moreover have "0 < length body" using c(2) by simp
  ultimately show ?thesis using c parts(1,3,4) filters_partition_length [of is_system ms]
    by (auto simp: should_compact_def)
qed

text \<open>A dialogue that alternates, the user first and last: what the worker leaves before each model call.\<close>

definition alternating :: "message list \<Rightarrow> bool" where
  "alternating ms \<longleftrightarrow>
     odd (length ms) \<and> (\<forall>i<length ms. fst (ms ! i) = JStr (if even i then ''user'' else ''assistant''))"

text \<open>
  Compaction never separates a tool result from the call it answers. In a dialogue of alternating user
  and assistant messages ending with the user's, the compacted dialogue after the summary starts with an
  assistant message, and each user message it keeps follows the same message as before.
\<close>

theorem compaction_keeps_pairs:
  assumes "maybe_compact te f ps caps ov model ms = Inr (Some c)" and "alternating (dialogue ms)"
  shows "\<exists>s tail. dialogue (cp_new_messages c) = (JStr ''assistant'', JStr s) # tail \<and> fst (hd tail) = JStr ''assistant'' \<and>
      (\<forall>i<length tail. fst (tail ! i) = JStr ''user'' \<longrightarrow>
         0 < i \<and> (\<exists>j. 0 < j \<and> j < length (dialogue ms) \<and> tail ! i = dialogue ms ! j \<and> tail ! (i - 1) = dialogue ms ! (j - 1)))"
proof -
  from assms(1) obtain sys body tail s used where c: "split_for_compaction ms = (sys, body, tail)" "body \<noteq> []"
    "cp_new_messages c = sys @ [(JStr ''assistant'', JStr s)] @ tail" by (rule maybe_compact_Some)
  define n where "n = length body"
  note parts = split_parts [OF c(1)]
  have len: "length (dialogue ms) = n + 8" using arg_cong [OF parts(2), of length] parts(3) c(2) by (simp add: n_def)
  have at: "tail ! i = dialogue ms ! (n + i)" for i by (simp add: parts(2) [symmetric] n_def nth_append)
  have odd: "odd n" and first: "fst (dialogue ms ! n) = JStr ''assistant''" using assms(2) len by (auto simp: alternating_def)
  have tail: "length tail = 8" using parts(3) c(2) by simp
  have "\<forall>m\<in>set tail. \<not> is_system m" using arg_cong [OF parts(2), of set] by auto
  then have new: "dialogue (cp_new_messages c) = (JStr ''assistant'', JStr s) # tail"
    by (simp add: c(3) parts(1) is_system_def filter_id_conv)
  have hd: "fst (hd tail) = JStr ''assistant''" using at [of 0] first tail by (cases tail) auto
  have pair: "0 < i \<and> (\<exists>j. 0 < j \<and> j < length (dialogue ms) \<and> tail ! i = dialogue ms ! j \<and> tail ! (i - 1) = dialogue ms ! (j - 1))"
    if i: "i < length tail" "fst (tail ! i) = JStr ''user''" for i
  proof
    show pos: "0 < i" using i(2) first at [of i] by (cases i) auto
    show "\<exists>j. 0 < j \<and> j < length (dialogue ms) \<and> tail ! i = dialogue ms ! j \<and> tail ! (i - 1) = dialogue ms ! (j - 1)"
    proof (intro exI conjI)
      show "0 < n + i" "n + i < length (dialogue ms)" using pos i(1) len tail by simp_all
      show "tail ! i = dialogue ms ! (n + i)" by (rule at)
      show "tail ! (i - 1) = dialogue ms ! (n + i - 1)" using at [of "i - 1"] pos by (simp only: Nat.add_diff_assoc Suc_leI One_nat_def)
    qed
  qed
  show ?thesis by (rule exI [of _ s], rule exI [of _ tail]) (use new hd pair in simp)
qed

section \<open>Which context length is used\<close>

lemma route_model_prefixed:
  assumes "select_provider env rq = (Inr (Route r), env')"
  shows "CHR ''/'' \<in> set (litellm_model r)"
proof -
  from assms obtain avail cross ranked b where "choose_route env rq avail cross ranked = Inr (Route r)" by (rule select_Inr)
  then obtain fit p where "r = build_route env rq cross (fit_skipped rq ranked) (pick_route env rq fit) p"
    by (auto simp: choose_route_eq bind_result_Inr map_result_Inr split: if_splits)
  then show ?thesis by (auto simp: build_route_def cheapest_route_def finish_route_def build_litellm_model_def Let_def)
qed

text \<open>
  The catalogue's context lengths do not reach compaction. The worker looks the context length up under
  the name it will give to litellm, which carries the provider's prefix, while the catalogue lists bare
  model names: for a run that can be routed the lookup misses, and 128000 tokens are assumed whatever the
  catalogue says of the model.
\<close>

theorem catalogue_context_unused:
  assumes "select_provider env (peek_request run) = (Inr (Route r), env')"
    and "\<forall>c\<in>set (capabilities env). CHR ''/'' \<notin> set (cap_model_id c)"
  shows "peek_next_model env run = (litellm_model r, env') \<and> model_context_length (capabilities env) (litellm_model r) = 128000"
proof
  show "peek_next_model env run = (litellm_model r, env')" using assms(1) by (simp add: peek_next_model_def)
  have "find (\<lambda>c. cap_model_id c = litellm_model r) (capabilities env) = None"
    unfolding find_None_iff using assms(2) route_model_prefixed [OF assms(1)] by metis
  then show "model_context_length (capabilities env) (litellm_model r) = 128000"
    by (simp add: model_context_length_def DEFAULT_CONTEXT_LENGTH_def)
qed

section \<open>A concrete run\<close>

text \<open>A run of nine messages on a provider whose catalogued context is 4000 tokens.\<close>

definition small_env :: router_env where
  "small_env = demo_env
     \<lparr>providers := [new_provider ''a'' ''A'' ''openai'' (Some ''small'') 1],
      capabilities := [\<lparr>cap_provider_id = ''a'', cap_model_id = ''small'', cap_aliases = [], cap_tasks = [], cap_latency = None,
         cap_cost_tier = Some ''economy'', cap_safety = None, cap_context_length = Some 4000, cap_regions = [], cap_modalities = [],
         cap_native_reasoning = None, cap_native_tools = None, cap_native_vision = None, cap_tool_call_success_rate = None\<rparr>]\<rparr>"

definition nine_messages :: "message list" where
  "nine_messages = (JStr ''system'', JStr ''be brief'') #
     map (\<lambda>i. (JStr (if even i then ''user'' else ''assistant''), JStr (replicate i CHR ''x''))) [0..<9]"

definition plain_text :: text_env where
  "plain_text = \<lparr>te_str = (\<lambda>_. ''?''), te_repr = (\<lambda>_. ''?''), te_dumps = (\<lambda>_. ''?''), te_counter = (\<lambda>_ _ _. Some 20000)\<rparr>"

definition brief :: summariser where
  "brief model p text = Some (''summary'', 100, 10)"

lemma nine_compacted: "\<exists>c. maybe_compact plain_text brief (providers small_env) (capabilities small_env) None ''openai/small'' nine_messages = Inr (Some c)"
proof -
  have "(case maybe_compact plain_text brief (providers small_env) (capabilities small_env) None ''openai/small'' nine_messages of
      Inr (Some c) \<Rightarrow> True | _ \<Rightarrow> False)" by code_simp
  then show ?thesis by (auto split: sum.splits option.splits)
qed

theorem compaction_keeps_witness:
  "\<exists>c s. maybe_compact plain_text brief (providers small_env) (capabilities small_env) None ''openai/small'' nine_messages = Inr (Some c) \<and>
     cp_new_messages c = filter is_system nine_messages @ [(JStr ''assistant'', JStr s)] @ drop (length (dialogue nine_messages) - 8) (dialogue nine_messages)"
  using nine_compacted compaction_keeps by blast

text \<open>The conversation left by a compaction can be larger than the target it reports.\<close>

lemma target_missed:
  "case maybe_compact plain_text brief (providers small_env) (capabilities small_env) None ''openai/small'' nine_messages of
     Inr (Some c) \<Rightarrow>
       (case estimate_messages_tokens plain_text ''openai/small'' (cp_new_messages c) of Inr n \<Rightarrow> cp_target c < n | _ \<Rightarrow> False)
   | _ \<Rightarrow> False"
  by code_simp

lemma nine_alternating: "alternating (dialogue nine_messages)" by code_simp

theorem compaction_keeps_pairs_witness:
  "\<exists>c s tail. maybe_compact plain_text brief (providers small_env) (capabilities small_env) None ''openai/small'' nine_messages = Inr (Some c) \<and>
     dialogue (cp_new_messages c) = (JStr ''assistant'', JStr s) # tail \<and> fst (hd tail) = JStr ''assistant''"
  using nine_compacted compaction_keeps_pairs [OF _ nine_alternating] by blast

lemma small_routed: "\<exists>r env'. select_provider small_env (peek_request demo_row) = (Inr (Route r), env')"
proof -
  have "(case fst (select_provider small_env (peek_request demo_row)) of Inr (Route r) \<Rightarrow> True | _ \<Rightarrow> False)" by code_simp
  then show ?thesis by (cases "select_provider small_env (peek_request demo_row)") (auto split: sum.splits selection.splits)
qed

theorem catalogue_context_unused_witness:
  "\<exists>m env'. peek_next_model small_env demo_row = (m, env') \<and> model_context_length (capabilities small_env) m = 128000 \<and>
     map cap_context_length (capabilities small_env) = [Some 4000]"
proof -
  have "\<forall>c\<in>set (capabilities small_env). CHR ''/'' \<notin> set (cap_model_id c)"
    and "map cap_context_length (capabilities small_env) = [Some 4000]" by (simp_all add: small_env_def)
  moreover obtain r env' where "select_provider small_env (peek_request demo_row) = (Inr (Route r), env')" using small_routed by blast
  ultimately show ?thesis using catalogue_context_unused by metis
qed

end
