(* ===== verification/Run_Replication.thy ===== *)
theory Run_Replication
  imports Cluster_Sync
begin

text \<open>
  Replication of runs (\<^verbatim>\<open>app/runs/replication.py\<close>): the snapshots a node pushes to its peers after each
  transition, delayed by 250 milliseconds unless the run has ended, and the retries of the last push. What
  arrives at a peer is merged by \<open>apply_runs\<close>. HTTP is a parameter, the answer of each peer; a run's messages
  and events are not part of a snapshot.
\<close>

section \<open>Pushing\<close>

definition serialise_run :: "run_row \<Rightarrow> run_row" where
  "serialise_run r = r \<lparr>run_messages := [], run_events := []\<rparr>"

definition DEBOUNCE_SEC :: clock where "DEBOUNCE_SEC = 1 / 4"

record pending_push =
  pp_snapshot :: run_row
  pp_fire_at :: clock

text \<open>The module's dictionary of pending pushes, and the snapshots pushed so far in order.\<close>

record replicator =
  rp_pending :: "ident \<rightharpoonup> pending_push"
  rp_sent :: "run_row list"

definition no_pushes :: replicator where
  "no_pushes = \<lparr>rp_pending = Map.empty, rp_sent = []\<rparr>"

definition replicate_run :: "bool \<Rightarrow> clock \<Rightarrow> bool \<Rightarrow> run_row \<Rightarrow> replicator \<Rightarrow> replicator" where
  "replicate_run cluster_enabled now over run st =
     (if \<not> cluster_enabled then st
      else if over then st \<lparr>rp_sent := rp_sent st @ [serialise_run run]\<rparr>
      else st \<lparr>rp_pending := (rp_pending st)(run_id run \<mapsto> \<lparr>pp_snapshot = serialise_run run, pp_fire_at = now + DEBOUNCE_SEC\<rparr>)\<rparr>)"

text \<open>A look of the runner at the clock: it sleeps on until the time is reached.\<close>

definition debounce_runner :: "clock \<Rightarrow> ident \<Rightarrow> replicator \<Rightarrow> replicator" where
  "debounce_runner now i st =
     (case rp_pending st i of
        None \<Rightarrow> st
      | Some p \<Rightarrow> if now < pp_fire_at p then st
                  else st \<lparr>rp_pending := (rp_pending st)(i := None), rp_sent := rp_sent st @ [pp_snapshot p]\<rparr>)"

text \<open>The retries of the last push: the peers asked in each attempt, and those that never answered.\<close>

fun retry_terminal_push :: "((ident \<Rightarrow> bool) \<times> (ident \<Rightarrow> bool)) list \<Rightarrow> ident list \<Rightarrow> ident list list \<times> ident list" where
  "retry_terminal_push [] targets = ([], targets)"
| "retry_terminal_push ((known, ack) # later) targets =
     (let peers = filter known targets; failing = filter (\<lambda>p. \<not> ack p) peers in
      if peers = [] then ([], targets)
      else if failing = [] then ([peers], [])
      else let (asked, left) = retry_terminal_push later failing in (peers # asked, left))"

definition RETRY_DELAYS :: "rat list" where "RETRY_DELAYS = [5, 15, 45]"

definition push_terminal ::
  "ident list \<Rightarrow> (ident \<Rightarrow> bool) \<Rightarrow> ((ident \<Rightarrow> bool) \<times> (ident \<Rightarrow> bool)) list \<Rightarrow> ident list list \<times> ident list" where
  "push_terminal peers ack later =
     (let failed = filter (\<lambda>p. \<not> ack p) peers in
      if failed = [] then ([peers], [])
      else let (asked, left) = retry_terminal_push (take (length RETRY_DELAYS) later) failed in (peers # asked, left))"

section \<open>Schedules\<close>

datatype push_act = Transition clock bool run_row | Tick clock ident

fun push_step :: "push_act \<Rightarrow> replicator \<Rightarrow> replicator" where
  "push_step (Transition now over run) st = replicate_run True now over run st"
| "push_step (Tick now i) st = debounce_runner now i st"

definition push_run :: "push_act list \<Rightarrow> replicator \<Rightarrow> replicator" where
  "push_run as st = fold push_step as st"

definition snapshots :: "push_act list \<Rightarrow> run_row set" where
  "snapshots as = {serialise_run r | now over r. Transition now over r \<in> set as}"

definition held :: "replicator \<Rightarrow> run_row set" where
  "held st = set (rp_sent st) \<union> {pp_snapshot p | p i. rp_pending st i = Some p}"

lemma held_step: "held (push_step a st) \<subseteq> held st \<union> snapshots [a]"
proof (cases a)
  case (Transition now over r)
  then show ?thesis by (auto simp: held_def snapshots_def replicate_run_def split: if_splits)
next
  case (Tick now i)
  then show ?thesis by (auto simp: held_def debounce_runner_def split: option.splits if_splits)
qed

lemma held_run: "held (push_run as st) \<subseteq> held st \<union> snapshots as"
proof (induction as arbitrary: st)
  case (Cons a as)
  have "snapshots (a # as) = snapshots [a] \<union> snapshots as" by (auto simp: snapshots_def)
  with Cons [of "push_step a st"] held_step [of a st] show ?case by (auto simp: push_run_def)
qed (simp add: push_run_def)

lemma sent_mono: "set (rp_sent st) \<subseteq> set (rp_sent (push_run as st))"
proof (induction as arbitrary: st)
  case (Cons a as)
  have "set (rp_sent st) \<subseteq> set (rp_sent (push_step a st))"
    by (cases a) (auto simp: replicate_run_def debounce_runner_def split: option.split)
  with Cons [of "push_step a st"] show ?case by (auto simp: push_run_def)
qed (simp add: push_run_def)

lemma terminal_sent: "Transition now True r \<in> set as \<Longrightarrow> serialise_run r \<in> set (rp_sent (push_run as st))"
proof (induction as arbitrary: st)
  case (Cons a as)
  show ?case
  proof (cases "a = Transition now True r")
    case True
    then have "serialise_run r \<in> set (rp_sent (push_step a st))" by (simp add: replicate_run_def)
    with sent_mono [of "push_step a st" as] show ?thesis by (auto simp: push_run_def)
  qed (use Cons in \<open>auto simp: push_run_def\<close>)
qed simp

section \<open>Peers settle on the last state\<close>

definition like :: "run_row \<Rightarrow> run_row \<Rightarrow> bool" where
  "like fin r \<longleftrightarrow> updated_at r = updated_at fin \<and> run_status r = run_status fin \<and> result_text r = result_text fin"

definition settling :: "run_row \<Rightarrow> run_row \<Rightarrow> bool" where
  "settling fin r \<longleftrightarrow> updated_at r < updated_at fin \<or> like fin r"

lemma like_update: "like fin r \<Longrightarrow> settling fin w \<Longrightarrow> like fin (run_update w r)"
  by (auto simp: like_def settling_def run_update_def run_over_def)

lemma settling_update: "settling fin r \<Longrightarrow> settling fin w \<Longrightarrow> settling fin (run_update w r)"
  by (auto simp: like_def settling_def run_update_def run_over_def)

lemma like_newest: "settling fin r \<Longrightarrow> like fin w \<Longrightarrow> like fin (run_update w r)"
  by (auto simp: like_def settling_def run_update_def run_over_def)

lemma reg_insert: "updated_at w \<noteq> 0 \<Longrightarrow> \<exists>r. run_rows.reg t w None = Some r \<and> updated_at r = updated_at w \<and> run_status r = run_status w \<and> result_text r = result_text w"
  by (simp add: run_insert_def run_over_def)

lemma fold_like: "like fin r \<Longrightarrow> \<forall>w\<in>set ws. settling fin w \<Longrightarrow> \<exists>r'. fold (run_rows.reg t) ws (Some r) = Some r' \<and> like fin r'"
  by (induction ws arbitrary: r) (auto simp: like_update)

lemma fold_settles:
  assumes "\<forall>w\<in>set ws. settling fin w \<and> updated_at w \<noteq> 0" "w \<in> set ws" "like fin w" "\<forall>r. r0 = Some r \<longrightarrow> settling fin r"
  shows "\<exists>r'. fold (run_rows.reg t) ws r0 = Some r' \<and> like fin r'"
  using assms
proof (induction ws arbitrary: r0)
  case (Cons v ws)
  obtain r1 where r1: "run_rows.reg t v r0 = Some r1" "settling fin r1" "like fin v \<Longrightarrow> like fin r1"
  proof (cases r0)
    case None
    then show ?thesis using that reg_insert [of v t] Cons.prems(1) by (auto simp: settling_def like_def)
  next
    case (Some r)
    then show ?thesis using that Cons.prems(1,4) settling_update like_newest by auto
  qed
  show ?case
  proof (cases "like fin v")
    case True
    with r1 fold_like [of fin r1 ws] Cons.prems(1) show ?thesis by simp
  next
    case False
    with r1 Cons.IH [of "Some r1"] Cons.prems show ?thesis by auto
  qed
qed simp


text \<open>A run whose transitions follow each other within 250 milliseconds is not pushed until it pauses or ends.\<close>

fun busy :: "ident \<Rightarrow> clock \<Rightarrow> push_act list \<Rightarrow> bool" where
  "busy i t [] \<longleftrightarrow> True"
| "busy i t (Transition now over r # as) \<longleftrightarrow> run_id r = i \<and> \<not> over \<and> t \<le> now \<and> busy i now as"
| "busy i t (Tick now j # as) \<longleftrightarrow> j = i \<and> now < t + DEBOUNCE_SEC \<and> busy i t as"

lemma busy_run_not_pushed:
  assumes "busy i t as" "\<forall>p. rp_pending st i = Some p \<longrightarrow> t + DEBOUNCE_SEC \<le> pp_fire_at p"
  shows "rp_sent (push_run as st) = rp_sent st"
  using assms
proof (induction as arbitrary: t st)
  case (Cons a as)
  show ?case
  proof (cases a)
    case (Transition now over r)
    with Cons.prems Cons.IH [of now "push_step a st"] show ?thesis by (simp add: push_run_def replicate_run_def)
  next
    case (Tick now j)
    with Cons.prems have "push_step a st = st" by (force simp: debounce_runner_def split: option.splits)
    with Tick Cons.prems Cons.IH [of t st] show ?thesis by (simp add: push_run_def)
  qed
qed (simp add: push_run_def)

text \<open>A peer that has answered is not asked again, and at most three retries follow the first push.\<close>

lemma retries_bounded: "length (fst (retry_terminal_push rounds targets)) \<le> length rounds"
  by (induction rounds targets rule: retry_terminal_push.induct) (auto simp: Let_def split: prod.splits)

lemma push_terminal_bounded: "length (fst (push_terminal peers ack later)) \<le> 4"
  using retries_bounded [of "take (length RETRY_DELAYS) later" "filter (\<lambda>p. \<not> ack p) peers"]
  by (auto simp: push_terminal_def Let_def RETRY_DELAYS_def split: prod.splits)

lemma retry_shrinks: "ps \<in> set (fst (retry_terminal_push rounds targets)) \<Longrightarrow> set ps \<subseteq> set targets"
proof (induction rounds targets rule: retry_terminal_push.induct)
  case (2 known ack later targets)
  let ?failing = "filter (\<lambda>p. \<not> ack p) (filter known targets)"
  consider "ps = filter known targets"
    | "filter known targets \<noteq> []" "?failing \<noteq> []" "ps \<in> set (fst (retry_terminal_push later ?failing))"
    using "2.prems" by (auto simp: Let_def split: if_splits prod.splits)
  then show ?case
  proof cases
    case 2
    with "2.IH" [OF refl refl 2(1,2)] show ?thesis by auto
  qed auto
qed simp

section \<open>A concrete schedule\<close>

definition waiting_run :: run_row where
  "waiting_run = demo_row \<lparr>updated_at := 2\<rparr>"

definition done_run :: run_row where
  "done_run = demo_row \<lparr>updated_at := 3, run_status := COMPLETED, result_text := Some ''ok''\<rparr>"

definition overtaken :: "push_act list" where
  "overtaken = [Transition 2 False waiting_run, Transition (21 / 10) True done_run, Tick 5 ''run_1'']"


end
