(* ===== verification/Event_Bus.thy ===== *)
theory Event_Bus
  imports Run_Worker
begin

text \<open>
  The event broker of runs (\<^verbatim>\<open>app/runs/event_bus.py\<close>) and the live branch of \<open>get_events\<close> in \<^verbatim>\<open>app/api/runs.py\<close>:
  a channel per run with a ring of the last 1000 events and a bounded queue per subscriber, and the stream
  a client reads. The stream is a generator; one call of \<open>__anext__\<close> is one step here, and events may be
  published between any two steps. A queue outlives its removal from the subscribers, because the
  generator still holds it: queues are kept in a store of their own.
\<close>

section \<open>Channels\<close>

record bus_event =
  ev_seq :: int
  ev_kind :: string
  ev_payload :: json
  ev_ts :: clock

definition RING_SIZE :: nat where "RING_SIZE = 1000"

definition QUEUE_MAX :: nat where "QUEUE_MAX = 2 * RING_SIZE"

definition TERMINAL_KINDS :: "string list" where
  "TERMINAL_KINDS = [''completed'', ''failed'', ''expired'', ''cancelled'']"

abbreviation ends_run :: "bus_event \<Rightarrow> bool" where
  "ends_run e \<equiv> ev_kind e \<in> set TERMINAL_KINDS"

type_synonym subscriber_queue = "bus_event option list"

record run_channel =
  ch_ring :: "bus_event list"
  ch_subscribers :: "nat list"
  ch_queues :: "nat \<Rightarrow> subscriber_queue"
  ch_next :: nat
  ch_closed :: bool

definition new_channel :: run_channel where
  "new_channel = \<lparr>ch_ring = [], ch_subscribers = [], ch_queues = (\<lambda>_. []), ch_next = 0, ch_closed = False\<rparr>"

definition has_room :: "subscriber_queue \<Rightarrow> bool" where
  "has_room q \<longleftrightarrow> length q < QUEUE_MAX"

text \<open>\<open>put_nowait\<close> on each of the given queues; a full one is left alone.\<close>

definition put_all :: "nat list \<Rightarrow> bus_event option \<Rightarrow> (nat \<Rightarrow> subscriber_queue) \<Rightarrow> nat \<Rightarrow> subscriber_queue" where
  "put_all subs x qs i = (if i \<in> set subs \<and> has_room (qs i) then qs i @ [x] else qs i)"

definition ring_append :: "bus_event list \<Rightarrow> bus_event \<Rightarrow> bus_event list" where
  "ring_append ring e = (let xs = ring @ [e] in drop (length xs - RING_SIZE) xs)"

definition channel_publish :: "bus_event \<Rightarrow> run_channel \<Rightarrow> run_channel" where
  "channel_publish e ch =
     (if ch_closed ch then ch
      else let kept = filter (\<lambda>i. has_room (ch_queues ch i)) (ch_subscribers ch);
               qs = put_all (ch_subscribers ch) (Some e) (ch_queues ch);
               ch' = ch \<lparr>ch_ring := ring_append (ch_ring ch) e, ch_subscribers := kept, ch_queues := qs\<rparr>
           in if ends_run e then ch' \<lparr>ch_closed := True, ch_queues := put_all kept None qs\<rparr> else ch')"

definition replay_since :: "int \<Rightarrow> run_channel \<Rightarrow> bus_event list" where
  "replay_since seen ch = filter (\<lambda>e. seen < ev_seq e) (ch_ring ch)"

definition subscribe :: "run_channel \<Rightarrow> nat \<times> run_channel" where
  "subscribe ch =
     (ch_next ch, ch \<lparr>ch_subscribers := ch_next ch # ch_subscribers ch, ch_queues := (ch_queues ch)(ch_next ch := []),
        ch_next := Suc (ch_next ch)\<rparr>)"

definition unsubscribe :: "nat \<Rightarrow> run_channel \<Rightarrow> run_channel" where
  "unsubscribe i ch = ch \<lparr>ch_subscribers := removeAll i (ch_subscribers ch)\<rparr>"

section \<open>The registry\<close>

type_synonym channels = "ident \<rightharpoonup> run_channel"

definition get_or_create :: "ident \<Rightarrow> channels \<Rightarrow> run_channel \<times> channels" where
  "get_or_create run cs = (case cs run of Some ch \<Rightarrow> (ch, cs) | None \<Rightarrow> (new_channel, cs(run \<mapsto> new_channel)))"

definition bus_publish :: "ident \<Rightarrow> bus_event \<Rightarrow> channels \<Rightarrow> channels" where
  "bus_publish run e cs = (let (ch, cs') = get_or_create run cs in cs'(run \<mapsto> channel_publish e ch))"

definition drop_channel :: "ident \<Rightarrow> channels \<Rightarrow> channels" where
  "drop_channel run cs =
     (case cs run of
        Some ch \<Rightarrow> if ch_closed ch \<and> ch_subscribers ch = [] then cs(run := None) else cs
      | None \<Rightarrow> cs)"

section \<open>The stream of a client\<close>

text \<open>
  A client is at its start, in the rows read from the database, in the events replayed from the ring,
  subscribed, or at the end. \<open>Opening\<close> carries the rows of the table, the id the client resumes from and
  whether the run had ended when the request came in.
\<close>

datatype sse_client =
    Opening "bus_event list" int bool
  | Catching_up "bus_event list" int bool
  | Fresh int
  | Replaying "bus_event list" int
  | Live nat int
  | Ended

datatype sse_yield = Sent bus_event | Keepalive int | Stop

definition live_next :: "nat \<Rightarrow> int \<Rightarrow> run_channel \<Rightarrow> sse_yield \<times> run_channel \<times> sse_client" where
  "live_next i seen ch =
     (case ch_queues ch i of
        [] \<Rightarrow> (Keepalive seen, ch, Live i seen)
      | None # q \<Rightarrow> (Stop, unsubscribe i (ch \<lparr>ch_queues := (ch_queues ch)(i := q)\<rparr>), Ended)
      | Some e # q \<Rightarrow> (Sent e, ch \<lparr>ch_queues := (ch_queues ch)(i := q)\<rparr>, Live i (ev_seq e)))"

definition replay_next :: "bus_event list \<Rightarrow> int \<Rightarrow> run_channel \<Rightarrow> sse_yield \<times> run_channel \<times> sse_client" where
  "replay_next es seen ch =
     (case es of
        e # es' \<Rightarrow> (Sent e, ch, Replaying es' (ev_seq e))
      | [] \<Rightarrow> if ch_closed ch then (Stop, ch, Ended) else let (i, ch') = subscribe ch in live_next i seen ch')"

definition catch_up_next :: "bus_event list \<Rightarrow> int \<Rightarrow> bool \<Rightarrow> run_channel \<Rightarrow> sse_yield \<times> run_channel \<times> sse_client" where
  "catch_up_next rows seen over ch =
     (case rows of
        e # es \<Rightarrow> (Sent e, ch, Catching_up es (ev_seq e) over)
      | [] \<Rightarrow> if over then (Stop, ch, Ended) else replay_next (replay_since seen ch) seen ch)"

fun client_next :: "run_channel \<Rightarrow> sse_client \<Rightarrow> sse_yield \<times> run_channel \<times> sse_client" where
  "client_next ch (Opening rows resume over) =
     catch_up_next (sort_key ev_seq (filter (\<lambda>e. resume < ev_seq e) rows)) resume over ch"
| "client_next ch (Catching_up rows seen over) = catch_up_next rows seen over ch"
| "client_next ch (Fresh seen) = replay_next (replay_since seen ch) seen ch"
| "client_next ch (Replaying es seen) = replay_next es seen ch"
| "client_next ch (Live i seen) = live_next i seen ch"
| "client_next ch Ended = (Stop, ch, Ended)"

text \<open>A schedule interleaves the worker's events with the steps of one client.\<close>

datatype act = Pub bus_event | Next

fun run_schedule :: "act list \<Rightarrow> run_channel \<Rightarrow> sse_client \<Rightarrow> sse_yield list \<times> run_channel \<times> sse_client" where
  "run_schedule [] ch c = ([], ch, c)"
| "run_schedule (Pub e # as) ch c = run_schedule as (channel_publish e ch) c"
| "run_schedule (Next # as) ch c =
     (let (y, ch', c') = client_next ch c; (ys, r) = run_schedule as ch' c' in (y # ys, r))"

definition sent :: "sse_yield list \<Rightarrow> bus_event list" where
  "sent ys = concat (map (\<lambda>y. case y of Sent e \<Rightarrow> [e] | _ \<Rightarrow> []) ys)"

definition published :: "act list \<Rightarrow> bus_event list" where
  "published as = concat (map (\<lambda>a. case a of Pub e \<Rightarrow> [e] | Next \<Rightarrow> []) as)"

section \<open>Nothing twice, nothing out of order\<close>

lemma sent_simps [simp]:
  "sent [] = []" "sent (Sent e # ys) = e # sent ys" "sent (Keepalive l # ys) = sent ys" "sent (Stop # ys) = sent ys"
  by (simp_all add: sent_def)

lemma sent_append [simp]: "sent (xs @ ys) = sent xs @ sent ys" by (simp add: sent_def)

lemma published_simps [simp]:
  "published [] = []" "published (Pub e # as) = e # published as" "published (Next # as) = published as"
  by (simp_all add: published_def)

lemma published_append [simp]: "published (as @ bs) = published as @ published bs" by (simp add: published_def)

lemma published_nexts [simp]: "published (replicate n Next) = []" by (induction n) auto

lemma run_schedule_append:
  "run_schedule (as @ bs) ch c =
     (let (ys, ch', c') = run_schedule as ch c; (zs, r) = run_schedule bs ch' c' in (ys @ zs, r))"
  by (induction as ch c rule: run_schedule.induct) (simp_all add: Let_def split: prod.splits)

text \<open>Events numbered upwards from above \<open>s\<close> to at most \<open>n\<close>, all of them taken from \<open>A\<close>.\<close>

definition rising :: "bus_event set \<Rightarrow> int \<Rightarrow> int \<Rightarrow> bus_event list \<Rightarrow> bool" where
  "rising A n s es \<longleftrightarrow> sorted_wrt (<) (s # map ev_seq es) \<and> s \<le> n \<and> (\<forall>e\<in>set es. ev_seq e \<le> n \<and> e \<in> A)"

lemma rising_Nil [simp]: "rising A n s [] \<longleftrightarrow> s \<le> n" by (simp add: rising_def)

lemma rising_Cons: "rising A n s (e # es) \<longleftrightarrow> s < ev_seq e \<and> e \<in> A \<and> rising A n (ev_seq e) es"
  by (auto simp: rising_def)

lemma rising_append1: "rising A n s es \<Longrightarrow> n < ev_seq e \<Longrightarrow> e \<in> A \<Longrightarrow> rising A (ev_seq e) s (es @ [e])"
  by (induction es arbitrary: s) (auto simp: rising_Cons)

lemma rising_mono: "rising A n s es \<Longrightarrow> n \<le> n' \<Longrightarrow> rising A n' s es"
  by (fastforce simp: rising_def)

text \<open>What the client will still be sent from what it holds.\<close>

definition waiting :: "subscriber_queue \<Rightarrow> bus_event list" where
  "waiting q = concat (map (\<lambda>x. case x of Some e \<Rightarrow> [e] | None \<Rightarrow> []) q)"

lemma waiting_simps [simp]:
  "waiting [] = []" "waiting (Some e # q) = e # waiting q" "waiting (None # q) = waiting q" "waiting (q @ r) = waiting q @ waiting r"
  "waiting (map Some es) = es"
  by (induction es) (simp_all add: waiting_def)

definition ring_ok :: "bus_event set \<Rightarrow> int \<Rightarrow> run_channel \<Rightarrow> bool" where
  "ring_ok A n ch \<longleftrightarrow> sorted_wrt (<) (map ev_seq (ch_ring ch)) \<and> (\<forall>e\<in>set (ch_ring ch). ev_seq e \<le> n \<and> e \<in> A)"

fun client_ok :: "bus_event set \<Rightarrow> int \<Rightarrow> int \<Rightarrow> run_channel \<Rightarrow> sse_client \<Rightarrow> bool" where
  "client_ok A n s ch (Opening rows resume over) \<longleftrightarrow>
     s = resume \<and> distinct (map ev_seq rows) \<and> s \<le> n \<and> (\<forall>e\<in>set rows. ev_seq e \<le> n \<and> e \<in> A)"
| "client_ok A n s ch (Catching_up rows l over) \<longleftrightarrow> s = l \<and> rising A n s rows"
| "client_ok A n s ch (Fresh l) \<longleftrightarrow> s = l \<and> s \<le> n"
| "client_ok A n s ch (Replaying es l) \<longleftrightarrow> s = l \<and> rising A n s es"
| "client_ok A n s ch (Live i l) \<longleftrightarrow> s = l \<and> rising A n s (waiting (ch_queues ch i))"
| "client_ok A n s ch Ended \<longleftrightarrow> True"

lemma ring_ok_publish:
  assumes "ring_ok A n ch" "n < ev_seq e" "e \<in> A"
  shows "ring_ok A (ev_seq e) (channel_publish e ch)"
proof -
  have "sorted_wrt (<) (map ev_seq (ch_ring ch @ [e]))" "\<forall>x\<in>set (ch_ring ch @ [e]). ev_seq x \<le> ev_seq e \<and> x \<in> A"
    using assms by (fastforce simp: ring_ok_def sorted_wrt_append)+
  then have "sorted_wrt (<) (map ev_seq (ring_append (ch_ring ch) e))" "\<forall>x\<in>set (ring_append (ch_ring ch) e). ev_seq x \<le> ev_seq e \<and> x \<in> A"
    unfolding ring_append_def Let_def by (simp only: drop_map [symmetric] sorted_wrt_drop, meson in_set_dropD)
  moreover have "ring_ok A (ev_seq e) ch" using assms by (fastforce simp: ring_ok_def)
  ultimately show ?thesis by (simp add: ring_ok_def channel_publish_def Let_def)
qed

lemma waiting_publish:
  "waiting (ch_queues (channel_publish e ch) i) = waiting (ch_queues ch i) \<or>
   waiting (ch_queues (channel_publish e ch) i) = waiting (ch_queues ch i) @ [e]"
  by (auto simp: channel_publish_def put_all_def Let_def)

lemma client_ok_publish:
  assumes "client_ok A n s ch c" "n < ev_seq e" "e \<in> A"
  shows "client_ok A (ev_seq e) s (channel_publish e ch) c"
proof (cases c)
  case (Live i l)
  then show ?thesis using assms waiting_publish [of e ch i] rising_append1 rising_mono [of A n s _ "ev_seq e"] by fastforce
qed (use assms in \<open>auto intro: rising_mono\<close>)

text \<open>One step: what is sent is new, and the invariant is kept.\<close>

definition step_sound :: "bus_event set \<Rightarrow> int \<Rightarrow> int \<Rightarrow> sse_yield \<times> run_channel \<times> sse_client \<Rightarrow> bool" where
  "step_sound A n s r \<longleftrightarrow>
     (case r of (y, ch', c') \<Rightarrow> ring_ok A n ch' \<and>
        (case y of Sent e \<Rightarrow> s < ev_seq e \<and> e \<in> A \<and> client_ok A n (ev_seq e) ch' c' | _ \<Rightarrow> client_ok A n s ch' c'))"

lemma live_sound: "rising A n s (waiting (ch_queues ch i)) \<Longrightarrow> ring_ok A n ch \<Longrightarrow> step_sound A n s (live_next i s ch)"
  by (auto simp: live_next_def step_sound_def rising_Cons ring_ok_def unsubscribe_def split: list.split option.split)

lemma replay_sound: "rising A n s es \<Longrightarrow> ring_ok A n ch \<Longrightarrow> step_sound A n s (replay_next es s ch)"
proof (cases es)
  case Nil
  assume "rising A n s es" "ring_ok A n ch"
  then show ?thesis
    using Nil by (auto simp: replay_next_def subscribe_def ring_ok_def intro!: live_sound) (auto simp: step_sound_def ring_ok_def)
qed (auto simp: replay_next_def rising_Cons step_sound_def)

lemma replay_since_rising:
  assumes "ring_ok A n ch" "s \<le> n"
  shows "rising A n s (replay_since s ch)"
  using assms by (auto simp: rising_def replay_since_def ring_ok_def sorted_wrt_map intro: sorted_wrt_filter)

lemma catch_up_sound: "rising A n s rows \<Longrightarrow> ring_ok A n ch \<Longrightarrow> step_sound A n s (catch_up_next rows s over ch)"
  by (cases rows) (auto simp: catch_up_next_def rising_Cons intro!: replay_sound replay_since_rising, auto simp: step_sound_def)

lemma opening_rising:
  assumes "distinct (map ev_seq rows)" "s \<le> n" "\<forall>e\<in>set rows. ev_seq e \<le> n \<and> e \<in> A"
  shows "rising A n s (sort_key ev_seq (filter (\<lambda>e. s < ev_seq e) rows))"
proof -
  let ?xs = "sort_key ev_seq (filter (\<lambda>e. s < ev_seq e) rows)"
  have "distinct (map ev_seq ?xs)" using assms(1) by (simp add: distinct_map distinct_filter inj_on_def)
  then have "sorted_wrt (<) (map ev_seq ?xs)" by (simp add: strict_sorted_iff)
  with assms(2,3) show ?thesis by (auto simp: rising_def)
qed

lemma client_sound: "client_ok A n s ch c \<Longrightarrow> ring_ok A n ch \<Longrightarrow> step_sound A n s (client_next ch c)"
  by (cases c)
    (auto intro: catch_up_sound replay_sound live_sound replay_since_rising opening_rising simp: rising_def,
     auto simp: step_sound_def)

lemma schedule_sound:
  assumes "client_ok A n s ch c" "ring_ok A n ch" "sorted_wrt (<) (n # map ev_seq (published as))" "set (published as) \<subseteq> A"
  shows "sorted_wrt (<) (s # map ev_seq (sent (fst (run_schedule as ch c)))) \<and> set (sent (fst (run_schedule as ch c))) \<subseteq> A"
  using assms
proof (induction as ch c arbitrary: n s rule: run_schedule.induct)
  case (2 e as ch c)
  then have e: "n < ev_seq e" "e \<in> A" by simp_all
  show ?case using 2(1) [OF client_ok_publish [OF 2(2) e] ring_ok_publish [OF 2(3) e]] 2(4,5) by simp
next
  case (3 as ch c)
  obtain y ch' c' where nxt: "client_next ch c = (y, ch', c')" by (cases "client_next ch c") auto
  obtain ys r where rest: "run_schedule as ch' c' = (ys, r)" by (cases "run_schedule as ch' c'") auto
  have "step_sound A n s (y, ch', c')" using client_sound [OF 3(2,3)] nxt by simp
  then have "sorted_wrt (<) (s # map ev_seq (sent (y # ys))) \<and> set (sent (y # ys)) \<subseteq> A"
    using 3(1) [OF nxt [symmetric] refl refl, of n] 3(4,5) rest by (cases y) (fastforce simp: step_sound_def)+
  then show ?case using nxt rest by simp
qed simp


section \<open>Nothing lost once subscribed\<close>

text \<open>The events up to the first that ends the run.\<close>

fun upto_end :: "bus_event list \<Rightarrow> bus_event list" where
  "upto_end [] = []"
| "upto_end (e # es) = (if ends_run e then [e] else e # upto_end es)"

text \<open>A subscribed client holding \<open>q\<close>, before and after the end of the run was published.\<close>

definition attached :: "run_channel \<Rightarrow> sse_client \<Rightarrow> bus_event list \<Rightarrow> bool \<Rightarrow> bool" where
  "attached ch c q over \<longleftrightarrow>
     (if over then ch_closed ch \<and> (c = Ended \<and> q = [] \<or> (\<exists>i l. c = Live i l \<and> ch_queues ch i = map Some q @ [None]))
      else \<not> ch_closed ch \<and> (\<exists>i l. c = Live i l \<and> i \<in> set (ch_subscribers ch) \<and> ch_queues ch i = map Some q))"

lemma attached_publish:
  assumes "attached ch c q over" "Suc (length q) < QUEUE_MAX"
  shows "attached (channel_publish e ch) c (if over then q else q @ [e]) (over \<or> ends_run e)"
proof (cases over)
  case False
  with assms obtain i l where c: "c = Live i l" "i \<in> set (ch_subscribers ch)" "ch_queues ch i = map Some q" "\<not> ch_closed ch"
    by (auto simp: attached_def)
  with assms(2) False show ?thesis by (simp add: attached_def channel_publish_def Let_def put_all_def has_room_def)
qed (use assms(1) in \<open>simp add: attached_def channel_publish_def\<close>)

lemma attached_next:
  assumes "attached ch c q over"
  shows "\<exists>y ch' c'. client_next ch c = (y, ch', c') \<and> attached ch' c' (tl q) over \<and>
    sent [y] = take 1 q \<and> (y = Stop \<longleftrightarrow> over \<and> q = [])"
  using assms by (cases q) (auto simp: attached_def live_next_def unsubscribe_def split: if_splits)

lemma attached_run:
  assumes "attached ch c q over" "length q + length (published as) < QUEUE_MAX"
  shows "\<exists>ys ch' c' q'. run_schedule as ch c = (ys, ch', c') \<and> length q' \<le> length q + length (published as) \<and>
    sent ys @ q' = q @ (if over then [] else upto_end (published as)) \<and>
    attached ch' c' q' (over \<or> (\<exists>e\<in>set (published as). ends_run e)) \<and>
    (Stop \<in> set ys \<longrightarrow> over \<or> (\<exists>e\<in>set (published as). ends_run e))"
  using assms
proof (induction as ch c arbitrary: q over rule: run_schedule.induct)
  case (2 e as ch c)
  have "attached (channel_publish e ch) c (if over then q else q @ [e]) (over \<or> ends_run e)"
    by (rule attached_publish) (use 2 in auto)
  from 2(1) [OF this] 2(3) show ?case by (cases over; cases "ends_run e") fastforce+
next
  case (3 as ch c)
  obtain y ch' c' where nxt: "client_next ch c = (y, ch', c')" "attached ch' c' (tl q) over"
    "sent [y] = take 1 q" "y = Stop \<longleftrightarrow> over \<and> q = []" using attached_next [OF 3(2)] by blast
  have "length (tl q) + length (published as) < QUEUE_MAX" using 3(3) by simp
  from 3(1) [OF nxt(1) [symmetric] refl refl nxt(2) this] obtain ys ch'' c'' q' where run: "run_schedule as ch' c' = (ys, ch'', c'')"
    "length q' \<le> length (tl q) + length (published as)" "sent ys @ q' = tl q @ (if over then [] else upto_end (published as))"
    "attached ch'' c'' q' (over \<or> (\<exists>e\<in>set (published as). ends_run e))" "Stop \<in> set ys \<longrightarrow> over \<or> (\<exists>e\<in>set (published as). ends_run e)"
    by blast
  have "sent (y # ys) @ q' = q @ (if over then [] else upto_end (published as))"
    using nxt(3) run(3) by (cases q; cases y) auto
  moreover have "run_schedule (Next # as) ch c = (y # ys, ch'', c'')" using nxt(1) run(1) by simp
  ultimately show ?case using run(2,4,5) nxt(4)
    by (intro exI [of _ "y # ys"] exI [of _ ch''] exI [of _ c''] exI [of _ q']) auto
qed auto

lemma attached_drain:
  assumes "attached ch c q over" "length q < k"
  shows "\<exists>ys r. run_schedule (replicate k Next) ch c = (ys, r) \<and> sent ys = q \<and> (Stop \<in> set ys \<longleftrightarrow> over)"
  using assms
proof (induction k arbitrary: ch c q)
  case (Suc k)
  obtain y ch' c' where nxt: "client_next ch c = (y, ch', c')" "attached ch' c' (tl q) over"
    "sent [y] = take 1 q" "y = Stop \<longleftrightarrow> over \<and> q = []" using attached_next [OF Suc.prems(1)] by blast
  show ?case
  proof (cases q)
    case (Cons e q')
    with Suc.IH [OF nxt(2)] Suc.prems(2) nxt show ?thesis by (cases y) fastforce+
  next
    case Nil
    obtain ys r where run: "run_schedule (replicate k Next) ch' c' = (ys, r)" by (cases "run_schedule (replicate k Next) ch' c'") auto
    have "published (replicate k Next) = []" by simp
    with attached_run [OF nxt(2), of "replicate k Next"] run Nil have "sent ys = []" "Stop \<in> set ys \<longrightarrow> over"
      by (auto simp: QUEUE_MAX_def RING_SIZE_def)
    with nxt run Nil show ?thesis by (cases y) auto
  qed
qed simp

lemma replay_run:
  assumes "\<not> ch_closed ch"
  shows "\<exists>m ch' c'. run_schedule (replicate (Suc (length es)) Next) ch (Replaying es l) = (map Sent es @ [Keepalive m], ch', c') \<and>
    attached ch' c' [] False"
proof (induction es arbitrary: l)
  case Nil
  show ?case using assms by (auto simp: replay_next_def subscribe_def live_next_def attached_def Let_def)
next
  case (Cons e es)
  have "run_schedule (Next # as) ch (Replaying (e # es) l) =
      (let (ys, r) = run_schedule as ch (Replaying es (ev_seq e)) in (Sent e # ys, r))" for as by (simp add: replay_next_def)
  from this [of "replicate (Suc (length es)) Next"] Cons [of "ev_seq e"] show ?case by (auto simp del: run_schedule.simps)
qed

text \<open>C21. A client loses nothing when nothing is published while it replays. On an open channel it is first
  sent every event of the ring above the number it resumes from, then every event published after it
  subscribed, up to the one that ends the run; once it has read as often as there are events it has seen
  them all, and its stream has stopped exactly when the run has ended. Less than 2000 events may be
  published meanwhile, the size of its queue.
\<close>

theorem event_stream_complete:
  assumes "\<not> ch_closed ch" and "length (published as) < 2000" and "length (published as) < k"
  shows "sent (fst (run_schedule (replicate (Suc (length (replay_since seen ch))) Next @ as @ replicate k Next) ch (Fresh seen))) =
      replay_since seen ch @ upto_end (published as) \<and>
    (Stop \<in> set (fst (run_schedule (replicate (Suc (length (replay_since seen ch))) Next @ as @ replicate k Next) ch (Fresh seen))) \<longleftrightarrow>
      (\<exists>e\<in>set (published as). ends_run e))"
proof -
  let ?es = "replay_since seen ch"
  have fresh: "run_schedule (Next # bs) ch (Fresh seen) = run_schedule (Next # bs) ch (Replaying ?es seen)" for bs by simp
  obtain m ch1 c1 where a: "run_schedule (replicate (Suc (length ?es)) Next) ch (Fresh seen) = (map Sent ?es @ [Keepalive m], ch1, c1)"
    "attached ch1 c1 [] False" using replay_run [OF assms(1), of ?es seen] fresh [of "replicate (length ?es) Next"] by (auto simp del: run_schedule.simps)
  define over where "over \<longleftrightarrow> (\<exists>e\<in>set (published as). ends_run e)"
  have "length ([] :: bus_event list) + length (published as) < QUEUE_MAX" using assms(2) by (simp add: QUEUE_MAX_def RING_SIZE_def)
  from attached_run [OF a(2) this, folded over_def] obtain ys ch2 c2 q where b: "run_schedule as ch1 c1 = (ys, ch2, c2)"
    "length q \<le> length (published as)" "sent ys @ q = upto_end (published as)" "attached ch2 c2 q over" "Stop \<in> set ys \<longrightarrow> over"
    by (simp del: split_paired_Ex) blast
  have "length q < k" using b(2) assms(3) by simp
  from attached_drain [OF b(4) this] obtain zs r where d: "run_schedule (replicate k Next) ch2 c2 = (zs, r)" "sent zs = q"
    "Stop \<in> set zs \<longleftrightarrow> over" by blast
  have "fst (run_schedule (replicate (Suc (length ?es)) Next @ as @ replicate k Next) ch (Fresh seen)) = (map Sent ?es @ [Keepalive m]) @ ys @ zs"
    using a(1) b(1) d(1) by (simp add: run_schedule_append del: replicate.simps)
  moreover have "sent (map Sent es) = es" for es by (induction es) simp_all
  ultimately show ?thesis using b(3,5) d(2,3) unfolding over_def [symmetric] by auto
qed

section \<open>What is lost\<close>

text \<open>A client that is past the point where it could still come to hold \<open>e\<close>.\<close>

fun misses :: "bus_event \<Rightarrow> run_channel \<Rightarrow> sse_client \<Rightarrow> bool" where
  "misses e ch (Replaying es l) \<longleftrightarrow> e \<notin> set es"
| "misses e ch (Live i l) \<longleftrightarrow> e \<notin> set (waiting (ch_queues ch i))"
| "misses e ch Ended \<longleftrightarrow> True"
| "misses e ch c \<longleftrightarrow> False"

lemma misses_publish: "misses e ch c \<Longrightarrow> d \<noteq> e \<or> (\<exists>es l. c = Replaying es l) \<Longrightarrow> misses e (channel_publish d ch) c"
  using waiting_publish [of d ch] by (cases c) (auto, metis UnE empty_iff empty_set set_ConsD set_append)

lemma misses_next:
  assumes "misses e ch c" "client_next ch c = (y, ch', c')"
  shows "misses e ch' c' \<and> y \<noteq> Sent e"
proof (cases c)
  case (Replaying es l)
  with assms show ?thesis
    by (auto simp: replay_next_def subscribe_def live_next_def split: list.splits if_splits)
next
  case (Live i l)
  with assms show ?thesis by (auto simp: live_next_def unsubscribe_def split: list.splits option.splits)
qed (use assms in auto)

lemma misses_run: "misses e ch c \<Longrightarrow> e \<notin> set (published as) \<Longrightarrow> e \<notin> set (sent (fst (run_schedule as ch c)))"
proof (induction as ch c rule: run_schedule.induct)
  case (2 d as ch c)
  then have "misses e (channel_publish d ch) c" by (intro misses_publish) auto
  with 2 show ?case by simp
next
  case (3 as ch c)
  obtain y ch' c' where nxt: "client_next ch c = (y, ch', c')" by (cases "client_next ch c") auto
  with misses_next [OF 3(2)] 3(1) [OF nxt [symmetric] refl refl] 3(3) show ?case by (cases y) (auto split: prod.splits)
qed simp

text \<open>C37. An event published while a client replays is lost for it. The ring is read before the client
  subscribes, and the generator waits for the client between two events: an event published in
  between enters the ring, but the client is never sent it, however long it goes on reading. When it is the
  event that ends the run and the replay is through, the stream stops without it.
\<close>

theorem replay_gap:
  assumes "\<not> ch_closed ch" and "e \<notin> set es" and "e \<notin> set (published as)"
  shows "e \<in> set (ch_ring (channel_publish e ch)) \<and>
    e \<notin> set (sent (fst (run_schedule (Pub e # as) ch (Replaying es l)))) \<and>
    (ends_run e \<and> es = [] \<longrightarrow> fst (run_schedule [Pub e, Next] ch (Replaying es l)) = [Stop])"
proof (intro conjI impI)
  show "e \<in> set (ch_ring (channel_publish e ch))"
    using assms(1) by (auto simp: channel_publish_def ring_append_def Let_def RING_SIZE_def)
  show "e \<notin> set (sent (fst (run_schedule (Pub e # as) ch (Replaying es l))))"
    using misses_run [of e "channel_publish e ch" "Replaying es l" as] assms(2,3) by simp
  show "fst (run_schedule [Pub e, Next] ch (Replaying es l)) = [Stop]" if "ends_run e \<and> es = []"
    using that assms(1) by (simp add: channel_publish_def replay_next_def Let_def)
qed

section \<open>Runs and their streams\<close>

text \<open>
  The worker publishes each event it emits (\<open>_emit\<close> of \<^verbatim>\<open>worker.py\<close>); the endpoints only add rows
  (\<open>_emit_event\<close> of \<^verbatim>\<open>api/runs.py\<close>). These are the events a row gained.
\<close>

definition new_events :: "(int \<Rightarrow> json) \<Rightarrow> clock \<Rightarrow> run_row \<Rightarrow> run_row \<Rightarrow> bus_event list" where
  "new_events payload now r r' =
     map (\<lambda>(s, k). \<lparr>ev_seq = s, ev_kind = k, ev_payload = payload s, ev_ts = now\<rparr>) (drop (length (run_events r)) (run_events r'))"

definition worker_publishes :: "(int \<Rightarrow> json) \<Rightarrow> clock \<Rightarrow> run_row \<Rightarrow> run_row \<Rightarrow> run_channel \<Rightarrow> run_channel" where
  "worker_publishes payload now r r' ch = fold channel_publish (new_events payload now r r') ch"

lemma idle_forever:
  assumes "ch_queues ch i = []"
  shows "run_schedule (replicate k Next) ch (Live i l) = (replicate k (Keepalive l), ch, Live i l)"
  using assms by (induction k) (simp_all add: live_next_def)

lemma drive_terminal:
  assumes "terminal (run_status r)" "drive_turn now later r outcome = Inr (st, u)"
  shows "u = id"
  using assms by (auto simp: drive_turn_def step_check_deadline_def split: run_status.splits option.splits if_splits)

text \<open>
  The stream of a cancelled run never ends. A cancellation through the endpoint finishes the row and adds
  its event there, but the channel does not hear of it, and the worker, which finds the run finished,
  publishes nothing in any later turn: a client that was watching is sent keepalives for ever.
\<close>

theorem cancelled_stream_hangs:
  assumes "cancel_run own peer_urls key now (Some r) = Inr u" and "ch_queues ch i = []"
    and "drive_turn now' later (u r) outcome = Inr (st, w)"
  shows "terminal (run_status (u r)) \<and> worker_publishes payload now' (u r) (w (u r)) ch = ch \<and>
    fst (run_schedule (replicate k Next) ch (Live i l)) = replicate k (Keepalive l)"
proof -
  have t: "terminal (run_status (u r))"
    using assms(1) by (auto simp: cancel_run_def Let_def cancel_def persist_transition_def emit_def split: option.splits if_splits sum.splits)
  from drive_terminal [OF this assms(3)] t idle_forever [OF assms(2)] show ?thesis
    by (simp add: worker_publishes_def new_events_def)
qed

section \<open>A concrete stream\<close>

definition demo_event :: "int \<Rightarrow> string \<Rightarrow> bus_event" where
  "demo_event n k = \<lparr>ev_seq = n, ev_kind = k, ev_payload = JNull, ev_ts = 0\<rparr>"

definition demo_channel :: run_channel where
  "demo_channel = channel_publish (demo_event 2 ''model_call_started'') (channel_publish (demo_event 1 ''run_started'') new_channel)"

lemma demo_channel_simps [simp]:
  "ch_ring demo_channel = [demo_event 1 ''run_started'', demo_event 2 ''model_call_started'']" "\<not> ch_closed demo_channel"
  "ch_queues demo_channel i = []" "ev_seq (demo_event n k) = n" "ev_kind (demo_event n k) = k"
  by (simp_all add: demo_channel_def demo_event_def new_channel_def channel_publish_def ring_append_def RING_SIZE_def TERMINAL_KINDS_def
      put_all_def)


theorem event_stream_complete_witness:
  "sent (fst (run_schedule (replicate 2 Next @ [Pub (demo_event 3 ''completed'')] @ replicate 2 Next) demo_channel (Fresh 1))) =
     [demo_event 2 ''model_call_started'', demo_event 3 ''completed'']"
proof -
  have "replay_since 1 demo_channel = [demo_event 2 ''model_call_started'']" by (simp add: replay_since_def)
  with event_stream_complete [of demo_channel "[Pub (demo_event 3 ''completed'')]" 2 1] show ?thesis
    by (simp add: numeral_2_eq_2 TERMINAL_KINDS_def)
qed

theorem replay_gap_witness:
  "fst (run_schedule [Pub (demo_event 3 ''completed''), Next] demo_channel (Replaying [] 2)) = [Stop]"
  using replay_gap [of demo_channel "demo_event 3 ''completed''" "[]" "[]" 2] by (simp add: TERMINAL_KINDS_def del: run_schedule.simps)

theorem cancelled_stream_hangs_witness:
  "\<exists>u st w. cancel_run ''n1'' Map.empty ''k'' 7 (Some demo_row) = Inr u \<and> drive_turn 8 9 (u demo_row) (Reply []) = Inr (st, w) \<and>
     terminal (run_status (u demo_row)) \<and> fst (run_schedule (replicate 5 Next) demo_channel (Live 0 2)) = replicate 5 (Keepalive 2)"
proof -
  obtain u where u: "cancel_run ''n1'' Map.empty ''k'' 7 (Some demo_row) = Inr u" and s: "run_status (u demo_row) = CANCELLED"
    by (simp add: demo_row_def new_run_row_def cancel_run_def maybe_redirect_to_owner_def cancel_def ctx_from_row_def
        persist_transition_def emit_def plain_def Let_def)
  then obtain st w where w: "drive_turn 8 9 (u demo_row) (Reply []) = Inr (st, w)"
    by (auto simp: drive_turn_def step_check_deadline_def)
  from cancelled_stream_hangs [OF u _ w, of demo_channel 0 "\<lambda>_. JNull" 5 2] u w show ?thesis by auto
qed

end
