(* ===== verification/Request_Gates.thy ===== *)
theory Request_Gates
  imports Cluster_Sync Json_Access
begin

text \<open>
  The two gates in front of every request: the list of paths an API key is locked to
  (\<^verbatim>\<open>app/middleware/allowed_paths.py\<close>) and the list of blocked addresses (\<^verbatim>\<open>app/middleware/ip_block.py\<close> with
  the address of \<^verbatim>\<open>app/observability/request_context.py\<close>). A database that does not answer is a missing
  table; the resolution of local addresses to public ones is a parameter. What the path gate decides
  is compared with the key the handlers authenticate (\<open>Api_Keys\<close>).
\<close>

section \<open>Requests and paths\<close>

record http_request =
  hr_path :: string
  hr_authorization :: "string option"
  hr_x_api_key :: "string option"
  hr_x_forwarded_for :: "string option"
  hr_x_real_ip :: "string option"
  hr_client_host :: "string option"

text \<open>\<open>p.replace("//", "/")\<close>, repeated while there is a double slash.\<close>

fun halve_slashes :: "string \<Rightarrow> string" where
  "halve_slashes (a # b # cs) =
     (if a = CHR ''/'' \<and> b = CHR ''/'' then CHR ''/'' # halve_slashes cs else a # halve_slashes (b # cs))"
| "halve_slashes cs = cs"

lemma halve_le: "length (halve_slashes p) \<le> length p"
  by (induction p rule: halve_slashes.induct) auto

lemma double_slash_Cons:
  "sublist ''//'' (a # cs) \<longleftrightarrow> (a = CHR ''/'' \<and> (\<exists>ds. cs = CHR ''/'' # ds)) \<or> sublist ''//'' cs"
  by (auto simp: sublist_Cons_right prefix_def)

lemma halve_less: "sublist ''//'' p \<Longrightarrow> length (halve_slashes p) < length p"
proof (induction p rule: halve_slashes.induct)
  case (1 a b cs)
  show ?case
  proof (cases "a = CHR ''/'' \<and> b = CHR ''/''")
    case True
    with halve_le [of cs] show ?thesis by simp
  next
    case False
    with 1 show ?thesis by (auto simp: double_slash_Cons [of a])
  qed
qed (auto simp: double_slash_Cons)

function collapse_slashes :: "string \<Rightarrow> string" where
  "collapse_slashes p = (if sublist ''//'' p then collapse_slashes (halve_slashes p) else p)"
  by pat_completeness auto

termination collapse_slashes
  by (relation "measure length") (auto intro: halve_less)

declare collapse_slashes.simps [simp del]

definition DEPLOY_PREFIXES :: "string list" where
  "DEPLOY_PREFIXES = [''/llm-proxy2-smoke'', ''/llm-proxy2'']"

definition normalize_path :: "string \<Rightarrow> string" where
  "normalize_path path =
     (if path = [] then ''/''
      else let p = (case find (\<lambda>d. prefix d path) DEPLOY_PREFIXES of
                      Some d \<Rightarrow> if drop (length d) path = [] then ''/'' else drop (length d) path
                    | None \<Rightarrow> path);
               q = collapse_slashes p
           in if 1 < length q \<and> last q = CHR ''/'' then butlast q else q)"

definition BYPASS_PREFIXES :: "string list" where
  "BYPASS_PREFIXES = [''/health'', ''/version'', ''/metrics'', ''/favicon'', ''/api/auth/'', ''/cluster/'', ''/assets/'']"

definition is_bypass_path :: "string \<Rightarrow> bool" where
  "is_bypass_path p \<longleftrightarrow> any_prefix BYPASS_PREFIXES p"

section \<open>The path gate\<close>

definition extract_raw_key :: "http_request \<Rightarrow> string option" where
  "extract_raw_key r =
     (let auth = or_else (hr_authorization r) [] in
      if prefix ''bearer '' (lower auth) then (let k = strip (drop 7 auth) in if k = [] then None else Some k)
      else hr_x_api_key r)"

datatype gate = Pass | Refuse_path ident string | Refuse_address

text \<open>\<open>set(key.allowed_paths or [])\<close>; what cannot be made a set raises.\<close>

definition allowed_set :: "json \<Rightarrow> shape_error + json list" where
  "allowed_set v = bind_result (json_items v) (map_m hashable)"

definition DEBUG_ECHO_PATH :: string where "DEBUG_ECHO_PATH = ''/api/debug/echo-client''"

text \<open>The keys are \<open>None\<close> when the database raises; any exception lets the request through.\<close>

definition allowed_paths_gate :: "auth_env \<Rightarrow> api_key_row list option \<Rightarrow> http_request \<Rightarrow> gate" where
  "allowed_paths_gate e db r =
     (let path = normalize_path (hr_path r); raw = extract_raw_key r in
      if is_bypass_path path \<or> \<not> truthy raw then Pass
      else case db of
             None \<Rightarrow> Pass
           | Some keys \<Rightarrow>
               (case find (valid_row e (the raw)) keys of
                  None \<Rightarrow> Pass
                | Some k \<Rightarrow>
                    if ak_allowed_paths k = JNull \<or> (debug_echo_enabled k \<and> path = DEBUG_ECHO_PATH) then Pass
                    else (case allowed_set (ak_allowed_paths k) of
                            Inl _ \<Rightarrow> Pass
                          | Inr allowed \<Rightarrow> if JStr path \<in> set allowed then Pass else Refuse_path (ak_id k) path)))"

section \<open>The address gate\<close>

record ip_cache =
  ic_blocked :: "string list"
  ic_loaded_at :: clock

definition empty_ip_cache :: ip_cache where
  "empty_ip_cache = \<lparr>ic_blocked = [], ic_loaded_at = 0\<rparr>"

definition BLOCK_TTL_SEC :: clock where "BLOCK_TTL_SEC = 30"

definition ADMIN_RECOVERY_PREFIXES :: "string list" where
  "ADMIN_RECOVERY_PREFIXES = [''/api/auth/login'', ''/api/admin/blocked-ips'']"

definition load_blocked_set :: "blocked_ip list option \<Rightarrow> string list" where
  "load_blocked_set db =
     (case db of
        None \<Rightarrow> []
      | Some rows \<Rightarrow> filter (\<lambda>ip. ip \<noteq> []) (map bi_ip (filter (\<lambda>b. bi_deleted_at b = None) rows)))"

definition get_blocked_set :: "blocked_ip list option \<Rightarrow> clock \<Rightarrow> ip_cache \<Rightarrow> string list \<times> ip_cache" where
  "get_blocked_set db now c =
     (if BLOCK_TTL_SEC < now - ic_loaded_at c
      then (let s = load_blocked_set db in (s, \<lparr>ic_blocked = s, ic_loaded_at = now\<rparr>))
      else (ic_blocked c, c))"

definition is_blocked :: "blocked_ip list option \<Rightarrow> clock \<Rightarrow> string option \<Rightarrow> ip_cache \<Rightarrow> bool \<times> ip_cache" where
  "is_blocked db now ip c =
     (if \<not> truthy ip then (False, c)
      else let (s, c') = get_blocked_set db now c in (the ip \<in> set s, c'))"

definition extract_client_ip_from_request :: "http_request \<Rightarrow> string option" where
  "extract_client_ip_from_request r =
     (let hop = strip (fst (partition_at CHR '','' (or_else (hr_x_forwarded_for r) []))) in
      if truthy (hr_x_forwarded_for r) \<and> hop \<noteq> [] then Some hop
      else if truthy (hr_x_real_ip r) \<and> strip (the (hr_x_real_ip r)) \<noteq> [] then Some (strip (the (hr_x_real_ip r)))
      else if truthy (hr_client_host r) then hr_client_host r
      else None)"

text \<open>\<open>public\<close> is the public address configured for a local one.\<close>

definition ip_block_gate ::
  "(string \<Rightarrow> string option) \<Rightarrow> blocked_ip list option \<Rightarrow> clock \<Rightarrow> http_request \<Rightarrow> ip_cache \<Rightarrow> gate \<times> ip_cache" where
  "ip_block_gate public db now r c =
     (if any_prefix ADMIN_RECOVERY_PREFIXES (hr_path r) then (Pass, c)
      else let raw = extract_client_ip_from_request r;
               rewritten = (if truthy raw then public (the raw) else None);
               (hit, c1) = is_blocked db now raw c
           in if hit then (Refuse_address, c1)
              else if truthy rewritten
              then (let (hit', c2) = is_blocked db now rewritten c1 in (if hit' then Refuse_address else Pass, c2))
              else (Pass, c1))"

section \<open>Normal forms of paths\<close>

text \<open>The loop is one pass that keeps a slash only when none follows.\<close>

fun squeeze :: "string \<Rightarrow> string" where
  "squeeze (a # b # cs) = (if a = CHR ''/'' \<and> b = CHR ''/'' then squeeze (b # cs) else a # squeeze (b # cs))"
| "squeeze cs = cs"

lemma squeeze_slashes: "squeeze (CHR ''/'' # CHR ''/'' # cs) = squeeze (CHR ''/'' # cs)" by simp

lemma squeeze_Cons_cong: "squeeze (b # cs) = squeeze (b # ds) \<Longrightarrow> squeeze (a # b # cs) = squeeze (a # b # ds)" by auto

lemma hd_halve: "\<exists>ds. halve_slashes (b # cs) = b # ds" by (cases cs) auto

lemma squeeze_halve: "squeeze (halve_slashes p) = squeeze p" and squeeze_halve_slash: "squeeze (CHR ''/'' # halve_slashes p) = squeeze (CHR ''/'' # p)"
proof (induction p rule: halve_slashes.induct)
  case (1 a b cs)
  {
    case 1
    show ?case
    proof (cases "a = CHR ''/'' \<and> b = CHR ''/''")
      case True
      then show ?thesis using "1.IH"(2) by simp
    next
      case False
      obtain ds where ds: "halve_slashes (b # cs) = b # ds" using hd_halve by blast
      then have "squeeze (b # ds) = squeeze (b # cs)" using False "1.IH"(3) by simp
      then have "squeeze (a # b # ds) = squeeze (a # b # cs)" by (rule squeeze_Cons_cong)
      with False ds show ?thesis by (auto simp del: squeeze.simps)
    qed
  next
    case 2
    show ?case
    proof (cases "a = CHR ''/'' \<and> b = CHR ''/''")
      case True
      then show ?thesis using "1.IH"(2) by simp
    next
      case False
      obtain ds where ds: "halve_slashes (b # cs) = b # ds" using hd_halve by blast
      then have "squeeze (b # ds) = squeeze (b # cs)" using False "1.IH"(3) by simp
      then have "squeeze (a # b # ds) = squeeze (a # b # cs)" by (rule squeeze_Cons_cong)
      then have "squeeze (CHR ''/'' # a # b # ds) = squeeze (CHR ''/'' # a # b # cs)" by (rule squeeze_Cons_cong)
      with False ds show ?thesis by (auto simp del: squeeze.simps)
    qed
  }
qed auto

lemma squeeze_id: "\<not> sublist ''//'' p \<Longrightarrow> squeeze p = p"
  by (induction p rule: squeeze.induct) (auto simp: double_slash_Cons)

lemma collapse_squeeze: "collapse_slashes p = squeeze p"
proof (induction p rule: collapse_slashes.induct)
  case (1 p)
  then show ?case by (cases "sublist ''//'' p") (simp_all add: collapse_slashes.simps [of p] squeeze_id squeeze_halve)
qed

lemma hd_squeeze: "\<exists>ds. squeeze (b # cs) = b # ds"
  by (induction cs arbitrary: b) auto

lemma squeezed: "\<not> sublist ''//'' (squeeze p)"
proof (induction p rule: squeeze.induct)
  case (1 a b cs)
  have "\<exists>ds. squeeze (b # cs) = b # ds" by (rule hd_squeeze)
  with 1 show ?case by (auto simp: double_slash_Cons)
qed (auto simp: double_slash_Cons)

lemma normalize_path_normal: "\<not> sublist ''//'' (normalize_path p)"
proof -
  have "\<not> sublist ''//'' (butlast q)" if "\<not> sublist ''//'' q" for q :: string
    using that by (metis sublist_butlast sublist_order.order.trans)
  then show ?thesis by (auto simp: normalize_path_def Let_def collapse_squeeze squeezed double_slash_Cons)
qed

section \<open>What the path gate guarantees\<close>

text \<open>The key the handlers authenticate with (\<open>get_api_key_record\<close>): \<open>x-api-key\<close> first, the bearer token otherwise.\<close>

abbreviation authenticates :: "auth_env \<Rightarrow> http_request \<Rightarrow> api_key_row list \<Rightarrow> rate_state \<Rightarrow> api_key_row \<Rightarrow> bool" where
  "authenticates e r keys st k \<equiv>
     (\<exists>rec w. get_api_key_record e (hr_x_api_key r) (hr_authorization r) (keys, st) = (Inr rec, w) \<and> kr_id rec = ak_id k)"

definition handler_key :: "http_request \<Rightarrow> string option" where
  "handler_key r =
     (if truthy (hr_x_api_key r) then hr_x_api_key r
      else case hr_authorization r of
             Some a \<Rightarrow> if prefix ''bearer '' (lower a) then Some (strip (drop 7 a)) else hr_x_api_key r
           | None \<Rightarrow> hr_x_api_key r)"

lemma authenticated_row:
  assumes "get_api_key_record e (hr_x_api_key r) (hr_authorization r) (keys, st) = (Inr rec, w)"
  obtains k where "truthy (handler_key r)" "find (valid_row e (the (handler_key r))) keys = Some k" "kr_id rec = ak_id k"
proof -
  obtain keys' st' where "verify_api_key e (handler_key r) (keys, st) = (Inr rec, keys', st')"
    using assms by (cases w) (auto simp: get_api_key_record_def handler_key_def [symmetric] Let_def split: if_splits)
  then show ?thesis by (rule verify_api_key_Inr) (rule that)
qed

lemma one_header_same_key:
  assumes "hr_authorization r = None \<or> \<not> truthy (hr_x_api_key r)" and "truthy (handler_key r)"
  shows "extract_raw_key r = handler_key r"
  using assms by (auto simp: extract_raw_key_def handler_key_def or_else_def truthy_def Let_def split: option.splits if_splits)

lemma allowed_set_strings: "allowed_set (JList (map JStr ps)) = Inr (map JStr ps)"
proof -
  have "map_m hashable (map JStr ps) = Inr (map JStr ps)" by (induction ps) (simp_all add: hashable_def)
  then show ?thesis by (simp add: allowed_set_def)
qed

text \<open>C13. A key locked to a list of paths is confined to it. A request that carries its key in one header only,
  passes the gate while the database answers and is authenticated by the handler as a key with a list of
  allowed paths asks for a normalised path of that list, for a path exempt for everyone, or for the debug
  echo of a key that has it enabled.
\<close>

theorem paths_enforced:
  assumes "allowed_paths_gate e (Some keys) r = Pass" and "hr_authorization r = None \<or> \<not> truthy (hr_x_api_key r)"
    and "get_api_key_record e (hr_x_api_key r) (hr_authorization r) (keys, st) = (Inr rec, w)"
    and "distinct (map ak_id keys)" and "k \<in> set keys" "ak_id k = kr_id rec" "ak_allowed_paths k = JList (map JStr ps)"
  shows "normalize_path (hr_path r) \<in> set ps \<or> is_bypass_path (normalize_path (hr_path r)) \<or>
    (debug_echo_enabled k \<and> normalize_path (hr_path r) = ''/api/debug/echo-client'')"
proof -
  obtain k' where k': "truthy (handler_key r)" "find (valid_row e (the (handler_key r))) keys = Some k'" "kr_id rec = ak_id k'"
    using authenticated_row [OF assms(3)] by blast
  have "k' \<in> set keys" using k'(2) by (auto simp: find_Some_iff)
  with assms(4-6) k'(3) have "k' = k" by (metis distinct_map inj_on_eq_iff)
  with one_header_same_key [OF assms(2) k'(1)] k' assms(1,7) show ?thesis
    by (auto simp: allowed_paths_gate_def Let_def allowed_set_strings DEBUG_ECHO_PATH_def split: if_splits)
qed

text \<open>C35. Two headers lift the lock. The gate looks at the bearer token first, the handlers at \<open>x-api-key\<close>: a request
  that adds an unknown bearer token to a locked key passes the gate for every path and is still
  authenticated with the locked key.
\<close>

theorem second_header_lifts_lock:
  assumes "find (valid_row e (strip token)) keys = None" and "prefix ''bearer '' (lower a)" and "token = drop 7 a"
    and "truthy x"
  shows "allowed_paths_gate e (Some keys) \<lparr>hr_path = p, hr_authorization = Some a, hr_x_api_key = x, hr_x_forwarded_for = f,
      hr_x_real_ip = i, hr_client_host = h\<rparr> = Pass \<and>
    get_api_key_record e x (Some a) (keys, st) = verify_api_key e x (keys, st)"
proof -
  have "a \<noteq> []" using assms(2) by auto
  with assms show ?thesis
    by (auto simp: allowed_paths_gate_def extract_raw_key_def get_api_key_record_def or_else_def Let_def truthy_def split: option.splits)
qed

section \<open>What the address gate guarantees\<close>

text \<open>The caches a node can have, while the table changes over time and may be unreadable.\<close>

inductive ip_cache_reach :: "(clock \<Rightarrow> blocked_ip list option) \<Rightarrow> clock \<Rightarrow> ip_cache \<Rightarrow> bool" where
  start: "ip_cache_reach tables t empty_ip_cache"
| serve: "ip_cache_reach tables t c \<Longrightarrow> t \<le> now \<Longrightarrow> ip_block_gate public (tables now) now r c = (g, c') \<Longrightarrow> ip_cache_reach tables now c'"

definition cache_from :: "(clock \<Rightarrow> blocked_ip list option) \<Rightarrow> clock \<Rightarrow> ip_cache \<Rightarrow> bool" where
  "cache_from tables t c \<longleftrightarrow> c = empty_ip_cache \<or> ic_loaded_at c \<le> t \<and> ic_blocked c = load_blocked_set (tables (ic_loaded_at c))"

lemma is_blocked_from:
  assumes "cache_from tables t c" "t \<le> now" "is_blocked (tables now) now ip c = (b, c')"
  shows "cache_from tables now c'"
  using assms by (auto simp: is_blocked_def get_blocked_set_def cache_from_def Let_def split: if_splits)

lemma gate_cache:
  assumes "ip_block_gate public db now r c = (g, c')"
  obtains "c' = c" | b where "is_blocked db now (extract_client_ip_from_request r) c = (b, c')"
    | b c1 b' ip where "is_blocked db now (extract_client_ip_from_request r) c = (b, c1)" "is_blocked db now ip c1 = (b', c')"
  using assms by (auto simp: ip_block_gate_def Let_def split: if_splits prod.splits)

lemma ip_cache_from:
  assumes "ip_cache_reach tables t c"
  shows "cache_from tables t c"
  using assms
proof (induction rule: ip_cache_reach.induct)
  case (serve tables t c now public r g c')
  then have c: "cache_from tables now c" by (auto simp: cache_from_def)
  from serve.hyps(3) show ?case
    by (rule gate_cache) (use c is_blocked_from [of tables now _ now] in blast)+
qed (simp add: cache_from_def)

text \<open>
  Blocking an address takes effect within thirty seconds. An address that has been in the table, readable
  and not deleted, for more than thirty seconds is refused on every path but the two an administrator needs
  to undo the block, whatever was cached before, once the clock is past its first thirty seconds.
\<close>

theorem block_takes_effect:
  assumes "ip_cache_reach tables t c" and "t \<le> now" and "30 < now" and "t0 + 30 < now"
    and "\<forall>u. t0 \<le> u \<and> u \<le> now \<longrightarrow> (\<exists>rows b. tables u = Some rows \<and> b \<in> set rows \<and> bi_ip b = ip \<and> bi_deleted_at b = None)"
    and "extract_client_ip_from_request r = Some ip" and "ip \<noteq> []" and "\<not> any_prefix ADMIN_RECOVERY_PREFIXES (hr_path r)"
  shows "fst (ip_block_gate public (tables now) now r c) = Refuse_address"
proof -
  have load: "ip \<in> set (load_blocked_set (tables u))" if "t0 \<le> u" "u \<le> now" for u
    using assms(5,7) that by (fastforce simp: load_blocked_set_def)
  have now: "ip \<in> set (load_blocked_set (tables now))" by (rule load) (use assms(4) in auto)
  have "fst (is_blocked (tables now) now (Some ip) c)"
  proof (cases "BLOCK_TTL_SEC < now - ic_loaded_at c")
    case True
    with now assms(7) show ?thesis by (simp add: is_blocked_def get_blocked_set_def truthy_def Let_def)
  next
    case False
    then have "c \<noteq> empty_ip_cache" using assms(3) by (auto simp: empty_ip_cache_def BLOCK_TTL_SEC_def)
    then have "ic_loaded_at c \<le> now" "ic_blocked c = load_blocked_set (tables (ic_loaded_at c))"
      using ip_cache_from [OF assms(1)] assms(2) by (auto simp: cache_from_def)
    moreover have "t0 \<le> ic_loaded_at c" using False assms(4) by (simp add: BLOCK_TTL_SEC_def)
    ultimately show ?thesis using load False assms(7) by (simp add: is_blocked_def get_blocked_set_def truthy_def)
  qed
  with assms(6,8) show ?thesis by (auto simp: ip_block_gate_def Let_def split: prod.splits)
qed

section \<open>Concrete requests\<close>

text \<open>A key locked to one path; its secret is \<open>secret\<close>.\<close>

definition locked_key :: api_key_row where
  "locked_key = demo_key \<lparr>rate_limit_rpm := None, key_hash := ''secret'', ak_allowed_paths := JList (map JStr [''/v1/messages''])\<rparr>"

definition plain_auth :: auth_env where
  "plain_auth = demo_auth \<lparr>hash_key := id\<rparr>"

definition keyed_request :: "string \<Rightarrow> string option \<Rightarrow> http_request" where
  "keyed_request path auth =
     \<lparr>hr_path = path, hr_authorization = auth, hr_x_api_key = Some ''secret'', hr_x_forwarded_for = None, hr_x_real_ip = Some ''10.0.0.1'',
      hr_client_host = None\<rparr>"

lemma locked_admitted: "\<exists>rec w. get_api_key_record plain_auth (Some ''secret'') auth ([locked_key], no_requests) = (Inr rec, w) \<and> kr_id rec = ''k''"
proof -
  let ?v = "verify_api_key plain_auth (Some ''secret'') ([locked_key], no_requests)"
  have "(case fst ?v of Inr rec \<Rightarrow> kr_id rec = ''k'' | _ \<Rightarrow> False)" by code_simp
  moreover have "get_api_key_record plain_auth (Some ''secret'') auth ([locked_key], no_requests) = ?v"
    by (simp add: get_api_key_record_def truthy_def Let_def)
  ultimately show ?thesis by (cases ?v) (auto split: sum.splits)
qed

theorem paths_enforced_witness:
  "allowed_paths_gate plain_auth (Some [locked_key]) (keyed_request ''//v1/messages/'' None) = Pass \<and>
   normalize_path ''//v1/messages/'' = ''/v1/messages''"
proof -
  have gate: "allowed_paths_gate plain_auth (Some [locked_key]) (keyed_request ''//v1/messages/'' None) = Pass" by code_simp
  obtain rec w where a: "get_api_key_record plain_auth (Some ''secret'') None ([locked_key], no_requests) = (Inr rec, w)" "kr_id rec = ''k''"
    using locked_admitted by blast
  have "\<not> is_bypass_path (normalize_path ''//v1/messages/'')" by code_simp
  with paths_enforced [OF gate, of no_requests rec w locked_key "[''/v1/messages'']"] a gate show ?thesis
    by (simp add: keyed_request_def locked_key_def demo_key_def)
qed

theorem second_header_lifts_lock_witness:
  "allowed_paths_gate plain_auth (Some [locked_key]) (keyed_request ''/v1/runs'' (Some ''Bearer nobody'')) = Pass \<and>
   allowed_paths_gate plain_auth (Some [locked_key]) (keyed_request ''/v1/runs'' None) = Refuse_path ''k'' ''/v1/runs''"
proof
  have "find (valid_row plain_auth (strip ''nobody'')) [locked_key] = None" "prefix ''bearer '' (lower ''Bearer nobody'')"
    "''nobody'' = drop 7 ''Bearer nobody''" "truthy (Some ''secret'')" by code_simp+
  from second_header_lifts_lock [OF this] show "allowed_paths_gate plain_auth (Some [locked_key]) (keyed_request ''/v1/runs'' (Some ''Bearer nobody'')) = Pass"
    by (simp add: keyed_request_def)
  show "allowed_paths_gate plain_auth (Some [locked_key]) (keyed_request ''/v1/runs'' None) = Refuse_path ''k'' ''/v1/runs''" by code_simp
qed

definition blocked_row :: blocked_ip where
  "blocked_row = \<lparr>bi_ip = ''10.0.0.1'', bi_reason = None, bi_added_by = None, bi_added_at = Some 3, bi_deleted_at = None\<rparr>"

theorem block_takes_effect_witness:
  "fst (ip_block_gate (\<lambda>_. None) (Some [blocked_row]) 100 (keyed_request ''/v1/messages'' None) empty_ip_cache) = Refuse_address"
proof -
  have "extract_client_ip_from_request (keyed_request ''/v1/messages'' None) = Some ''10.0.0.1''"
    "\<not> any_prefix ADMIN_RECOVERY_PREFIXES (hr_path (keyed_request ''/v1/messages'' None))" by code_simp+
  with block_takes_effect [OF ip_cache_reach.start [of "\<lambda>_. Some [blocked_row]" 0], of 100 50 "''10.0.0.1''" "keyed_request ''/v1/messages'' None" "\<lambda>_. None"]
  show ?thesis by (simp add: blocked_row_def)
qed

end
