(* ===== verification/Key_Policy.thy ===== *)
theory Key_Policy
  imports Json_Access
begin

text \<open>
  What the holder of a key may do beyond plain requests: the tools of the MCP endpoint
  (\<^verbatim>\<open>app/mcp_server/policy.py\<close> and the gates of \<^verbatim>\<open>app/mcp_server/server.py\<close>), the settings it may change itself
  (\<^verbatim>\<open>app/integration/self_update.py\<close>) and the permissions of the administrative roles (\<^verbatim>\<open>app/auth/rbac.py\<close>). A
  row of the key table is a function from column names to values, because these operations address columns
  by name. A JSON number without fraction stands for a Python integer.
\<close>

type_synonym key_columns = "string \<Rightarrow> json"

text \<open>The columns of \<open>ApiKey\<close> and the fields of the \<open>ApiKeyRecord\<close> that \<open>verify_api_key\<close> returns.\<close>

definition API_KEY_COLUMNS :: "string list" where
  "API_KEY_COLUMNS =
     [''id'', ''name'', ''key_hash'', ''key_prefix'', ''encrypted_key'', ''key_type'', ''enabled'', ''total_requests'', ''total_tokens'',
      ''total_cost_usd'', ''spending_cap_usd'', ''rate_limit_rpm'', ''rate_limit_tier'', ''semantic_cache_enabled'', ''daily_soft_cap_usd'',
      ''daily_hard_cap_usd'', ''hourly_cap_usd'', ''caller_memory_ttl_days'', ''last_user_edit_at'', ''day_bucket_ts'', ''day_cost_usd'',
      ''hour_bucket_ts'', ''hour_cost_usd'', ''last_used_at'', ''created_at'', ''deleted_at'', ''lmrh_polling_rpm'', ''lmrh_quotes_rpm'',
      ''blocked_companies'', ''allowed_companies'', ''blocked_models'', ''allowed_models'', ''allowed_paths'', ''debug_echo_enabled'',
      ''system_prompt_mcp_augmentation'', ''mcp_tools_allow'', ''mcp_tools_deny'', ''mcp_schema_token_budget'',
      ''refusal_detection_enabled'', ''refusal_prompt_hardening'', ''refusal_retry_enabled'', ''default_refuse_tolerance'',
      ''refusal_retry_streaming_heartbeat'', ''refusal_retry_max_attempts'', ''self_edit_permissions'']"

definition RECORD_FIELDS :: "string list" where
  "RECORD_FIELDS =
     [''id'', ''name'', ''key_type'', ''semantic_cache_enabled'', ''budget_status'', ''rate_limit_tier'', ''blocked_companies'',
      ''allowed_paths'', ''debug_echo_enabled'', ''default_refuse_tolerance'', ''refusal_retry_enabled'',
      ''refusal_retry_streaming_heartbeat'']"

text \<open>The attributes of the record made from a row; the lists of strings among them are copied.\<close>

definition key_record_of :: "key_columns \<Rightarrow> string \<Rightarrow> json option" where
  "key_record_of row n = (if n \<in> set RECORD_FIELDS then Some (row n) else None)"

definition py_getattr :: "(string \<Rightarrow> json option) \<Rightarrow> string \<Rightarrow> json \<Rightarrow> json" where
  "py_getattr rec n d = (case rec n of Some v \<Rightarrow> v | None \<Rightarrow> d)"

section \<open>Tools\<close>

record mcp_tool =
  tool_name :: string
  tool_schema :: json

record mcp_policy =
  mcp_tools_allow :: "string list option"
  mcp_tools_deny :: "string list option"
  mcp_schema_token_budget :: "int option"

definition matches_any :: "string \<Rightarrow> string list option \<Rightarrow> bool" where
  "matches_any name globs = (case globs of None \<Rightarrow> False | Some gs \<Rightarrow> list_ex (fnmatchcase name) gs)"

definition is_tool_allowed_for_key :: "string \<Rightarrow> string list option \<Rightarrow> string list option \<Rightarrow> bool" where
  "is_tool_allowed_for_key name allow deny =
     (if matches_any name deny then False
      else if allow = None then True
      else if allow = Some [] then False
      else matches_any name allow)"

definition estimate_schema_tokens :: "(json \<Rightarrow> string option) \<Rightarrow> json \<Rightarrow> int" where
  "estimate_schema_tokens dumps schema =
     (if \<not> json_truthy schema then 0
      else case dumps schema of None \<Rightarrow> 0 | Some s \<Rightarrow> max 0 (int (length s) div 4))"

definition filter_tools_for_key :: "mcp_tool list \<Rightarrow> string list option \<Rightarrow> string list option \<Rightarrow> mcp_tool list" where
  "filter_tools_for_key tools allow deny = filter (\<lambda>t. is_tool_allowed_for_key (tool_name t) allow deny) tools"

definition check_token_budget :: "(json \<Rightarrow> string option) \<Rightarrow> mcp_tool list \<Rightarrow> int option \<Rightarrow> bool \<times> int" where
  "check_token_budget dumps tools budget =
     (let total = sum_list (map (estimate_schema_tokens dumps \<circ> tool_schema) tools)
      in (case budget of None \<Rightarrow> True | Some b \<Rightarrow> total \<le> b, total))"

text \<open>The two gates; \<open>Inl\<close> is a refusal. Without a policy everything passes.\<close>

datatype mcp_refusal = Token_budget_exceeded int int | Tool_denied string

definition filtered_list_tools :: "(json \<Rightarrow> string option) \<Rightarrow> mcp_policy option \<Rightarrow> mcp_tool list \<Rightarrow> mcp_refusal + mcp_tool list" where
  "filtered_list_tools dumps policy tools =
     (case policy of
        None \<Rightarrow> Inr tools
      | Some p \<Rightarrow>
          let shown = filter_tools_for_key tools (mcp_tools_allow p) (mcp_tools_deny p);
              (ok, total) = check_token_budget dumps shown (mcp_schema_token_budget p)
          in if ok then Inr shown else Inl (Token_budget_exceeded total (the (mcp_schema_token_budget p))))"

definition gated_call_tool :: "mcp_policy option \<Rightarrow> string \<Rightarrow> mcp_refusal + unit" where
  "gated_call_tool policy name =
     (case policy of
        None \<Rightarrow> Inr ()
      | Some p \<Rightarrow> if is_tool_allowed_for_key name (mcp_tools_allow p) (mcp_tools_deny p) then Inr () else Inl (Tool_denied name))"

definition as_globs :: "json \<Rightarrow> string list option" where
  "as_globs j = (case j of JList js \<Rightarrow> Some (concat (map (\<lambda>x. case x of JStr s \<Rightarrow> [s] | _ \<Rightarrow> []) js)) | _ \<Rightarrow> None)"

definition as_budget :: "json \<Rightarrow> int option" where
  "as_budget j = (case j of JNum q \<Rightarrow> Some \<lfloor>q\<rfloor> | _ \<Rightarrow> None)"

text \<open>The policy the authentication of the MCP endpoint puts in place for a request.\<close>

definition request_policy :: "key_columns \<Rightarrow> mcp_policy" where
  "request_policy row =
     (let rec = key_record_of row
      in \<lparr>mcp_tools_allow = as_globs (py_getattr rec ''mcp_tools_allow'' JNull),
          mcp_tools_deny = as_globs (py_getattr rec ''mcp_tools_deny'' JNull),
          mcp_schema_token_budget = as_budget (py_getattr rec ''mcp_schema_token_budget'' JNull)\<rparr>)"

text \<open>The policy the row asks for.\<close>

definition row_policy :: "key_columns \<Rightarrow> mcp_policy" where
  "row_policy row =
     \<lparr>mcp_tools_allow = as_globs (row ''mcp_tools_allow''), mcp_tools_deny = as_globs (row ''mcp_tools_deny''),
      mcp_schema_token_budget = as_budget (row ''mcp_schema_token_budget'')\<rparr>"

section \<open>Changing one's own settings\<close>

datatype field_kind = List_str_or_null | Int_or_null | Bool_kind

definition ELIGIBLE_FIELDS :: "(string \<times> field_kind) list" where
  "ELIGIBLE_FIELDS =
     [(''mcp_tools_allow'', List_str_or_null), (''mcp_tools_deny'', List_str_or_null), (''mcp_schema_token_budget'', Int_or_null),
      (''system_prompt_mcp_augmentation'', Bool_kind), (''refusal_detection_enabled'', Bool_kind), (''refusal_prompt_hardening'', Bool_kind),
      (''refusal_retry_enabled'', Bool_kind), (''refusal_retry_max_attempts'', Int_or_null), (''semantic_cache_enabled'', Bool_kind)]"

definition FORBIDDEN_FIELDS :: "string list" where
  "FORBIDDEN_FIELDS =
     [''id'', ''key'', ''encrypted_key'', ''key_type'', ''enabled'', ''deleted_at'', ''self_edit_permissions'', ''spending_cap_usd'',
      ''daily_soft_cap_usd'', ''daily_hard_cap_usd'', ''hourly_cap_usd'', ''day_cost_usd'', ''hour_cost_usd'', ''day_bucket_ts'',
      ''hour_bucket_ts'', ''rate_limit_rpm'', ''rate_limit_tier'', ''blocked_companies'', ''blocked_models'', ''allowed_models'',
      ''allowed_paths'', ''debug_echo_enabled'']"

definition is_int :: "rat \<Rightarrow> bool" where
  "is_int q \<longleftrightarrow> of_int \<lfloor>q\<rfloor> = q"

definition coerce_value :: "string \<Rightarrow> json \<Rightarrow> string + json" where
  "coerce_value field v =
     (case map_of ELIGIBLE_FIELDS field of
        None \<Rightarrow> Inl ''field not eligible for self-edit''
      | Some Bool_kind \<Rightarrow> (case v of JBool b \<Rightarrow> Inr v | JNum q \<Rightarrow> Inr (JBool (q \<noteq> 0)) | _ \<Rightarrow> Inl ''expected bool'')
      | Some Int_or_null \<Rightarrow>
          (case v of JNull \<Rightarrow> Inr v | JBool _ \<Rightarrow> Inl ''expected int or null, got bool''
           | JNum q \<Rightarrow> if is_int q then Inr v else Inl ''expected int or null'' | _ \<Rightarrow> Inl ''expected int or null'')
      | Some List_str_or_null \<Rightarrow>
          (case v of JNull \<Rightarrow> Inr v
           | JList xs \<Rightarrow> if list_all (\<lambda>x. case x of JStr _ \<Rightarrow> True | _ \<Rightarrow> False) xs then Inr v else Inl ''expected list[str] or null''
           | _ \<Rightarrow> Inl ''expected list[str] or null''))"

record self_update_result =
  su_applied :: jdict
  su_denied :: "(string \<times> string) list"

definition never_editable :: "string \<Rightarrow> bool" where
  "never_editable f \<longleftrightarrow> f \<in> set FORBIDDEN_FIELDS \<or> prefix ''compliance_'' f \<or> prefix ''oauth_'' f"

fun apply_updates :: "string list \<Rightarrow> jdict \<Rightarrow> key_columns \<Rightarrow> self_update_result \<times> key_columns" where
  "apply_updates perms [] row = (\<lparr>su_applied = [], su_denied = []\<rparr>, row)"
| "apply_updates perms ((f, v) # us) row =
     (let deny = (\<lambda>why. apfst (\<lambda>r. r \<lparr>su_denied := (f, why) # su_denied r\<rparr>) (apply_updates perms us row)) in
      if never_editable f then deny ''field is never self-editable (admin-only)''
      else if f \<notin> fst ` set ELIGIBLE_FIELDS then deny ''field is not on the self-edit-eligible list''
      else if f \<notin> set perms then deny ''not in this key's self_edit_permissions''
      else case coerce_value f v of
             Inl e \<Rightarrow> deny (''type coercion failed: '' @ e)
           | Inr c \<Rightarrow> apfst (\<lambda>r. r \<lparr>su_applied := (f, c) # su_applied r\<rparr>) (apply_updates perms us (row(f := c))))"

datatype self_update_error = Integration_disabled | Missing_api_key | No_such_column string | Key_rejected

text \<open>\<open>s.split()\<close>.\<close>

definition py_words :: "string \<Rightarrow> string list" where
  "py_words s = filter (\<lambda>w. w \<noteq> []) (split_on CHR '' '' (map (\<lambda>c. if is_space c then CHR '' '' else c) s))"

definition supplied_key :: "string option \<Rightarrow> string option \<Rightarrow> string option" where
  "supplied_key x_api_key authorization =
     (if truthy x_api_key \<or> \<not> truthy authorization then x_api_key
      else case py_words (the authorization) of
             [b, k] \<Rightarrow> if lower b = ''bearer'' then Some k else x_api_key
           | _ \<Rightarrow> x_api_key)"

text \<open>The query names a column; a name that is none raises before the table is read.\<close>

definition resolve_key_from_headers :: "string option \<Rightarrow> string option \<Rightarrow> key_columns list \<Rightarrow> self_update_error + key_columns" where
  "resolve_key_from_headers x_api_key authorization rows =
     (let s = supplied_key x_api_key authorization in
      if \<not> truthy s then Inl Missing_api_key
      else if ''key'' \<notin> set API_KEY_COLUMNS then Inl (No_such_column ''key'')
      else case find (\<lambda>r. r ''key'' = JStr (the s)) rows of
             None \<Rightarrow> Inl Key_rejected
           | Some r \<Rightarrow> if \<not> json_truthy (r ''enabled'') \<or> r ''deleted_at'' \<noteq> JNull then Inl Key_rejected else Inr r)"

definition permissions_of :: "key_columns \<Rightarrow> string list" where
  "permissions_of row = (case as_globs (row ''self_edit_permissions'') of None \<Rightarrow> [] | Some ps \<Rightarrow> ps)"

text \<open>The edit of the resolved row: the fields that pass, and the stamp of the last edit, which is set whether or
  not any field did.\<close>

definition self_edit :: "rat \<Rightarrow> jdict \<Rightarrow> key_columns \<Rightarrow> self_update_result \<times> key_columns" where
  "self_edit now updates row =
     (let (res, row') = apply_updates (permissions_of row) updates row in (res, row'(''last_user_edit_at'' := JNum now)))"

definition integration_self_update ::
  "bool \<Rightarrow> rat \<Rightarrow> string option \<Rightarrow> string option \<Rightarrow> jdict \<Rightarrow> key_columns list \<Rightarrow> self_update_error + self_update_result \<times> key_columns" where
  "integration_self_update on now x_api_key authorization updates rows =
     (if \<not> on then Inl Integration_disabled
      else bind_result (resolve_key_from_headers x_api_key authorization rows) (\<lambda>row. Inr (self_edit now updates row)))"

section \<open>Roles\<close>

definition ALL_PERMISSIONS :: "string list" where
  "ALL_PERMISSIONS =
     [''providers.read'', ''providers.write'', ''keys.read'', ''keys.write'', ''keys.reveal'', ''users.read'', ''users.write'',
      ''settings.read'', ''settings.write'', ''cluster.read'', ''cluster.write'', ''monitoring.read'', ''audit.read'', ''audit.export'',
      ''circuit_breaker.reset'']"

definition ROLES :: "(string \<times> string list) list" where
  "ROLES =
     [(''admin'', ALL_PERMISSIONS),
      (''operator'', [''providers.read'', ''providers.write'', ''keys.read'', ''keys.write'', ''settings.read'', ''cluster.read'',
         ''monitoring.read'', ''circuit_breaker.reset'']),
      (''viewer'', [''providers.read'', ''keys.read'', ''settings.read'', ''cluster.read'', ''monitoring.read''])]"

definition get_role :: "string option \<Rightarrow> string list option" where
  "get_role name = (if truthy name then map_of ROLES (lower (the name)) else None)"

definition permissions_for :: "string option \<Rightarrow> string list" where
  "permissions_for name = (case get_role name of Some ps \<Rightarrow> ps | None \<Rightarrow> [])"

definition has_permission :: "string option \<Rightarrow> string \<Rightarrow> bool" where
  "has_permission name p \<longleftrightarrow> p \<in> set (permissions_for name)"

section \<open>What the tool gates guarantee\<close>

lemma allowed_iff:
  "is_tool_allowed_for_key name allow deny \<longleftrightarrow> \<not> matches_any name deny \<and> (allow = None \<or> matches_any name allow)"
  by (auto simp: is_tool_allowed_for_key_def matches_any_def split: option.split)

lemma gated_call_iff:
  "gated_call_tool (Some p) name = Inr () \<longleftrightarrow>
     \<not> matches_any name (mcp_tools_deny p) \<and> (mcp_tools_allow p = None \<or> matches_any name (mcp_tools_allow p))"
  by (simp add: gated_call_tool_def allowed_iff)

text \<open>
  What a key sees is what it may call. Under a policy the list of tools is exactly the tools the call gate
  lets through, in their order, and its schemas fit the token budget; a tool matched by the deny
  list passes neither gate, whatever the allow list says, and an empty allow list passes nothing.
\<close>

theorem visible_is_callable:
  assumes "filtered_list_tools dumps (Some p) tools = Inr shown"
  shows "shown = filter (\<lambda>t. gated_call_tool (Some p) (tool_name t) = Inr ()) tools \<and>
    (\<forall>b. mcp_schema_token_budget p = Some b \<longrightarrow> sum_list (map (estimate_schema_tokens dumps \<circ> tool_schema) shown) \<le> b) \<and>
    (\<forall>t\<in>set shown. \<not> matches_any (tool_name t) (mcp_tools_deny p)) \<and> (mcp_tools_allow p = Some [] \<longrightarrow> shown = [])"
proof -
  have shown: "shown = filter (\<lambda>t. is_tool_allowed_for_key (tool_name t) (mcp_tools_allow p) (mcp_tools_deny p)) tools"
    and ok: "fst (check_token_budget dumps shown (mcp_schema_token_budget p))"
    using assms by (auto simp: filtered_list_tools_def filter_tools_for_key_def Let_def split: prod.splits if_splits)
  from shown ok show ?thesis
    by (auto simp: gated_call_iff allowed_iff check_token_budget_def Let_def matches_any_def filter_empty_conv)
qed

text \<open>C36. The tool policy of a key is never applied. The record that authentication returns does not carry the policy
  columns, and reading them from it falls back to no restriction: whatever allow list, deny list and budget the
  row has, every tool is listed and every call passes.
\<close>

theorem tool_policy_ignored:
  "filtered_list_tools dumps (Some (request_policy row)) tools = Inr tools \<and> gated_call_tool (Some (request_policy row)) name = Inr ()"
proof -
  have "request_policy row = \<lparr>mcp_tools_allow = None, mcp_tools_deny = None, mcp_schema_token_budget = None\<rparr>"
    by (simp add: request_policy_def key_record_of_def RECORD_FIELDS_def py_getattr_def as_globs_def as_budget_def Let_def)
  moreover have "matches_any n None = False" for n by (simp add: matches_any_def)
  ultimately show ?thesis
    by (simp add: gated_call_iff filtered_list_tools_def filter_tools_for_key_def allowed_iff check_token_budget_def Let_def)
qed

section \<open>What a key can change of itself\<close>

lemma coerced_type:
  assumes "coerce_value f v = Inr c"
  shows "map_of ELIGIBLE_FIELDS f = Some Bool_kind \<and> (\<exists>b. c = JBool b) \<or>
    map_of ELIGIBLE_FIELDS f = Some Int_or_null \<and> (c = JNull \<or> (\<exists>n. c = JNum (of_int n))) \<or>
    map_of ELIGIBLE_FIELDS f = Some List_str_or_null \<and> (c = JNull \<or> (\<exists>ss. c = JList (map JStr ss)))"
proof -
  have ints: "\<exists>n. q = of_int n" if "is_int q" for q using that by (metis is_int_def)
  have strs: "\<exists>ss. xs = map JStr ss" if "list_all (\<lambda>x. case x of JStr _ \<Rightarrow> True | _ \<Rightarrow> False) xs" for xs
    using that
  proof (induction xs)
    case (Cons x xs)
    then obtain s ss where "x = JStr s" "xs = map JStr ss" by (auto split: json.splits)
    then show ?case by (intro exI [of _ "s # ss"]) simp
  qed simp
  from assms show ?thesis
    by (auto simp: coerce_value_def ints strs split: option.splits field_kind.splits json.splits if_splits)
qed

definition type_ok :: "string \<Rightarrow> json \<Rightarrow> bool" where
  "type_ok f c \<longleftrightarrow>
     (case map_of ELIGIBLE_FIELDS f of
        Some Bool_kind \<Rightarrow> \<exists>b. c = JBool b
      | Some Int_or_null \<Rightarrow> c = JNull \<or> (\<exists>n. c = JNum (of_int n))
      | Some List_str_or_null \<Rightarrow> c = JNull \<or> (\<exists>ss. c = JList (map JStr ss))
      | None \<Rightarrow> False)"

lemma coerced_ok: "coerce_value f v = Inr c \<Longrightarrow> type_ok f c"
  using coerced_type [of f v c] by (auto simp: type_ok_def)

definition confined :: "string list \<Rightarrow> key_columns \<Rightarrow> key_columns \<Rightarrow> bool" where
  "confined perms row row' \<longleftrightarrow>
     (\<forall>f. row' f \<noteq> row f \<longrightarrow> f \<in> set perms \<and> f \<in> fst ` set ELIGIBLE_FIELDS \<and> \<not> never_editable f \<and> type_ok f (row' f))"

lemma confined_step:
  assumes "confined perms (row(f := c)) row'" "f \<in> set perms" "f \<in> fst ` set ELIGIBLE_FIELDS" "\<not> never_editable f" "type_ok f c"
  shows "confined perms row row'"
  using assms unfolding confined_def by (metis fun_upd_apply)

lemma updates_confined: "confined perms row (snd (apply_updates perms us row))"
proof (induction perms us row rule: apply_updates.induct)
  case (2 perms f v us row)
  show ?case
  proof (cases "never_editable f \<or> f \<notin> fst ` set ELIGIBLE_FIELDS \<or> f \<notin> set perms")
    case True
    with 2(1) show ?thesis by (auto simp: Let_def)
  next
    case False
    show ?thesis
    proof (cases "coerce_value f v")
      case (Inr c)
      with False 2(2) [OF refl] have "confined perms (row(f := c)) (snd (apply_updates perms us (row(f := c))))" by (simp add: fun_upd_def)
      from confined_step [OF this] False coerced_ok [OF Inr] have "confined perms row (snd (apply_updates perms us (row(f := c))))" by blast
      with False Inr show ?thesis by (simp add: Let_def)
    qed (use False 2(1) in \<open>auto simp: Let_def\<close>)
  qed
qed (simp add: confined_def)

lemma apply_denied:
  assumes "\<not> (\<not> (never_editable f \<or> f \<notin> fst ` set ELIGIBLE_FIELDS \<or> f \<notin> set perms) \<and> (\<exists>c. coerce_value f v = Inr c))"
  shows "\<exists>why. apply_updates perms ((f, v) # us) row = apfst (\<lambda>r. r \<lparr>su_denied := (f, why) # su_denied r\<rparr>) (apply_updates perms us row)"
proof (cases "coerce_value f v")
  case (Inl e)
  show ?thesis unfolding apply_updates.simps Let_def Inl by (simp only: sum.case split: if_split) blast
next
  case (Inr c)
  with assms show ?thesis unfolding apply_updates.simps Let_def by (simp only: split: if_split) blast
qed

lemma updates_reported:
  "fst ` set (su_applied (fst (apply_updates perms us row))) \<union> fst ` set (su_denied (fst (apply_updates perms us row))) = fst ` set us"
proof (induction perms us row rule: apply_updates.induct)
  case (2 perms f v us row)
  show ?case
  proof (cases "\<not> (never_editable f \<or> f \<notin> fst ` set ELIGIBLE_FIELDS \<or> f \<notin> set perms) \<and> (\<exists>c. coerce_value f v = Inr c)")
    case True
    then obtain c where c: "coerce_value f v = Inr c" "\<not> never_editable f" "f \<in> fst ` set ELIGIBLE_FIELDS" "f \<in> set perms" by blast
    with 2(2) [OF refl] have "fst ` set (su_applied (fst (apply_updates perms us (row(f := c))))) \<union>
        fst ` set (su_denied (fst (apply_updates perms us (row(f := c))))) = fst ` set us" by (simp add: fun_upd_def)
    with c show ?thesis by (simp add: Let_def)
  next
    case False
    then obtain why where "apply_updates perms ((f, v) # us) row =
        apfst (\<lambda>r. r \<lparr>su_denied := (f, why) # su_denied r\<rparr>) (apply_updates perms us row)" using apply_denied by blast
    with 2(1) show ?thesis by (simp only: fst_apfst self_update_result.simps) auto
  qed
qed simp

text \<open>C14. A key cannot raise its own privileges. Whatever it sends, the edit stamps the row with the time, and apart from the
  stamp only columns change that are eligible, named in the row's own permission list
  and on no forbidden list, and only to values of the column's type; the permission list
  itself, the caps, the rate limits and the policies stay as they are. Every field it sent is reported as
  applied or denied. (The endpoint looks the key up by a column that does not exist, so as written it never
  gets as far as the edit: \<open>self_update_never_succeeds\<close>.)
\<close>

theorem self_update_confined:
  assumes "self_edit now us row = (res, row')"
  shows "row' ''last_user_edit_at'' = JNum now \<and>
    (\<forall>f. f \<noteq> ''last_user_edit_at'' \<and> row' f \<noteq> row f \<longrightarrow>
       f \<in> set (permissions_of row) \<and> f \<in> fst ` set ELIGIBLE_FIELDS \<and> \<not> never_editable f \<and> type_ok f (row' f)) \<and>
    (\<forall>f\<in>set FORBIDDEN_FIELDS. row' f = row f) \<and>
    fst ` set (su_applied res) \<union> fst ` set (su_denied res) = fst ` set us"
proof -
  obtain row1 where u: "apply_updates (permissions_of row) us row = (res, row1)" and row': "row' = row1(''last_user_edit_at'' := JNum now)"
    using assms by (auto simp: self_edit_def split: prod.splits)
  have "confined (permissions_of row) row row1"
    using updates_confined [of "permissions_of row" row us] u by simp
  then have c: "f \<in> set (permissions_of row) \<and> f \<in> fst ` set ELIGIBLE_FIELDS \<and> \<not> never_editable f \<and> type_ok f (row1 f)"
    if "row1 f \<noteq> row f" for f using that unfolding confined_def by blast
  have "''last_user_edit_at'' \<notin> set FORBIDDEN_FIELDS" by code_simp
  then have "row' f = row f" if "f \<in> set FORBIDDEN_FIELDS" for f
    using c [of f] that by (auto simp: row' never_editable_def)
  with c updates_reported [of "permissions_of row" us row] u show ?thesis by (simp add: row')
qed

lemma self_update_never_succeeds: "\<exists>e. integration_self_update on now x a updates rows = Inl e"
  by (auto simp: integration_self_update_def resolve_key_from_headers_def API_KEY_COLUMNS_def Let_def)

lemma roles_nested:
  "set (permissions_for (Some ''viewer'')) \<subseteq> set (permissions_for (Some ''operator''))"
  "set (permissions_for (Some ''operator'')) \<subseteq> set (permissions_for (Some ''admin''))"
  "\<not> has_permission (Some ''operator'') ''keys.reveal''" "\<not> has_permission (Some ''operator'') ''users.write''"
  by code_simp+

lemma role_permissions_known: "has_permission r p \<Longrightarrow> p \<in> set ALL_PERMISSIONS"
  by (auto simp: has_permission_def permissions_for_def get_role_def ROLES_def ALL_PERMISSIONS_def split: option.splits if_splits)

section \<open>A concrete key\<close>

definition tool_row :: key_columns where
  "tool_row = (\<lambda>_. JNull)(''mcp_tools_deny'' := JList [JStr ''fetch_*''], ''self_edit_permissions'' := JList [JStr ''refusal_retry_enabled''])"

definition two_tools :: "mcp_tool list" where
  "two_tools = [\<lparr>tool_name = ''fetch_url'', tool_schema = JNull\<rparr>, \<lparr>tool_name = ''read_xlsx_to_markdown'', tool_schema = JNull\<rparr>]"

theorem visible_is_callable_witness:
  "filtered_list_tools (\<lambda>_. None) (Some (row_policy tool_row)) two_tools = Inr [\<lparr>tool_name = ''read_xlsx_to_markdown'', tool_schema = JNull\<rparr>] \<and>
   filter (\<lambda>t. gated_call_tool (Some (row_policy tool_row)) (tool_name t) = Inr ()) two_tools = [\<lparr>tool_name = ''read_xlsx_to_markdown'', tool_schema = JNull\<rparr>]"
proof -
  have l: "filtered_list_tools (\<lambda>_. None) (Some (row_policy tool_row)) two_tools = Inr [\<lparr>tool_name = ''read_xlsx_to_markdown'', tool_schema = JNull\<rparr>]"
    by code_simp
  from visible_is_callable [OF l] l show ?thesis by simp
qed

theorem self_update_confined_witness:
  "\<exists>res row'. self_edit 7 [(''refusal_retry_enabled'', JBool True), (''enabled'', JBool True), (''name'', JStr ''x'')] tool_row = (res, row') \<and>
     row' ''enabled'' = tool_row ''enabled'' \<and> row' ''refusal_retry_enabled'' = JBool True \<and> row' ''last_user_edit_at'' = JNum 7"
proof -
  let ?u = "self_edit 7 [(''refusal_retry_enabled'', JBool True), (''enabled'', JBool True), (''name'', JStr ''x'')] tool_row"
  obtain res row' where u: "?u = (res, row')" by (cases ?u)
  have "snd ?u ''refusal_retry_enabled'' = JBool True" by code_simp
  moreover have "row' ''enabled'' = tool_row ''enabled''" "row' ''last_user_edit_at'' = JNum 7"
    using self_update_confined [OF u] by (auto simp: FORBIDDEN_FIELDS_def)
  ultimately show ?thesis using u by auto
qed

end
