(* ===== verification/Cluster_Auth.thy ===== *)
theory Cluster_Auth
  imports Lmrh_Types
begin

text \<open>
  Signatures between nodes (\<^verbatim>\<open>app/cluster/auth.py\<close>) and of administrative reads by a coordinator
  (\<^verbatim>\<open>app/auth/cluster_hmac.py\<close>). The keyed hash with its hexadecimal digest is a parameter \<open>mac\<close>, the clock an
  argument; byte strings are strings.
\<close>

section \<open>Between nodes\<close>

type_synonym keyed_hash = "string \<Rightarrow> string \<Rightarrow> string"

datatype cluster_auth_error = Cluster_auth_not_configured

definition MIN_RECOMMENDED_SECRET_LEN :: nat where "MIN_RECOMMENDED_SECRET_LEN = 32"

definition cluster_auth_configured :: "string option \<Rightarrow> bool" where
  "cluster_auth_configured secret \<longleftrightarrow> truthy secret"

definition cluster_key :: "string option \<Rightarrow> cluster_auth_error + string" where
  "cluster_key secret = (if truthy secret then Inr (the secret) else Inl Cluster_auth_not_configured)"

definition sign_payload :: "keyed_hash \<Rightarrow> string option \<Rightarrow> string \<Rightarrow> cluster_auth_error + string" where
  "sign_payload mac secret payload = map_result (\<lambda>k. mac k payload) (cluster_key secret)"

definition verify_payload :: "keyed_hash \<Rightarrow> string option \<Rightarrow> string \<Rightarrow> string \<Rightarrow> bool" where
  "verify_payload mac secret payload signature =
     (if signature = [] then False
      else case sign_payload mac secret payload of Inl _ \<Rightarrow> False | Inr expected \<Rightarrow> expected = signature)"

datatype cluster_problem = Secret_unset | Secret_short nat

definition audit_cluster_auth_config :: "bool \<Rightarrow> string option \<Rightarrow> cluster_problem list" where
  "audit_cluster_auth_config cluster_enabled secret =
     (if \<not> cluster_enabled then []
      else if \<not> truthy secret then [Secret_unset]
      else if length (the secret) < MIN_RECOMMENDED_SECRET_LEN then [Secret_short (length (the secret))]
      else [])"

section \<open>Reads by the coordinator\<close>

definition digit_char :: "nat \<Rightarrow> char" where
  "digit_char d = char_of (48 + d)"

fun show_nat :: "nat \<Rightarrow> string" where
  "show_nat n = (if n < 10 then [digit_char n] else show_nat (n div 10) @ [digit_char (n mod 10)])"

declare show_nat.simps [simp del]

definition show_int :: "int \<Rightarrow> string" where
  "show_int n = (if n < 0 then CHR ''-'' # show_nat (nat (- n)) else show_nat (nat n))"

definition TIMESTAMP_WINDOW_SEC :: int where "TIMESTAMP_WINDOW_SEC = 60"

definition signed_bytes :: "int \<Rightarrow> string \<Rightarrow> string \<Rightarrow> string" where
  "signed_bytes ts path body = show_int ts @ path @ body"

datatype hmac_error = Not_configured_503 | Missing_headers | Bad_timestamp | Out_of_window | Bad_signature

text \<open>\<open>now\<close> is the clock in whole seconds.\<close>

definition require_cluster_hmac ::
  "keyed_hash \<Rightarrow> string option \<Rightarrow> int \<Rightarrow> string \<Rightarrow> string \<Rightarrow> string option \<Rightarrow> string option \<Rightarrow> hmac_error + unit" where
  "require_cluster_hmac mac secret now path body timestamp auth =
     (if \<not> truthy secret then Inl Not_configured_503
      else if \<not> truthy timestamp \<or> \<not> truthy auth then Inl Missing_headers
      else case py_int (the timestamp) of
             Inl _ \<Rightarrow> Inl Bad_timestamp
           | Inr ts \<Rightarrow>
               if \<bar>now - ts\<bar> > TIMESTAMP_WINDOW_SEC then Inl Out_of_window
               else if mac (the secret) (signed_bytes ts path body) = lower (strip (the auth)) then Inr () else Inl Bad_signature)"

section \<open>Properties\<close>

lemma sign_verify: "sign_payload mac secret p = Inr s \<Longrightarrow> s \<noteq> [] \<Longrightarrow> verify_payload mac secret p s"
  by (simp add: verify_payload_def)

text \<open>
  Without a secret nothing is accepted. A payload is accepted exactly when a secret is set and the signature is
  the keyed hash of the payload under it; a node without a secret accepts no signature and produces none.
\<close>

theorem cluster_fails_closed:
  "(verify_payload mac secret payload signature \<longleftrightarrow>
     cluster_auth_configured secret \<and> signature \<noteq> [] \<and> signature = mac (the secret) payload) \<and>
   sign_payload mac secret payload = (if cluster_auth_configured secret then Inr (mac (the secret) payload) else Inl Cluster_auth_not_configured)"
  by (auto simp: verify_payload_def sign_payload_def cluster_key_def cluster_auth_configured_def)

lemma of_digit: "d < 10 \<Longrightarrow> (of_char (digit_char d) :: nat) = 48 + d"
  by (simp add: digit_char_def)

lemma digit_char_inj: "a < 10 \<Longrightarrow> b < 10 \<Longrightarrow> digit_char a = digit_char b \<Longrightarrow> a = b"
  by (metis add_left_cancel of_digit)

lemma digit_not:
  assumes "d < 10"
  shows "digit_char d \<noteq> CHR ''/''" "digit_char d \<noteq> CHR ''-''"
proof -
  have "of_char (digit_char d) \<noteq> (of_char CHR ''/'' :: nat)" "of_char (digit_char d) \<noteq> (of_char CHR ''-'' :: nat)"
    unfolding of_digit [OF assms] by simp_all
  then show "digit_char d \<noteq> CHR ''/''" "digit_char d \<noteq> CHR ''-''" by metis+
qed

lemma show_nat_chars: "CHR ''/'' \<notin> set (show_nat n) \<and> CHR ''-'' \<notin> set (show_nat n) \<and> show_nat n \<noteq> []"
proof (induction n rule: show_nat.induct)
  case (1 n)
  then show ?case using digit_not [of n] digit_not [of "n mod 10"] by (cases "n < 10") (auto simp: show_nat.simps [of n])
qed

lemma show_nat_inj: "show_nat m = show_nat n \<Longrightarrow> m = n"
proof (induction m arbitrary: n rule: show_nat.induct)
  case (1 m)
  have last: "m mod 10 = n mod 10"
  proof -
    have "List.last (show_nat k) = digit_char (k mod 10)" for k by (simp add: show_nat.simps [of k])
    with 1(2) show ?thesis by (intro digit_char_inj) (simp_all, metis)
  qed
  have len: "length (show_nat k) = 1 \<longleftrightarrow> k < 10" for k
    using show_nat_chars [of "k div 10"] by (simp add: show_nat.simps [of k])
  show ?case
  proof (cases "m < 10")
    case True
    with len [of m] len [of n] 1(2) last show ?thesis by simp
  next
    case False
    with len [of m] len [of n] 1(2) have "\<not> n < 10" by simp
    with False 1 have "m div 10 = n div 10" by (simp add: show_nat.simps [of m] show_nat.simps [of n])
    with last show ?thesis by (metis div_mult_mod_eq)
  qed
qed

lemma minus_no_digit: "CHR ''-'' # s \<noteq> show_nat n" "show_nat n \<noteq> CHR ''-'' # s"
  using show_nat_chars [of n] by (metis list.set_intros(1))+

lemma show_int_inj: "show_int m = show_int n \<Longrightarrow> m = n"
  using show_nat_inj [of "nat m" "nat n"] show_nat_inj [of "nat (- m)" "nat (- n)"]
  by (auto simp: show_int_def minus_no_digit split: if_splits)

lemma show_int_no_slash: "CHR ''/'' \<notin> set (show_int n)"
  using show_nat_chars by (simp add: show_int_def)

text \<open>
  A signed read is fresh and authentic. A request let through carries the keyed hash of its own timestamp, path and
  body under the configured secret, and its timestamp lies within a minute of the clock; two requests whose
  signed bytes agree have the same timestamp and the same path and body run together.
\<close>

theorem signed_read_sound:
  assumes "require_cluster_hmac mac secret now path body timestamp auth = Inr ()" and "prefix ''/'' path"
  shows "\<exists>ts. py_int (the timestamp) = Inr ts \<and> \<bar>now - ts\<bar> \<le> 60 \<and> secret \<noteq> None \<and>
      lower (strip (the auth)) = mac (the secret) (signed_bytes ts path body) \<and>
      (\<forall>ts' path' body'. prefix ''/'' path' \<and> signed_bytes ts' path' body' = signed_bytes ts path body \<longrightarrow>
         ts' = ts \<and> path' @ body' = path @ body)"
proof -
  obtain ts where ts: "py_int (the timestamp) = Inr ts" "\<bar>now - ts\<bar> \<le> 60" "truthy secret"
    "lower (strip (the auth)) = mac (the secret) (signed_bytes ts path body)"
    using assms(1) by (auto simp: require_cluster_hmac_def TIMESTAMP_WINDOW_SEC_def split: if_splits sum.splits)
  have "ts' = ts \<and> path' @ body' = path @ body" if "prefix ''/'' path'" "signed_bytes ts' path' body' = signed_bytes ts path body" for ts' path' body'
  proof -
    have slash: "takeWhile (\<lambda>c. c \<noteq> CHR ''/'') (signed_bytes t p b) = show_int t" if "prefix ''/'' p" for t p b
      using that show_int_no_slash [of t] by (cases p) (auto simp: signed_bytes_def takeWhile_append)
    have "show_int ts' = show_int ts" using slash [OF that(1)] slash [OF assms(2)] that(2) by metis
    then have "ts' = ts" by (rule show_int_inj)
    with that(2) show ?thesis by (simp add: signed_bytes_def)
  qed
  with ts show ?thesis by (auto simp: truthy_def split: option.splits)
qed

text \<open>
  A signature does not fix where the path ends. Path and body are run together before they are signed: a
  signature of a request with body \<open>q @ body\<close> is accepted for the longer path with the shorter body.
\<close>

theorem path_boundary_unsigned:
  "require_cluster_hmac mac secret now path (q @ body) timestamp auth = require_cluster_hmac mac secret now (path @ q) body timestamp auth"
  by (auto simp: require_cluster_hmac_def signed_bytes_def split: sum.split)

theorem signed_read_sound_witness:
  "\<exists>ts. py_int ''100'' = Inr ts \<and> \<bar>130 - ts\<bar> \<le> (60 :: int) \<and>
     require_cluster_hmac (\<lambda>k m. ''ab'') (Some ''s'') 130 ''/api/x'' [] (Some ''100'') (Some '' AB '') = Inr ()"
proof -
  have ok: "require_cluster_hmac (\<lambda>k m. ''ab'') (Some ''s'') 130 ''/api/x'' [] (Some ''100'') (Some '' AB '') = Inr ()" by code_simp
  from signed_read_sound [OF ok] ok show ?thesis by auto
qed

end
