(* ===== verification/Chat_Translate.thy ===== *)
theory Chat_Translate
  imports Json_Access Retry
begin

text \<open>
  Translation between the two chat protocols (\<^verbatim>\<open>app/api/_oauth_chat_translate.py\<close>): requests, tools and
  messages in both directions, and the response. Bodies are decoded JSON. Parameters: \<open>dumps\<close> and
  \<open>loads\<close> of the JSON library, \<open>str()\<close>, and the random identifiers, given by the place of the block
  that gets one. The dash and the ellipsis of two literals, outside Latin-1, are written as their
  UTF-8 bytes.
\<close>

definition msg :: "string \<Rightarrow> json \<Rightarrow> json" where
  "msg r c = JObj [(''role'', JStr r), (''content'', c)]"

definition text_blk :: "json \<Rightarrow> json" where
  "text_blk t = JObj [(''type'', JStr ''text''), (''text'', t)]"

definition EMPTY_SCHEMA :: json where
  "EMPTY_SCHEMA = JObj [(''type'', JStr ''object''), (''properties'', JObj [])]"

section \<open>OpenAI to Anthropic\<close>

text \<open>What \<open>openai_messages_to_anthropic\<close> keeps while it walks the messages: the system parts, the messages
  written and the tool results waiting for a user message.\<close>

record split_state =
  sp_system :: "json list"
  sp_out :: "json list"
  sp_pending :: "json list"

definition flush_pending_tool_results :: "split_state \<Rightarrow> split_state" where
  "flush_pending_tool_results st =
     (if sp_pending st = [] then st
      else st \<lparr>sp_out := sp_out st @ [msg ''user'' (JList (sp_pending st))], sp_pending := []\<rparr>)"

definition system_texts :: "json \<Rightarrow> json list" where
  "system_texts content =
     (case content of
        JStr s \<Rightarrow> [JStr s]
      | JList bs \<Rightarrow> filter json_truthy (map (\<lambda>d. json_field d ''text'' (JStr [])) (filter (\<lambda>d. json_get d ''type'' = JStr ''text'') (dict_items bs)))
      | _ \<Rightarrow> [])"

definition tool_result_blk :: "(json \<Rightarrow> string) \<Rightarrow> jdict \<Rightarrow> json" where
  "tool_result_blk dumps m =
     (let c = json_get m ''content'' in
      JObj [(''type'', JStr ''tool_result''),
            (''tool_use_id'', json_or (json_or (json_get m ''tool_call_id'') (json_get m ''id'')) (JStr [])),
            (''content'', case c of JStr s \<Rightarrow> c | JList xs \<Rightarrow> c | JNull \<Rightarrow> JStr [] | _ \<Rightarrow> JStr (dumps c))])"

definition image_source :: "json \<Rightarrow> shape_error + json" where
  "image_source url =
     (case url of
        JStr u \<Rightarrow>
          Inr (if prefix ''data:'' u
               then (let (media, b64) =
                       (if CHR '','' \<in> set u
                        then (let (front, back) = partition_at CHR '','' u
                              in (drop 1 (dropWhile (\<lambda>c. c \<noteq> CHR '':'') (hd (split_on CHR '';'' front))), back))
                        else (''image/png'', []))
                     in JObj [(''type'', JStr ''base64''), (''media_type'', JStr media), (''data'', JStr b64)])
               else JObj [(''type'', JStr ''url''), (''url'', JStr u)])
      | _ \<Rightarrow> Inl Attribute_error)"

definition user_blk :: "jdict \<Rightarrow> shape_error + json" where
  "user_blk d =
     (if json_get d ''type'' = JStr ''text'' then Inr (text_blk (json_field d ''text'' (JStr [])))
      else if json_get d ''type'' = JStr ''image_url''
      then bind_result (as_dict (json_or (json_get d ''image_url'') (JObj [])))
             (\<lambda>i. map_result (\<lambda>src. JObj [(''type'', JStr ''image''), (''source'', src)])
                    (image_source (json_field i ''url'' (JStr []))))
      else Inr (JObj d))"

definition user_blocks :: "json \<Rightarrow> shape_error + json list" where
  "user_blocks content =
     (case content of
        JStr s \<Rightarrow> Inr [text_blk (JStr s)]
      | JList bs \<Rightarrow> map_m user_blk (dict_items bs)
      | _ \<Rightarrow> Inr [])"

definition assistant_texts :: "json \<Rightarrow> json list" where
  "assistant_texts content =
     (case content of
        JStr s \<Rightarrow> if s = [] then [] else [text_blk (JStr s)]
      | JList bs \<Rightarrow> map (\<lambda>d. text_blk (json_field d ''text'' (JStr []))) (filter (\<lambda>d. json_get d ''type'' = JStr ''text'') (dict_items bs))
      | _ \<Rightarrow> [])"

definition tool_use_blk :: "json_lib \<Rightarrow> string \<Rightarrow> json \<Rightarrow> shape_error + json" where
  "tool_use_blk lib fresh tc =
     bind_result (as_dict tc) (\<lambda>c.
       bind_result (as_dict (json_or (json_get c ''function'') (JObj []))) (\<lambda>fn.
         let args = json_or (json_get fn ''arguments'') (JStr ''{}'');
             inp = (case args of JStr s \<Rightarrow> (case loads lib s of Some j \<Rightarrow> j | None \<Rightarrow> JObj []) | _ \<Rightarrow> args)
         in Inr (JObj [(''type'', JStr ''tool_use''), (''id'', json_or (json_get c ''id'') (JStr fresh)),
                       (''name'', json_or (json_get fn ''name'') (JStr [])), (''input'', inp)])))"

fun tool_use_blks :: "json_lib \<Rightarrow> (nat \<Rightarrow> string) \<Rightarrow> nat \<Rightarrow> json list \<Rightarrow> shape_error + json list" where
  "tool_use_blks lib fresh i [] = Inr []"
| "tool_use_blks lib fresh i (tc # tcs) =
     bind_result (tool_use_blk lib (fresh i) tc) (\<lambda>b. map_result ((#) b) (tool_use_blks lib fresh (Suc i) tcs))"

definition split_step :: "(json \<Rightarrow> string) \<Rightarrow> json_lib \<Rightarrow> (nat \<Rightarrow> nat \<Rightarrow> string) \<Rightarrow> json \<Rightarrow> split_state \<Rightarrow> shape_error + split_state" where
  "split_step dumps lib fresh m st =
     bind_result (as_dict m) (\<lambda>d.
       let role = json_get d ''role''; content = json_get d ''content'' in
       if role = JStr ''system'' then Inr (st \<lparr>sp_system := sp_system st @ system_texts content\<rparr>)
       else if role = JStr ''tool'' then Inr (st \<lparr>sp_pending := sp_pending st @ [tool_result_blk dumps d]\<rparr>)
       else if role = JStr ''user''
       then map_result (\<lambda>bs. let blks = sp_pending st @ bs in
              st \<lparr>sp_pending := [], sp_out := sp_out st @ (if blks = [] then [] else [msg ''user'' (JList blks)])\<rparr>)
              (user_blocks content)
       else if role = JStr ''assistant''
       then let st1 = flush_pending_tool_results st; texts = assistant_texts content in
            bind_result (json_items (json_get d ''tool_calls'')) (\<lambda>tcs.
              map_result (\<lambda>us. st1 \<lparr>sp_out := sp_out st1 @
                  (if texts @ us = [] then [] else [msg ''assistant'' (JList (texts @ us))])\<rparr>)
                (tool_use_blks lib (fresh (length (sp_out st1))) 0 tcs))
       else Inr st)"

fun split_loop :: "(json \<Rightarrow> string) \<Rightarrow> json_lib \<Rightarrow> (nat \<Rightarrow> nat \<Rightarrow> string) \<Rightarrow> json list \<Rightarrow> split_state \<Rightarrow> shape_error + split_state" where
  "split_loop dumps lib fresh [] st = Inr st"
| "split_loop dumps lib fresh (m # ms) st = bind_result (split_step dumps lib fresh m st) (split_loop dumps lib fresh ms)"

definition system_field :: "json list \<Rightarrow> json" where
  "system_field parts = (case parts of [] \<Rightarrow> JNull | [p] \<Rightarrow> p | _ \<Rightarrow> JList (map text_blk parts))"

definition openai_messages_to_anthropic ::
  "(json \<Rightarrow> string) \<Rightarrow> json_lib \<Rightarrow> (nat \<Rightarrow> nat \<Rightarrow> string) \<Rightarrow> json list \<Rightarrow> shape_error + json \<times> json list" where
  "openai_messages_to_anthropic dumps lib fresh ms =
     map_result (\<lambda>st. (system_field (sp_system st), sp_out (flush_pending_tool_results st)))
       (split_loop dumps lib fresh ms \<lparr>sp_system = [], sp_out = [], sp_pending = []\<rparr>)"

definition nonempty_list :: "json list \<Rightarrow> json list option" where
  "nonempty_list xs = (if xs = [] then None else Some xs)"

text \<open>The dictionaries among the tools, those with a type other than \<open>function\<close> left out.\<close>

definition tool_to_anthropic :: "jdict \<Rightarrow> shape_error + json" where
  "tool_to_anthropic t =
     map_result (\<lambda>fn. JObj [(''name'', json_or (json_get fn ''name'') (JStr [])),
                            (''description'', json_or (json_get fn ''description'') (JStr [])),
                            (''input_schema'', json_or (json_get fn ''parameters'') EMPTY_SCHEMA)])
       (as_dict (json_or (json_get t ''function'') (JObj [])))"

definition openai_tools_to_anthropic :: "json list \<Rightarrow> shape_error + json list option" where
  "openai_tools_to_anthropic ts =
     map_result nonempty_list
       (map_m tool_to_anthropic
          (filter (\<lambda>t. \<not> json_truthy (json_get t ''type'') \<or> json_get t ''type'' = JStr ''function'') (dict_items ts)))"

section \<open>Anthropic to OpenAI\<close>

definition EMPTY_TOOL_RESULT :: string where "EMPTY_TOOL_RESULT = ''(no output)''"
definition EMPTY_USER_CONTENT :: string where "EMPTY_USER_CONTENT = ''(no input)''"
definition EMPTY_ASSISTANT_CONTENT :: string where "EMPTY_ASSISTANT_CONTENT = ''(no content)''"

definition em_dash :: string where "em_dash = [CHR 0xE2, CHR 0x80, CHR 0x94]"
definition ellipsis :: string where "ellipsis = [CHR 0xE2, CHR 0x80, CHR 0xA6]"

text \<open>What an f-string prints: a string as it is, any other value by \<open>str()\<close>.\<close>

definition fstr :: "json_lib \<Rightarrow> json \<Rightarrow> string" where
  "fstr lib j = (case j of JStr s \<Rightarrow> s | _ \<Rightarrow> str_of lib j)"

definition result_part :: "json_lib \<Rightarrow> jdict \<Rightarrow> shape_error + json list" where
  "result_part lib d =
     (if json_get d ''type'' = JStr ''text''
      then Inr (let t = json_or (json_get d ''text'') (JStr []) in if json_truthy t then [t] else [])
      else if json_get d ''type'' = JStr ''image''
      then map_result (\<lambda>src. [JStr (''[image omitted: '' @ fstr lib (json_or (json_get src ''media_type'') (JStr ''image'')) @
               '' '' @ em_dash @ '' OpenAI tool-role messages cannot carry image content]'')])
             (as_dict (json_or (json_get d ''source'') (JObj [])))
      else Inr [])"

definition tool_result_content_to_str :: "json_lib \<Rightarrow> json \<Rightarrow> shape_error + string" where
  "tool_result_content_to_str lib content =
     (case content of
        JNull \<Rightarrow> Inr EMPTY_TOOL_RESULT
      | JStr s \<Rightarrow> Inr (if s = [] then EMPTY_TOOL_RESULT else s)
      | JList bs \<Rightarrow>
          bind_result (map_m (result_part lib) (dict_items bs)) (\<lambda>ps.
            map_result (\<lambda>ss. let j = strip (join_with newline ss) in if j = [] then EMPTY_TOOL_RESULT else j)
              (as_strings (concat ps)))
      | _ \<Rightarrow> Inr (let s = strip (str_of lib content) in if s = [] then EMPTY_TOOL_RESULT else s))"

text \<open>The texts and the calls of an assistant turn, in order.\<close>

definition block_texts :: "jdict list \<Rightarrow> json list" where
  "block_texts ds =
     filter json_truthy (map (\<lambda>d. json_or (json_get d ''text'') (JStr [])) (filter (\<lambda>d. json_get d ''type'' = JStr ''text'') ds))"

definition tool_call_of :: "(json \<Rightarrow> string) \<Rightarrow> jdict \<Rightarrow> json" where
  "tool_call_of dumps d =
     JObj [(''id'', json_or (json_get d ''id'') (JStr [])), (''type'', JStr ''function''),
           (''function'', JObj [(''name'', json_or (json_get d ''name'') (JStr [])),
              (''arguments'', JStr (dumps (json_or (json_get d ''input'') (JObj []))))])]"

definition is_tool_use :: "jdict \<Rightarrow> bool" where
  "is_tool_use d \<longleftrightarrow> json_get d ''type'' = JStr ''tool_use''"

definition assistant_message :: "(json \<Rightarrow> string) \<Rightarrow> jdict list \<Rightarrow> shape_error + json" where
  "assistant_message dumps ds =
     map_result (\<lambda>texts.
         let calls = map (tool_call_of dumps) (filter is_tool_use ds);
             content = (if texts \<noteq> [] then JStr (join_with newline texts) else if calls \<noteq> [] then JNull
                        else JStr EMPTY_ASSISTANT_CONTENT)
         in JObj ([(''role'', JStr ''assistant''), (''content'', content)] @
                  (if calls = [] then [] else [(''tool_calls'', JList calls)])))
       (as_strings (block_texts ds))"

datatype user_part = Tool_msg json string | Text_part json

definition image_part :: "json_lib \<Rightarrow> jdict \<Rightarrow> shape_error + json" where
  "image_part lib src =
     (if json_get src ''type'' = JStr ''base64''
      then (case json_or (json_get src ''data'') (JStr []) of
              JStr s \<Rightarrow> Inr (JStr (''[image:'' @ fstr lib (json_or (json_get src ''media_type'') (JStr ''image/jpeg'')) @
                 '';base64,'' @ take 40 s @ ellipsis @ '']''))
            | JList xs \<Rightarrow> Inr (JStr (''[image:'' @ fstr lib (json_or (json_get src ''media_type'') (JStr ''image/jpeg'')) @
                 '';base64,'' @ str_of lib (JList (take 40 xs)) @ ellipsis @ '']''))
            | _ \<Rightarrow> Inl Type_error)
      else Inr (JStr ''[image]''))"

text \<open>One block of a user turn; \<open>known\<close> are the calls of the assistant turn before it.\<close>

definition user_part_of :: "json_lib \<Rightarrow> json set \<Rightarrow> jdict \<Rightarrow> shape_error + user_part list" where
  "user_part_of lib known d =
     (let t = json_get d ''type'' in
      if t = JStr ''tool_result''
      then let tcid = json_or (json_get d ''tool_use_id'') (JStr []) in
           bind_result (hashable tcid) (\<lambda>h.
             map_result (\<lambda>s. if h \<in> known then [Tool_msg tcid s] else [Text_part (JStr (''[tool result] '' @ s))])
               (tool_result_content_to_str lib (json_get d ''content'')))
      else if t = JStr ''text''
      then Inr (let x = json_or (json_get d ''text'') (JStr []) in if json_truthy x then [Text_part x] else [])
      else if t = JStr ''image''
      then map_result (\<lambda>x. [Text_part x]) (bind_result (as_dict (json_or (json_get d ''source'') (JObj []))) (image_part lib))
      else Inr [])"

definition tool_msg :: "json \<Rightarrow> string \<Rightarrow> json" where
  "tool_msg i s = JObj [(''role'', JStr ''tool''), (''tool_call_id'', i), (''content'', JStr s)]"

definition tool_msgs :: "user_part list \<Rightarrow> json list" where
  "tool_msgs ps = concat (map (\<lambda>p. case p of Tool_msg i s \<Rightarrow> [tool_msg i s] | _ \<Rightarrow> []) ps)"

definition text_parts :: "user_part list \<Rightarrow> json list" where
  "text_parts ps = concat (map (\<lambda>p. case p of Text_part x \<Rightarrow> [x] | _ \<Rightarrow> []) ps)"

definition user_messages :: "json_lib \<Rightarrow> json set \<Rightarrow> jdict list \<Rightarrow> shape_error + json list" where
  "user_messages lib known ds =
     bind_result (map_m (user_part_of lib known) ds) (\<lambda>pss.
       let ps = concat pss in
       map_result (\<lambda>texts.
           let out = tool_msgs ps @ (if texts = [] then [] else [msg ''user'' (JStr (join_with newline texts))])
           in if out = [] then [msg ''user'' (JStr EMPTY_USER_CONTENT)] else out)
         (as_strings (text_parts ps)))"

text \<open>A role that is neither keeps its texts; an empty text is kept here.\<close>

definition other_message :: "json \<Rightarrow> jdict list \<Rightarrow> shape_error + json" where
  "other_message role ds =
     map_result (\<lambda>texts. JObj [(''role'', role), (''content'', JStr (join_with newline texts))])
       (as_strings (map (\<lambda>d. json_or (json_get d ''text'') (JStr [])) (filter (\<lambda>d. json_get d ''type'' = JStr ''text'') ds)))"

definition anthropic_blocks_to_openai_message_parts ::
  "(json \<Rightarrow> string) \<Rightarrow> json_lib \<Rightarrow> json \<Rightarrow> json list \<Rightarrow> json set \<Rightarrow> shape_error + json list" where
  "anthropic_blocks_to_openai_message_parts dumps lib role blocks known =
     (if role = JStr ''assistant'' then map_result (\<lambda>m. [m]) (assistant_message dumps (dict_items blocks))
      else if role = JStr ''user'' then user_messages lib known (dict_items blocks)
      else map_result (\<lambda>m. [m]) (other_message role (dict_items blocks)))"

text \<open>The calls an assistant turn declares.\<close>

definition declared_ids :: "json \<Rightarrow> json \<Rightarrow> shape_error + json set" where
  "declared_ids role content =
     (case content of
        JList bs \<Rightarrow>
          if role = JStr ''assistant''
          then map_result set (map_m hashable (filter json_truthy (map (\<lambda>d. json_get d ''id'') (filter is_tool_use (dict_items bs)))))
          else Inr {}
      | _ \<Rightarrow> Inr {})"

definition turn_to_openai ::
  "(json \<Rightarrow> string) \<Rightarrow> json_lib \<Rightarrow> json set \<Rightarrow> jdict \<Rightarrow> shape_error + json list \<times> json set" where
  "turn_to_openai dumps lib prev m =
     (let role = json_or (json_get m ''role'') (JStr ''user''); content = json_get m ''content'' in
      bind_result (declared_ids role content) (\<lambda>ids.
        map_result (\<lambda>out. (out, ids))
          (case content of
             JStr s \<Rightarrow> Inr [JObj [(''role'', role),
                (''content'', if role = JStr ''user'' \<and> s = [] then JStr EMPTY_USER_CONTENT else JStr s)]]
           | JList bs \<Rightarrow> anthropic_blocks_to_openai_message_parts dumps lib role bs prev
           | _ \<Rightarrow> Inr [JObj [(''role'', role),
                (''content'', JStr (if role = JStr ''user'' then EMPTY_USER_CONTENT else []))]])))"

fun turns_to_openai ::
  "(json \<Rightarrow> string) \<Rightarrow> json_lib \<Rightarrow> json set \<Rightarrow> jdict list \<Rightarrow> shape_error + json list" where
  "turns_to_openai dumps lib prev [] = Inr []"
| "turns_to_openai dumps lib prev (m # ms) =
     bind_result (turn_to_openai dumps lib prev m) (\<lambda>(out, ids).
       map_result (\<lambda>rest. out @ rest) (turns_to_openai dumps lib ids ms))"

definition system_message :: "json \<Rightarrow> shape_error + json list" where
  "system_message sys =
     (case sys of
        JStr s \<Rightarrow> Inr (if s = [] then [] else [msg ''system'' (JStr s)])
      | JList bs \<Rightarrow>
          map_result (\<lambda>ss. let j = join_with newline ss in if j = [] then [] else [msg ''system'' (JStr j)])
            (as_strings (block_texts (dict_items bs)))
      | _ \<Rightarrow> Inr [])"

definition anthropic_messages_to_openai ::
  "(json \<Rightarrow> string) \<Rightarrow> json_lib \<Rightarrow> json list \<Rightarrow> json \<Rightarrow> shape_error + json list" where
  "anthropic_messages_to_openai dumps lib ms sys =
     bind_result (system_message sys) (\<lambda>first.
       map_result (\<lambda>rest. first @ rest) (turns_to_openai dumps lib {} (dict_items ms)))"

definition tool_to_openai :: "jdict \<Rightarrow> json" where
  "tool_to_openai t =
     JObj [(''type'', JStr ''function''),
           (''function'', JObj [(''name'', json_or (json_get t ''name'') (JStr [])),
              (''description'', json_or (json_get t ''description'') (JStr [])),
              (''parameters'', json_or (json_get t ''input_schema'') EMPTY_SCHEMA)])]"

definition anthropic_tools_to_openai :: "json list \<Rightarrow> json list option" where
  "anthropic_tools_to_openai ts = nonempty_list (map tool_to_openai (dict_items ts))"

definition is_openai_tool :: "jdict \<Rightarrow> bool" where
  "is_openai_tool t \<longleftrightarrow> json_get t ''type'' = JStr ''function'' \<and> (case json_get t ''function'' of JObj _ \<Rightarrow> True | _ \<Rightarrow> False)"

definition normalize_tools_for_litellm :: "json list \<Rightarrow> json list option" where
  "normalize_tools_for_litellm ts =
     (if ts = [] then Some []
      else nonempty_list (map (\<lambda>t. if is_openai_tool t then JObj t else tool_to_openai t) (dict_items ts)))"

section \<open>Whole bodies\<close>

definition stop_sequences :: "json \<Rightarrow> shape_error + json" where
  "stop_sequences s = (case s of JStr x \<Rightarrow> Inr (JList [s]) | _ \<Rightarrow> map_result JList (json_items s))"

text \<open>The tools and the tool choice of a request; \<open>none\<close> withdraws the tools.\<close>

definition choice_to_anthropic :: "json list \<Rightarrow> json \<Rightarrow> shape_error + jdict" where
  "choice_to_anthropic tools oc =
     (if oc = JStr ''auto'' then Inr [(''tools'', JList tools), (''tool_choice'', JObj [(''type'', JStr ''auto'')])]
      else if oc = JStr ''required'' then Inr [(''tools'', JList tools), (''tool_choice'', JObj [(''type'', JStr ''any'')])]
      else if oc = JStr ''none'' then Inr [(''tool_choice'', JObj [(''type'', JStr ''auto'')])]
      else case oc of
             JObj d \<Rightarrow>
               if json_get d ''type'' = JStr ''function''
               then map_result (\<lambda>fn. [(''tools'', JList tools),
                        (''tool_choice'', JObj [(''type'', JStr ''tool''), (''name'', json_field fn ''name'' (JStr []))])])
                      (as_dict (json_or (json_get d ''function'') (JObj [])))
               else Inr [(''tools'', JList tools)]
           | _ \<Rightarrow> Inr [(''tools'', JList tools)])"

definition openai_request_to_anthropic ::
  "(json \<Rightarrow> string) \<Rightarrow> json_lib \<Rightarrow> (nat \<Rightarrow> nat \<Rightarrow> string) \<Rightarrow> jdict \<Rightarrow> shape_error + jdict" where
  "openai_request_to_anthropic dumps lib fresh body =
     bind_result (json_items (json_get body ''messages'')) (\<lambda>ms.
     bind_result (openai_messages_to_anthropic dumps lib fresh ms) (\<lambda>(sys, out).
     bind_result (case map_of body ''stop'' of None \<Rightarrow> Inr [] | Some s \<Rightarrow> map_result (\<lambda>j. [(''stop_sequences'', j)]) (stop_sequences s)) (\<lambda>stop.
     bind_result (json_items (json_get body ''tools'')) (\<lambda>ts.
     bind_result (openai_tools_to_anthropic ts) (\<lambda>tools.
     map_result (\<lambda>tl.
         [(''model'', json_or (json_get body ''model'')
             (JStr (get_or PROVIDER_DEFAULT_MODELS ''claude-oauth'' ''claude-sonnet-4-6''))),
          (''max_tokens'', json_or (json_get body ''max_tokens'') (JNum 4096)), (''messages'', JList out)] @
         (if sys = JNull then [] else [(''system'', sys)]) @
         copy_key ''temperature'' ''temperature'' body @ copy_key ''top_p'' ''top_p'' body @ stop @ tl)
       (case tools of None \<Rightarrow> Inr [] | Some l \<Rightarrow> choice_to_anthropic l (json_get body ''tool_choice'')))))))"

definition choice_to_openai :: "json \<Rightarrow> jdict" where
  "choice_to_openai tc =
     (case tc of
        JObj d \<Rightarrow>
          if json_get d ''type'' = JStr ''auto'' then [(''tool_choice'', JStr ''auto'')]
          else if json_get d ''type'' = JStr ''any'' then [(''tool_choice'', JStr ''required'')]
          else if json_get d ''type'' = JStr ''tool'' \<and> json_truthy (json_get d ''name'')
          then [(''tool_choice'', JObj [(''type'', JStr ''function''), (''function'', JObj [(''name'', json_get d ''name'')])])]
          else []
      | _ \<Rightarrow> [])"

definition anthropic_to_openai_body :: "(json \<Rightarrow> string) \<Rightarrow> json_lib \<Rightarrow> jdict \<Rightarrow> shape_error + jdict" where
  "anthropic_to_openai_body dumps lib body =
     bind_result (json_items (json_get body ''messages'')) (\<lambda>ms.
     bind_result (anthropic_messages_to_openai dumps lib ms (json_get body ''system'')) (\<lambda>out.
     map_result (\<lambda>ts.
         copy_key ''model'' ''model'' body @ [(''messages'', JList out)] @ copy_key ''max_tokens'' ''max_tokens'' body @
         copy_key ''temperature'' ''temperature'' body @ copy_key ''top_p'' ''top_p'' body @
         copy_key ''stop_sequences'' ''stop'' body @ copy_key ''stream'' ''stream'' body @
         (case anthropic_tools_to_openai ts of
            None \<Rightarrow> []
          | Some l \<Rightarrow> (''tools'', JList l) # choice_to_openai (json_get body ''tool_choice'')))
       (json_items (json_get body ''tools''))))"

definition STOP_REASON_TO_FINISH :: "(string \<times> string) list" where
  "STOP_REASON_TO_FINISH =
     [(''end_turn'', ''stop''), (''max_tokens'', ''length''), (''stop_sequence'', ''stop''), (''tool_use'', ''tool_calls''),
      (''refusal'', ''content_filter'')]"

text \<open>Looking up a stop reason that is no string misses, or raises when it has no hash.\<close>

definition finish_of :: "json \<Rightarrow> shape_error + string" where
  "finish_of r =
     map_result (\<lambda>h. case h of JStr s \<Rightarrow> get_or STOP_REASON_TO_FINISH s ''stop'' | _ \<Rightarrow> ''stop'') (hashable r)"

definition response_call :: "(json \<Rightarrow> string) \<Rightarrow> string \<Rightarrow> jdict \<Rightarrow> json" where
  "response_call dumps fresh d =
     JObj [(''id'', json_or (json_get d ''id'') (JStr fresh)), (''type'', JStr ''function''),
           (''function'', JObj [(''name'', json_or (json_get d ''name'') (JStr [])),
              (''arguments'', JStr (dumps (json_or (json_get d ''input'') (JObj []))))])]"

definition anthropic_response_to_openai ::
  "(json \<Rightarrow> string) \<Rightarrow> (nat \<Rightarrow> string) \<Rightarrow> string \<Rightarrow> int \<Rightarrow> jdict \<Rightarrow> string \<Rightarrow> shape_error + jdict" where
  "anthropic_response_to_openai dumps fresh fresh_id now data asked =
     bind_result (json_items (json_get data ''content'')) (\<lambda>bs.
     let ds = dict_items bs;
         calls = map (\<lambda>(i, d). response_call dumps (fresh i) d) (enumerate 0 (filter is_tool_use ds)) in
     bind_result (as_strings (map (\<lambda>d. json_field d ''text'' (JStr [])) (filter (\<lambda>d. json_get d ''type'' = JStr ''text'') ds))) (\<lambda>texts.
     bind_result (finish_of (json_or (json_get data ''stop_reason'') (JStr ''end_turn''))) (\<lambda>fin0.
     bind_result (as_dict (json_or (json_get data ''usage'') (JObj []))) (\<lambda>usage.
     bind_result (json_int (json_get usage ''input_tokens'')) (\<lambda>pt.
     map_result (\<lambda>ct.
         let text = concat texts; fin = (if calls \<noteq> [] \<and> fin0 = ''stop'' then ''tool_calls'' else fin0) in
         [(''id'', json_or (json_get data ''id'') (JStr fresh_id)), (''object'', JStr ''chat.completion''),
          (''created'', JNum (of_int now)),
          (''model'', if asked \<noteq> [] then JStr asked else json_or (json_get data ''model'') (JStr ''unknown'')),
          (''choices'', JList [JObj [(''index'', JNum 0),
             (''message'', JObj ([(''role'', JStr ''assistant''), (''content'', if text = [] then JNull else JStr text)] @
                (if calls = [] then [] else [(''tool_calls'', JList calls)]))),
             (''finish_reason'', JStr fin)]]),
          (''usage'', JObj [(''prompt_tokens'', JNum (of_int pt)), (''completion_tokens'', JNum (of_int ct)),
             (''total_tokens'', JNum (of_int (pt + ct)))])])
       (json_int (json_get usage ''output_tokens'')))))))"

section \<open>Tool messages answer calls\<close>

text \<open>What the receiving API asks of a list of messages: a message of the role \<open>tool\<close> answers a call of the
  assistant message before it, with only tool messages in between, and is not empty; a user message
  is not empty; an assistant message has a text that is not empty, or no content and calls. With \<open>blank\<close> an
  assistant message may also have an empty text.\<close>

definition message_field :: "json \<Rightarrow> string \<Rightarrow> json" where
  "message_field m k = (case m of JObj d \<Rightarrow> json_get d k | _ \<Rightarrow> JNull)"

definition call_ids :: "json \<Rightarrow> json list" where
  "call_ids m = (case message_field m ''tool_calls'' of JList cs \<Rightarrow> map (\<lambda>c. message_field c ''id'') cs | _ \<Rightarrow> [])"

definition content_ok :: "bool \<Rightarrow> json \<Rightarrow> bool" where
  "content_ok blank m \<longleftrightarrow>
     (message_field m ''role'' = JStr ''user'' \<longrightarrow> (\<exists>s. message_field m ''content'' = JStr s \<and> s \<noteq> [])) \<and>
     (message_field m ''role'' = JStr ''assistant'' \<longrightarrow>
       (case message_field m ''content'' of
          JStr s \<Rightarrow> s \<noteq> [] \<or> blank
        | JNull \<Rightarrow> call_ids m \<noteq> []
        | _ \<Rightarrow> False))"

text \<open>An assistant turn without text: its content is the empty string, or neither a string nor a list.\<close>

definition blank_turn :: "jdict \<Rightarrow> bool" where
  "blank_turn m \<longleftrightarrow> json_get m ''role'' = JStr ''assistant'' \<and>
     (case json_get m ''content'' of JStr s \<Rightarrow> s = [] | JList _ \<Rightarrow> False | _ \<Rightarrow> True)"

definition answers :: "json list \<Rightarrow> json \<Rightarrow> bool" where
  "answers ids m \<longleftrightarrow> (\<exists>i \<in> set ids. hashable i = hashable (message_field m ''tool_call_id'')) \<and>
     (\<exists>s. message_field m ''content'' = JStr s \<and> s \<noteq> [])"

fun answers_ok :: "bool \<Rightarrow> json list \<Rightarrow> json list \<Rightarrow> bool" where
  "answers_ok blank ids [] = True"
| "answers_ok blank ids (m # ms) =
     (if message_field m ''role'' = JStr ''tool'' then answers ids m \<and> answers_ok blank ids ms
      else content_ok blank m \<and> answers_ok blank (call_ids m) ms)"

fun open_calls :: "json list \<Rightarrow> json list \<Rightarrow> json list" where
  "open_calls ids [] = ids"
| "open_calls ids (m # ms) = open_calls (if message_field m ''role'' = JStr ''tool'' then ids else call_ids m) ms"

lemma answers_ok_append: "answers_ok blank ids (xs @ ys) \<longleftrightarrow> answers_ok blank ids xs \<and> answers_ok blank (open_calls ids xs) ys"
  by (induction blank ids xs rule: answers_ok.induct) auto

lemma message_field_simps [simp]: "message_field (JObj d) k = json_get d k"
  by (simp add: message_field_def)

definition covers :: "json list \<Rightarrow> json set \<Rightarrow> bool" where
  "covers ids hs \<longleftrightarrow> (\<forall>h \<in> hs. \<exists>i \<in> set ids. hashable i = Inr h)"

lemma join_with_nonempty: "xs \<noteq> [] \<Longrightarrow> \<forall>x \<in> set xs. x \<noteq> [] \<Longrightarrow> join_with sep xs \<noteq> []"
  by (induction xs rule: induct_list012) auto

lemma result_str_nonempty: "tool_result_content_to_str lib c = Inr s \<Longrightarrow> s \<noteq> []"
  by (auto simp: tool_result_content_to_str_def EMPTY_TOOL_RESULT_def Let_def result_iff split: json.splits if_splits)

lemma user_part_ok:
  assumes "user_part_of lib known d = Inr ps" and "p \<in> set ps"
  shows "case p of Tool_msg i s \<Rightarrow> s \<noteq> [] \<and> (\<exists>h \<in> known. hashable i = Inr h) | Text_part x \<Rightarrow> json_truthy x"
proof -
  have img: "json_truthy x" if "image_part lib src = Inr x" for src x
    using that by (auto simp: image_part_def split: if_splits json.splits)
  show ?thesis
    using assms result_str_nonempty img
    by (fastforce simp: user_part_of_def Let_def result_iff split: if_splits)
qed

lemma text_parts_nonempty:
  assumes "\<And>p. p \<in> set ps \<Longrightarrow> case p of Tool_msg i s \<Rightarrow> True | Text_part x \<Rightarrow> json_truthy x" and "text_parts ps = map JStr texts"
  shows "\<forall>t \<in> set texts. t \<noteq> []"
proof
  fix t assume "t \<in> set texts"
  then have "JStr t \<in> set (text_parts ps)" using assms(2) by simp
  then have "Text_part (JStr t) \<in> set ps" by (auto simp: text_parts_def split: user_part.splits)
  from assms(1) [OF this] show "t \<noteq> []" by simp
qed

lemma tool_msgs_ok:
  assumes "\<And>p. p \<in> set ps \<Longrightarrow> case p of Tool_msg i s \<Rightarrow> s \<noteq> [] \<and> (\<exists>h \<in> known. hashable i = Inr h) | _ \<Rightarrow> True"
    and "covers ids known"
  shows "answers_ok blank ids (tool_msgs ps) \<and> open_calls ids (tool_msgs ps) = ids"
  using assms(1)
proof (induction ps)
  case (Cons p ps)
  then have IH: "answers_ok blank ids (tool_msgs ps) \<and> open_calls ids (tool_msgs ps) = ids" by simp
  show ?case
  proof (cases p)
    case (Tool_msg i s)
    with Cons.prems [of p] obtain h where h: "s \<noteq> []" "h \<in> known" "hashable i = Inr h" by auto
    with assms(2) have "\<exists>j \<in> set ids. hashable j = hashable i" by (auto simp: covers_def)
    then have "answers ids (tool_msg i s)" "message_field (tool_msg i s) ''role'' = JStr ''tool''"
      using h(1) by (simp_all add: tool_msg_def answers_def)
    then show ?thesis using IH Tool_msg by (simp add: tool_msgs_def)
  next
    case (Text_part x)
    then show ?thesis using IH by (simp add: tool_msgs_def)
  qed
qed (simp add: tool_msgs_def)

lemma user_messages_ok:
  assumes "user_messages lib known ds = Inr out" and "covers ids known"
  shows "answers_ok blank ids out"
proof -
  obtain pss texts where pss: "map_m (user_part_of lib known) ds = Inr pss"
    and texts: "text_parts (concat pss) = map JStr texts"
    and out: "out = (let os = tool_msgs (concat pss) @ (if texts = [] then [] else [msg ''user'' (JStr (join_with newline texts))])
       in if os = [] then [msg ''user'' (JStr EMPTY_USER_CONTENT)] else os)"
    using assms(1) by (auto simp: user_messages_def Let_def result_iff)
  have parts: "case p of Tool_msg i s \<Rightarrow> s \<noteq> [] \<and> (\<exists>h \<in> known. hashable i = Inr h) | Text_part x \<Rightarrow> json_truthy x"
    if p: "p \<in> set (concat pss)" for p
  proof -
    from p obtain ps where "ps \<in> set pss" "p \<in> set ps" by auto
    moreover from map_m_member [OF pss \<open>ps \<in> set pss\<close>] obtain d where "user_part_of lib known d = Inr ps" by blast
    ultimately show ?thesis using user_part_ok by blast
  qed
  have tools: "answers_ok blank ids (tool_msgs (concat pss)) \<and> open_calls ids (tool_msgs (concat pss)) = ids"
  proof (rule tool_msgs_ok [OF _ assms(2)])
    fix p assume "p \<in> set (concat pss)"
    from parts [OF this] show "case p of Tool_msg i s \<Rightarrow> s \<noteq> [] \<and> (\<exists>h \<in> known. hashable i = Inr h) | _ \<Rightarrow> True" by (cases p) simp_all
  qed
  have "\<forall>t \<in> set texts. t \<noteq> []"
  proof (rule text_parts_nonempty [OF _ texts])
    fix p assume "p \<in> set (concat pss)"
    from parts [OF this] show "case p of Tool_msg i s \<Rightarrow> True | Text_part x \<Rightarrow> json_truthy x" by (cases p) simp_all
  qed
  then have user: "answers_ok blank ids' [msg ''user'' (JStr (join_with newline texts))]" if "texts \<noteq> []" for ids'
    using that by (simp add: join_with_nonempty msg_def content_ok_def)
  have empty: "answers_ok blank ids [msg ''user'' (JStr EMPTY_USER_CONTENT)]"
    by (simp add: msg_def content_ok_def EMPTY_USER_CONTENT_def)
  show ?thesis
  proof (cases "texts = []")
    case True
    with tools empty show ?thesis by (simp add: out Let_def)
  next
    case False
    with tools user [OF False, of ids] show ?thesis by (simp add: out Let_def answers_ok_append del: answers_ok.simps)
  qed
qed

lemma assistant_message_ok:
  assumes "assistant_message dumps ds = Inr m"
  shows "message_field m ''role'' = JStr ''assistant'' \<and> content_ok blank m \<and>
    call_ids m = map (\<lambda>d. json_or (json_get d ''id'') (JStr [])) (filter is_tool_use ds)"
proof -
  obtain texts where texts: "as_strings (block_texts ds) = Inr texts" using assms by (auto simp: assistant_message_def result_iff)
  have "\<forall>t \<in> set texts. t \<noteq> []"
  proof
    fix t assume "t \<in> set texts"
    then have "JStr t \<in> set (block_texts ds)" using texts by (simp add: result_iff)
    then show "t \<noteq> []" by (auto simp: block_texts_def)
  qed
  then have "texts \<noteq> [] \<Longrightarrow> join_with newline texts \<noteq> []" by (rule join_with_nonempty [rotated])
  with assms texts show ?thesis
    by (auto simp: assistant_message_def Let_def result_iff content_ok_def call_ids_def tool_call_of_def EMPTY_ASSISTANT_CONTENT_def split: if_splits)
qed

lemma declared_covered:
  assumes "map_m hashable (filter json_truthy (map (\<lambda>d. json_get d ''id'') us)) = Inr hs"
  shows "covers (map (\<lambda>d. json_or (json_get d ''id'') (JStr [])) us) (set hs)"
  unfolding covers_def
proof
  fix h assume "h \<in> set hs"
  from map_m_member [OF assms this] obtain j where j: "j \<in> set (filter json_truthy (map (\<lambda>d. json_get d ''id'') us))" "hashable j = Inr h"
    by blast
  then obtain d where "d \<in> set us" "j = json_get d ''id''" "json_truthy j" by auto
  with j(2) show "\<exists>i \<in> set (map (\<lambda>d. json_or (json_get d ''id'') (JStr [])) us). hashable i = Inr h" by force
qed

lemma turn_ok:
  assumes t: "turn_to_openai dumps lib prev m = Inr (out, hs)" and c: "covers ids prev" and r: "json_get m ''role'' \<noteq> JStr ''tool''"
    and b: "blank_turn m \<Longrightarrow> blank"
  shows "answers_ok blank ids out \<and> covers (open_calls ids out) hs"
proof -
  let ?role = "json_or (json_get m ''role'') (JStr ''user'')" and ?c = "json_get m ''content''"
  have role: "?role \<noteq> JStr ''tool''" using r by (simp add: json_or_def)
  show ?thesis
  proof (cases "\<exists>bs. ?c = JList bs")
    case False
    with t role b show ?thesis
      by (auto simp: turn_to_openai_def blank_turn_def json_or_def Let_def declared_ids_def content_ok_def covers_def call_ids_def EMPTY_USER_CONTENT_def result_iff
          split: json.splits)
  next
    case True
    then obtain bs where bs: "?c = JList bs" by blast
    note t' = t [unfolded turn_to_openai_def Let_def bs]
    consider "?role = JStr ''assistant''" | "?role = JStr ''user''" | "?role \<noteq> JStr ''assistant''" "?role \<noteq> JStr ''user''" by blast
    then show ?thesis
    proof cases
      case 1
      with t' obtain a h where a: "assistant_message dumps (dict_items bs) = Inr a" "out = [a]"
        and h: "map_m hashable (filter json_truthy (map (\<lambda>d. json_get d ''id'') (filter is_tool_use (dict_items bs)))) = Inr h" "hs = set h"
        by (auto simp: declared_ids_def anthropic_blocks_to_openai_message_parts_def result_iff)
      from assistant_message_ok [OF a(1)] a(2) declared_covered [OF h(1)] h(2) show ?thesis by simp
    next
      case 2
      with t' have "user_messages lib prev (dict_items bs) = Inr out" "hs = {}"
        by (auto simp: declared_ids_def anthropic_blocks_to_openai_message_parts_def result_iff)
      with user_messages_ok [OF this(1) c] show ?thesis by (simp add: covers_def)
    next
      case 3
      with t' role show ?thesis
        by (auto simp: declared_ids_def anthropic_blocks_to_openai_message_parts_def other_message_def result_iff content_ok_def covers_def)
    qed
  qed
qed

lemma turns_ok:
  assumes "turns_to_openai dumps lib prev ms = Inr os" and "covers ids prev" and "\<forall>m \<in> set ms. json_get m ''role'' \<noteq> JStr ''tool''"
    and "list_ex blank_turn ms \<Longrightarrow> blank"
  shows "answers_ok blank ids os"
  using assms
proof (induction ms arbitrary: prev ids os)
  case (Cons m ms)
  then obtain out hs rest where t: "turn_to_openai dumps lib prev m = Inr (out, hs)"
    and rest: "turns_to_openai dumps lib hs ms = Inr rest" "os = out @ rest" by (auto simp: result_iff)
  have "answers_ok blank ids out \<and> covers (open_calls ids out) hs"
    by (rule turn_ok [OF t Cons.prems(2)]) (use Cons.prems(3,4) in auto)
  with Cons.IH [OF rest(1)] Cons.prems(3,4) rest(2) show ?case by (simp add: answers_ok_append)
qed simp

text \<open>C15. A conversation without turns of the role \<open>tool\<close> is translated to one the receiving API accepts: every tool
  message answers a call of the assistant message right before it, no user or tool message is empty,
  and an assistant message has a text or calls. An empty assistant text occurs only when the conversation has a blank assistant
  turn. Whatever does not fit, an orphaned or misplaced tool result or a user turn without text, is
  rendered as text or a placeholder.\<close>

theorem tool_messages_answer_calls:
  assumes "anthropic_messages_to_openai dumps lib ms sys = Inr os"
    and "\<forall>m \<in> set (dict_items ms). json_get m ''role'' \<noteq> JStr ''tool''"
  shows "answers_ok (list_ex blank_turn (dict_items ms)) [] os"
proof -
  let ?blank = "list_ex blank_turn (dict_items ms)"
  obtain first rest where first: "system_message sys = Inr first"
    and rest: "turns_to_openai dumps lib {} (dict_items ms) = Inr rest" and os: "os = first @ rest"
    using assms(1) by (auto simp: anthropic_messages_to_openai_def result_iff)
  have "answers_ok ?blank [] first"
    using first by (auto simp: system_message_def msg_def content_ok_def Let_def result_iff split: json.splits if_splits)
  moreover have "answers_ok ?blank (open_calls [] first) rest"
    by (rule turns_ok [OF rest _ assms(2)]) (simp add: covers_def)
  ultimately show ?thesis by (simp add: os answers_ok_append)
qed

section \<open>There and back\<close>

text \<open>Conversations in normal form: a user turn has tool results, then at most one text; an assistant turn at
  most one text, then calls.\<close>

datatype turn = User_turn "(string \<times> string) list" "string option" | Assistant_turn "string option" "(string \<times> string \<times> jdict) list"

definition opt_text :: "string option \<Rightarrow> json list" where
  "opt_text t = (case t of None \<Rightarrow> [] | Some s \<Rightarrow> [text_blk (JStr s)])"

definition result_blk :: "string \<times> string \<Rightarrow> json" where
  "result_blk = (\<lambda>(i, s). JObj [(''type'', JStr ''tool_result''), (''tool_use_id'', JStr i), (''content'', JStr s)])"

definition call_blk :: "string \<times> string \<times> jdict \<Rightarrow> json" where
  "call_blk = (\<lambda>(i, n, inp). JObj [(''type'', JStr ''tool_use''), (''id'', JStr i), (''name'', JStr n), (''input'', JObj inp)])"

fun encode_turn :: "turn \<Rightarrow> jdict" where
  "encode_turn (User_turn rs t) = [(''role'', JStr ''user''), (''content'', JList (map result_blk rs @ opt_text t))]"
| "encode_turn (Assistant_turn t cs) = [(''role'', JStr ''assistant''), (''content'', JList (opt_text t @ map call_blk cs))]"

text \<open>A result answers a call of the turn before; no part is empty; the arguments survive the JSON library;
  and a user turn of results only is not followed by another user turn.\<close>

definition codec_ok :: "(json \<Rightarrow> string) \<Rightarrow> json_lib \<Rightarrow> json \<Rightarrow> bool" where
  "codec_ok dumps lib j \<longleftrightarrow> dumps j \<noteq> [] \<and> loads lib (dumps j) = Some j"

fun conversation_ok :: "(json \<Rightarrow> string) \<Rightarrow> json_lib \<Rightarrow> string list \<Rightarrow> bool \<Rightarrow> turn list \<Rightarrow> bool" where
  "conversation_ok dumps lib ids waiting [] = True"
| "conversation_ok dumps lib ids waiting (User_turn rs t # ts) =
     (\<not> waiting \<and> (rs \<noteq> [] \<or> t \<noteq> None) \<and> t \<noteq> Some [] \<and> list_all (\<lambda>(i, s). i \<noteq> [] \<and> s \<noteq> [] \<and> i \<in> set ids) rs \<and>
      conversation_ok dumps lib [] (t = None) ts)"
| "conversation_ok dumps lib ids waiting (Assistant_turn t cs # ts) =
     ((t \<noteq> None \<or> cs \<noteq> []) \<and> t \<noteq> Some [] \<and> list_all (\<lambda>(i, n, inp). i \<noteq> [] \<and> codec_ok dumps lib (JObj inp)) cs \<and>
      conversation_ok dumps lib (map fst cs) False ts)"

definition call_json :: "(json \<Rightarrow> string) \<Rightarrow> string \<times> string \<times> jdict \<Rightarrow> json" where
  "call_json dumps = (\<lambda>(i, n, inp). JObj [(''id'', JStr i), (''type'', JStr ''function''),
     (''function'', JObj [(''name'', JStr n), (''arguments'', JStr (dumps (JObj inp)))])])"

fun openai_turn :: "(json \<Rightarrow> string) \<Rightarrow> turn \<Rightarrow> json list" where
  "openai_turn dumps (User_turn rs t) =
     map (\<lambda>(i, s). tool_msg (JStr i) s) rs @ (case t of None \<Rightarrow> [] | Some s \<Rightarrow> [msg ''user'' (JStr s)])"
| "openai_turn dumps (Assistant_turn t cs) =
     [JObj ([(''role'', JStr ''assistant''), (''content'', case t of None \<Rightarrow> JNull | Some s \<Rightarrow> JStr s)] @
            (if cs = [] then [] else [(''tool_calls'', JList (map (call_json dumps) cs))]))]"

lemma opt_text_simps [simp]: "opt_text None = []" "opt_text (Some s) = [text_blk (JStr s)]"
  by (simp_all add: opt_text_def)

lemma json_or_str [simp]: "json_or (JStr s) (JStr []) = JStr s" "json_or (JObj d) (JObj []) = JObj d"
  by (simp_all add: json_or_def)

lemma dict_items_map: "dict_items (map (\<lambda>x. JObj (f x)) xs) = map f xs"
  by (induction xs) simp_all

lemma dict_items_calls: "dict_items (map call_blk cs) =
  map (\<lambda>(i, n, inp). [(''type'', JStr ''tool_use''), (''id'', JStr i), (''name'', JStr n), (''input'', JObj inp)]) cs"
  by (induction cs) (auto simp: call_blk_def)

lemma filter_calls [simp]:
  "filter is_tool_use (dict_items (map call_blk cs)) = dict_items (map call_blk cs)"
  "filter (\<lambda>d. json_get d ''type'' = JStr ''text'') (dict_items (map call_blk cs)) = []"
  by (induction cs) (auto simp: call_blk_def is_tool_use_def)

lemma assistant_turn_forward:
  assumes "t \<noteq> None \<or> cs \<noteq> []" "t \<noteq> Some []" "list_all (\<lambda>(i, n, inp). i \<noteq> [] \<and> codec_ok dumps lib (JObj inp)) cs"
  shows "turn_to_openai dumps lib prev (encode_turn (Assistant_turn t cs)) =
    Inr (openai_turn dumps (Assistant_turn t cs), set (map (JStr \<circ> fst) cs))"
proof -
  have calls: "map (tool_call_of dumps) (dict_items (map call_blk cs)) = map (call_json dumps) cs"
    by (auto simp: dict_items_calls tool_call_of_def call_json_def)
  have ids: "filter json_truthy (map (\<lambda>d. json_get d ''id'') (dict_items (map call_blk cs))) = map (JStr \<circ> fst) cs"
    using assms(3) by (induction cs) (auto simp: call_blk_def)
  have hashes: "map_m hashable (map (JStr \<circ> fst) cs) = Inr (map (JStr \<circ> fst) cs)"
    by (subst map_m_total [where g = id]) auto
  have "t = None \<or> (\<exists>s. t = Some s \<and> s \<noteq> [])" using assms(2) by (cases t) auto
  moreover have "dict_items (map call_blk cs) = [] \<longleftrightarrow> cs = []" by (simp add: dict_items_calls)
  ultimately show ?thesis
    using assms(1) calls ids hashes
    by (auto simp: turn_to_openai_def Let_def declared_ids_def anthropic_blocks_to_openai_message_parts_def assistant_message_def
        block_texts_def text_blk_def is_tool_use_def as_strings_def)
qed

lemma user_parts_forward:
  assumes "list_all (\<lambda>(i, s). i \<noteq> [] \<and> s \<noteq> [] \<and> JStr i \<in> known) rs" and "t \<noteq> Some []"
  shows "map_m (user_part_of lib known) (dict_items (map result_blk rs @ opt_text t)) =
    Inr (map (\<lambda>(i, s). [Tool_msg (JStr i) s]) rs @ (case t of None \<Rightarrow> [] | Some s \<Rightarrow> [[Text_part (JStr s)]]))"
  using assms
  by (induction rs)
    (auto simp: result_blk_def user_part_of_def tool_result_content_to_str_def text_blk_def split: option.splits)

lemma user_turn_forward:
  assumes "rs \<noteq> [] \<or> t \<noteq> None" "t \<noteq> Some []" "list_all (\<lambda>(i, s). i \<noteq> [] \<and> s \<noteq> [] \<and> JStr i \<in> known) rs"
  shows "turn_to_openai dumps lib known (encode_turn (User_turn rs t)) = Inr (openai_turn dumps (User_turn rs t), {})"
proof -
  let ?ps = "concat (map (\<lambda>(i, s). [Tool_msg (JStr i) s]) rs @ (case t of None \<Rightarrow> [] | Some s \<Rightarrow> [[Text_part (JStr s)]]))"
  have "tool_msgs ?ps = map (\<lambda>(i, s). tool_msg (JStr i) s) rs"
    by (induction rs) (auto simp: tool_msgs_def split: option.splits)
  moreover have "text_parts ?ps = map JStr (case t of None \<Rightarrow> [] | Some s \<Rightarrow> [s])"
    by (induction rs) (auto simp: text_parts_def split: option.splits)
  ultimately show ?thesis
    using assms(1) user_parts_forward [OF assms(3,2), of lib]
    by (auto simp: turn_to_openai_def Let_def declared_ids_def anthropic_blocks_to_openai_message_parts_def user_messages_def
        simp del: dict_items_simps split: option.splits)
qed

lemma turns_forward:
  assumes "conversation_ok dumps lib ids waiting ts" and "known = set (map JStr ids)"
  shows "turns_to_openai dumps lib known (map encode_turn ts) = Inr (concat (map (openai_turn dumps) ts))"
  using assms
proof (induction dumps lib ids waiting ts arbitrary: known rule: conversation_ok.induct)
  case (2 dumps lib ids waiting rs t ts)
  then have "list_all (\<lambda>(i, s). i \<noteq> [] \<and> s \<noteq> [] \<and> JStr i \<in> known) rs" by (auto simp: list_all_iff)
  from user_turn_forward [OF _ _ this, of t dumps lib] 2 show ?case by (simp del: encode_turn.simps openai_turn.simps)
next
  case (3 dumps lib ids waiting t cs ts)
  from 3 assistant_turn_forward [of t cs dumps lib known] show ?case by (simp del: encode_turn.simps openai_turn.simps)
qed simp

lemma split_loop_append:
  "split_loop dumps lib fresh (xs @ ys) st = bind_result (split_loop dumps lib fresh xs st) (split_loop dumps lib fresh ys)"
proof (induction xs arbitrary: st)
  case (Cons m xs)
  then show ?case by (cases "split_step dumps lib fresh m st") simp_all
qed simp

lemma results_backward:
  assumes "list_all (\<lambda>(i, s). i \<noteq> []) rs"
  shows "split_loop dumps lib fresh (map (\<lambda>(i, s). tool_msg (JStr i) s) rs) st =
    Inr (st \<lparr>sp_pending := sp_pending st @ map result_blk rs\<rparr>)"
  using assms
proof (induction rs arbitrary: st)
  case (Cons r rs)
  obtain i s where r: "r = (i, s)" by fastforce
  have "split_step dumps lib fresh (tool_msg (JStr i) s) st = Inr (st \<lparr>sp_pending := sp_pending st @ [result_blk (i, s)]\<rparr>)"
    using Cons.prems r by (simp add: split_step_def tool_msg_def tool_result_blk_def result_blk_def Let_def)
  with Cons r show ?case by simp
qed simp

lemma calls_backward:
  assumes "list_all (\<lambda>(i, n, inp). i \<noteq> [] \<and> codec_ok dumps lib (JObj inp)) cs"
  shows "tool_use_blks lib fresh k (map (call_json dumps) cs) = Inr (map call_blk cs)"
  using assms
  by (induction cs arbitrary: k) (auto simp: call_json_def call_blk_def tool_use_blk_def codec_ok_def Let_def)

definition flushed :: "split_state \<Rightarrow> json list" where
  "flushed st = sp_out (flush_pending_tool_results st)"

lemma assistant_turn_backward:
  assumes "t \<noteq> None \<or> cs \<noteq> []" "t \<noteq> Some []" "list_all (\<lambda>(i, n, inp). i \<noteq> [] \<and> codec_ok dumps lib (JObj inp)) cs"
  shows "split_loop dumps lib fresh (openai_turn dumps (Assistant_turn t cs)) st =
    Inr (st \<lparr>sp_out := flushed st @ [JObj (encode_turn (Assistant_turn t cs))], sp_pending := []\<rparr>)"
proof -
  have fl: "flush_pending_tool_results st = st \<lparr>sp_out := flushed st, sp_pending := []\<rparr>"
    by (simp add: flushed_def flush_pending_tool_results_def)
  have "t = None \<or> (\<exists>s. t = Some s \<and> s \<noteq> [])" using assms(2) by (cases t) auto
  then show ?thesis
    using assms(1) calls_backward [OF assms(3)]
    by (auto simp: split_step_def fl Let_def assistant_texts_def msg_def)
qed

lemma user_turn_backward:
  assumes "rs \<noteq> [] \<or> t \<noteq> None" "list_all (\<lambda>(i, s). i \<noteq> []) rs" "sp_pending st = []"
  shows "\<exists>st'. split_loop dumps lib fresh (openai_turn dumps (User_turn rs t)) st = Inr st' \<and> sp_system st' = sp_system st \<and>
    flushed st' = flushed st @ [JObj (encode_turn (User_turn rs t))] \<and> (sp_pending st' \<noteq> [] \<longrightarrow> t = None)"
proof (cases t)
  case None
  with assms show ?thesis
    by (auto simp: results_backward flushed_def flush_pending_tool_results_def msg_def)
next
  case (Some s)
  with assms(2,3) show ?thesis
    by (simp add: split_loop_append results_backward flushed_def flush_pending_tool_results_def split_step_def msg_def Let_def user_blocks_def)
qed

lemma turns_backward:
  assumes "conversation_ok dumps lib ids waiting ts" and "sp_pending st \<noteq> [] \<longrightarrow> waiting"
  shows "\<exists>st'. split_loop dumps lib fresh (concat (map (openai_turn dumps) ts)) st = Inr st' \<and> sp_system st' = sp_system st \<and>
    flushed st' = flushed st @ map (JObj \<circ> encode_turn) ts"
  using assms
proof (induction dumps lib ids waiting ts arbitrary: st rule: conversation_ok.induct)
  case (2 dumps lib ids waiting rs t ts)
  then have "list_all (\<lambda>(i, s). i \<noteq> []) rs" "sp_pending st = []" "rs \<noteq> [] \<or> t \<noteq> None" by (auto simp: list_all_iff)
  from user_turn_backward [OF this(3,1,2), of dumps lib fresh] obtain st1 where st1:
    "split_loop dumps lib fresh (openai_turn dumps (User_turn rs t)) st = Inr st1" "sp_system st1 = sp_system st"
    "flushed st1 = flushed st @ [JObj (encode_turn (User_turn rs t))]" "sp_pending st1 \<noteq> [] \<longrightarrow> t = None" by blast
  have "conversation_ok dumps lib [] (t = None) ts" using 2(2) by simp
  from 2(1) [OF this st1(4)] st1 show ?case
    by (auto simp: split_loop_append simp del: openai_turn.simps encode_turn.simps)
next
  case (3 dumps lib ids waiting t cs ts)
  let ?st = "st \<lparr>sp_out := flushed st @ [JObj (encode_turn (Assistant_turn t cs))], sp_pending := []\<rparr>"
  have a: "split_loop dumps lib fresh (openai_turn dumps (Assistant_turn t cs)) st = Inr ?st"
    using 3(2) by (intro assistant_turn_backward) auto
  have "flushed ?st = flushed st @ [JObj (encode_turn (Assistant_turn t cs))]"
    by (simp add: flushed_def flush_pending_tool_results_def)
  with 3(1) [of ?st] 3(2) a show ?case
    by (auto simp: split_loop_append simp del: openai_turn.simps encode_turn.simps)
qed (simp add: flushed_def)

text \<open>C16. Translating a conversation in normal form to the other protocol and back gives it back: system
  prompt, texts, calls with their arguments and results, turn by turn.\<close>

theorem conversation_roundtrip:
  assumes "conversation_ok dumps lib [] False ts" and "sys = JNull \<or> (\<exists>s. sys = JStr s \<and> s \<noteq> [])"
  shows "\<exists>os. anthropic_messages_to_openai dumps lib (map (JObj \<circ> encode_turn) ts) sys = Inr os \<and>
    openai_messages_to_anthropic dumps lib fresh os = Inr (sys, map (JObj \<circ> encode_turn) ts)"
proof -
  let ?first = "case sys of JStr s \<Rightarrow> [msg ''system'' sys] | _ \<Rightarrow> []"
  let ?os = "?first @ concat (map (openai_turn dumps) ts)"
  let ?st0 = "\<lparr>sp_system = [], sp_out = [], sp_pending = []\<rparr>" and ?parts = "case sys of JStr s \<Rightarrow> [sys] | _ \<Rightarrow> []"
  have first: "system_message sys = Inr ?first" using assms(2) by (auto simp: system_message_def)
  have items: "dict_items (map (JObj \<circ> encode_turn) ts) = map encode_turn ts"
    using dict_items_map [of encode_turn ts] by (simp add: comp_def)
  have fwd: "anthropic_messages_to_openai dumps lib (map (JObj \<circ> encode_turn) ts) sys = Inr ?os"
    using turns_forward [OF assms(1), of "{}"] first items by (simp add: anthropic_messages_to_openai_def)
  have sys: "split_loop dumps lib fresh ?first ?st0 = Inr (?st0 \<lparr>sp_system := ?parts\<rparr>)"
    using assms(2) by (auto simp: split_step_def msg_def system_texts_def Let_def)
  obtain st where st: "split_loop dumps lib fresh (concat (map (openai_turn dumps) ts)) (?st0 \<lparr>sp_system := ?parts\<rparr>) = Inr st"
    "sp_system st = ?parts" "flushed st = map (JObj \<circ> encode_turn) ts"
    using turns_backward [OF assms(1), of "?st0 \<lparr>sp_system := ?parts\<rparr>" fresh] by (auto simp: flushed_def flush_pending_tool_results_def)
  have "openai_messages_to_anthropic dumps lib fresh ?os = Inr (sys, map (JObj \<circ> encode_turn) ts)"
    using assms(2) st sys by (auto simp: openai_messages_to_anthropic_def split_loop_append system_field_def flushed_def)
  with fwd show ?thesis by blast
qed

section \<open>Tools\<close>

definition tool_ok :: "jdict \<Rightarrow> bool" where
  "tool_ok t \<longleftrightarrow> (\<exists>n d sch. t = [(''name'', JStr n), (''description'', JStr d), (''input_schema'', sch)] \<and> json_truthy sch)"

lemma tool_to_openai_function: "is_openai_tool (case tool_to_openai t of JObj d \<Rightarrow> d | _ \<Rightarrow> [])"
  by (simp add: tool_to_openai_def is_openai_tool_def)

lemma tool_back: "tool_ok t \<Longrightarrow> (case tool_to_openai t of JObj d \<Rightarrow> tool_to_anthropic d | _ \<Rightarrow> Inl Type_error) = Inr (JObj t)"
  by (auto simp: tool_ok_def tool_to_openai_def tool_to_anthropic_def)

lemma dict_items_tools: "dict_items (map tool_to_openai ts) = map (\<lambda>t. case tool_to_openai t of JObj d \<Rightarrow> d | _ \<Rightarrow> []) ts"
  by (induction ts) (auto simp: tool_to_openai_def)

text \<open>Tools survive the translation: to the other protocol and back they are the same, and normalising
  tools twice is normalising them once.\<close>

theorem tools_roundtrip:
  assumes "\<forall>t \<in> set ts. tool_ok t" "ts \<noteq> []"
  shows "\<exists>os. anthropic_tools_to_openai (map JObj ts) = Some os \<and> openai_tools_to_anthropic os = Inr (Some (map JObj ts)) \<and>
    normalize_tools_for_litellm (map JObj ts) = Some os \<and> normalize_tools_for_litellm os = Some os"
proof -
  let ?os = "map tool_to_openai ts" and ?d = "\<lambda>t. case tool_to_openai t of JObj d \<Rightarrow> d | _ \<Rightarrow> []"
  have items: "dict_items (map JObj ts) = ts" using dict_items_map [of id ts] by simp
  have kept: "filter (\<lambda>t. \<not> json_truthy (json_get t ''type'') \<or> json_get t ''type'' = JStr ''function'') (map ?d ts) = map ?d ts"
    by (rule filter_True) (auto simp: tool_to_openai_def)
  have inverse: "map_m tool_to_anthropic (map ?d ts) = Inr (map JObj ts)"
    using assms(1) tool_back by (auto simp: map_m_Inr_iff list_all2_conv_all_nth tool_to_openai_def)
  have plain: "\<not> is_openai_tool t" if "t \<in> set ts" for t
    using assms(1) that by (auto simp: tool_ok_def is_openai_tool_def)
  have same: "JObj (?d t) = tool_to_openai t" for t by (simp add: tool_to_openai_def)
  have "anthropic_tools_to_openai (map JObj ts) = Some ?os"
    using assms(2) by (simp add: anthropic_tools_to_openai_def items nonempty_list_def)
  moreover have "openai_tools_to_anthropic ?os = Inr (Some (map JObj ts))"
    unfolding openai_tools_to_anthropic_def dict_items_tools kept inverse using assms(2) by (simp add: nonempty_list_def)
  moreover have "normalize_tools_for_litellm (map JObj ts) = Some ?os"
    using assms(2) plain by (simp add: normalize_tools_for_litellm_def items nonempty_list_def)
  moreover have "normalize_tools_for_litellm ?os = Some ?os"
    using assms(2) by (simp add: normalize_tools_for_litellm_def dict_items_tools nonempty_list_def tool_to_openai_function same comp_def)
  ultimately show ?thesis by blast
qed

text \<open>A tool choice of \<open>none\<close> withdraws the tools but leaves a tool choice behind, which the receiving API
  accepts only together with tools.\<close>

lemma choice_without_tools:
  assumes "openai_request_to_anthropic dumps lib fresh body = Inr out" "json_get body ''tool_choice'' = JStr ''none''"
    and "openai_tools_to_anthropic ts = Inr (Some l)" "json_get body ''tools'' = JList ts"
  shows "map_of out ''tools'' = None \<and> map_of out ''tool_choice'' = Some (JObj [(''type'', JStr ''auto'')])"
  using assms
  by (auto simp: openai_request_to_anthropic_def choice_to_anthropic_def copy_key_def result_iff split: option.splits prod.splits if_splits)

section \<open>Concrete conversations\<close>

definition demo_turns :: "turn list" where
  "demo_turns =
     [User_turn [] (Some ''weather?''), Assistant_turn (Some ''looking'') [(''t1'', ''get'', [(''city'', JStr ''Rome'')])],
      User_turn [(''t1'', ''sunny'')] None, Assistant_turn (Some ''It is sunny.'') []]"

definition demo_codec :: json_lib where
  "demo_codec = \<lparr>loads = (\<lambda>s. if s = ''rome'' then Some (JObj [(''city'', JStr ''Rome'')]) else None), str_of = (\<lambda>_. [])\<rparr>"

theorem conversation_roundtrip_witness:
  "\<exists>os. anthropic_messages_to_openai (\<lambda>_. ''rome'') demo_codec (map (JObj \<circ> encode_turn) demo_turns) (JStr ''be brief'') = Inr os \<and>
    openai_messages_to_anthropic (\<lambda>_. ''rome'') demo_codec (\<lambda>_ _. []) os =
      Inr (JStr ''be brief'', map (JObj \<circ> encode_turn) demo_turns)"
proof -
  have "conversation_ok (\<lambda>_. ''rome'') demo_codec [] False demo_turns" by (simp add: demo_turns_def demo_codec_def codec_ok_def)
  from conversation_roundtrip [OF this, of "JStr ''be brief''"] show ?thesis by simp
qed

text \<open>A result without a call in the turn before it.\<close>

definition demo_orphan :: "json list" where
  "demo_orphan = [JObj (encode_turn (User_turn [(''t9'', ''late'')] None))]"

theorem tool_messages_answer_calls_witness:
  "answers_ok False [] [msg ''user'' (JStr ''[tool result] late'')]"
proof -
  have "anthropic_messages_to_openai (\<lambda>_. []) demo_codec demo_orphan JNull = Inr [msg ''user'' (JStr ''[tool result] late'')]"
    "\<forall>m \<in> set (dict_items demo_orphan). json_get m ''role'' \<noteq> JStr ''tool''"
    by (simp_all add: demo_orphan_def anthropic_messages_to_openai_def system_message_def turn_to_openai_def declared_ids_def Let_def
        anthropic_blocks_to_openai_message_parts_def user_messages_def result_blk_def user_part_of_def
        tool_result_content_to_str_def tool_msgs_def text_parts_def as_strings_def)
  moreover have "\<not> list_ex blank_turn (dict_items demo_orphan)" by code_simp
  ultimately show ?thesis using tool_messages_answer_calls [of "\<lambda>_. []" demo_codec demo_orphan JNull] by simp
qed

theorem tools_roundtrip_witness:
  "\<exists>os. anthropic_tools_to_openai [JObj [(''name'', JStr ''get''), (''description'', JStr []), (''input_schema'', EMPTY_SCHEMA)]] = Some os \<and>
    openai_tools_to_anthropic os = Inr (Some [JObj [(''name'', JStr ''get''), (''description'', JStr []), (''input_schema'', EMPTY_SCHEMA)]])"
proof -
  let ?ts = "[[(''name'', JStr ''get''), (''description'', JStr []), (''input_schema'', EMPTY_SCHEMA)]]"
  have "\<forall>t \<in> set ?ts. tool_ok t" by (simp add: tool_ok_def EMPTY_SCHEMA_def)
  from tools_roundtrip [OF this] show ?thesis by auto
qed

end
