(* ===== verification/Chat_Stream.thy ===== *)
theory Chat_Stream
  imports Chat_Translate
begin

text \<open>
  Streamed responses: the translation of an Anthropic event stream into chat-completion chunks
  (\<open>stream_anthropic_to_openai_sse\<close> of \<^verbatim>\<open>app/api/_oauth_chat_translate.py\<close>). A stream
  is the list of the pieces that arrive, split anywhere; an emitted chunk is its delta and finish reason, which
  \<open>emit_chunk\<close> renders.
\<close>

section \<open>Chunks\<close>

datatype delta =
    Role_delta
  | Content_delta json
  | Tool_start nat json json
  | Tool_args nat json
  | Empty_delta

datatype sse_item = Chunk delta "string option" | Done

fun delta_json :: "delta \<Rightarrow> jdict" where
  "delta_json Role_delta = [(''role'', JStr ''assistant''), (''content'', JStr [])]"
| "delta_json (Content_delta t) = [(''content'', t)]"
| "delta_json (Tool_start k i n) =
     [(''tool_calls'', JList [JObj [(''index'', JNum (of_nat k)), (''id'', i), (''type'', JStr ''function''),
        (''function'', JObj [(''name'', n), (''arguments'', JStr [])])]])]"
| "delta_json (Tool_args k a) =
     [(''tool_calls'', JList [JObj [(''index'', JNum (of_nat k)), (''function'', JObj [(''arguments'', a)])]])]"
| "delta_json Empty_delta = []"

fun emit_chunk :: "(json \<Rightarrow> string) \<Rightarrow> jdict \<Rightarrow> sse_item \<Rightarrow> string" where
  "emit_chunk dumps base (Chunk d fin) =
     ''data: '' @ dumps (JObj (base @ [(''choices'', JList [JObj [(''index'', JNum 0), (''delta'', JObj (delta_json d)),
        (''finish_reason'', case fin of None \<Rightarrow> JNull | Some f \<Rightarrow> JStr f)]])])) @ newline @ newline"
| "emit_chunk dumps base Done = ''data: [DONE]'' @ newline @ newline"

section \<open>Events\<close>

text \<open>The text up to the first blank line and what follows it.\<close>

fun cut_event :: "string \<Rightarrow> (string \<times> string) option" where
  "cut_event [] = None"
| "cut_event [c] = None"
| "cut_event (c # d # r) =
     (if c = CHR 0x0A \<and> d = CHR 0x0A then Some ([], r) else map_option (apfst ((#) c)) (cut_event (d # r)))"

definition data_line :: "string \<Rightarrow> string" where
  "data_line event = (case find (prefix ''data: '') (split_on CHR 0x0A event) of None \<Rightarrow> [] | Some l \<Rightarrow> drop 6 l)"

record stream_state =
  ss_finish :: "string option"
  ss_tools :: "(json \<times> nat) list"
  ss_next :: nat

datatype progress = Going string | Stopped | Raised shape_error

text \<open>What one decoded event emits and how it changes the state.\<close>

definition block_start :: "(nat \<Rightarrow> string) \<Rightarrow> jdict \<Rightarrow> stream_state \<Rightarrow> shape_error + sse_item list \<times> stream_state" where
  "block_start fresh evt st =
     bind_result (as_dict (json_or (json_get evt ''content_block'') (JObj []))) (\<lambda>blk.
       if json_get blk ''type'' = JStr ''tool_use''
       then map_result (\<lambda>h. ([Chunk (Tool_start (ss_next st) (json_or (json_get blk ''id'') (JStr (fresh (ss_next st))))
                                       (json_or (json_get blk ''name'') (JStr []))) None],
                             st \<lparr>ss_tools := (h, ss_next st) # ss_tools st, ss_next := Suc (ss_next st)\<rparr>))
              (hashable (json_field evt ''index'' (JNum 0)))
       else Inr ([], st))"

definition block_delta :: "jdict \<Rightarrow> stream_state \<Rightarrow> shape_error + sse_item list \<times> stream_state" where
  "block_delta evt st =
     bind_result (as_dict (json_or (json_get evt ''delta'') (JObj []))) (\<lambda>d.
       if json_get d ''type'' = JStr ''text_delta''
       then Inr ([Chunk (Content_delta (json_or (json_get d ''text'') (JStr []))) None], st)
       else if json_get d ''type'' = JStr ''input_json_delta''
       then map_result (\<lambda>h. (case map_of (ss_tools st) h of
                              None \<Rightarrow> []
                            | Some k \<Rightarrow> [Chunk (Tool_args k (json_or (json_get d ''partial_json'') (JStr []))) None], st))
              (hashable (json_field evt ''index'' (JNum 0)))
       else Inr ([], st))"

definition message_delta :: "jdict \<Rightarrow> stream_state \<Rightarrow> shape_error + sse_item list \<times> stream_state" where
  "message_delta evt st =
     bind_result (as_dict (json_or (json_get evt ''delta'') (JObj []))) (\<lambda>d.
       let stop = json_get d ''stop_reason'' in
       if json_truthy stop then map_result (\<lambda>f. ([], st \<lparr>ss_finish := Some f\<rparr>)) (finish_of stop) else Inr ([], st))"

definition final_items :: "stream_state \<Rightarrow> sse_item list" where
  "final_items st = [Chunk Empty_delta (Some (or_else (ss_finish st) ''stop'')), Done]"

definition handle_event ::
  "json_lib \<Rightarrow> (nat \<Rightarrow> string) \<Rightarrow> string \<Rightarrow> stream_state \<Rightarrow> sse_item list \<times> stream_state \<times> progress option" where
  "handle_event lib fresh event st =
     (let line = data_line event;
          go = (\<lambda>r. case r of Inr (out, st') \<Rightarrow> (out, st', None) | Inl e \<Rightarrow> ([], st, Some (Raised e)))
      in if line = [] then ([], st, None)
         else case loads lib line of
                None \<Rightarrow> ([], st, None)
              | Some (JObj evt) \<Rightarrow>
                  let t = json_get evt ''type'' in
                  if t = JStr ''content_block_start'' then go (block_start fresh evt st)
                  else if t = JStr ''content_block_delta'' then go (block_delta evt st)
                  else if t = JStr ''message_delta'' then go (message_delta evt st)
                  else if t = JStr ''message_stop'' then (final_items st, st, Some Stopped)
                  else ([], st, None)
              | Some _ \<Rightarrow> ([], st, Some (Raised Attribute_error)))"

lemma cut_event_shorter: "cut_event s = Some (e, r) \<Longrightarrow> length r < length s"
  by (induction s arbitrary: e rule: cut_event.induct) (auto split: if_splits)

function drain ::
  "json_lib \<Rightarrow> (nat \<Rightarrow> string) \<Rightarrow> stream_state \<Rightarrow> string \<Rightarrow> sse_item list \<times> stream_state \<times> progress" where
  "drain lib fresh st buf =
     (case cut_event buf of
        None \<Rightarrow> ([], st, Going buf)
      | Some (event, rest) \<Rightarrow>
          (case handle_event lib fresh event st of
             (out, st', Some p) \<Rightarrow> (out, st', p)
           | (out, st', None) \<Rightarrow> apfst ((@) out) (drain lib fresh st' rest)))"
  by pat_completeness auto

termination drain
  by (relation "measure (\<lambda>(lib, fresh, st, buf). length buf)") (auto dest: cut_event_shorter)

declare drain.simps [simp del]

fun feed ::
  "json_lib \<Rightarrow> (nat \<Rightarrow> string) \<Rightarrow> stream_state \<Rightarrow> string \<Rightarrow> string list \<Rightarrow> sse_item list \<times> stream_state \<times> progress" where
  "feed lib fresh st buf [] = ([], st, Going buf)"
| "feed lib fresh st buf (c # cs) =
     (case drain lib fresh st (buf @ c) of
        (out, st', Going buf') \<Rightarrow> apfst ((@) out) (feed lib fresh st' buf' cs)
      | r \<Rightarrow> r)"

definition stream_anthropic_to_openai_sse ::
  "json_lib \<Rightarrow> (nat \<Rightarrow> string) \<Rightarrow> string list \<Rightarrow> sse_item list \<times> shape_error option" where
  "stream_anthropic_to_openai_sse lib fresh chunks =
     (case feed lib fresh \<lparr>ss_finish = None, ss_tools = [], ss_next = 0\<rparr> [] chunks of
        (out, st, Going _) \<Rightarrow> (Chunk Role_delta None # out @ final_items st, None)
      | (out, st, Stopped) \<Rightarrow> (Chunk Role_delta None # out, None)
      | (out, st, Raised e) \<Rightarrow> (Chunk Role_delta None # out, Some e))"

section \<open>The pieces do not matter\<close>

lemma cut_event_append: "cut_event a = Some (e, r) \<Longrightarrow> cut_event (a @ b) = Some (e, r @ b)"
  by (induction a arbitrary: e rule: cut_event.induct) (auto split: if_splits)

lemma handle_event_ends: "handle_event lib fresh e st = (out, st', Some x) \<Longrightarrow> \<forall>y. x \<noteq> Going y"
  by (auto simp: handle_event_def Let_def split: if_splits option.splits json.splits sum.splits)

lemma drain_append:
  "drain lib fresh st (a @ b) =
     (case drain lib fresh st a of
        (out, st', Going buf) \<Rightarrow> apfst ((@) out) (drain lib fresh st' (buf @ b))
      | r \<Rightarrow> r)"
proof (induction lib fresh st a rule: drain.induct)
  case (1 lib fresh st a)
  show ?case
  proof (cases "cut_event a")
    case None
    then show ?thesis by (cases "drain lib fresh st (a @ b)") (simp add: drain.simps [of lib fresh st a])
  next
    case (Some p)
    then obtain e r where p: "cut_event a = Some (e, r)" by (cases p) auto
    obtain out st' q where h: "handle_event lib fresh e st = (out, st', q)" by (cases "handle_event lib fresh e st")
    note steps = drain.simps [of lib fresh st a] drain.simps [of lib fresh st "a @ b"]
    show ?thesis
    proof (cases q)
      case None
      obtain o2 st2 p2 where r: "drain lib fresh st' r = (o2, st2, p2)" by (cases "drain lib fresh st' r")
      have "apfst ((@) out) (apfst ((@) o2) x) = apfst ((@) (out @ o2)) x" for x :: "sse_item list \<times> stream_state \<times> progress"
        by (cases x) simp
      with 1 [OF p refl h [symmetric] refl None] p h None r show ?thesis
        by (cases p2) (simp_all add: steps cut_event_append)
    next
      case (Some x)
      with handle_event_ends [OF h [unfolded Some]] p h show ?thesis by (cases x) (simp_all add: steps cut_event_append)
    qed
  qed
qed

lemma drain_leftover: "drain lib fresh st a = (out, st', Going buf) \<Longrightarrow> cut_event buf = None"
proof (induction lib fresh st a arbitrary: out rule: drain.induct)
  case (1 lib fresh st a)
  show ?case
    using 1(1) 1(2) [unfolded drain.simps [of lib fresh st a]]
    by (fastforce split: option.splits prod.splits dest: handle_event_ends simp: apfst_def map_prod_def)
qed

lemma feed_concat:
  assumes "cut_event buf = None"
  shows "feed lib fresh st buf cs = drain lib fresh st (buf @ concat cs)"
  using assms
proof (induction cs arbitrary: st buf)
  case Nil
  then show ?case by (simp add: drain.simps)
next
  case (Cons c cs)
  obtain out st' p where d: "drain lib fresh st (buf @ c) = (out, st', p)" by (cases "drain lib fresh st (buf @ c)")
  have "drain lib fresh st (buf @ concat (c # cs)) =
    (case (out, st', p) of (out, st', Going b) \<Rightarrow> apfst ((@) out) (drain lib fresh st' (b @ concat cs)) | r \<Rightarrow> r)"
    using drain_append [of lib fresh st "buf @ c" "concat cs"] d by simp
  moreover have "feed lib fresh st' b cs = drain lib fresh st' (b @ concat cs)" if "p = Going b" for b
    using Cons.IH drain_leftover [of lib fresh st "buf @ c" out st' b] d that by simp
  ultimately show ?case using d by (cases p) simp_all
qed

text \<open>C19. The translation does not depend on how the network cuts the stream into pieces: it is the same as
  for the whole text in one piece.\<close>

theorem pieces_irrelevant:
  "stream_anthropic_to_openai_sse lib fresh cs = stream_anthropic_to_openai_sse lib fresh [concat cs]"
proof -
  have "feed lib fresh st [] cs = feed lib fresh st [] [concat cs]" for st
    by (simp only: feed_concat [of "[]"] cut_event.simps) simp
  then show ?thesis by (simp only: stream_anthropic_to_openai_sse_def)
qed

section \<open>The shape of the result\<close>

definition unfinished :: "sse_item \<Rightarrow> bool" where
  "unfinished x \<longleftrightarrow> (\<exists>d. x = Chunk d None)"

definition starts :: "sse_item list \<Rightarrow> nat list" where
  "starts xs = concat (map (\<lambda>x. case x of Chunk (Tool_start k _ _) _ \<Rightarrow> [k] | _ \<Rightarrow> []) xs)"

text \<open>Every argument delta belongs to a tool that has been announced.\<close>

definition args_follow :: "nat list \<Rightarrow> sse_item list \<Rightarrow> bool" where
  "args_follow ks xs \<longleftrightarrow> (\<forall>ys k a f zs. xs = ys @ Chunk (Tool_args k a) f # zs \<longrightarrow> k \<in> set ks \<union> set (starts ys))"

lemma starts_append [simp]: "starts (xs @ ys) = starts xs @ starts ys" "starts [] = []"
  by (simp_all add: starts_def)

lemma args_follow_append:
  assumes "args_follow ks xs" "args_follow (ks @ starts xs) ys"
  shows "args_follow ks (xs @ ys)"
  unfolding args_follow_def
proof (intro allI impI)
  fix us k a f zs assume eq: "xs @ ys = us @ Chunk (Tool_args k a) f # zs"
  from this [unfolded append_eq_append_conv2]
  consider vs where "xs = us @ vs" "vs @ ys = Chunk (Tool_args k a) f # zs" | vs where "us = xs @ vs" "ys = vs @ Chunk (Tool_args k a) f # zs"
    by blast
  then show "k \<in> set ks \<union> set (starts us)"
  proof cases
    case 1
    show ?thesis
    proof (cases vs)
      case Nil
      with 1 assms(2) have "ys = [] @ Chunk (Tool_args k a) f # zs" by simp
      with assms(2) have "k \<in> set (ks @ starts xs) \<union> set (starts [])" unfolding args_follow_def by blast
      with 1 Nil show ?thesis by simp
    next
      case (Cons v vs')
      with 1 assms(1) show ?thesis unfolding args_follow_def by simp
    qed
  next
    case 2
    with assms(2) have "k \<in> set (ks @ starts xs) \<union> set (starts vs)" unfolding args_follow_def by blast
    with 2 show ?thesis by auto
  qed
qed

definition tools_known :: "stream_state \<Rightarrow> bool" where
  "tools_known st \<longleftrightarrow> (\<forall>k \<in> snd ` set (ss_tools st). k < ss_next st)"

definition step_ok :: "stream_state \<Rightarrow> sse_item list \<Rightarrow> stream_state \<Rightarrow> bool" where
  "step_ok st out st' \<longleftrightarrow> tools_known st' \<and> starts out = [ss_next st..<ss_next st'] \<and> ss_next st \<le> ss_next st' \<and>
     args_follow [0..<ss_next st] out"

lemma upt_append: "i \<le> j \<Longrightarrow> j \<le> k \<Longrightarrow> [i..<j] @ [j..<k] = [i..<k]"
  using upt_add_eq_append [of i j "k - j"] by simp

lemma args_follow_one: "args_follow ks []" "args_follow ks [x] \<longleftrightarrow> (\<forall>k a f. x = Chunk (Tool_args k a) f \<longrightarrow> k \<in> set ks)"
  by (auto simp: args_follow_def Cons_eq_append_conv)

lemma step_ok_refl: "tools_known st \<Longrightarrow> step_ok st [] st"
  by (simp add: step_ok_def args_follow_def)

lemma step_ok_trans:
  assumes "step_ok st xs st1" "step_ok st1 ys st2"
  shows "step_ok st (xs @ ys) st2"
proof -
  have "[0..<ss_next st] @ starts xs = [0..<ss_next st1]"
    using assms(1) by (simp add: step_ok_def upt_append)
  with assms show ?thesis
    by (auto simp: step_ok_def upt_append intro!: args_follow_append)
qed

lemma handle_event_ok:
  assumes "handle_event lib fresh e st = (out, st', q)" and "tools_known st"
  shows "(q \<noteq> Some Stopped \<longrightarrow> list_all unfinished out \<and> step_ok st out st') \<and> (q = Some Stopped \<longrightarrow> out = final_items st \<and> st' = st)"
proof -
  have start: "step_ok st o1 s1 \<and> list_all unfinished o1" if "block_start fresh evt st = Inr (o1, s1)" for evt o1 s1
    using that assms(2)
    by (fastforce simp: block_start_def step_ok_def tools_known_def result_iff unfinished_def starts_def args_follow_one split: if_splits)
  have delta: "step_ok st o1 s1 \<and> list_all unfinished o1" if d: "block_delta evt st = Inr (o1, s1)" for evt o1 s1
  proof -
    have "k < ss_next st" if "map_of (ss_tools st) h = Some k" for h k
      using assms(2) map_of_SomeD [OF that] by (force simp: tools_known_def)
    with d assms(2) show ?thesis
      by (auto simp: block_delta_def step_ok_def result_iff unfinished_def starts_def args_follow_one
          split: if_splits option.splits)
  qed
  have message: "step_ok st o1 s1 \<and> list_all unfinished o1" if "message_delta evt st = Inr (o1, s1)" for evt o1 s1
    using that assms(2)
    by (fastforce simp: message_delta_def Let_def step_ok_def tools_known_def result_iff starts_def args_follow_one split: if_splits)
  show ?thesis
    using assms start delta message step_ok_refl [OF assms(2)]
    by (auto simp: handle_event_def Let_def split: if_splits option.splits json.splits sum.splits)
qed

lemma drain_ok:
  assumes "drain lib fresh st buf = (out, st', p)" and "tools_known st"
  shows "\<exists>body. list_all unfinished body \<and> step_ok st body st' \<and> out = body @ (if p = Stopped then final_items st' else [])"
  using assms
proof (induction lib fresh st buf arbitrary: out rule: drain.induct)
  case (1 lib fresh st buf)
  show ?case
  proof (cases "cut_event buf")
    case None
    with 1 show ?thesis by (auto simp: drain.simps [of lib fresh st buf] step_ok_refl intro: exI [of _ "[]"])
  next
    case (Some er)
    then obtain e r where er: "cut_event buf = Some (e, r)" by (cases er) auto
    obtain o1 st1 q where h: "handle_event lib fresh e st = (o1, st1, q)" by (cases "handle_event lib fresh e st")
    note ok = handle_event_ok [OF h 1(3)]
    show ?thesis
    proof (cases q)
      case None
      then have s1: "list_all unfinished o1" "step_ok st o1 st1" "tools_known st1" using ok by (auto simp: step_ok_def)
      obtain o2 where r: "drain lib fresh st1 r = (o2, st', p)" "out = o1 @ o2"
        using 1(2) er h None by (cases "drain lib fresh st1 r") (auto simp: drain.simps [of lib fresh st buf])
      from 1(1) [OF er refl h [symmetric] refl None r(1) s1(3)] obtain body where
        "list_all unfinished body" "step_ok st1 body st'" "o2 = body @ (if p = Stopped then final_items st' else [])" by blast
      with s1 r(2) step_ok_trans [OF s1(2)] show ?thesis by (intro exI [of _ "o1 @ body"]) auto
    next
      case (Some x)
      with 1(2) er h have "out = o1" "st' = st1" "p = x" by (simp_all add: drain.simps [of lib fresh st buf])
      with ok Some step_ok_refl [OF 1(3)] show ?thesis by (cases "x = Stopped") auto
    qed
  qed
qed

text \<open>C23. A translated stream that does not raise starts with the role, ends with exactly one finish reason
  and the end mark, and nothing in between is marked as finished; the tool calls are numbered from zero
  in the order they start, and arguments are only sent for a call that has been announced.\<close>

theorem stream_shape:
  assumes "stream_anthropic_to_openai_sse lib fresh chunks = (items, None)"
  shows "\<exists>body f. items = Chunk Role_delta None # body @ [Chunk Empty_delta (Some f), Done] \<and> f \<noteq> [] \<and>
    (\<forall>x \<in> set body. \<exists>d. x = Chunk d None) \<and> starts body = [0..<length (starts body)] \<and>
    (\<forall>ys k a g zs. body = ys @ Chunk (Tool_args k a) g # zs \<longrightarrow> k \<in> set (starts ys))"
proof -
  let ?st = "\<lparr>ss_finish = None, ss_tools = [], ss_next = 0\<rparr>"
  obtain out st p where d: "drain lib fresh ?st (concat chunks) = (out, st, p)" by (cases "drain lib fresh ?st (concat chunks)")
  have f: "feed lib fresh ?st [] chunks = (out, st, p)" using feed_concat [of "[]"] d by simp
  have "tools_known ?st" by (simp add: tools_known_def)
  from drain_ok [OF d this] obtain body where body: "list_all unfinished body" "step_ok ?st body st"
    "out = body @ (if p = Stopped then final_items st else [])" by blast
  have items: "items = Chunk Role_delta None # body @ final_items st"
    using assms f body(3) by (cases p) (auto simp: stream_anthropic_to_openai_sse_def)
  have "starts body = [0..<length (starts body)]" "args_follow [] body" using body(2) by (auto simp: step_ok_def)
  moreover have "or_else (ss_finish st) ''stop'' \<noteq> []" by (auto simp: or_else_def split: option.splits)
  ultimately show ?thesis
    using body(1) items
    by (intro exI [of _ body] exI [of _ "or_else (ss_finish st) ''stop''"])
      (auto simp: final_items_def list_all_iff unfinished_def args_follow_def)
qed

section \<open>Concrete streams\<close>

definition stream_lib :: json_lib where
  "stream_lib = \<lparr>loads = (\<lambda>s.
     if s = ''s'' then Some (JObj [(''type'', JStr ''content_block_start''), (''index'', JNum 1),
        (''content_block'', JObj [(''type'', JStr ''tool_use''), (''id'', JStr ''t''), (''name'', JStr ''f'')])])
     else if s = ''a'' then Some (JObj [(''type'', JStr ''content_block_delta''), (''index'', JNum 1),
        (''delta'', JObj [(''type'', JStr ''input_json_delta''), (''partial_json'', JStr ''{'')])])
     else None), str_of = (\<lambda>_. [])\<rparr>"

theorem stream_shape_witness:
  "\<exists>body f. [Chunk Role_delta None, Chunk (Tool_start 0 (JStr ''t'') (JStr ''f'')) None, Chunk (Tool_args 0 (JStr ''{'')) None,
      Chunk Empty_delta (Some ''stop''), Done] = Chunk Role_delta None # body @ [Chunk Empty_delta (Some f), Done] \<and>
    starts body = [0..<length (starts body)]"
proof -
  let ?nl = "CHR 0x0A"
  have "stream_anthropic_to_openai_sse stream_lib (\<lambda>_. []) [''data: s'' @ [?nl], ?nl # ''data: a'' @ [?nl, ?nl]] =
    ([Chunk Role_delta None, Chunk (Tool_start 0 (JStr ''t'') (JStr ''f'')) None, Chunk (Tool_args 0 (JStr ''{'')) None,
      Chunk Empty_delta (Some ''stop''), Done], None)" by code_simp
  from stream_shape [OF this] show ?thesis by blast
qed

end
