(* ===== verification/Codex_Translate.thy ===== *)
theory Codex_Translate
  imports Chat_Translate
begin

text \<open>
  The Codex backend (\<^verbatim>\<open>app/providers/codex_translate.py\<close>), which speaks the Responses API and only streams:
  the translation of a chat request, of the response stream into chat-completion chunks, and the collection of
  the stream into one completion. A stream is the list of its lines; a chunk is named by what it carries.
\<close>

section \<open>The request\<close>

text \<open>The texts of a system message: strings as they are, the text of text blocks through \<open>str()\<close>.\<close>

definition system_chunks :: "json_lib \<Rightarrow> json \<Rightarrow> string list" where
  "system_chunks lib content =
     (case content of
        JStr s \<Rightarrow> [s]
      | JList cs \<Rightarrow> concat (map (\<lambda>c. case c of
            JObj d \<Rightarrow> if json_get d ''type'' = JStr ''text'' then [fstr lib (json_or (json_get d ''text'') (JStr []))] else []
          | JStr s \<Rightarrow> [s] | _ \<Rightarrow> []) cs)
      | _ \<Rightarrow> [])"

definition extract_text :: "json_lib \<Rightarrow> json \<Rightarrow> string" where
  "extract_text lib content =
     (case content of
        JNull \<Rightarrow> []
      | JStr s \<Rightarrow> s
      | JList cs \<Rightarrow> concat (map (\<lambda>c. case c of
            JStr s \<Rightarrow> s | JObj d \<Rightarrow> (case json_get d ''text'' of JStr t \<Rightarrow> t | _ \<Rightarrow> []) | _ \<Rightarrow> []) cs)
      | _ \<Rightarrow> str_of lib content)"

definition input_item :: "string \<Rightarrow> string \<Rightarrow> string \<Rightarrow> json" where
  "input_item role ty text =
     JObj [(''type'', JStr ''message''), (''role'', JStr role),
           (''content'', JList [JObj [(''type'', JStr ty), (''text'', JStr text)]])]"

definition input_items :: "json_lib \<Rightarrow> jdict \<Rightarrow> json list" where
  "input_items lib m =
     (let role = json_get m ''role''; text = extract_text lib (json_get m ''content'') in
      if role = JStr ''system'' \<or> text = [] then []
      else if role = JStr ''user'' then [input_item ''user'' ''input_text'' text]
      else if role = JStr ''assistant'' then [input_item ''assistant'' ''output_text'' text]
      else if role = JStr ''tool'' then [input_item ''user'' ''input_text'' (''[tool_result] '' @ text)]
      else [])"

definition DEFAULT_INSTRUCTIONS :: string where "DEFAULT_INSTRUCTIONS = ''You are a helpful assistant.''"

definition instructions_of :: "json_lib \<Rightarrow> jdict list \<Rightarrow> string" where
  "instructions_of lib ms =
     (let chunks = concat (map (\<lambda>m. system_chunks lib (json_get m ''content'')) (filter (\<lambda>m. json_get m ''role'' = JStr ''system'') ms));
          joined = join_with (newline @ newline) (filter (\<lambda>s. s \<noteq> []) chunks)
      in if joined = [] then DEFAULT_INSTRUCTIONS else joined)"

definition reasoning_of :: "jdict \<Rightarrow> jdict" where
  "reasoning_of body =
     (let eb = (case json_get body ''extra_body'' of JObj d \<Rightarrow> d | _ \<Rightarrow> [])
      in case json_or (json_get body ''reasoning_effort'') (json_get eb ''reasoning_effort'') of
           JStr s \<Rightarrow> if strip s = [] then [] else [(''reasoning'', JObj [(''effort'', JStr (lower (strip s)))])]
         | _ \<Rightarrow> [])"

definition given_key :: "string \<Rightarrow> jdict \<Rightarrow> jdict" where
  "given_key k body = (if json_get body k = JNull then [] else [(k, json_get body k)])"

definition chat_completions_to_responses :: "json_lib \<Rightarrow> jdict \<Rightarrow> shape_error + jdict" where
  "chat_completions_to_responses lib body =
     map_result (\<lambda>items. let ms = dict_items items in
         [(''model'', json_get body ''model''), (''input'', JList (concat (map (input_items lib) ms))),
          (''stream'', JBool True), (''store'', JBool False), (''instructions'', JStr (instructions_of lib ms))] @
         given_key ''temperature'' body @ given_key ''top_p'' body @ reasoning_of body)
       (json_items (json_get body ''messages''))"

text \<open>What the backend insists on, whatever the caller sends: a stream, nothing stored, instructions, and input
  messages of the two roles with a text.\<close>

definition accepted_item :: "json \<Rightarrow> bool" where
  "accepted_item j \<longleftrightarrow> (\<exists>t. t \<noteq> [] \<and> (j = input_item ''user'' ''input_text'' t \<or> j = input_item ''assistant'' ''output_text'' t))"

text \<open>Every translated request is one the backend accepts: it asks for a stream, stores nothing, has
  non-empty instructions, its input consists of user and assistant messages with a text, and it carries
  neither tools nor a cap on the output.\<close>

theorem codex_request_accepted:
  assumes "chat_completions_to_responses lib body = Inr out"
  shows "json_get out ''stream'' = JBool True \<and> json_get out ''store'' = JBool False \<and>
    (\<exists>s. json_get out ''instructions'' = JStr s \<and> s \<noteq> []) \<and>
    (\<exists>items. json_get out ''input'' = JList items \<and> (\<forall>j \<in> set items. accepted_item j)) \<and>
    set (map fst out) \<subseteq> {''model'', ''input'', ''stream'', ''store'', ''instructions'', ''temperature'', ''top_p'', ''reasoning''}"
proof -
  have items: "accepted_item j" if "j \<in> set (input_items lib m)" for j m
    using that by (auto simp: input_items_def accepted_item_def Let_def split: if_splits)
  have ins: "instructions_of lib ms \<noteq> []" for ms by (simp add: instructions_of_def Let_def DEFAULT_INSTRUCTIONS_def)
  have keys: "set (map fst (given_key k body)) \<subseteq> {k}" "set (map fst (reasoning_of body)) \<subseteq> {''reasoning''}" for k
    by (auto simp: given_key_def reasoning_of_def Let_def split: json.splits)
  show ?thesis
    using assms items ins keys(1) [of "''temperature''"] keys(1) [of "''top_p''"] keys(2)
    by (fastforce simp: chat_completions_to_responses_def Let_def result_iff)
qed

section \<open>The Codex stream\<close>

text \<open>Lines of the response stream; a completion or an error ends it, any other event is dropped. A usage record
  is passed on with three of its fields.\<close>

datatype codex_item = Codex_delta bool json | Codex_finish "json option" | Codex_error json json | Codex_done

definition codex_event :: "json_lib \<Rightarrow> string \<Rightarrow> json option" where
  "codex_event lib line =
     (if line = [] \<or> prefix '':'' line \<or> prefix ''event:'' line \<or> \<not> prefix ''data:'' line then None
      else let payload = strip (drop 5 line) in if payload = [] then None else loads lib payload)"

definition codex_usage :: "jdict \<Rightarrow> shape_error + json option" where
  "codex_usage evt =
     map_result (\<lambda>r. case json_get r ''usage'' of
         JObj u \<Rightarrow> Some (JObj [(''prompt_tokens'', json_field u ''input_tokens'' (JNum 0)),
           (''completion_tokens'', json_field u ''output_tokens'' (JNum 0)), (''total_tokens'', json_field u ''total_tokens'' (JNum 0))])
       | _ \<Rightarrow> None)
       (as_dict (json_or (json_get evt ''response'') (JObj [])))"

fun responses_sse_to_chat_completions_sse ::
  "json_lib \<Rightarrow> bool \<Rightarrow> string list \<Rightarrow> codex_item list \<times> shape_error option" where
  "responses_sse_to_chat_completions_sse lib sent [] = ([], None)"
| "responses_sse_to_chat_completions_sse lib sent (line # lines) =
     (case codex_event lib line of
        None \<Rightarrow> responses_sse_to_chat_completions_sse lib sent lines
      | Some (JObj evt) \<Rightarrow>
          let kind = json_get evt ''type'' in
          if kind = JStr ''response.output_text.delta''
          then let d = json_get evt ''delta'' in
               if json_truthy d
               then apfst ((#) (Codex_delta (\<not> sent) d)) (responses_sse_to_chat_completions_sse lib True lines)
               else responses_sse_to_chat_completions_sse lib sent lines
          else if kind = JStr ''response.completed''
          then (case codex_usage evt of Inr u \<Rightarrow> ([Codex_finish u, Codex_done], None) | Inl e \<Rightarrow> ([], Some e))
          else if kind = JStr ''response.error'' \<or> kind = JStr ''error''
          then (case as_dict (json_or (json_get evt ''error'') (JObj evt)) of
                  Inr err \<Rightarrow> ([Codex_error (json_or (json_get err ''message'') (JStr (take 300 (str_of lib (JObj err)))))
                                 (json_or (json_get err ''type'') (JStr ''upstream_error'')), Codex_done], None)
                | Inl e \<Rightarrow> ([], Some e))
          else responses_sse_to_chat_completions_sse lib sent lines
      | Some _ \<Rightarrow> ([], Some Attribute_error))"

record completion =
  co_text :: string
  co_finish :: string
  co_usage :: "json option"
  co_error :: "json option"

fun codex_collect_loop :: "json_lib \<Rightarrow> string list \<Rightarrow> string list \<Rightarrow> shape_error + completion" where
  "codex_collect_loop lib acc [] = Inr \<lparr>co_text = concat acc, co_finish = ''stop'', co_usage = None, co_error = None\<rparr>"
| "codex_collect_loop lib acc (line # lines) =
     (case codex_event lib line of
        None \<Rightarrow> codex_collect_loop lib acc lines
      | Some (JObj evt) \<Rightarrow>
          let kind = json_get evt ''type'' in
          if kind = JStr ''response.output_text.delta''
          then codex_collect_loop lib (case json_get evt ''delta'' of JStr d \<Rightarrow> acc @ [d] | _ \<Rightarrow> acc) lines
          else if kind = JStr ''response.completed''
          then map_result (\<lambda>u. \<lparr>co_text = concat acc, co_finish = ''stop'', co_usage = u, co_error = None\<rparr>) (codex_usage evt)
          else if kind = JStr ''response.error'' \<or> kind = JStr ''error''
          then Inr \<lparr>co_text = concat acc, co_finish = ''error'', co_usage = None,
                  co_error = Some (json_or (json_get evt ''error'')
                    (JObj [(''message'', JStr (take 300 (str_of lib (JObj evt)))), (''type'', JStr ''upstream_error'')]))\<rparr>
          else codex_collect_loop lib acc lines
      | Some _ \<Rightarrow> Inl Attribute_error)"

definition collect_responses_stream_into_completion :: "json_lib \<Rightarrow> string list \<Rightarrow> shape_error + completion" where
  "collect_responses_stream_into_completion lib lines = codex_collect_loop lib [] lines"

definition streamed_text :: "codex_item list \<Rightarrow> string" where
  "streamed_text xs = concat (map (\<lambda>x. case x of Codex_delta _ (JStr s) \<Rightarrow> s | _ \<Rightarrow> []) xs)"

definition text_deltas :: "json_lib \<Rightarrow> string list \<Rightarrow> bool" where
  "text_deltas lib lines \<longleftrightarrow>
     (\<forall>l \<in> set lines. \<forall>evt. codex_event lib l = Some (JObj evt) \<longrightarrow> json_get evt ''type'' = JStr ''response.output_text.delta'' \<longrightarrow>
        (\<exists>s. json_get evt ''delta'' = JStr s))"

lemma collect_agrees:
  assumes "codex_collect_loop lib acc lines = Inr c" and "responses_sse_to_chat_completions_sse lib sent lines = (items, None)"
    and "text_deltas lib lines"
  shows "co_text c = concat acc @ streamed_text items \<and> (co_finish c = ''error'' \<longleftrightarrow> (\<exists>m t. Codex_error m t \<in> set items)) \<and>
    (\<forall>u. Codex_finish u \<in> set items \<longrightarrow> co_usage c = u)"
  using assms
proof (induction lines arbitrary: acc sent items)
  case Nil
  then show ?case by (auto simp: streamed_text_def)
next
  case (Cons line lines)
  have rest: "text_deltas lib lines" using Cons.prems(3) by (simp add: text_deltas_def)
  note IH = Cons.IH [OF _ _ rest]
  show ?case
  proof (cases "codex_event lib line")
    case None
    with IH Cons.prems show ?thesis by simp
  next
    case (Some j)
    with Cons.prems(1) obtain evt where evt: "codex_event lib line = Some (JObj evt)" by (cases j) auto
    let ?kind = "json_get evt ''type''"
    show ?thesis
    proof (cases "?kind = JStr ''response.output_text.delta''")
      case True
      then obtain s where s: "json_get evt ''delta'' = JStr s" using Cons.prems(3) evt by (auto simp: text_deltas_def)
      have c: "codex_collect_loop lib (acc @ [s]) lines = Inr c" using Cons.prems(1) evt True s by simp
      show ?thesis
      proof (cases "s = []")
        case True
        with IH [OF c] Cons.prems(2) evt \<open>?kind = _\<close> s show ?thesis by simp
      next
        case False
        with Cons.prems(2) evt \<open>?kind = _\<close> s obtain items' where
          "responses_sse_to_chat_completions_sse lib True lines = (items', None)" "items = Codex_delta (\<not> sent) (JStr s) # items'"
          by (cases "responses_sse_to_chat_completions_sse lib True lines") auto
        with IH [OF c this(1)] show ?thesis by (simp add: streamed_text_def)
      qed
    next
      case False
      with IH [of acc sent items] Cons.prems(1,2) evt show ?thesis
        by (auto simp: streamed_text_def Let_def result_iff split: if_splits sum.splits)
    qed
  qed
qed

text \<open>A Codex response collected into one completion says what the stream would have said: its text is the
  concatenation of the streamed deltas, it is an error exactly when the stream ends in one, and it carries the
  usage of the streamed finish.\<close>

theorem codex_collect_agrees:
  assumes "collect_responses_stream_into_completion lib lines = Inr c"
    and "responses_sse_to_chat_completions_sse lib False lines = (items, None)" and "text_deltas lib lines"
  shows "co_text c = streamed_text items \<and> (co_finish c = ''error'' \<longleftrightarrow> (\<exists>m t. Codex_error m t \<in> set items)) \<and>
    (\<forall>u. Codex_finish u \<in> set items \<longrightarrow> co_usage c = u)"
  using collect_agrees [OF assms(1) [unfolded collect_responses_stream_into_completion_def] assms(2,3)] by simp

text \<open>A connection that breaks before the completion event is reported as a regular stop, while the stream of
  the same lines has neither finish nor end mark.\<close>

lemma truncated_is_stop:
  assumes "\<forall>l \<in> set lines. codex_event lib l = None"
  shows "collect_responses_stream_into_completion lib lines =
      Inr \<lparr>co_text = [], co_finish = ''stop'', co_usage = None, co_error = None\<rparr> \<and>
    responses_sse_to_chat_completions_sse lib sent lines = ([], None)"
proof -
  have "codex_collect_loop lib [] lines = Inr \<lparr>co_text = [], co_finish = ''stop'', co_usage = None, co_error = None\<rparr>"
    using assms by (induction lines) simp_all
  moreover have "responses_sse_to_chat_completions_sse lib sent lines = ([], None)" using assms by (induction lines) simp_all
  ultimately show ?thesis by (simp add: collect_responses_stream_into_completion_def)
qed

section \<open>Concrete streams\<close>

definition codex_lib :: json_lib where
  "codex_lib = \<lparr>loads = (\<lambda>s.
     if s = ''d'' then Some (JObj [(''type'', JStr ''response.output_text.delta''), (''delta'', JStr ''hi'')])
     else if s = ''c'' then Some (JObj [(''type'', JStr ''response.completed'')])
     else None), str_of = (\<lambda>_. [])\<rparr>"

theorem codex_request_accepted_witness:
  "json_get [(''model'', JNull), (''input'', JList [input_item ''user'' ''input_text'' ''hi'']), (''stream'', JBool True), (''store'', JBool False),
     (''instructions'', JStr ''You are a helpful assistant.'')] ''store'' = JBool False"
proof -
  have "chat_completions_to_responses codex_lib [(''messages'', JList [JObj [(''role'', JStr ''user''), (''content'', JStr ''hi'')]])] =
    Inr [(''model'', JNull), (''input'', JList [input_item ''user'' ''input_text'' ''hi'']), (''stream'', JBool True), (''store'', JBool False),
      (''instructions'', JStr ''You are a helpful assistant.'')]" by code_simp
  from codex_request_accepted [OF this] show ?thesis by blast
qed

theorem codex_collect_agrees_witness:
  "streamed_text [Codex_delta True (JStr ''hi''), Codex_finish None, Codex_done] = ''hi''"
proof -
  let ?lines = "[''event: x'', ''data: d'', ''data: c'']"
  have ev: "codex_event codex_lib ''event: x'' = None" by code_simp
  have "collect_responses_stream_into_completion codex_lib ?lines =
      Inr \<lparr>co_text = ''hi'', co_finish = ''stop'', co_usage = None, co_error = None\<rparr>" by code_simp
  moreover have "responses_sse_to_chat_completions_sse codex_lib False ?lines =
      ([Codex_delta True (JStr ''hi''), Codex_finish None, Codex_done], None)" by code_simp
  moreover have "text_deltas codex_lib ?lines"
    using ev by (auto simp: text_deltas_def codex_event_def codex_lib_def strip_def is_space_def split: if_splits)
  ultimately show ?thesis using codex_collect_agrees by fastforce
qed

end
