(* ===== verification/Sse_Guard.thy ===== *)
theory Sse_Guard
  imports Json_Access Routing
begin

text \<open>
  The guard on streamed responses (\<^verbatim>\<open>app/api/_sse_guard.py\<close>): recognising error and content frames, the probe
  of the first frame, holding frames back until content appears, and the failover to another provider
  when a stream ends without content. A stream is the frames it produces and whether it raises after them;
  starting one is a parameter that may change the router's environment. Parameters are also the JSON
  library and \<open>json.dumps\<close>. Writes to the activity log, which nothing here reads, are left out.
\<close>

section \<open>Frames\<close>

definition is_byte_space :: "char \<Rightarrow> bool" where
  "is_byte_space c \<longleftrightarrow> (let n = of_char c :: nat in n = 32 \<or> (9 \<le> n \<and> n \<le> 13))"

definition bytes_strip :: "string \<Rightarrow> string" where
  "bytes_strip s = rev (dropWhile is_byte_space (rev (dropWhile is_byte_space s)))"

text \<open>What follows the first occurrence of a pattern.\<close>

fun after_first :: "string \<Rightarrow> string \<Rightarrow> string option" where
  "after_first p [] = (if p = [] then Some [] else None)"
| "after_first p (c # s) = (if prefix p (c # s) then Some (drop (length p) (c # s)) else after_first p s)"

definition frame_payload :: "json_lib \<Rightarrow> string \<Rightarrow> jdict option" where
  "frame_payload lib frame =
     (case after_first ''data:'' frame of
        None \<Rightarrow> None
      | Some rest \<Rightarrow> (case loads lib (bytes_strip rest) of Some (JObj d) \<Rightarrow> Some d | _ \<Rightarrow> None))"

text \<open>The message of an error frame; a message may be any JSON value.\<close>

definition sse_frame_error :: "(json \<Rightarrow> string) \<Rightarrow> json_lib \<Rightarrow> string \<Rightarrow> json option" where
  "sse_frame_error dumps lib frame =
     (case frame_payload lib frame of
        None \<Rightarrow> None
      | Some d \<Rightarrow>
          if json_get d ''type'' = JStr ''error'' \<or> (map_of d ''error'' \<noteq> None \<and> map_of d ''choices'' = None)
          then Some (case json_get d ''error'' of
                 JObj e \<Rightarrow> json_or (json_get e ''message'') (JStr (dumps (JObj e)))
               | JStr s \<Rightarrow> JStr s
               | _ \<Rightarrow> JStr ''upstream error'')
          else None)"

definition AUTH_MARKERS :: "string list" where
  "AUTH_MARKERS = [''x-api-key'', ''api key'', ''api-key'', ''unauthor'', ''invalid_grant'', ''authenticationerror'',
     ''permissiondenied'', '' 401'', '' 403'']"

definition http_status_for_stream_error :: "string \<Rightarrow> int" where
  "http_status_for_stream_error m =
     (let low = lower m in
      if any_in AUTH_MARKERS low then 401
      else if any_in [''rate limit'', ''rate_limit'', ''429''] low then 429 else 502)"

text \<open>A truthy value that is no dictionary has no \<open>get\<close>; reading such a frame raises.\<close>

definition sse_frame_has_content :: "json_lib \<Rightarrow> string \<Rightarrow> shape_error + bool" where
  "sse_frame_has_content lib frame =
     (case frame_payload lib frame of
        None \<Rightarrow> Inr False
      | Some d \<Rightarrow>
          if json_get d ''type'' = JStr ''content_block_delta''
          then map_result (\<lambda>x. list_ex (\<lambda>k. json_truthy (json_get x k)) [''text'', ''partial_json'', ''thinking''])
                 (as_dict (json_or (json_get d ''delta'') (JObj [])))
          else if json_get d ''type'' = JStr ''content_block_start''
          then map_result (\<lambda>b. json_get b ''type'' = JStr ''tool_use'') (as_dict (json_or (json_get d ''content_block'') (JObj [])))
          else case json_get d ''choices'' of
                 JList (c # _) \<Rightarrow>
                   bind_result (as_dict (json_or c (JObj []))) (\<lambda>ch.
                     map_result (\<lambda>x. list_ex (\<lambda>k. json_truthy (json_get x k)) [''content'', ''tool_calls'', ''function_call'', ''reasoning_content''])
                       (as_dict (json_or (json_get ch ''delta'') (JObj []))))
               | _ \<Rightarrow> Inr False)"

section \<open>Streams\<close>

record sse_stream =
  st_frames :: "string list"
  st_raises :: bool

datatype stream_failure = Upstream_raised | Frame_error shape_error

text \<open>The first frame with its error, \<open>upstream produced an empty stream\<close> for an empty one, and the rest.\<close>

definition preflight_sse ::
  "(json \<Rightarrow> string) \<Rightarrow> json_lib \<Rightarrow> sse_stream \<Rightarrow> stream_failure + string \<times> json option \<times> string list" where
  "preflight_sse dumps lib s =
     (case st_frames s of
        [] \<Rightarrow> if st_raises s then Inl Upstream_raised else Inr ([], Some (JStr ''upstream produced an empty stream''), [])
      | f # fs \<Rightarrow> Inr (f, sse_frame_error dumps lib f, fs))"

text \<open>Frames held back, whether content was seen or the cap reached, and the frames not read yet.\<close>

definition frame_test :: "json_lib \<Rightarrow> string \<Rightarrow> stream_failure + bool" where
  "frame_test lib f = (case sse_frame_has_content lib f of Inl e \<Rightarrow> Inl (Frame_error e) | Inr b \<Rightarrow> Inr b)"

fun buffer_more :: "json_lib \<Rightarrow> bool \<Rightarrow> nat \<Rightarrow> string list \<Rightarrow> string list \<Rightarrow> stream_failure + string list \<times> bool \<times> string list" where
  "buffer_more lib raises cap acc [] =
     (if length acc < cap then (if raises then Inl Upstream_raised else Inr (acc, False, [])) else Inr (acc, True, []))"
| "buffer_more lib raises cap acc (f # fs) =
     (if length acc < cap
      then bind_result (frame_test lib f) (\<lambda>b. if b then Inr (acc @ [f], True, fs) else buffer_more lib raises cap (acc @ [f]) fs)
      else Inr (acc, True, f # fs))"

definition MAX_FRAMES :: nat where "MAX_FRAMES = 64"

definition buffer_sse_until_content ::
  "json_lib \<Rightarrow> bool \<Rightarrow> string \<Rightarrow> string list \<Rightarrow> stream_failure + string list \<times> bool \<times> string list" where
  "buffer_sse_until_content lib raises first rest =
     bind_result (frame_test lib first) (\<lambda>b. if b then Inr ([first], True, rest) else buffer_more lib raises MAX_FRAMES [first] rest)"

section \<open>Failover\<close>

record guard_args =
  ga_hint :: "lmrh_hint option"
  ga_has_tools :: bool
  ga_has_images :: bool
  ga_key_type :: string
  ga_api_key_id :: "ident option"
  ga_model_override :: "string option"

definition guard_request :: "guard_args \<Rightarrow> ident list \<Rightarrow> request" where
  "guard_request a failed =
     new_request \<lparr>rq_hint := ga_hint a, has_tools := ga_has_tools a, has_images := ga_has_images a, key_type := ga_key_type a,
       model_override := ga_model_override a, exclude_provider_ids := failed,
       excluded_provider_types := [''claude-oauth'', ''grok-web'', ''ChatGPT-oauth-plan''], api_key_id := ga_api_key_id a\<rparr>"

datatype guard_result =
    Served "string list" "string list" route_result
  | Refused int json
  | Exhausted_empty nat
  | Failed_stream stream_failure

text \<open>The status is derived from the lower-cased message, which must be a string.\<close>

definition refuse :: "json \<Rightarrow> guard_result" where
  "refuse e =
     (if \<not> json_truthy e then Refused (http_status_for_stream_error []) e
      else case e of JStr m \<Rightarrow> Refused (http_status_for_stream_error m) e | _ \<Rightarrow> Failed_stream (Frame_error Attribute_error))"

definition fail_provider :: "ident \<Rightarrow> router_env \<Rightarrow> router_env" where
  "fail_provider i env = env \<lparr>env_breaker := record_failure (env_settings env) (env_now env) i False (env_breaker env)\<rparr>"

type_synonym starter = "route_result \<Rightarrow> router_env \<Rightarrow> sse_stream \<times> router_env"

text \<open>What one attempt finds: a result, or a stream that ended without content.\<close>

definition attempt :: "(json \<Rightarrow> string) \<Rightarrow> json_lib \<Rightarrow> sse_stream \<Rightarrow> route_result \<Rightarrow> guard_result option" where
  "attempt dumps lib s r =
     (case preflight_sse dumps lib s of
        Inl e \<Rightarrow> Some (Failed_stream e)
      | Inr (first, Some e, rest) \<Rightarrow> Some (refuse e)
      | Inr (first, None, rest) \<Rightarrow>
          (case buffer_sse_until_content lib (st_raises s) first rest of
             Inl e \<Rightarrow> Some (Failed_stream e)
           | Inr (frames, ok, left) \<Rightarrow> if ok then Some (Served frames left r) else None))"

fun guard_loop ::
  "(json \<Rightarrow> string) \<Rightarrow> json_lib \<Rightarrow> starter \<Rightarrow> guard_args \<Rightarrow> nat \<Rightarrow> route_result \<Rightarrow> ident list \<Rightarrow> router_env \<Rightarrow>
   guard_result \<times> ident list \<times> router_env" where
  "guard_loop dumps lib start a 0 r failed env = (Exhausted_empty (length failed), failed, env)"
| "guard_loop dumps lib start a (Suc n) r failed env =
     (let (s, env1) = start r env; i = pid (rt_provider r) in
      case attempt dumps lib s r of
        Some res \<Rightarrow> (res, failed, env1)
      | None \<Rightarrow>
          let env2 = fail_provider i env1; failed' = (if i \<in> set failed then failed else failed @ [i]) in
          if n = 0 then (Exhausted_empty (length failed'), failed', env2)
          else (case select_provider env2 (guard_request a failed') of
                  (Inr (Route r'), env3) \<Rightarrow>
                    if pid (rt_provider r') \<in> set failed' then (Exhausted_empty (length failed'), failed', env3)
                    else guard_loop dumps lib start a n r' failed' env3
                | (_, env3) \<Rightarrow> (Exhausted_empty (length failed'), failed', env3)))"

definition stream_with_empty_guard ::
  "(json \<Rightarrow> string) \<Rightarrow> json_lib \<Rightarrow> starter \<Rightarrow> guard_args \<Rightarrow> nat \<Rightarrow> route_result \<Rightarrow> router_env \<Rightarrow> guard_result \<times> ident list \<times> router_env" where
  "stream_with_empty_guard dumps lib start a max_attempts r env = guard_loop dumps lib start a max_attempts r [] env"

section \<open>Nothing is lost, nothing empty is served\<close>

lemma buffer_more_frames:
  assumes "buffer_more lib raises cap acc rest = Inr (frames, ok, left)"
  shows "frames @ left = acc @ rest \<and> prefix acc frames \<and> (ok \<longrightarrow> cap \<le> length frames \<or> frame_test lib (last frames) = Inr True) \<and>
    (\<not> ok \<longrightarrow> left = [] \<and> \<not> raises)"
  using assms
proof (induction lib raises cap acc rest rule: buffer_more.induct)
  case (2 lib raises cap acc f fs)
  then show ?case by (fastforce simp: result_iff prefix_def split: if_splits)
qed (auto split: if_splits)

lemma buffered_frames:
  assumes "buffer_sse_until_content lib raises first rest = Inr (frames, ok, left)"
  shows "frames @ left = first # rest \<and> (ok \<longrightarrow> 64 \<le> length frames \<or> frame_test lib (last frames) = Inr True) \<and>
    (\<not> ok \<longrightarrow> left = [] \<and> \<not> raises)"
  using assms buffer_more_frames [of lib raises MAX_FRAMES "[first]" rest frames ok left]
  by (auto simp: buffer_sse_until_content_def MAX_FRAMES_def result_iff split: if_splits)

lemma attempt_Served:
  assumes "attempt dumps lib s r = Some (Served frames left r')"
  shows "r' = r \<and> frames @ left = st_frames s \<and> frames \<noteq> [] \<and> sse_frame_error dumps lib (hd frames) = None \<and>
    (64 \<le> length frames \<or> frame_test lib (last frames) = Inr True)"
proof -
  obtain first rest where p: "preflight_sse dumps lib s = Inr (first, None, rest)"
    and b: "buffer_sse_until_content lib (st_raises s) first rest = Inr (frames, True, left)" and r: "r' = r"
    using assms by (auto simp: attempt_def refuse_def split: sum.splits option.splits if_splits json.splits)
  have f: "st_frames s = first # rest" "sse_frame_error dumps lib first = None"
    using p by (auto simp: preflight_sse_def split: list.splits if_splits)
  from buffered_frames [OF b] have "frames @ left = first # rest" "64 \<le> length frames \<or> frame_test lib (last frames) = Inr True" by simp_all
  moreover from this have "frames \<noteq> []"
    using b by (auto simp: buffer_sse_until_content_def result_iff dest!: buffer_more_frames split: if_splits)
  ultimately show ?thesis using f r by (cases frames) auto
qed

text \<open>A stream that counts as an empty success: it starts without an error, ends by itself after fewer than 64 frames, and no frame has content.\<close>

definition streams_nothing :: "(json \<Rightarrow> string) \<Rightarrow> json_lib \<Rightarrow> sse_stream \<Rightarrow> bool" where
  "streams_nothing dumps lib s \<longleftrightarrow>
     st_frames s \<noteq> [] \<and> sse_frame_error dumps lib (hd (st_frames s)) = None \<and> \<not> st_raises s \<and> length (st_frames s) < 64 \<and>
     list_all (\<lambda>f. sse_frame_has_content lib f = Inr False) (st_frames s)"

lemma frame_test_False: "frame_test lib f = Inr b \<longleftrightarrow> sse_frame_has_content lib f = Inr b"
  by (auto simp: frame_test_def split: sum.splits)

lemma buffer_more_empty:
  "(\<exists>frames left. buffer_more lib raises cap acc rest = Inr (frames, False, left)) \<longleftrightarrow>
     \<not> raises \<and> length acc + length rest < cap \<and> list_all (\<lambda>f. sse_frame_has_content lib f = Inr False) rest"
proof (induction lib raises cap acc rest rule: buffer_more.induct)
  case (2 lib raises cap acc f fs)
  then show ?case by (cases "sse_frame_has_content lib f") (auto simp: frame_test_def)
qed auto

lemma buffer_empty:
  "buffer_sse_until_content lib raises f fs = Inr (frames, False, left) \<longleftrightarrow>
     sse_frame_has_content lib f = Inr False \<and> buffer_more lib raises MAX_FRAMES [f] fs = Inr (frames, False, left)"
  by (cases "sse_frame_has_content lib f") (auto simp: buffer_sse_until_content_def frame_test_def)

lemma attempt_None: "attempt dumps lib s r = None \<longleftrightarrow> streams_nothing dumps lib s"
proof -
  have "attempt dumps lib s r = None \<longleftrightarrow>
      (\<exists>f fs frames left. st_frames s = f # fs \<and> sse_frame_error dumps lib f = None \<and>
        buffer_sse_until_content lib (st_raises s) f fs = Inr (frames, False, left))"
    by (auto simp: attempt_def preflight_sse_def split: sum.splits option.splits list.splits if_splits)
  also have "\<dots> \<longleftrightarrow> (\<exists>f fs. st_frames s = f # fs \<and> sse_frame_error dumps lib f = None \<and> sse_frame_has_content lib f = Inr False \<and>
      (\<exists>frames left. buffer_more lib (st_raises s) MAX_FRAMES [f] fs = Inr (frames, False, left)))"
    unfolding buffer_empty by blast
  also have "\<dots> \<longleftrightarrow> streams_nothing dumps lib s"
    unfolding buffer_more_empty by (cases "st_frames s") (auto simp: streams_nothing_def MAX_FRAMES_def)
  finally show ?thesis .
qed

section \<open>The tries of a request\<close>

record guard_try =
  gt_route :: route_result
  gt_before :: router_env
  gt_stream :: sse_stream
  gt_after :: router_env

definition try_id :: "guard_try \<Rightarrow> ident" where
  "try_id t = pid (rt_provider (gt_route t))"

text \<open>The environment in which the failure of a try is recorded with the breaker.\<close>

definition recorded :: "guard_try \<Rightarrow> router_env" where
  "recorded t =
     (let env = gt_after t
      in env \<lparr>env_breaker := record_failure (env_settings env) (env_now env) (try_id t) False (env_breaker env)\<rparr>)"

text \<open>Each try starts a stream on its route. The next one follows only an empty success; its route is what the router
  selects once the failure is recorded, without the providers tried so far.\<close>

fun linked ::
  "(json \<Rightarrow> string) \<Rightarrow> json_lib \<Rightarrow> starter \<Rightarrow> guard_args \<Rightarrow> ident list \<Rightarrow> guard_try list \<Rightarrow> bool" where
  "linked dumps lib start a tried [] \<longleftrightarrow> True"
| "linked dumps lib start a tried (t # ts) \<longleftrightarrow>
     start (gt_route t) (gt_before t) = (gt_stream t, gt_after t) \<and>
     (case ts of
        [] \<Rightarrow> True
      | u # _ \<Rightarrow>
          streams_nothing dumps lib (gt_stream t) \<and>
          select_provider (recorded t) (guard_request a (tried @ [try_id t])) = (Inr (Route (gt_route u)), gt_before u)) \<and>
     linked dumps lib start a (tried @ [try_id t]) ts"

text \<open>How a request ends, from its last try.\<close>

definition ends_with ::
  "(json \<Rightarrow> string) \<Rightarrow> json_lib \<Rightarrow> guard_args \<Rightarrow> nat \<Rightarrow> ident list \<Rightarrow> guard_try list \<Rightarrow> guard_result \<Rightarrow> ident list \<Rightarrow> router_env \<Rightarrow> bool" where
  "ends_with dumps lib a n tried ts res failed env' \<longleftrightarrow>
     failed = tried @ map try_id (filter (\<lambda>t. streams_nothing dumps lib (gt_stream t)) ts) \<and>
     (case res of
        Served frames left q \<Rightarrow>
          q = gt_route (last ts) \<and> env' = gt_after (last ts) \<and> frames @ left = st_frames (gt_stream (last ts)) \<and> frames \<noteq> [] \<and>
          sse_frame_error dumps lib (hd frames) = None \<and>
          (64 \<le> length frames \<or> sse_frame_has_content lib (last frames) = Inr True)
      | Exhausted_empty k \<Rightarrow>
          k = length failed \<and> list_all (\<lambda>t. streams_nothing dumps lib (gt_stream t)) ts \<and>
          (env' = recorded (last ts) \<or>
           length ts < n \<and> env' = snd (select_provider (recorded (last ts)) (guard_request a failed)))
      | _ \<Rightarrow> attempt dumps lib (gt_stream (last ts)) (gt_route (last ts)) = Some res \<and> env' = gt_after (last ts))"

lemma attempt_ends:
  assumes "start r env = (s, env1)" and "attempt dumps lib s r = Some res"
  defines "t \<equiv> \<lparr>gt_route = r, gt_before = env, gt_stream = s, gt_after = env1\<rparr>"
  shows "ends_with dumps lib a n tried [t] res tried env1"
proof -
  have no: "\<not> streams_nothing dumps lib s" using attempt_None [of dumps lib s r] assms(2) by simp
  show ?thesis
  proof (cases res)
    case (Served frames left q)
    with attempt_Served [OF assms(2) [unfolded Served]] no show ?thesis by (simp add: ends_with_def t_def frame_test_False)
  next
    case (Exhausted_empty k)
    with assms(2) show ?thesis by (auto simp: attempt_def refuse_def split: sum.splits option.splits if_splits json.splits prod.splits)
  qed (use assms(2) no in \<open>simp_all add: ends_with_def t_def\<close>)
qed

lemma ends_with_Cons:
  assumes "ends_with dumps lib a n (tried @ [try_id t]) ts res failed env'" and "streams_nothing dumps lib (gt_stream t)" and "ts \<noteq> []"
  shows "ends_with dumps lib a (Suc n) tried (t # ts) res failed env'"
  using assms by (auto simp: ends_with_def split: guard_result.splits)

lemma guard_loop_tries:
  assumes "guard_loop dumps lib start a (Suc n) r tried env = (res, failed, env')" and "pid (rt_provider r) \<notin> set tried"
  shows "\<exists>t ts. gt_route t = r \<and> gt_before t = env \<and> length ts \<le> n \<and> linked dumps lib start a tried (t # ts) \<and>
    distinct (map try_id (t # ts)) \<and> set (map try_id (t # ts)) \<inter> set tried = {} \<and>
    ends_with dumps lib a (Suc n) tried (t # ts) res failed env'"
  using assms
proof (induction n arbitrary: r tried env)
  case (0 r tried env)
  obtain s env1 where s: "start r env = (s, env1)" by fastforce
  let ?t = "\<lparr>gt_route = r, gt_before = env, gt_stream = s, gt_after = env1\<rparr>"
  have "ends_with dumps lib a (Suc 0) tried [?t] res failed env'"
  proof (cases "attempt dumps lib s r")
    case (Some res')
    with 0 s attempt_ends [where start = start, OF s Some] show ?thesis by (simp add: Let_def)
  next
    case None
    with 0 s show ?thesis
      by (auto simp: ends_with_def attempt_None recorded_def try_id_def fail_provider_def Let_def)
  qed
  then show ?case using s 0(2) by (intro exI [of _ ?t] exI [of _ "[]"]) (simp add: try_id_def)
next
  case (Suc n r tried env)
  obtain s env1 where s: "start r env = (s, env1)" by fastforce
  let ?t = "\<lparr>gt_route = r, gt_before = env, gt_stream = s, gt_after = env1\<rparr>" and ?tried = "tried @ [pid (rt_provider r)]"
  have id: "try_id ?t = pid (rt_provider r)" by (simp add: try_id_def)
  show ?case
  proof (cases "attempt dumps lib s r")
    case (Some res')
    with Suc.prems s have "res = res'" "failed = tried" "env' = env1" by (simp_all add: Let_def)
    with attempt_ends [where start = start, OF s Some, of a "Suc (Suc n)" tried] s Suc.prems(2) show ?thesis
      by (intro exI [of _ ?t] exI [of _ "[]"]) (simp add: id)
  next
    case None
    have rec: "fail_provider (pid (rt_provider r)) env1 = recorded ?t" by (simp add: recorded_def try_id_def fail_provider_def Let_def)
    have no: "streams_nothing dumps lib s" using None by (simp add: attempt_None)
    obtain sel env3 where sel: "select_provider (recorded ?t) (guard_request a ?tried) = (sel, env3)" by fastforce
    have step: "guard_loop dumps lib start a (Suc (Suc n)) r tried env =
        (case sel of
           Inr (Route r') \<Rightarrow> if pid (rt_provider r') \<in> set ?tried then (Exhausted_empty (length ?tried), ?tried, env3)
                             else guard_loop dumps lib start a (Suc n) r' ?tried env3
         | _ \<Rightarrow> (Exhausted_empty (length ?tried), ?tried, env3))"
      using s None sel Suc.prems(2) by (simp add: Let_def rec del: guard_loop.simps(2) split: sum.split selection.split)
        (subst guard_loop.simps(2), simp add: Let_def rec split: sum.split selection.split)
    show ?thesis
    proof (cases "\<exists>r'. sel = Inr (Route r') \<and> pid (rt_provider r') \<notin> set ?tried")
      case True
      then obtain r' where r': "sel = Inr (Route r')" "pid (rt_provider r') \<notin> set ?tried" by blast
      have "guard_loop dumps lib start a (Suc n) r' ?tried env3 = (res, failed, env')"
        using Suc.prems(1) step r' by simp
      from Suc.IH [OF this r'(2)] obtain t ts where ts: "gt_route t = r'" "gt_before t = env3" "length ts \<le> n"
        "linked dumps lib start a ?tried (t # ts)" "distinct (map try_id (t # ts))" "set (map try_id (t # ts)) \<inter> set ?tried = {}"
        "ends_with dumps lib a (Suc n) ?tried (t # ts) res failed env'" by blast
      have "ends_with dumps lib a (Suc (Suc n)) tried (?t # t # ts) res failed env'"
        by (rule ends_with_Cons) (use ts(7) no id in simp_all)
      moreover have "linked dumps lib start a tried (?t # t # ts)"
        using s no sel r'(1) ts(1,2,4) by (simp add: id)
      ultimately show ?thesis using ts(3,5,6) Suc.prems(2) by (intro exI [of _ ?t] exI [of _ "t # ts"]) (auto simp: id)
    next
      case False
      then have "res = Exhausted_empty (length ?tried)" "failed = ?tried" "env' = env3"
        using Suc.prems(1) step by (auto split: sum.splits selection.splits if_splits)
      then have "ends_with dumps lib a (Suc (Suc n)) tried [?t] res failed env'" using no sel id by (simp add: ends_with_def)
      then show ?thesis using s Suc.prems(2) by (intro exI [of _ ?t] exI [of _ "[]"]) (simp add: id)
    qed
  qed
qed

text \<open>C20. What the guard does with a request is a list of tries, at most as many as allowed and none on a provider tried
  before. The first is on the route it was given; each later one follows a stream that ended without content, after that
  failure was recorded with the breaker, on the route the router then selects when the providers tried are excluded. The
  failed providers are exactly those of the tries that streamed nothing. A served response is the whole stream
  of the last try, nothing lost, its first frame is no error, and the last frame held back has content or 64 frames were
  held back (which then need not have content). The request is given up as empty only when every
  try streamed nothing, and the last failure is recorded too. Any other outcome is the error of the last try.\<close>

theorem guard_serves_content:
  assumes "stream_with_empty_guard dumps lib start a max_attempts r env = (res, failed, env')" and "0 < max_attempts"
  shows "\<exists>t ts. gt_route t = r \<and> gt_before t = env \<and> length (t # ts) \<le> max_attempts \<and> distinct (map try_id (t # ts)) \<and>
    linked dumps lib start a [] (t # ts) \<and> ends_with dumps lib a max_attempts [] (t # ts) res failed env'"
proof -
  obtain n where n: "max_attempts = Suc n" using assms(2) by (cases max_attempts) auto
  from guard_loop_tries [OF assms(1) [unfolded stream_with_empty_guard_def n]]
  show ?thesis unfolding n by auto
qed

section \<open>A concrete stream\<close>

definition guard_lib :: json_lib where
  "guard_lib = \<lparr>loads = (\<lambda>s.
     if s = ''x'' then Some (JObj [(''type'', JStr ''content_block_delta''), (''delta'', JObj [(''text'', JStr ''hi'')])])
     else if s = ''m'' then Some (JObj [(''type'', JStr ''message_start'')]) else None), str_of = (\<lambda>_. [])\<rparr>"

text \<open>The first provider streams nothing, the second answers.\<close>

definition dead_start :: starter where
  "dead_start r env =
     (if pid (rt_provider r) = ''b'' then \<lparr>st_frames = [''data: m''], st_raises = False\<rparr>
      else \<lparr>st_frames = [''data: m'', ''data: x'', ''data: m''], st_raises = False\<rparr>, env)"

definition guard_demo_args :: guard_args where
  "guard_demo_args = \<lparr>ga_hint = None, ga_has_tools = False, ga_has_images = False, ga_key_type = ''standard'', ga_api_key_id = None,
     ga_model_override = None\<rparr>"

definition guard_demo :: "(guard_result \<times> ident list \<times> router_env) option" where
  "guard_demo =
     (case select_provider demo_env new_request of
        (Inr (Route r), env) \<Rightarrow> Some (stream_with_empty_guard (\<lambda>_. []) guard_lib dead_start guard_demo_args 3 r env)
      | _ \<Rightarrow> None)"

theorem guard_serves_content_witness:
  "\<exists>t ts res env'. guard_demo = Some (res, [''b''], env') \<and>
     linked (\<lambda>_. []) guard_lib dead_start guard_demo_args [] (t # ts) \<and> distinct (map try_id (t # ts)) \<and>
     try_id (last (t # ts)) = ''c'' \<and>
     map try_id (filter (\<lambda>t. streams_nothing (\<lambda>_. []) guard_lib (gt_stream t)) (t # ts)) = [''b''] \<and>
     st_frames (gt_stream (last (t # ts))) = [''data: m'', ''data: x'', ''data: m'']"
proof -
  have demo: "case guard_demo of Some (Served frames left q, failed, _) \<Rightarrow> failed = [''b''] \<and> pid (rt_provider q) = ''c'' \<and>
      frames @ left = [''data: m'', ''data: x'', ''data: m''] | _ \<Rightarrow> False" by code_simp
  obtain sel env where sel: "select_provider demo_env new_request = (sel, env)" by fastforce
  with demo obtain r where r: "sel = Inr (Route r)" by (simp add: guard_demo_def split: sum.splits selection.splits)
  obtain res failed env' where g: "stream_with_empty_guard (\<lambda>_. []) guard_lib dead_start guard_demo_args 3 r env = (res, failed, env')"
    by (rule prod_cases3)
  have eq: "guard_demo = Some (res, failed, env')" by (simp add: guard_demo_def sel r g)
  obtain frames left q where res: "res = Served frames left q" and failed: "failed = [''b'']" and q: "pid (rt_provider q) = ''c''"
    and f: "frames @ left = [''data: m'', ''data: x'', ''data: m'']"
    using demo by (cases res) (simp_all add: eq)
  from guard_serves_content [OF g] obtain t ts where ts: "linked (\<lambda>_. []) guard_lib dead_start guard_demo_args [] (t # ts)"
    "distinct (map try_id (t # ts))" "ends_with (\<lambda>_. []) guard_lib guard_demo_args 3 [] (t # ts) res failed env'" by auto
  from ts(3) have "[''b''] = map try_id (filter (\<lambda>t. streams_nothing (\<lambda>_. []) guard_lib (gt_stream t)) (t # ts))"
    "q = gt_route (last (t # ts))" "frames @ left = st_frames (gt_stream (last (t # ts)))"
    unfolding ends_with_def res failed append_Nil guard_result.case by blast+
  with ts(1,2) eq q f show ?thesis unfolding failed try_id_def by metis
qed

end
