(* ===== verification/Refusal_Cascade.thy ===== *)
theory Refusal_Cascade
  imports Key_Policy Routing Retry
begin

text \<open>
  The cascade over other providers when a model refuses (\<^verbatim>\<open>app/api/_refusal_cascade.py\<close>), with the arguments of
  the upstream call that \<^verbatim>\<open>app/api/messages.py\<close> prepares and the dispatch that
  \<^verbatim>\<open>app/api/_messages_nonstream_dispatch.py\<close> hands to it. The upstream call and the conversion of its response are
  parameters, as is \<open>detect\<close>, the test of a text against the refusal patterns, which are regular
  expressions. Writes to the activity log are left out. The arguments are those of a request whose first call succeeds on the route
  they were built for; the handler's later replacements of them, when a call fails over, are not modelled.
\<close>

section \<open>The call\<close>

record call_request =
  cq_model :: string
  cq_kwargs :: kwargs
  cq_system :: json
  cq_tools :: "json list"

text \<open>The keyword arguments for a route: its provider's, the cap on the output, its reasoning parameters or the
  caller's thinking block, and the beta header.\<close>

definition build_extra :: "route_result \<Rightarrow> int \<Rightarrow> kwval option \<Rightarrow> string option \<Rightarrow> kwargs" where
  "build_extra r max_tokens thinking beta =
     (let e = kw_set ''max_tokens'' (KInt max_tokens) (litellm_kwargs r);
          anthropic = (prof_provider_type (rt_profile r) = ''anthropic'');
          e1 = (if rt_native_thinking_params r \<noteq> []
                then clamp_thinking_budget (fold (\<lambda>(k, v). kw_set k v) (rt_native_thinking_params r) e)
                else case thinking of Some t \<Rightarrow> if anthropic then kw_set ''thinking'' t e else e | None \<Rightarrow> e)
      in if truthy beta \<and> anthropic then kw_set ''extra_headers'' (KDict [(''anthropic-beta'', KStr (the beta))]) e1 else e1)"

text \<open>The dispatch of the cascade: the other route's model with the arguments built for the first route.\<close>

definition cascade_dispatch :: "kwargs \<Rightarrow> json \<Rightarrow> json list \<Rightarrow> route_result \<Rightarrow> call_request" where
  "cascade_dispatch extra system tools alt =
     \<lparr>cq_model = litellm_model alt, cq_kwargs = extra, cq_system = system, cq_tools = tools\<rparr>"

section \<open>Texts\<close>

definition response_text :: "json \<Rightarrow> string" where
  "response_text resp =
     (case resp of
        JObj d \<Rightarrow>
          (case json_get d ''content'' of
             JList bs \<Rightarrow> join_with newline (concat (map (\<lambda>b. case json_or (json_get b ''text'') (JStr []) of JStr t \<Rightarrow> [t] | _ \<Rightarrow> [])
                          (filter (\<lambda>b. json_get b ''type'' = JStr ''text'') (dict_items bs))))
           | _ \<Rightarrow> [])
      | _ \<Rightarrow> [])"

section \<open>The cascade\<close>

text \<open>What the cascade reads of the authenticated key. It is handed the \<open>ApiKeyRecord\<close>, and an attribute the record
  does not have reads as the default.\<close>

record cascade_key =
  ck_id :: ident
  ck_key_type :: string
  ck_retry_enabled :: bool
  ck_max_attempts :: "int option"

definition cascade_key_of :: "key_columns \<Rightarrow> cascade_key" where
  "cascade_key_of row =
     (let rec = key_record_of row; text = (\<lambda>j. case j of JStr s \<Rightarrow> s | _ \<Rightarrow> [])
      in \<lparr>ck_id = text (py_getattr rec ''id'' JNull), ck_key_type = text (py_getattr rec ''key_type'' JNull),
          ck_retry_enabled = json_truthy (py_getattr rec ''refusal_retry_enabled'' (JBool False)),
          ck_max_attempts = as_budget (py_getattr rec ''refusal_retry_max_attempts'' JNull)\<rparr>)"

definition DEFAULT_MAX_ATTEMPTS :: int where "DEFAULT_MAX_ATTEMPTS = 3"

definition max_attempts_of :: "cascade_key \<Rightarrow> int" where
  "max_attempts_of k = (case ck_max_attempts k of None \<Rightarrow> DEFAULT_MAX_ATTEMPTS | Some n \<Rightarrow> if n = 0 then DEFAULT_MAX_ATTEMPTS else n)"

definition cascade_request :: "cascade_key \<Rightarrow> lmrh_hint option \<Rightarrow> bool \<Rightarrow> ident list \<Rightarrow> request" where
  "cascade_request k hint images attempted =
     new_request \<lparr>rq_hint := hint, has_tools := False, has_images := images, key_type := ck_key_type k,
       api_key_id := Some (ck_id k), exclude_provider_ids := attempted\<rparr>"

text \<open>What the cascade needs from outside: the call, the conversion and the test.\<close>

record ('resp, 'm, 'w) cascade_env =
  ce_call :: "call_request \<Rightarrow> router_env \<times> 'w \<Rightarrow> (string + 'resp) \<times> router_env \<times> 'w"
  ce_convert :: "'resp \<Rightarrow> string + json"
  ce_detect :: "string \<Rightarrow> 'm option"

definition refused :: "('resp, 'm, 'w) cascade_env \<Rightarrow> json \<Rightarrow> bool" where
  "refused c anthropic \<longleftrightarrow> response_text anthropic \<noteq> [] \<and> ce_detect c (response_text anthropic) \<noteq> None"

record cascade_log =
  cg_trail :: "ident list"
  cg_calls :: "(ident \<times> call_request) list"

text \<open>An attempt that fails, cannot be converted or refuses again goes on; no route ends the loop.\<close>

fun cascade_loop ::
  "('resp, 'm, 'w) cascade_env \<Rightarrow> cascade_key \<Rightarrow> lmrh_hint option \<Rightarrow> bool \<Rightarrow> (route_result \<Rightarrow> call_request) \<Rightarrow> nat \<Rightarrow> cascade_log \<Rightarrow>
   router_env \<times> 'w \<Rightarrow> (route_result \<times> 'resp \<times> json) option \<times> cascade_log \<times> router_env \<times> 'w" where
  "cascade_loop c k hint images dispatch 0 l world = (None, l, world)"
| "cascade_loop c k hint images dispatch (Suc n) l (env, w) =
     (case select_provider env (cascade_request k hint images (cg_trail l)) of
        (Inr (Route r), env1) \<Rightarrow>
          let i = pid (rt_provider r); q = dispatch r;
              l' = \<lparr>cg_trail = cg_trail l @ [i], cg_calls = cg_calls l @ [(i, q)]\<rparr>
          in (case ce_call c q (env1, w) of
                (Inl e, world1) \<Rightarrow> cascade_loop c k hint images dispatch n l' world1
              | (Inr resp, world1) \<Rightarrow>
                  (case ce_convert c resp of
                     Inl e \<Rightarrow> cascade_loop c k hint images dispatch n l' world1
                   | Inr a \<Rightarrow> if refused c a then cascade_loop c k hint images dispatch n l' world1 else (Some (r, resp, a), l', world1)))
      | (_, env1) \<Rightarrow> (None, l, env1, w))"

record ('resp) cascade_result =
  cr_swapped :: bool
  cr_route :: route_result
  cr_response :: 'resp
  cr_anthropic :: json
  cr_attempts :: nat
  cr_exhausted :: bool
  cr_attempted :: "ident list"
  cr_headers :: "(string \<times> string) list"

definition no_cascade :: "route_result \<Rightarrow> 'resp \<Rightarrow> json \<Rightarrow> 'resp cascade_result" where
  "no_cascade r0 resp0 a0 =
     \<lparr>cr_swapped = False, cr_route = r0, cr_response = resp0, cr_anthropic = a0, cr_attempts = 0, cr_exhausted = False,
      cr_attempted = [pid (rt_provider r0)], cr_headers = []\<rparr>"

definition maybe_cascade_on_refusal ::
  "('resp, 'm, 'w) cascade_env \<Rightarrow> cascade_key \<Rightarrow> lmrh_hint option \<Rightarrow> bool \<Rightarrow> (route_result \<Rightarrow> call_request) \<Rightarrow> route_result \<Rightarrow> 'resp \<Rightarrow> json \<Rightarrow>
   router_env \<times> 'w \<Rightarrow> 'resp cascade_result \<times> (ident \<times> call_request) list \<times> router_env \<times> 'w" where
  "maybe_cascade_on_refusal c k hint images dispatch r0 resp0 a0 world =
     (if \<not> ck_retry_enabled k \<or> \<not> refused c a0 then (no_cascade r0 resp0 a0, [], world)
      else let (found, l, world') = cascade_loop c k hint images dispatch (nat (max_attempts_of k))
                 \<lparr>cg_trail = [pid (rt_provider r0)], cg_calls = []\<rparr> world;
               (r, resp, a) = (case found of Some x \<Rightarrow> x | None \<Rightarrow> (r0, resp0, a0));
               n = length (cg_trail l) - 1
           in (\<lparr>cr_swapped = (found \<noteq> None), cr_route = r, cr_response = resp, cr_anthropic = a, cr_attempts = n,
                 cr_exhausted = (found = None), cr_attempted = cg_trail l,
                 cr_headers = [(''X-Refusal-Retry-Attempted'', str_int (int n)),
                   (''X-Refusal-Retry-Provider'', pid (rt_provider r)),
                   (''X-Refusal-Chain-Exhausted'', if found = None then ''true'' else ''false'')]\<rparr>, cg_calls l, world'))"

section \<open>What the cascade guarantees\<close>

definition cascade_log_ok :: "(route_result \<Rightarrow> call_request) \<Rightarrow> ident \<Rightarrow> cascade_log \<Rightarrow> bool" where
  "cascade_log_ok dispatch i0 l \<longleftrightarrow> distinct (cg_trail l) \<and> cg_trail l \<noteq> [] \<and> hd (cg_trail l) = i0 \<and> map fst (cg_calls l) = tl (cg_trail l) \<and>
     (\<forall>(i, q) \<in> set (cg_calls l). \<exists>r. pid (rt_provider r) = i \<and> q = dispatch r)"

lemma cascade_log_ok_step:
  assumes "cascade_log_ok dispatch i0 l" and "pid (rt_provider r) \<notin> set (cg_trail l)"
  shows "cascade_log_ok dispatch i0 \<lparr>cg_trail = cg_trail l @ [pid (rt_provider r)], cg_calls = cg_calls l @ [(pid (rt_provider r), dispatch r)]\<rparr>"
  using assms by (auto simp: cascade_log_ok_def)

lemma cascade_loop_ok:
  assumes "cascade_loop c k hint images dispatch n l world = (found, l', world')" and "cascade_log_ok dispatch i0 l"
  shows "cascade_log_ok dispatch i0 l' \<and> length (cg_trail l') \<le> length (cg_trail l) + n \<and>
    (\<forall>r resp a. found = Some (r, resp, a) \<longrightarrow> \<not> refused c a \<and> last (cg_trail l') = pid (rt_provider r) \<and>
       length (cg_trail l) < length (cg_trail l') \<and> ce_convert c resp = Inr a)"
  using assms
proof (induction c k hint images dispatch n l world rule: cascade_loop.induct)
  case (1 c k hint images dispatch l world)
  then show ?case by simp
next
  case (2 c k hint images dispatch n l env w)
  obtain sel env1 where sel: "select_provider env (cascade_request k hint images (cg_trail l)) = (sel, env1)" by fastforce
  show ?case
  proof (cases "\<exists>r. sel = Inr (Route r)")
    case False
    with 2(4,5) sel show ?thesis by (auto split: sum.splits selection.splits)
  next
    case True
    then obtain r where r: "sel = Inr (Route r)" by blast
    let ?i = "pid (rt_provider r)"
    let ?l = "\<lparr>cg_trail = cg_trail l @ [?i], cg_calls = cg_calls l @ [(?i, dispatch r)]\<rparr>"
    have "?i \<notin> set (cg_trail l)"
      using route_candidate(2) [OF sel [unfolded r]] by (simp add: passes_before_def cascade_request_def)
    from cascade_log_ok_step [OF 2(5) this] have ok: "cascade_log_ok dispatch i0 ?l" .
    obtain out world1 where call: "ce_call c (dispatch r) (env1, w) = (out, world1)" by (cases "ce_call c (dispatch r) (env1, w)") blast
    note IH = 2(1-3) [OF sel [symmetric] r refl refl refl refl call [symmetric]]
    show ?thesis
    proof (cases out)
      case (Inl e)
      with IH(1) [OF Inl _ ok] 2(4) sel r call show ?thesis by (auto simp: Let_def)
    next
      case (Inr resp)
      show ?thesis
      proof (cases "ce_convert c resp")
        case conv: (Inl e)
        with IH(2) [OF Inr conv _ ok] 2(4) sel r call Inr show ?thesis by (auto simp: Let_def)
      next
        case conv: (Inr a)
        with IH(3) [OF Inr conv _ _ ok] 2(4) sel r call Inr ok show ?thesis by (cases "refused c a") (auto simp: Let_def)
      qed
    qed
  qed
qed

lemma trail_calls:
  assumes "cascade_log_ok dispatch i0 l"
  shows "cg_trail l = i0 # map fst (cg_calls l)" "distinct (cg_trail l)" "i0 \<notin> set (map fst (cg_calls l))"
proof -
  show 1: "cg_trail l = i0 # map fst (cg_calls l)" "distinct (cg_trail l)"
    using assms unfolding cascade_log_ok_def by (metis list.collapse)+
  then show "i0 \<notin> set (map fst (cg_calls l))" by (metis distinct.simps(2))
qed

text \<open>The limit of a key's row is never in force: the record the cascade reads does not carry it.\<close>

lemma limit_never_read: "max_attempts_of (cascade_key_of row) = 3"
  by (simp add: max_attempts_of_def cascade_key_of_def key_record_of_def RECORD_FIELDS_def py_getattr_def as_budget_def
      DEFAULT_MAX_ATTEMPTS_def Let_def)

text \<open>C30. The cascade is bounded and honest: it asks no provider twice, never the one that refused first, at most
  three whatever limit the key's row has, and reports exactly the providers it asked. A response it swaps in is not a
  refusal and comes from the last provider asked; otherwise the caller gets the first response. Without the key's
  opt-in, or when the first response is no refusal, nobody is asked.\<close>

theorem cascade_sound:
  fixes row
  assumes "maybe_cascade_on_refusal c (cascade_key_of row) hint images dispatch r0 resp0 a0 world = (res, calls, world')"
  shows "distinct (cr_attempted res) \<and> cr_attempted res = pid (rt_provider r0) # map fst calls \<and> cr_attempts res = length calls \<and>
    length calls \<le> 3 \<and> (\<not> json_truthy (row ''refusal_retry_enabled'') \<or> \<not> refused c a0 \<longrightarrow> calls = []) \<and>
    (cr_swapped res \<longrightarrow> \<not> refused c (cr_anthropic res) \<and> ce_convert c (cr_response res) = Inr (cr_anthropic res) \<and> calls \<noteq> [] \<and>
       fst (last calls) = pid (rt_provider (cr_route res)) \<and> pid (rt_provider (cr_route res)) \<noteq> pid (rt_provider r0)) \<and>
    (\<not> cr_swapped res \<longrightarrow> cr_route res = r0 \<and> cr_response res = resp0 \<and> cr_anthropic res = a0)"
proof (cases "ck_retry_enabled (cascade_key_of row) \<and> refused c a0")
  case False
  with assms show ?thesis by (auto simp: maybe_cascade_on_refusal_def no_cascade_def)
next
  case True
  define k where "k = cascade_key_of row"
  have on: "json_truthy (row ''refusal_retry_enabled'')"
    using True by (simp add: cascade_key_of_def key_record_of_def RECORD_FIELDS_def py_getattr_def Let_def)
  note assms = assms [folded k_def] and True = True [folded k_def]
  let ?l0 = "\<lparr>cg_trail = [pid (rt_provider r0)], cg_calls = []\<rparr>"
  obtain found l w where loop: "cascade_loop c k hint images dispatch (nat (max_attempts_of k)) ?l0 world = (found, l, w)"
    by (cases "cascade_loop c k hint images dispatch (nat (max_attempts_of k)) ?l0 world") blast
  have "cascade_log_ok dispatch (pid (rt_provider r0)) ?l0" by (simp add: cascade_log_ok_def)
  note ok = cascade_loop_ok [OF loop this]
  then have "cascade_log_ok dispatch (pid (rt_provider r0)) l" by blast
  note trail = trail_calls [OF this]
  have len: "length (cg_calls l) = length (cg_trail l) - 1" using trail(1) by simp
  have bound: "length (cg_calls l) \<le> 3" using ok trail(1) by (simp add: k_def limit_never_read)
  show ?thesis
  proof (cases found)
    case None
    have "\<not> cr_swapped res" "cr_route res = r0" "cr_response res = resp0" "cr_anthropic res = a0" "cr_attempted res = cg_trail l"
      "cr_attempts res = length (cg_calls l)" "calls = cg_calls l"
      using assms True loop None len by (auto simp: maybe_cascade_on_refusal_def Let_def)
    with trail bound on True show ?thesis by simp
  next
    case (Some x)
    obtain r resp a where x: "x = (r, resp, a)" by (cases x)
    have res: "cr_swapped res" "cr_route res = r" "cr_response res = resp" "cr_anthropic res = a" "cr_attempted res = cg_trail l"
      "cr_attempts res = length (cg_calls l)" "calls = cg_calls l"
      using assms True loop Some x len by (auto simp: maybe_cascade_on_refusal_def Let_def)
    have sw: "\<not> refused c a" "last (cg_trail l) = pid (rt_provider r)" "1 < length (cg_trail l)" "ce_convert c resp = Inr a"
      using ok Some x by auto
    have ne: "cg_calls l \<noteq> []" using sw(3) trail(1) by auto
    then have "fst (last (cg_calls l)) = pid (rt_provider r)" using sw(2) trail(1) by (simp add: last_map)
    moreover have "last (map fst (cg_calls l)) \<in> set (map fst (cg_calls l))" using ne by (intro last_in_set) simp
    then have "pid (rt_provider r) \<noteq> pid (rt_provider r0)" using trail(1,3) sw(2) ne by (metis last_ConsR list.map_disc_iff)
    ultimately show ?thesis using trail bound res sw ne on True by simp
  qed
qed

section \<open>Credentials\<close>

lemma route_kwargs:
  assumes "select_provider env rq = (Inr (Route r), env')"
  shows "litellm_kwargs r = build_litellm_kwargs (rt_provider r)"
    and "\<exists>cfg ty m. rt_native_thinking_params r = [] \<or> rt_native_thinking_params r = native_thinking_params cfg ty m"
proof -
  from assms obtain avail cross ranked b where "choose_route env rq avail cross ranked = Inr (Route r)" by (rule select_Inr)
  then obtain fit p where "r = build_route env rq cross (fit_skipped rq ranked) (pick_route env rq fit) p"
    by (auto simp: choose_route_eq bind_result_Inr map_result_Inr split: if_splits)
  then show "litellm_kwargs r = build_litellm_kwargs (rt_provider r)"
    "\<exists>cfg ty m. rt_native_thinking_params r = [] \<or> rt_native_thinking_params r = native_thinking_params cfg ty m"
    by (auto simp: build_route_def cheapest_route_def finish_route_def Let_def)
qed

lemma clamp_keeps: "k \<noteq> ''thinking'' \<Longrightarrow> kw_get (clamp_thinking_budget e) k = kw_get e k"
  by (auto simp: clamp_thinking_budget_def split: kwval.splits option.splits)

lemma extra_keeps_key:
  assumes "\<exists>cfg ty m. rt_native_thinking_params r = [] \<or> rt_native_thinking_params r = native_thinking_params cfg ty m"
  shows "kw_get (build_extra r n th beta) ''api_key'' = kw_get (litellm_kwargs r) ''api_key''"
proof -
  have "kw_get (fold (\<lambda>(k, v). kw_set k v) (rt_native_thinking_params r) e) ''api_key'' = kw_get e ''api_key''" for e
    using assms by (auto simp: native_thinking_params_def Let_def)
  then show ?thesis by (simp add: build_extra_def Let_def clamp_keeps split: option.split)
qed

text \<open>C34. Every call of the cascade carries the credentials of the provider that refused: the arguments are
  those built for the first route, so another provider is called with the first one's API key.\<close>

theorem cascade_uses_first_credentials:
  assumes "select_provider env rq = (Inr (Route r0), env')" and "api_key (rt_provider r0) = Some key" "key \<noteq> []"
    and "maybe_cascade_on_refusal c k hint images (cascade_dispatch (build_extra r0 n thinking beta) system tools) r0 resp0 a0 world =
      (res, calls, world')" and "(i, q) \<in> set calls"
  shows "i \<noteq> pid (rt_provider r0) \<and> kw_get (cq_kwargs q) ''api_key'' = KStr key"
proof -
  let ?d = "cascade_dispatch (build_extra r0 n thinking beta) system tools"
  let ?l0 = "\<lparr>cg_trail = [pid (rt_provider r0)], cg_calls = []\<rparr>"
  obtain found l w where loop: "cascade_loop c k hint images ?d (nat (max_attempts_of k)) ?l0 world = (found, l, w)"
    by (cases "cascade_loop c k hint images ?d (nat (max_attempts_of k)) ?l0 world") blast
  have calls: "calls = cg_calls l" using assms(4,5) loop by (auto simp: maybe_cascade_on_refusal_def Let_def split: if_splits prod.splits)
  have "cascade_log_ok ?d (pid (rt_provider r0)) ?l0" by (simp add: cascade_log_ok_def)
  from cascade_loop_ok [OF loop this] have ok: "cascade_log_ok ?d (pid (rt_provider r0)) l" by blast
  have "i \<in> set (map fst (cg_calls l))" using assms(5) calls by force
  then have i: "i \<noteq> pid (rt_provider r0)" using trail_calls(3) [OF ok] by metis
  obtain r where "q = ?d r" using ok assms(5) calls by (fastforce simp: cascade_log_ok_def)
  then have "kw_get (cq_kwargs q) ''api_key'' = kw_get (build_litellm_kwargs (rt_provider r0)) ''api_key''"
    using extra_keeps_key [OF route_kwargs(2) [OF assms(1)]] route_kwargs(1) [OF assms(1)] by (simp add: cascade_dispatch_def)
  with i assms(2,3) show ?thesis by (simp add: build_litellm_kwargs_def kw_get_def)
qed

text \<open>Were it read, a limit of zero attempts, documented to switch the cascade off, would mean the default of three.\<close>

lemma zero_attempts_means_three: "ck_max_attempts k = Some 0 \<Longrightarrow> max_attempts_of k = 3"
  by (simp add: max_attempts_of_def DEFAULT_MAX_ATTEMPTS_def)

section \<open>A concrete cascade\<close>

definition two_keys :: router_env where
  "two_keys = demo_env
     \<lparr>providers := [(new_provider ''a'' ''A'' ''openai'' (Some ''gpt-4o'') 1) \<lparr>api_key := Some ''key-a''\<rparr>,
        (new_provider ''b'' ''B'' ''openai'' (Some ''gpt-4o'') 20) \<lparr>api_key := Some ''key-b''\<rparr>]\<rparr>"

definition demo_response :: "string \<Rightarrow> json" where
  "demo_response t = JObj [(''content'', JList [JObj [(''type'', JStr ''text''), (''text'', JStr t)]])]"

definition demo_cascade :: "(json, unit, unit) cascade_env" where
  "demo_cascade = \<lparr>ce_call = (\<lambda>q world. (Inr (demo_response ''done''), world)), ce_convert = Inr,
     ce_detect = (\<lambda>t. if prefix ''REFUSED:'' t then Some () else None)\<rparr>"

text \<open>The row asks for one attempt; the record does not say so.\<close>

definition demo_row :: key_columns where
  "demo_row = (\<lambda>_. JNull)(''id'' := JStr ''k'', ''key_type'' := JStr ''standard'', ''refusal_retry_enabled'' := JBool True,
     ''refusal_retry_max_attempts'' := JNum 1)"

definition first_route :: route_result where
  "first_route = (case fst (select_provider two_keys new_request) of Inr (Route r) \<Rightarrow> r | _ \<Rightarrow> undefined)"

lemma first_selected: "\<exists>env'. select_provider two_keys new_request = (Inr (Route first_route), env')"
proof -
  have "case fst (select_provider two_keys new_request) of Inr (Route r) \<Rightarrow> True | _ \<Rightarrow> False" by code_simp
  then show ?thesis
    by (cases "select_provider two_keys new_request") (auto simp: first_route_def split: sum.splits selection.splits)
qed

theorem cascade_sound_witness:
  "cr_attempted (fst (maybe_cascade_on_refusal demo_cascade (cascade_key_of demo_row) None False (cascade_dispatch [] JNull []) first_route
     (demo_response ''REFUSED: no'') (demo_response ''REFUSED: no'') (two_keys, ()))) = [''a'', ''b'']"
proof -
  let ?run = "maybe_cascade_on_refusal demo_cascade (cascade_key_of demo_row) None False (cascade_dispatch [] JNull []) first_route
     (demo_response ''REFUSED: no'') (demo_response ''REFUSED: no'') (two_keys, ())"
  obtain res calls w where r: "?run = (res, calls, w)" by (cases ?run)
  have "map fst (fst (snd ?run)) = [''b'']" "pid (rt_provider first_route) = ''a''" by code_simp+
  with cascade_sound [OF r] r show ?thesis by simp
qed

theorem cascade_uses_first_credentials_witness:
  "\<exists>q. (''b'', q) \<in> set (fst (snd (maybe_cascade_on_refusal demo_cascade (cascade_key_of demo_row) None False
       (cascade_dispatch (build_extra first_route 100 None None) JNull []) first_route
       (demo_response ''REFUSED: no'') (demo_response ''REFUSED: no'') (two_keys, ())))) \<and>
     kw_get (cq_kwargs q) ''api_key'' = KStr ''key-a''"
proof -
  let ?run = "maybe_cascade_on_refusal demo_cascade (cascade_key_of demo_row) None False
       (cascade_dispatch (build_extra first_route 100 None None) JNull []) first_route
       (demo_response ''REFUSED: no'') (demo_response ''REFUSED: no'') (two_keys, ())"
  obtain res calls w where r: "?run = (res, calls, w)" by (cases ?run)
  obtain env' where sel: "select_provider two_keys new_request = (Inr (Route first_route), env')" using first_selected by blast
  have key: "api_key (rt_provider first_route) = Some ''key-a''" by code_simp
  have "map fst (fst (snd ?run)) = [''b'']" by code_simp
  then obtain q where q: "(''b'', q) \<in> set calls" using r by (cases calls) auto
  from cascade_uses_first_credentials [OF sel key _ r q] q r show ?thesis by auto
qed

end
