(* ===== verification/Spec2Isabelle.thy ===== *)
theory Spec2Isabelle
  imports Error_Classes Routing Retry Run_Create Login_Throttle Cluster_Convergence Catalog_Sync Audit_Chain Run_Compaction Run_Replication Event_Bus Request_Gates Key_Policy Cluster_Auth Chat_Stream Codex_Translate Sse_Guard Refusal_Cascade
begin

text \<open>
  \<^bold>\<open>Verification of llm-proxy-manager.\<close>

  \<^bold>\<open>The program.\<close> The proxy accepts requests for language models, chooses one of the configured
  providers for each, calls it with retries and fallbacks, drives agent runs of several turns, and
  keeps several nodes in step by exchanging their tables. A request goes through the authentication
  of its API key, then through \<open>select_provider\<close>, which combines the provider table, the
  circuit breaker, the hints of the caller (the LMRH header), the compliance policy and reported
  usage; failures flow back into the breaker. A run is a row with a state machine that a worker and
  a few endpoints advance; the worker calls the same router. Every node pushes its rows to the others,
  which merge them row by row. A daily worker closes the compliance audit trail with a hash chain.
  Where caller and provider speak different protocols, messages, tools, responses and streams are translated;
  a stream is held back until it has content, and a refused request is offered to other providers.

  \<^bold>\<open>Theories and sources\<close> (paths below \<^verbatim>\<open>src/app\<close>).
  \<^item> \<open>Prelude\<close>, \<open>Provider\<close>: Python's string operations and truthiness, results of code that
    raises, shared list lemmas; the settings of \<^verbatim>\<open>config.py\<close>, JSON values and the provider row of
    \<^verbatim>\<open>models/db_provider.py\<close>.
  \<^item> \<open>Stages\<close>, \<open>Ttl_Cache\<close>, \<open>Cluster_Merge\<close>: the interfaces, as locales. Guards, soft stages and
    reorderings of a candidate list; a cache with a lifetime; a table merged row by row and its
    special case with timestamps. Two further locales stand next to their instances, the sliding
    window in \<open>Rate_Limits\<close> and the replay cache in \<open>Run_Create\<close>.
  \<^item> \<open>Circuit_Breaker\<close>, \<open>Error_Classes\<close>: \<^verbatim>\<open>routing/circuit_breaker.py\<close> with its module dictionaries as the
    record \<open>breaker\<close>, the error taxonomy, and \<open>record_outcome\<close> of \<^verbatim>\<open>monitoring/helpers.py\<close>.
  \<^item> \<open>Lmrh_Types\<close>, \<open>Lmrh_Parse\<close>, \<open>Lmrh_Score\<close>, \<open>Lmrh_Headers\<close>: \<^verbatim>\<open>routing/lmrh/\<close>, one theory per file.
  \<^item> \<open>Model_Names\<close>, \<open>Litellm_Binding\<close>: \<^verbatim>\<open>routing/model_slug.py\<close>, \<^verbatim>\<open>canonical.py\<close>, \<^verbatim>\<open>aliases.py\<close>,
    \<^verbatim>\<open>capability_inference.py\<close> and \<^verbatim>\<open>litellm_binding.py\<close>.
  \<^item> \<open>External_Rotation\<close>, \<open>Node_Auth\<close>, \<open>Hedging\<close>: the files of these names in \<^verbatim>\<open>routing/\<close>.
  \<^item> \<open>Compliance\<close>: \<^verbatim>\<open>compliance/company_map.py\<close> and \<^verbatim>\<open>compliance/policy.py\<close>.
  \<^item> \<open>Router\<close>, \<open>Routing\<close>: \<^verbatim>\<open>routing/router.py\<close>; the first holds the stages and \<open>select_provider\<close> over the
    record \<open>router_env\<close>, the second its properties.
  \<^item> \<open>Fallback\<close>, \<open>Retry\<close>: \<^verbatim>\<open>routing/fallback.py\<close>, \<^verbatim>\<open>routing/retry.py\<close>, \<^verbatim>\<open>providers/deprecations.py\<close> and the
    message shape of \<^verbatim>\<open>providers/cursor_oauth.py\<close>.
  \<^item> \<open>Bool_Setting\<close>: \<^verbatim>\<open>monitoring/_bool_system_setting.py\<close> and the two switches built on it.
  \<^item> \<open>Json_Access\<close>, \<open>Chat_Translate\<close>, \<open>Chat_Stream\<close>, \<open>Codex_Translate\<close>: reading of untyped JSON with the exceptions
    Python raises; \<^verbatim>\<open>api/_oauth_chat_translate.py\<close> and \<^verbatim>\<open>providers/codex_translate.py\<close>.
  \<^item> \<open>Sse_Guard\<close>, \<open>Refusal_Cascade\<close>: \<^verbatim>\<open>api/_sse_guard.py\<close>, \<^verbatim>\<open>api/_refusal_cascade.py\<close> with its call in
    \<^verbatim>\<open>api/_messages_nonstream_dispatch.py\<close> and the arguments of the first call in \<^verbatim>\<open>api/messages.py\<close>.
  \<^item> \<open>Run_State\<close>, \<open>Run_Worker\<close>, \<open>Run_Calls\<close>, \<open>Run_Compaction\<close>, \<open>Run_Create\<close>: \<^verbatim>\<open>runs/state.py\<close>, \<^verbatim>\<open>runs/worker.py\<close>,
    \<^verbatim>\<open>runs/tools.py\<close>, \<^verbatim>\<open>runs/compaction.py\<close>, \<^verbatim>\<open>runs/tokens.py\<close>, \<^verbatim>\<open>runs/idempotency.py\<close> and the endpoints of \<^verbatim>\<open>api/runs.py\<close>.
  \<^item> \<open>Event_Bus\<close>, \<open>Run_Replication\<close>: \<^verbatim>\<open>runs/event_bus.py\<close> with the live branch of \<open>get_events\<close> in \<^verbatim>\<open>api/runs.py\<close>, and
    \<^verbatim>\<open>runs/replication.py\<close>.
  \<^item> \<open>Request_Gates\<close>, \<open>Key_Policy\<close>, \<open>Cluster_Auth\<close>: \<^verbatim>\<open>middleware/\<close>; \<^verbatim>\<open>mcp_server/policy.py\<close> with the gates of
    \<^verbatim>\<open>mcp_server/server.py\<close>, \<^verbatim>\<open>integration/self_update.py\<close>, \<^verbatim>\<open>auth/rbac.py\<close>; \<^verbatim>\<open>cluster/auth.py\<close>, \<^verbatim>\<open>auth/cluster_hmac.py\<close>.
  \<^item> \<open>Rate_Limits\<close>, \<open>Api_Keys\<close>, \<open>Login_Throttle\<close>: \<^verbatim>\<open>auth/\<close>, \<^verbatim>\<open>runs/rate_limit.py\<close>, \<^verbatim>\<open>budget/tracker.py\<close> and
    deletion and restoration of \<^verbatim>\<open>api/apikeys.py\<close>.
  \<^item> \<open>Cluster_Sync\<close>, \<open>Catalog_Sync\<close>, \<open>Apply_Sync\<close>, \<open>Cluster_Convergence\<close>: \<^verbatim>\<open>cluster/sync.py\<close>, \<^verbatim>\<open>cluster/sync_handlers.py\<close>,
    the serialisation of the catalog tables in \<^verbatim>\<open>cluster/manager.py\<close>, the schema of \<^verbatim>\<open>config_runtime.py\<close>,
    and what the merges guarantee.
  \<^item> \<open>Audit_Chain\<close>: \<^verbatim>\<open>compliance/audit.py\<close> and \<^verbatim>\<open>monitoring/compliance_audit_worker.py\<close>.

  \<^bold>\<open>How the code is modelled.\<close> A table is a list of rows, a query a function of it. An operation
  returns the updated state; an exception is the left part of a sum or a constructor of the
  component's error type. The clock reading of an operation is an argument, a float an exact
  rational. Parameters stand for code outside the repository or outside the state: the hash functions,
  the JSON library, the structured-header parser, the pricing catalogue, the upstream call, random
  numbers, the iteration order of sets, the patterns that recognise a refusal, litellm's token counter, the
  call that writes a summary, the keyed hash, the answers of peers, and whether a commit succeeds.

  \<^bold>\<open>What the lemmas show.\<close>
  \<^item> Breaker: the invariant of its counters, gauge and failure records in every reachable state, and
    exactly when a provider is available.
  \<^item> Hints: printing and parsing are inverse on the legacy syntax; the ranking drops exactly the
    candidates that fail a hard requirement. What a requirement asks is stated from the LMRH documents of the
    repository (\<open>honours\<close>); where the scorer asks less or more, \<open>waived\<close> and \<open>overruled\<close> say so.
  \<^item> Routing: a route satisfies every exclusion, pin, tenant and policy condition of its request, exists
    when a candidate passes them, meets the hard hints up to the scorer's waivers, and is best among the
    ranked by the order of the sort mode.
  \<^item> Fallback and retries: bounded, no provider twice, the search for a next candidate ends; two of the
    three provider types litellm cannot call are skipped.
  \<^item> Runs: the state machine's invariant and termination; the worker refines it; a serial run keeps its
    row well formed; creation keeps ids unique and replays duplicates; a model call asks at most
    eight providers; compaction replaces all but the system messages and the last eight by one summary and
    separates no tool result from its call. Interleavings that break these: a cancellation during a model call is lost, and two
    failing providers keep a third from being asked.
  \<^item> Translation: a translated conversation answers every tool call in place and has no empty message but those of blank assistant turns; in
    normal form it survives the way there and back, as do the tools. A stream translates the same
    however it is cut into pieces and always has one start, one finish and announced tool calls. The
    guard tries each provider once, records every empty stream with the breaker, serves only streams with content
    or 64 frames and loses no frame. The cascade asks at most three providers, whatever limit the key has, and swaps in only
    answers that are no refusal, but calls every provider with the first one's key.
  \<^item> Event streams and replication: a client sees events in order and none twice in every interleaving, and all
    of them when nothing is published during its replay; an event published then is lost, and the stream of
    a cancelled run never ends. Delayed pushes do not undo the end of a run on a peer.
  \<^item> Gates: a locked key is confined to its paths unless a second header lifts the lock; a blocked address is
    refused within thirty seconds; listed tools are the callable ones, but the policy of a key is never
    loaded; a key cannot raise its own privileges; signatures fail closed.
  \<^item> Admission: a key is accepted only while enabled, undeleted and within its budgets; the window bounds
    admissions per minute; waiting for a slot ends; a lockout ends.
  \<^item> Cluster: tables with timestamps converge in every order of delivery, a payload received twice
    changes nothing but provider rows, a deleted key stays deleted on a node that holds it, priorities
    become distinct; tables without timestamps swap their versions for ever, and a node forgets the deletion
    of a key it does not hold.
  \<^item> Audit: the hash of a day commits to the hashed columns of every earlier day of the chain, and to no
    other column.

  \<^bold>\<open>Bounds and hypotheses.\<close> Waiting for a rate-limit slot is a recursion on fuel 3, proved to be enough;
  the search for the next fallback has one step more than there are providers and never runs out; a
  model call makes eight attempts as the source does. A client's queue holds 2000 events, which bounds what may
  be published while it does not read. The commitment of the chain assumes that hashes have
  64 characters and that the hash has no collision among the inputs of the two histories
  compared. Convergence assumes that no two rows of a key carry the same timestamp, and that login states and
  runs carry one. That a payload received again changes nothing assumes that it names no row twice.

  \<^bold>\<open>Not modelled.\<close> The request handlers (\<^verbatim>\<open>api/messages.py\<close>, \<^verbatim>\<open>api/completions.py\<close>, \<^verbatim>\<open>main.py\<close>): HTTP glue
  around the operations above. The Grok bridge and the upstream adapters: clients of
  remote services. Chain-of-thought emulation and conversation memory: prompts and summaries
  written by a model. Monitoring export, the web frontend and peer discovery. Creation and editing of keys.
\<close>

end
